(* ===== verification/Prelude.thy ===== *)
theory Prelude
  imports Main "HOL-Library.Word"
begin

section \<open>Prelude: shared types, collections and lemmas\<close>

text \<open>
  The types every component shares, the named collections its proofs use, and the generic lemmas on
  lists, machine words and state machines. \<open>wchar_t\<close> is a 16-bit code unit on Windows, so a
  \<open>std::wstring\<close> is a list of 16-bit words; \<open>std::uint64_t\<close> and \<open>std::uint32_t\<close> are words that
  wrap around; a raw pointer is a 64-bit word whose value 0 is null.
\<close>

type_synonym wchar = "16 word"
type_synonym wstring = "wchar list"
type_synonym u32 = "32 word"
type_synonym u64 = "64 word"
type_synonym ptr = "64 word"

named_theorems frame \<open>what an operation leaves unchanged\<close>
named_theorems inv_intros \<open>an operation keeps a component's invariant\<close>

subsection \<open>Wide string literals\<close>

text \<open>A wide literal \<open>L"..."\<close> of the source, all of whose characters are ASCII.\<close>

definition L :: "string \<Rightarrow> wstring" where
  "L cs = map (\<lambda>c. of_nat (of_char c)) cs"

lemma length_L [simp]: "length (L cs) = length cs"
  by (simp add: L_def)

lemma L_Nil [simp]: "L [] = []"
  by (simp add: L_def)

subsection \<open>Words\<close>

lemma word_succ_neq [simp]: "(w :: 64 word) + 1 \<noteq> w"
  by simp

lemma word64_plus_of_nat_eq_iff:
  fixes e :: u64
  assumes "n < 2 ^ 64"
  shows "e + of_nat n = e \<longleftrightarrow> n = 0"
proof -
  have "e + of_nat n = e \<longleftrightarrow> (of_nat n :: u64) = 0"
    by (metis add_cancel_right_right)
  also have "\<dots> \<longleftrightarrow> n = 0"
    using assms by (auto simp: word_of_nat_eq_0_iff dest: nat_dvd_not_less)
  finally show ?thesis .
qed

subsection \<open>Lists\<close>

lemma filter_upt_Nil_iff:
  "filter (\<lambda>i. P (xs ! i)) [0..<length xs] = [] \<longleftrightarrow> (\<forall>x \<in> set xs. \<not> P x)"
  by (auto simp: filter_empty_conv all_set_conv_all_nth)

subsection \<open>Guarded state machines\<close>

text \<open>
  Several components are state machines: a start predicate, a step function over events, and a guard
  that says which events the environment can deliver in a state (a callback carries a non-null
  pointer, a timer carries the epoch it was armed with). A state is reachable when a sequence of
  enabled events leads to it from a start state; \<open>admissible\<close> is the executable form on a list.
\<close>

inductive reachable :: "('s \<Rightarrow> bool) \<Rightarrow> ('s \<Rightarrow> 'e \<Rightarrow> 's) \<Rightarrow> ('s \<Rightarrow> 'e \<Rightarrow> bool) \<Rightarrow> 's \<Rightarrow> bool"
  for start step enabled where
  reach_start: "start s \<Longrightarrow> reachable start step enabled s"
| reach_step: "reachable start step enabled s \<Longrightarrow> enabled s e \<Longrightarrow>
     reachable start step enabled (step s e)"

fun admissible :: "('s \<Rightarrow> 'e \<Rightarrow> 's) \<Rightarrow> ('s \<Rightarrow> 'e \<Rightarrow> bool) \<Rightarrow> 's \<Rightarrow> 'e list \<Rightarrow> bool" where
  "admissible step enabled s [] = True"
| "admissible step enabled s (e # es) = (enabled s e \<and> admissible step enabled (step s e) es)"

lemma reachable_run:
  "reachable start step enabled s \<Longrightarrow> admissible step enabled s es \<Longrightarrow>
     reachable start step enabled (foldl step s es)"
  by (induction es arbitrary: s) (auto intro: reach_step)

text \<open>
  The contract of an inductive invariant: it holds at the start and every enabled event keeps it.
  Each component interprets the locale on its own step function; the lemmas lift the contract to
  reachable states and to runs.
\<close>

locale machine =
  fixes start :: "'s \<Rightarrow> bool"
    and step :: "'s \<Rightarrow> 'e \<Rightarrow> 's"
    and enabled :: "'s \<Rightarrow> 'e \<Rightarrow> bool"
    and inv :: "'s \<Rightarrow> bool"
  assumes start_inv: "start s \<Longrightarrow> inv s"
    and step_inv: "inv s \<Longrightarrow> enabled s e \<Longrightarrow> inv (step s e)"
begin

lemma reachable_inv: "reachable start step enabled s \<Longrightarrow> inv s"
  by (induction rule: reachable.induct) (auto intro: start_inv step_inv)

lemma run_inv: "inv s \<Longrightarrow> admissible step enabled s es \<Longrightarrow> inv (foldl step s es)"
  by (induction es arbitrary: s) (auto intro: step_inv)

end

end
