(* ===== verification/Reconnect_Policy.thy ===== *)
theory Reconnect_Policy
  imports Prelude
begin

section \<open>The reconnect policy\<close>

text \<open>
  \<open>core/ReconnectPolicy\<close>: the pure decision when and whether a lost connection is retried. Attempts
  and seconds are naturals: an attempt is at most \<open>MaxAttempts\<close> and a delay at most twice
  \<open>MaximumRetryDelay\<close> when it is computed, far below the width of \<open>std::size_t\<close> and of the
  duration's representation.
\<close>

datatype ReconnectRequest =
  ConnectionLoss | RequestStartup | RequestResume | UserCancellation | PolicyDisabled

datatype ReconnectDecisionKind = Retry | Defer | UserCancelled | DisabledByPolicy | TerminalFailure

record ReconnectPolicyInput =
  Request :: ReconnectRequest
  CompletedAttempts :: nat
  IsBlocked :: bool

record ReconnectPolicyDecision =
  Kind :: ReconnectDecisionKind
  Attempt :: nat
  DecisionMaxAttempts :: nat
  Delay :: nat

definition MaxAttempts :: nat where "MaxAttempts = 10"
definition InitialRetryDelay :: nat where "InitialRetryDelay = 5"
definition BlockedRetryDelay :: nat where "BlockedRetryDelay = 5"
definition MaximumRetryDelay :: nat where "MaximumRetryDelay = 60"

lemmas reconnect_constants =
  MaxAttempts_def InitialRetryDelay_def BlockedRetryDelay_def MaximumRetryDelay_def

text \<open>The loop of \<open>RetryDelayForAttempt\<close>, with its counter and its accumulated delay.\<close>

function retry_delay_loop :: "nat \<Rightarrow> nat \<Rightarrow> nat \<Rightarrow> nat" where
  "retry_delay_loop previousAttempt attempt delay =
     (if previousAttempt < attempt
      then retry_delay_loop (Suc previousAttempt) attempt (min (delay * 2) MaximumRetryDelay)
      else delay)"
  by pat_completeness auto
termination
  by (relation "measure (\<lambda>(p, a, d). a - p)") auto

declare retry_delay_loop.simps [simp del]

definition RetryDelayForAttempt :: "nat \<Rightarrow> nat" where
  "RetryDelayForAttempt attempt = retry_delay_loop 1 attempt InitialRetryDelay"

definition Evaluate :: "ReconnectPolicyInput \<Rightarrow> ReconnectPolicyDecision" where
  "Evaluate input =
     (if Request input = UserCancellation then
        \<lparr>Kind = UserCancelled, Attempt = 0, DecisionMaxAttempts = MaxAttempts, Delay = 0\<rparr>
      else if Request input = PolicyDisabled then
        \<lparr>Kind = DisabledByPolicy, Attempt = 0, DecisionMaxAttempts = MaxAttempts, Delay = 0\<rparr>
      else if CompletedAttempts input \<ge> MaxAttempts then
        \<lparr>Kind = TerminalFailure, Attempt = MaxAttempts, DecisionMaxAttempts = MaxAttempts, Delay = 0\<rparr>
      else
        let attempt = CompletedAttempts input + 1 in
        if IsBlocked input then
          \<lparr>Kind = Defer, Attempt = attempt, DecisionMaxAttempts = MaxAttempts, Delay = BlockedRetryDelay\<rparr>
        else
          \<lparr>Kind = Retry, Attempt = attempt, DecisionMaxAttempts = MaxAttempts,
           Delay = RetryDelayForAttempt attempt\<rparr>)"

subsection \<open>Facts\<close>

lemma min_scale_cap:
  fixes k m x :: nat
  assumes "0 < k"
  shows "min (min x m * k) m = min (x * k) m"
proof (cases "x \<le> m")
  case False
  from assms have "m \<le> m * k" by simp
  moreover from False have "m * k \<le> x * k" by simp
  ultimately have "m \<le> x * k" by (rule order_trans)
  with False \<open>m \<le> m * k\<close> show ?thesis by (simp add: min_absorb2)
qed simp

lemma retry_delay_loop_closed:
  "delay \<le> MaximumRetryDelay \<Longrightarrow>
     retry_delay_loop p a delay = min (delay * 2 ^ (a - p)) MaximumRetryDelay"
proof (induction p a delay rule: retry_delay_loop.induct)
  case (1 p a delay)
  show ?case
  proof (cases "p < a")
    case True
    then have "a - p = Suc (a - Suc p)" by simp
    moreover have "retry_delay_loop (Suc p) a (min (delay * 2) MaximumRetryDelay) =
        min (min (delay * 2) MaximumRetryDelay * 2 ^ (a - Suc p)) MaximumRetryDelay"
      using 1 True by simp
    moreover have "min (min (delay * 2) MaximumRetryDelay * 2 ^ (a - Suc p)) MaximumRetryDelay =
        min (delay * 2 * 2 ^ (a - Suc p)) MaximumRetryDelay"
      by (rule min_scale_cap) simp
    ultimately show ?thesis
      using True by (simp add: retry_delay_loop.simps [of p] algebra_simps)
  next
    case False
    with 1 show ?thesis by (simp add: retry_delay_loop.simps [of p])
  qed
qed

text \<open>The loop doubles from five seconds and saturates at a minute.\<close>

lemma RetryDelayForAttempt_closed:
  "RetryDelayForAttempt a = min (5 * 2 ^ (a - 1)) 60"
  by (simp add: RetryDelayForAttempt_def retry_delay_loop_closed reconnect_constants)

lemma RetryDelayForAttempt_bounds:
  "InitialRetryDelay \<le> RetryDelayForAttempt a \<and> RetryDelayForAttempt a \<le> MaximumRetryDelay"
  by (simp add: RetryDelayForAttempt_closed reconnect_constants)

lemma RetryDelayForAttempt_mono: "a \<le> b \<Longrightarrow> RetryDelayForAttempt a \<le> RetryDelayForAttempt b"
proof -
  assume "a \<le> b"
  then have "(2::nat) ^ (a - 1) \<le> 2 ^ (b - 1)"
    by (intro power_increasing) auto
  then have "5 * (2::nat) ^ (a - 1) \<le> 5 * 2 ^ (b - 1)" by simp
  then have "min (5 * 2 ^ (a - 1)) (60::nat) \<le> min (5 * 2 ^ (b - 1)) 60"
    by (rule min.mono) simp
  then show ?thesis by (simp only: RetryDelayForAttempt_closed)
qed

lemma Evaluate_terminal_iff:
  "Kind (Evaluate input) = TerminalFailure \<longleftrightarrow>
     Request input \<noteq> UserCancellation \<and> Request input \<noteq> PolicyDisabled \<and>
     MaxAttempts \<le> CompletedAttempts input"
  by (simp add: Evaluate_def Let_def)

lemma Evaluate_ConnectionLoss_unblocked:
  "n < MaxAttempts \<Longrightarrow>
     Evaluate \<lparr>Request = ConnectionLoss, CompletedAttempts = n, IsBlocked = False\<rparr> =
       \<lparr>Kind = Retry, Attempt = n + 1, DecisionMaxAttempts = MaxAttempts,
        Delay = RetryDelayForAttempt (n + 1)\<rparr>"
  by (simp add: Evaluate_def)

text \<open>
  (the retry schedule). After \<open>n\<close> completed attempts a lost, unblocked connection is retried after
  5, 10, 20, 40 seconds and then every minute, ten attempts in all; with the tenth the failure is
  terminal. The loop of the source agrees with this closed form for every \<open>n\<close>.
\<close>

theorem reconnect_schedule:
  "Evaluate \<lparr>Request = ConnectionLoss, CompletedAttempts = n, IsBlocked = False\<rparr> =
     (if n < 10
      then \<lparr>Kind = Retry, Attempt = n + 1, DecisionMaxAttempts = 10, Delay = min (5 * 2 ^ n) 60\<rparr>
      else \<lparr>Kind = TerminalFailure, Attempt = 10, DecisionMaxAttempts = 10, Delay = 0\<rparr>)"
  by (simp add: Evaluate_def Let_def RetryDelayForAttempt_closed reconnect_constants)

end
