(* ===== verification/Device_Session.thy ===== *)
theory Device_Session
  imports Reconnect_Policy
begin

section \<open>The device session\<close>

text \<open>
  \<open>core/DeviceSession\<close>: the state machine that owns one Bluetooth audio connection. The record
  \<open>session\<close> is \<open>DeviceSession::State\<close>, field by field. Every method of the source is a function on
  it; the methods that run on the serialized device context are atomic, since the executor queues a
  task posted while another one runs.

  The platform (\<open>DeviceConnectionPlatform\<close>, \<open>DeviceConnection\<close>, \<open>DeviceTimerPlatform\<close>) is not
  part of the session: each call that can fail takes the next answer of \<open>Replies\<close>, an arbitrary
  sequence, and is recorded in \<open>Trace\<close> together with every published fact, so a property can speak
  of what the session did to the platform and in which order. An answer is an exception or a value,
  and the value 0 is the null pointer or the null token. Callbacks come back as events (\<open>session_event\<close>).

  A native object is its address. A timer handle is the callback it was armed with.
\<close>

subsection \<open>Data\<close>

datatype DeviceLifecycleState =
  Idle | Connecting | Connected | Disconnecting | WaitingForReconnect | Failed

datatype DeviceOperationKind =
  ManualConnect | ManualReconnect | AutomaticReconnect | Startup | OpResume | IncomingEnable

datatype DeviceConnectionState = ConnOpened | ConnClosed

datatype DeviceConnectionResult =
  ResultSuccess | ResultTimedOut | ResultDenied | ResultFailed | ResultCancelled

datatype DeviceDisconnectReason =
  ReasonNone | ReasonNormal | ReasonUnexpectedLoss | ReasonDeviceRemoved

datatype CloseContinuation =
  ContIdle | ContReplace | ContRetry | ContTransientOpenRetry | ContSuspend

record DeviceOpenResult =
  OpenResult :: DeviceConnectionResult
  IsTransientFailure :: bool

record DeviceSessionSnapshot =
  SnapDeviceId :: wstring
  SnapDeviceName :: wstring
  SnapState :: DeviceLifecycleState
  SnapOperationEpoch :: u64
  SnapCompletedRetryAttempts :: nat
  SnapHasConnection :: bool
  SnapIsIncomingEnabled :: bool
  SnapIsReconnectEnabled :: bool
  SnapIsReconnectCancelled :: bool

record DeviceSessionFact =
  FactSnapshot :: DeviceSessionSnapshot
  FactOperation :: DeviceOperationKind
  FactResult :: DeviceConnectionResult
  FactIsTerminalFailure :: bool
  FactDisconnectReason :: DeviceDisconnectReason

text \<open>The lambdas handed to \<open>TimerPlatform.Schedule\<close>, with the values they capture.\<close>

datatype timer_callback =
  RetryTimer (RetryTimerEpoch: u64) (RetryOperationEpoch: u64)
| TransientOpenRetryTimer (RetryTimerEpoch: u64) (RetryOperationEpoch: u64)
| CloseTimeoutTimer u64
| CloseCooldownTimer u64

text \<open>What a platform call answers, and what the session does to the outside.\<close>

datatype reply = Throws | Returns ptr

datatype effect =
  EPublish DeviceSessionFact
| ECreate ptr
| EDestroy ptr
| ERegisterStateChanged ptr u64
| ERevokeStateChanged ptr u64
| EStart ptr u64
| EOpen ptr u64
| EClose ptr "u64 option"
| ESchedule nat timer_callback
| ECancelTimer timer_callback

record session =
  DeviceId :: wstring
  DeviceName :: wstring
  PublishFact :: bool
  Connection :: ptr
  ClosingConnection :: ptr
  ReconnectTimer :: "timer_callback option"
  CloseBarrierTimer :: "timer_callback option"
  StateChangedToken :: u64
  OperationEpoch :: u64
  TimerEpoch :: u64
  CloseBarrierEpoch :: u64
  CompletedRetryAttempts :: nat
  TransientOpenRetryAttempts :: nat
  Lifecycle :: DeviceLifecycleState
  CurrentOperation :: DeviceOperationKind
  IsIncomingEnabled :: bool
  IsReconnectEnabled :: bool
  IsReconnectCancelled :: bool
  IsSuspended :: bool
  IsShutdown :: bool
  OpenImmediately :: bool
  RetryEligible :: bool
  RestoreIncomingAfterClose :: bool
  ResumeRequired :: bool
  ResumeOpenImmediately :: bool
  ResumeOperation :: DeviceOperationKind
  ResumeRequested :: bool
  IsSuspendClosePending :: bool
  SuspendCloseEpoch :: u64
  IsCloseInFlight :: bool
  IsCloseCooldown :: bool
  IsCloseContinuationAbandoned :: bool
  PendingCloseContinuation :: CloseContinuation
  PendingCloseFailure :: DeviceConnectionResult
  PendingCloseRetryEligible :: bool
  PendingCloseCompletedAttempt :: bool
  PendingCloseDisconnectReason :: DeviceDisconnectReason
  Replies :: "nat \<Rightarrow> reply"
  Calls :: nat
  Trace :: "effect list"
  Exhausted :: bool

definition CloseBarrierTimeout :: nat where "CloseBarrierTimeout = BlockedRetryDelay * 1000"
definition CloseBarrierCooldown :: nat where "CloseBarrierCooldown = 1500"
definition TransientOpenRetryMaxAttempts :: nat where "TransientOpenRetryMaxAttempts = 10"

definition new_session :: "wstring \<Rightarrow> wstring \<Rightarrow> bool \<Rightarrow> (nat \<Rightarrow> reply) \<Rightarrow> session" where
  "new_session deviceId deviceName sink replies =
     \<lparr>DeviceId = deviceId, DeviceName = deviceName, PublishFact = sink,
      Connection = 0, ClosingConnection = 0, ReconnectTimer = None, CloseBarrierTimer = None,
      StateChangedToken = 0, OperationEpoch = 0, TimerEpoch = 0, CloseBarrierEpoch = 0,
      CompletedRetryAttempts = 0, TransientOpenRetryAttempts = 0,
      Lifecycle = Idle, CurrentOperation = ManualConnect,
      IsIncomingEnabled = False, IsReconnectEnabled = True, IsReconnectCancelled = False,
      IsSuspended = False, IsShutdown = False, OpenImmediately = True, RetryEligible = False,
      RestoreIncomingAfterClose = False, ResumeRequired = False, ResumeOpenImmediately = True,
      ResumeOperation = OpResume, ResumeRequested = False, IsSuspendClosePending = False,
      SuspendCloseEpoch = 0, IsCloseInFlight = False, IsCloseCooldown = False,
      IsCloseContinuationAbandoned = False, PendingCloseContinuation = ContIdle,
      PendingCloseFailure = ResultSuccess, PendingCloseRetryEligible = False,
      PendingCloseCompletedAttempt = False, PendingCloseDisconnectReason = ReasonNone,
      Replies = replies, Calls = 0, Trace = [], Exhausted = False\<rparr>"

subsection \<open>Queries and primitive updates\<close>

definition Snapshot :: "session \<Rightarrow> DeviceSessionSnapshot" where
  "Snapshot s =
     \<lparr>SnapDeviceId = DeviceId s, SnapDeviceName = DeviceName s, SnapState = Lifecycle s,
      SnapOperationEpoch = OperationEpoch s,
      SnapCompletedRetryAttempts = CompletedRetryAttempts s,
      SnapHasConnection = (Connection s \<noteq> 0), SnapIsIncomingEnabled = IsIncomingEnabled s,
      SnapIsReconnectEnabled = IsReconnectEnabled s,
      SnapIsReconnectCancelled = IsReconnectCancelled s\<rparr>"

definition IsBusy :: "session \<Rightarrow> bool" where
  "IsBusy s \<longleftrightarrow> IsCloseInFlight s \<or> Lifecycle s = Connecting \<or> Lifecycle s = Disconnecting \<or>
     Lifecycle s = WaitingForReconnect"

definition IsCurrent :: "u64 \<Rightarrow> session \<Rightarrow> bool" where
  "IsCurrent epoch s \<longleftrightarrow> \<not> IsShutdown s \<and> epoch = OperationEpoch s"

definition IsCurrentConnection :: "u64 \<Rightarrow> ptr \<Rightarrow> session \<Rightarrow> bool" where
  "IsCurrentConnection epoch expectedConnection s \<longleftrightarrow>
     IsCurrent epoch s \<and> Connection s = expectedConnection"

definition Publish ::
  "DeviceConnectionResult \<Rightarrow> bool \<Rightarrow> DeviceDisconnectReason \<Rightarrow> session \<Rightarrow> session" where
  "Publish result terminal disconnectReason s =
     s\<lparr>Trace := Trace s @ (if PublishFact s then
         [EPublish \<lparr>FactSnapshot = Snapshot s, FactOperation = CurrentOperation s,
            FactResult = result, FactIsTerminalFailure = terminal,
            FactDisconnectReason = disconnectReason\<rparr>] else [])\<rparr>"

definition CancelTimer :: "session \<Rightarrow> session" where
  "CancelTimer s =
     s\<lparr>TimerEpoch := TimerEpoch s + 1,
       Trace := Trace s @ (case ReconnectTimer s of None \<Rightarrow> [] | Some t \<Rightarrow> [ECancelTimer t]),
       ReconnectTimer := None\<rparr>"

definition CancelCloseBarrierTimer :: "session \<Rightarrow> session" where
  "CancelCloseBarrierTimer s =
     s\<lparr>Trace := Trace s @ (case CloseBarrierTimer s of None \<Rightarrow> [] | Some t \<Rightarrow> [ECancelTimer t]),
       CloseBarrierTimer := None\<rparr>"

definition RevokeStateChanged :: "session \<Rightarrow> session" where
  "RevokeStateChanged s =
     s\<lparr>Trace := Trace s @ (if Connection s \<noteq> 0 \<and> StateChangedToken s \<noteq> 0
         then [ERevokeStateChanged (Connection s) (StateChangedToken s)] else []),
       StateChangedToken := (if Connection s \<noteq> 0 then 0 else StateChangedToken s)\<rparr>"

text \<open>
  \<open>unique_ptr\<close> destroys what it held when it is reset or assigned; \<open>destroyed\<close> is that effect for
  an address, none for null.
\<close>

definition destroyed :: "ptr \<Rightarrow> effect list" where
  "destroyed p = (if p = 0 then [] else [EDestroy p])"

definition reset_Connection :: "session \<Rightarrow> session" where
  "reset_Connection s = s\<lparr>Trace := Trace s @ destroyed (Connection s), Connection := 0\<rparr>"

definition reset_ClosingConnection :: "session \<Rightarrow> session" where
  "reset_ClosingConnection s =
     s\<lparr>Trace := Trace s @ destroyed (ClosingConnection s), ClosingConnection := 0\<rparr>"

text \<open>One call into the platform: its answer, and the state after it.\<close>

definition answer :: "session \<Rightarrow> reply" where
  "answer s = Replies s (Calls s)"

definition called :: "session \<Rightarrow> session" where
  "called s = s\<lparr>Calls := Suc (Calls s)\<rparr>"

fun value_of :: "reply \<Rightarrow> ptr" where
  "value_of Throws = 0"
| "value_of (Returns p) = p"

text \<open>
  \<open>TimerPlatform.Schedule\<close> inside its \<open>try\<close>/\<open>catch\<close>: the handle, or none when the platform throws or
  returns null. A handle that is overwritten is destroyed without being cancelled.
\<close>

definition scheduled :: "timer_callback \<Rightarrow> session \<Rightarrow> timer_callback option" where
  "scheduled callback s = (if value_of (answer s) = 0 then None else Some callback)"

definition after_schedule :: "nat \<Rightarrow> timer_callback \<Rightarrow> session \<Rightarrow> session" where
  "after_schedule delay callback s =
     s\<lparr>Calls := Suc (Calls s),
       Trace := Trace s @ (if value_of (answer s) = 0 then [] else [ESchedule delay callback])\<rparr>"

definition AbandonCloseContinuation :: "session \<Rightarrow> session" where
  "AbandonCloseContinuation s =
     s\<lparr>PendingCloseContinuation := ContIdle, PendingCloseFailure := ResultSuccess,
       PendingCloseRetryEligible := False, PendingCloseCompletedAttempt := False,
       PendingCloseDisconnectReason := ReasonNone, IsCloseContinuationAbandoned := True\<rparr>"

definition TransientOpenRetryDelay :: "nat \<Rightarrow> nat" where
  "TransientOpenRetryDelay failedAttempt =
     [500, 1000, 1500, 2500, 4000, 6000, 8000, 8000, 8000] ! (failedAttempt - 1)"

subsection \<open>The connection life cycle\<close>

text \<open>
  The private methods call each other in two cycles: a terminal failure may restart the incoming
  listener (\<open>StartConnection\<close>), and closing a session that has no connection continues at once
  (\<open>ContinueAfterClose\<close>). The functions below are the methods with these two calls left open: the
  parameter \<open>self\<close> makes them. \<open>dispatch\<close> ties the knot with a bound on the nesting and marks the
  state \<open>Exhausted\<close> where the bound is hit; \<open>session_step_never_exhausted\<close> proves that no operation
  ever hits it.
\<close>

datatype call =
  CallStartConnection DeviceOperationKind bool
| CallContinueAfterClose u64 bool

type_synonym self = "call \<Rightarrow> session \<Rightarrow> session"

definition RestoreIncomingListenerAfterTerminal :: "self \<Rightarrow> session \<Rightarrow> session" where
  "RestoreIncomingListenerAfterTerminal self s =
     (if \<not> RestoreIncomingAfterClose s \<and> (\<not> IsIncomingEnabled s \<or> \<not> OpenImmediately s) then s
      else
        let s = s\<lparr>RestoreIncomingAfterClose := False\<rparr> in
        if \<not> IsShutdown s \<and> \<not> IsSuspended s \<and> IsIncomingEnabled s \<and> OpenImmediately s
        then self (CallStartConnection IncomingEnable False) s
        else s)"

definition fail_terminal ::
  "self \<Rightarrow> DeviceConnectionResult \<Rightarrow> DeviceDisconnectReason \<Rightarrow> session \<Rightarrow> session" where
  "fail_terminal self result disconnectReason s =
     RestoreIncomingListenerAfterTerminal self
       (Publish result True disconnectReason (s\<lparr>Lifecycle := Failed\<rparr>))"

definition ScheduleReconnect ::
  "self \<Rightarrow> DeviceConnectionResult \<Rightarrow> bool \<Rightarrow> bool \<Rightarrow> DeviceDisconnectReason \<Rightarrow> session \<Rightarrow> session" where
  "ScheduleReconnect self result shouldRetry completedAttempt disconnectReason s =
     (if IsShutdown s \<or> IsSuspended s \<or> \<not> shouldRetry \<or> \<not> IsReconnectEnabled s \<or> IsReconnectCancelled s
      then fail_terminal self result disconnectReason s
      else
        let s = (if completedAttempt
                 then s\<lparr>CompletedRetryAttempts := CompletedRetryAttempts s + 1\<rparr> else s);
            decision = Evaluate \<lparr>Request = ConnectionLoss,
                         CompletedAttempts = CompletedRetryAttempts s, IsBlocked = False\<rparr>
        in if Kind decision = TerminalFailure then fail_terminal self result disconnectReason s
        else
          let s = s\<lparr>Lifecycle := WaitingForReconnect, TimerEpoch := TimerEpoch s + 1\<rparr>;
              callback = RetryTimer (TimerEpoch s) (OperationEpoch s);
              s = (after_schedule (Delay decision * 1000) callback s)
                    \<lparr>ReconnectTimer := scheduled callback s\<rparr>
          in if ReconnectTimer s = None then fail_terminal self ResultFailed disconnectReason s
             else Publish result False disconnectReason s)"

definition ScheduleTransientOpenRetry ::
  "self \<Rightarrow> u64 \<Rightarrow> DeviceConnectionResult \<Rightarrow> bool \<Rightarrow> session \<Rightarrow> session" where
  "ScheduleTransientOpenRetry self epoch result completedScheduledCooldown s =
     (if \<not> IsCurrent epoch s \<or> IsShutdown s \<or> IsSuspended s \<or> IsReconnectCancelled s then s
      else
        let s = s\<lparr>TransientOpenRetryAttempts := TransientOpenRetryAttempts s + 1\<rparr> in
        if TransientOpenRetryAttempts s \<ge> TransientOpenRetryMaxAttempts
        then fail_terminal self result ReasonNone s
        else
          let s = s\<lparr>Lifecycle := WaitingForReconnect\<rparr>;
              full = TransientOpenRetryDelay (TransientOpenRetryAttempts s);
              delay = (if completedScheduledCooldown \<and> full > CloseBarrierCooldown
                       then full - CloseBarrierCooldown
                       else if completedScheduledCooldown then 0 else full);
              s = s\<lparr>TimerEpoch := TimerEpoch s + 1\<rparr>;
              callback = TransientOpenRetryTimer (TimerEpoch s) epoch;
              s = (after_schedule delay callback s)\<lparr>ReconnectTimer := scheduled callback s\<rparr>
          in if ReconnectTimer s = None then fail_terminal self ResultFailed ReasonNone s
             else Publish result False ReasonNone s)"

definition BeginClose ::
  "self \<Rightarrow> u64 \<Rightarrow> CloseContinuation \<Rightarrow> DeviceConnectionResult \<Rightarrow> bool \<Rightarrow> bool \<Rightarrow>
     DeviceDisconnectReason \<Rightarrow> session \<Rightarrow> session" where
  "BeginClose self epoch continuation failure shouldRetry completedAttempt disconnectReason s =
     (if IsCloseInFlight s \<and> IsCloseContinuationAbandoned s then s
      else
        let s = s\<lparr>PendingCloseContinuation := continuation, PendingCloseFailure := failure,
                  PendingCloseRetryEligible := shouldRetry,
                  PendingCloseCompletedAttempt := completedAttempt,
                  PendingCloseDisconnectReason := disconnectReason,
                  IsCloseContinuationAbandoned := False\<rparr>
        in if IsCloseInFlight s then s
        else if Connection s = 0 then self (CallContinueAfterClose epoch False) s
        else
          let s = RevokeStateChanged s;
              s = (reset_ClosingConnection s)\<lparr>ClosingConnection := Connection s, Connection := 0,
                    IsCloseInFlight := True, CloseBarrierEpoch := CloseBarrierEpoch s + 1\<rparr>;
              closeBarrierEpoch = CloseBarrierEpoch s;
              callback = CloseTimeoutTimer closeBarrierEpoch;
              s = (after_schedule CloseBarrierTimeout callback s)
                    \<lparr>CloseBarrierTimer := scheduled callback s\<rparr>;
              s = (if CloseBarrierTimer s = None
                   then AbandonCloseContinuation
                          (Publish ResultFailed True (PendingCloseDisconnectReason s)
                            (s\<lparr>Lifecycle := Failed\<rparr>))
                   else s)
          in s\<lparr>Trace := Trace s @ [EClose (ClosingConnection s) (Some closeBarrierEpoch)]\<rparr>)"

definition CompleteFailure ::
  "self \<Rightarrow> u64 \<Rightarrow> DeviceConnectionResult \<Rightarrow> bool \<Rightarrow> session \<Rightarrow> session" where
  "CompleteFailure self epoch result isTransientOpenFailure s =
     (if \<not> IsCurrent epoch s then s
      else
        let shouldRetryTransientOpen = (isTransientOpenFailure \<and> OpenImmediately s);
            s = RevokeStateChanged s
        in if Connection s = 0 then
             if shouldRetryTransientOpen then ScheduleTransientOpenRetry self epoch result False s
             else ScheduleReconnect self result (RetryEligible s)
                    (CurrentOperation s = AutomaticReconnect) ReasonNone s
           else
             let s = Publish result False ReasonNone (s\<lparr>Lifecycle := Disconnecting\<rparr>)
             in BeginClose self epoch
                  (if shouldRetryTransientOpen then ContTransientOpenRetry else ContRetry)
                  result (RetryEligible s) (CurrentOperation s = AutomaticReconnect) ReasonNone s)"

text \<open>
  Creating a native connection: \<open>Create\<close>, then the state handler, then \<open>Start\<close>. The three calls are
  inside \<open>try\<close> blocks whose handlers all end in \<open>CompleteFailure\<close>.
\<close>

definition Create :: "session \<Rightarrow> session" where
  "Create s =
     (let p = value_of (answer s) in
      s\<lparr>Calls := Suc (Calls s), Trace := Trace s @ destroyed (Connection s) @ [ECreate p],
        Connection := p\<rparr>)"

definition RegisterStateChanged :: "session \<Rightarrow> session" where
  "RegisterStateChanged s =
     (case answer s of
        Throws \<Rightarrow> called s
      | Returns token \<Rightarrow>
          (called s)\<lparr>StateChangedToken := token,
             Trace := Trace s @ [ERegisterStateChanged (Connection s) token]\<rparr>)"

definition BeginCreate :: "self \<Rightarrow> u64 \<Rightarrow> session \<Rightarrow> session" where
  "BeginCreate self epoch s =
     (if \<not> IsCurrent epoch s \<or> IsShutdown s \<or> IsSuspended s then s
      else
        let s = Create (Publish ResultSuccess False ReasonNone (s\<lparr>Lifecycle := Connecting\<rparr>)) in
        if Connection s = 0 then CompleteFailure self epoch ResultFailed False s
        else
          let registered = (value_of (answer s) \<noteq> 0);
              s = RegisterStateChanged s
          in if \<not> registered then CompleteFailure self epoch ResultFailed False s
             else if answer s = Throws then CompleteFailure self epoch ResultFailed False (called s)
             else (called s)\<lparr>Trace := Trace s @ [EStart (Connection s) epoch]\<rparr>)"

definition StartConnection :: "self \<Rightarrow> DeviceOperationKind \<Rightarrow> bool \<Rightarrow> session \<Rightarrow> session" where
  "StartConnection self operation openImmediately s =
     (if IsShutdown s \<or> IsSuspended s \<or> DeviceId s = [] then s
      else if IsCloseInFlight s \<or> Lifecycle s = Connecting \<or> Lifecycle s = Disconnecting then s
      else
        let s = (if operation \<noteq> AutomaticReconnect \<and> operation \<noteq> IncomingEnable
                 then s\<lparr>IsReconnectCancelled := False, CompletedRetryAttempts := 0\<rparr> else s);
            s = CancelTimer (s\<lparr>TransientOpenRetryAttempts := 0\<rparr>);
            s = s\<lparr>CurrentOperation := operation,
                  RetryEligible := (operation = AutomaticReconnect \<or> operation = Startup \<or>
                                    operation = OpResume),
                  OpenImmediately := openImmediately, OperationEpoch := OperationEpoch s + 1\<rparr>;
            epoch = OperationEpoch s
        in if Connection s \<noteq> 0 then
             let s = s\<lparr>Lifecycle := Disconnecting,
                       RestoreIncomingAfterClose := (IsIncomingEnabled s \<and> \<not> OpenImmediately s)\<rparr>;
                 s = Publish ResultSuccess False ReasonNormal (RevokeStateChanged s)
             in BeginClose self epoch ContReplace ResultSuccess False False ReasonNone s
           else BeginCreate self epoch s)"

definition StartAfterResume :: "self \<Rightarrow> session \<Rightarrow> session" where
  "StartAfterResume self s =
     (if ResumeRequired s then
        self (CallStartConnection (ResumeOperation s) (ResumeOpenImmediately s))
          (s\<lparr>ResumeRequired := False\<rparr>)
      else if IsIncomingEnabled s then self (CallStartConnection IncomingEnable False) s
      else Publish ResultSuccess False ReasonNone s)"

definition CompleteSuspendClose :: "self \<Rightarrow> u64 \<Rightarrow> session \<Rightarrow> session" where
  "CompleteSuspendClose self epoch s =
     (if IsShutdown s \<or> \<not> IsSuspended s \<or> \<not> IsSuspendClosePending s \<or> SuspendCloseEpoch s \<noteq> epoch \<or>
         OperationEpoch s \<noteq> epoch then s
      else
        let s = Publish ResultCancelled False ReasonNone
                  ((reset_Connection s)\<lparr>StateChangedToken := 0, IsSuspendClosePending := False,
                     Lifecycle := Idle\<rparr>)
        in if \<not> ResumeRequested s then s
           else StartAfterResume self (s\<lparr>ResumeRequested := False, IsSuspended := False\<rparr>))"

definition ContinueAfterClose :: "self \<Rightarrow> u64 \<Rightarrow> bool \<Rightarrow> session \<Rightarrow> session" where
  "ContinueAfterClose self epoch completedScheduledCooldown s =
     (if \<not> IsCurrent epoch s \<or> IsShutdown s then s
      else
        let continuation = PendingCloseContinuation s;
            failure = PendingCloseFailure s;
            shouldRetry = PendingCloseRetryEligible s;
            completedAttempt = PendingCloseCompletedAttempt s;
            disconnectReason = PendingCloseDisconnectReason s;
            s = s\<lparr>PendingCloseContinuation := ContIdle, PendingCloseFailure := ResultSuccess,
                  PendingCloseRetryEligible := False, PendingCloseCompletedAttempt := False,
                  PendingCloseDisconnectReason := ReasonNone\<rparr>
        in if IsCloseContinuationAbandoned s then
             let s = s\<lparr>IsCloseContinuationAbandoned := False\<rparr>;
                 s = (if IsSuspendClosePending s then
                        let s = s\<lparr>IsSuspendClosePending := False, ResumeRequired := False\<rparr> in
                        if ResumeRequested s
                        then s\<lparr>ResumeRequested := False, IsSuspended := False\<rparr> else s
                      else s)
             in RestoreIncomingListenerAfterTerminal self
                  (Publish ResultSuccess False ReasonNone (s\<lparr>Lifecycle := Idle\<rparr>))
           else case continuation of
             ContReplace \<Rightarrow> BeginCreate self epoch s
           | ContRetry \<Rightarrow> ScheduleReconnect self failure shouldRetry completedAttempt disconnectReason s
           | ContTransientOpenRetry \<Rightarrow>
               ScheduleTransientOpenRetry self epoch failure completedScheduledCooldown s
           | ContSuspend \<Rightarrow> CompleteSuspendClose self epoch s
           | ContIdle \<Rightarrow>
               let s = Publish failure False disconnectReason (s\<lparr>Lifecycle := Idle\<rparr>) in
               if RestoreIncomingAfterClose s \<and> IsIncomingEnabled s \<and> \<not> IsSuspended s
               then self (CallStartConnection IncomingEnable False)
                      (s\<lparr>RestoreIncomingAfterClose := False\<rparr>)
               else s)"

fun dispatch :: "nat \<Rightarrow> self" where
  "dispatch 0 c s = s\<lparr>Exhausted := True\<rparr>"
| "dispatch (Suc n) (CallStartConnection operation openImmediately) s =
     StartConnection (dispatch n) operation openImmediately s"
| "dispatch (Suc n) (CallContinueAfterClose epoch completedScheduledCooldown) s =
     ContinueAfterClose (dispatch n) epoch completedScheduledCooldown s"

text \<open>
  Three nested calls are enough: a start may fail terminally once and restart the listener, and the
  restarted listener cannot restart itself.
\<close>

abbreviation go :: self where
  "go \<equiv> dispatch 3"

subsection \<open>Callbacks of the platform\<close>

text \<open>The posted halves of the platform callbacks, run on the device context.\<close>

definition OnStarted :: "u64 \<Rightarrow> ptr \<Rightarrow> DeviceConnectionResult \<Rightarrow> session \<Rightarrow> session" where
  "OnStarted epoch expectedConnection result s =
     (if \<not> IsCurrentConnection epoch expectedConnection s then s
      else if Lifecycle s = Connected then s
      else if result \<noteq> ResultSuccess then CompleteFailure go epoch result False s
      else if \<not> OpenImmediately s then Publish ResultSuccess False ReasonNone (s\<lparr>Lifecycle := Idle\<rparr>)
      else if answer s = Throws then CompleteFailure go epoch ResultFailed False (called s)
      else (called s)\<lparr>Trace := Trace s @ [EOpen (Connection s) epoch]\<rparr>)"

definition OnOpened :: "u64 \<Rightarrow> ptr \<Rightarrow> DeviceOpenResult \<Rightarrow> session \<Rightarrow> session" where
  "OnOpened epoch expectedConnection openResult s =
     (if \<not> IsCurrentConnection epoch expectedConnection s then s
      else if Lifecycle s = Connected then s
      else if OpenResult openResult \<noteq> ResultSuccess
      then CompleteFailure go epoch (OpenResult openResult) (IsTransientFailure openResult) s
      else Publish ResultSuccess False ReasonNone
             (s\<lparr>Lifecycle := Connected, CompletedRetryAttempts := 0,
                RetryEligible := IsReconnectEnabled s\<rparr>))"

definition OnStateChanged :: "u64 \<Rightarrow> ptr \<Rightarrow> DeviceConnectionState \<Rightarrow> session \<Rightarrow> session" where
  "OnStateChanged epoch expectedConnection state s =
     (if \<not> IsCurrentConnection epoch expectedConnection s \<or> IsShutdown s then s
      else
        let isIncomingListener = (\<not> OpenImmediately s \<and> IsIncomingEnabled s) in
        if state = ConnOpened then
          Publish ResultSuccess False ReasonNone
            ((CancelTimer s)\<lparr>Lifecycle := Connected, CompletedRetryAttempts := 0,
               RetryEligible := IsReconnectEnabled s\<rparr>)
        else if Lifecycle s = Disconnecting then s
        else if isIncomingListener \<and> Lifecycle s = WaitingForReconnect then s
        else
          let wasEstablished = (Lifecycle s = Connected) in
          if wasEstablished \<and> isIncomingListener then
            if \<not> IsReconnectEnabled s then
              Publish ResultSuccess False ReasonUnexpectedLoss
                (s\<lparr>Lifecycle := Idle, RetryEligible := False\<rparr>)
            else ScheduleReconnect go ResultFailed True False ReasonUnexpectedLoss s
          else
            let s = reset_Connection (RevokeStateChanged s);
                s = s\<lparr>OperationEpoch := OperationEpoch s + 1\<rparr>
            in if \<not> OpenImmediately s \<and> IsIncomingEnabled s \<and> \<not> wasEstablished then
                 StartConnection go IncomingEnable False
                   (Publish ResultSuccess False ReasonNone (s\<lparr>Lifecycle := Idle\<rparr>))
               else ScheduleReconnect go ResultFailed (RetryEligible s)
                      (CurrentOperation s = AutomaticReconnect)
                      (if wasEstablished then ReasonUnexpectedLoss else ReasonNone) s)"

definition CompleteCloseCooldown :: "u64 \<Rightarrow> bool \<Rightarrow> session \<Rightarrow> session" where
  "CompleteCloseCooldown closeBarrierEpoch completedScheduledCooldown s =
     (if IsShutdown s \<or> \<not> IsCloseInFlight s \<or> \<not> IsCloseCooldown s \<or>
         closeBarrierEpoch \<noteq> CloseBarrierEpoch s then s
      else
        let s = (CancelCloseBarrierTimer s)\<lparr>IsCloseCooldown := False, IsCloseInFlight := False\<rparr>
        in ContinueAfterClose go (OperationEpoch s) completedScheduledCooldown s)"

definition CompleteCloseBarrier :: "u64 \<Rightarrow> bool \<Rightarrow> session \<Rightarrow> session" where
  "CompleteCloseBarrier closeBarrierEpoch timedOut s =
     (if IsShutdown s \<or> \<not> IsCloseInFlight s \<or> IsCloseCooldown s \<or>
         closeBarrierEpoch \<noteq> CloseBarrierEpoch s then s
      else
        let s = CancelCloseBarrierTimer s in
        if timedOut then
          AbandonCloseContinuation
            (Publish ResultTimedOut True (PendingCloseDisconnectReason s) (s\<lparr>Lifecycle := Failed\<rparr>))
        else
          let s = (reset_ClosingConnection s)\<lparr>StateChangedToken := 0, IsCloseCooldown := True\<rparr>;
              callback = CloseCooldownTimer closeBarrierEpoch;
              s = (after_schedule CloseBarrierCooldown callback s)
                    \<lparr>CloseBarrierTimer := scheduled callback s\<rparr>
          in if CloseBarrierTimer s = None then CompleteCloseCooldown closeBarrierEpoch False s
             else s)"

definition OnRetryTimer :: "u64 \<Rightarrow> u64 \<Rightarrow> session \<Rightarrow> session" where
  "OnRetryTimer timerEpoch operationEpoch s =
     (if IsShutdown s \<or> IsSuspended s \<or> timerEpoch \<noteq> TimerEpoch s \<or>
         operationEpoch \<noteq> OperationEpoch s \<or> Lifecycle s \<noteq> WaitingForReconnect then s
      else StartConnection go AutomaticReconnect (OpenImmediately s) (s\<lparr>ReconnectTimer := None\<rparr>))"

definition OnTransientOpenRetryTimer :: "u64 \<Rightarrow> u64 \<Rightarrow> session \<Rightarrow> session" where
  "OnTransientOpenRetryTimer timerEpoch operationEpoch s =
     (if IsShutdown s \<or> IsSuspended s \<or> timerEpoch \<noteq> TimerEpoch s \<or>
         operationEpoch \<noteq> OperationEpoch s \<or> Lifecycle s \<noteq> WaitingForReconnect then s
      else BeginCreate go operationEpoch (s\<lparr>ReconnectTimer := None\<rparr>))"

text \<open>The task \<open>PostFailure\<close> posts when posting a callback threw.\<close>

definition OnPostFailure :: "u64 \<Rightarrow> ptr \<Rightarrow> session \<Rightarrow> session" where
  "OnPostFailure epoch expectedConnection s =
     (if IsCurrentConnection epoch expectedConnection s
      then CompleteFailure go epoch ResultFailed False s else s)"

subsection \<open>Public operations\<close>

definition CancelAutomaticReconnect :: "bool \<Rightarrow> session \<Rightarrow> session" where
  "CancelAutomaticReconnect restoreIncoming s =
     (let s = (CancelTimer s)\<lparr>RetryEligible := False\<rparr>;
          cancelsActiveReconnect =
            (Lifecycle s = WaitingForReconnect \<or>
             (Lifecycle s = Connecting \<and> CurrentOperation s = AutomaticReconnect) \<or>
             (Lifecycle s = Disconnecting \<and> CurrentOperation s = AutomaticReconnect))
      in if \<not> cancelsActiveReconnect then Publish ResultCancelled False ReasonNone s
         else
           let s = s\<lparr>OperationEpoch := OperationEpoch s + 1\<rparr>;
               epoch = OperationEpoch s
           in if Connection s \<noteq> 0 \<or> IsCloseInFlight s then
                let s = RevokeStateChanged (s\<lparr>Lifecycle := Disconnecting,
                          RestoreIncomingAfterClose := (restoreIncoming \<and> IsIncomingEnabled s)\<rparr>)
                in BeginClose go epoch ContIdle ResultCancelled False False ReasonNone s
              else
                let s = Publish ResultCancelled False ReasonNone (s\<lparr>Lifecycle := Idle\<rparr>) in
                if restoreIncoming \<and> IsIncomingEnabled s
                then StartConnection go IncomingEnable False s else s)"

definition CloseForShutdown :: "session \<Rightarrow> session" where
  "CloseForShutdown s =
     (let s = RevokeStateChanged (CancelCloseBarrierTimer s);
          s = s\<lparr>Trace := Trace s @ (if Connection s \<noteq> 0 then [EClose (Connection s) None] else [])\<rparr>
      in (reset_ClosingConnection (reset_Connection s))
           \<lparr>IsCloseInFlight := False, IsCloseCooldown := False,
            IsCloseContinuationAbandoned := False, CloseBarrierEpoch := CloseBarrierEpoch s + 1,
            StateChangedToken := 0\<rparr>)"

definition BeginSuspendClose :: "u64 \<Rightarrow> session \<Rightarrow> session" where
  "BeginSuspendClose epoch s =
     BeginClose go epoch ContSuspend ResultCancelled False False ReasonNone
       (RevokeStateChanged (s\<lparr>IsSuspendClosePending := True, SuspendCloseEpoch := epoch,
                              Lifecycle := Disconnecting\<rparr>))"

definition SupersedePowerTransitionRecovery ::
  "DeviceOperationKind \<Rightarrow> bool \<Rightarrow> session \<Rightarrow> session" where
  "SupersedePowerTransitionRecovery operation openImmediately s =
     (let s = s\<lparr>IsSuspended := False, ResumeRequired := False, ResumeRequested := False,
                IsSuspendClosePending := False\<rparr>
      in if \<not> IsCloseInFlight s then StartConnection go operation openImmediately s
         else if IsCloseContinuationAbandoned s then s
         else
           let s = CancelTimer (s\<lparr>IsReconnectCancelled := False, CompletedRetryAttempts := 0,
                                  TransientOpenRetryAttempts := 0\<rparr>);
               s = s\<lparr>CurrentOperation := operation, RetryEligible := False,
                     OpenImmediately := openImmediately, OperationEpoch := OperationEpoch s + 1\<rparr>;
               epoch = OperationEpoch s;
               s = s\<lparr>Lifecycle := Disconnecting,
                     RestoreIncomingAfterClose := (IsIncomingEnabled s \<and> \<not> OpenImmediately s)\<rparr>;
               s = Publish ResultSuccess False ReasonNone s
           in BeginClose go epoch ContReplace ResultSuccess False False ReasonNone s)"

definition Rename :: "wstring \<Rightarrow> session \<Rightarrow> session" where
  "Rename deviceName s =
     (if IsShutdown s then s else Publish ResultSuccess False ReasonNone (s\<lparr>DeviceName := deviceName\<rparr>))"

definition HandleDeviceRemoved :: "session \<Rightarrow> session" where
  "HandleDeviceRemoved s =
     (if IsShutdown s then s
      else
        let s = (CancelTimer s)\<lparr>RestoreIncomingAfterClose := False\<rparr>;
            shouldRetry = RetryEligible s
        in if Connection s = 0 \<and> \<not> IsCloseInFlight s \<and> Lifecycle s = Idle \<and> \<not> shouldRetry
           then Publish ResultSuccess False ReasonNone s
           else
             let isIdleIncomingListener =
                   (Connection s \<noteq> 0 \<and> Lifecycle s = Idle \<and> IsIncomingEnabled s \<and> \<not> shouldRetry);
                 s = s\<lparr>OperationEpoch := OperationEpoch s + 1\<rparr>;
                 epoch = OperationEpoch s
             in if isIdleIncomingListener then
                  BeginClose go epoch ContIdle ResultSuccess False False ReasonNone
                    (Publish ResultSuccess False ReasonNone
                      (RevokeStateChanged (s\<lparr>Lifecycle := Disconnecting\<rparr>)))
                else if IsCloseInFlight s then
                  BeginClose go epoch ContRetry ResultFailed shouldRetry False ReasonDeviceRemoved
                    (Publish ResultFailed False ReasonDeviceRemoved (s\<lparr>Lifecycle := Disconnecting\<rparr>))
                else if Connection s = 0 then
                  ScheduleReconnect go ResultFailed shouldRetry False ReasonDeviceRemoved s
                else
                  BeginClose go epoch ContRetry ResultFailed shouldRetry False ReasonDeviceRemoved
                    (Publish ResultFailed False ReasonDeviceRemoved
                      (RevokeStateChanged (s\<lparr>Lifecycle := Disconnecting\<rparr>))))"

definition Connect :: "DeviceOperationKind \<Rightarrow> bool \<Rightarrow> session \<Rightarrow> session" where
  "Connect operation openImmediately s =
     (if IsShutdown s then s
      else if IsSuspended s \<and> (operation = ManualConnect \<or> operation = ManualReconnect)
      then SupersedePowerTransitionRecovery operation openImmediately s
      else StartConnection go operation openImmediately s)"

definition Disconnect :: "bool \<Rightarrow> session \<Rightarrow> bool \<times> session" where
  "Disconnect restoreIncoming s =
     (if IsShutdown s then (False, s)
      else if IsCloseInFlight s \<and> IsCloseContinuationAbandoned s then (False, s)
      else
        let s = CancelTimer s;
            s = s\<lparr>IsReconnectCancelled := True, RetryEligible := False,
                  OperationEpoch := OperationEpoch s + 1\<rparr>;
            epoch = OperationEpoch s;
            s = s\<lparr>RestoreIncomingAfterClose := restoreIncoming\<rparr>
        in if Connection s = 0 \<and> \<not> IsCloseInFlight s then
             let s = Publish ResultSuccess False ReasonNormal (s\<lparr>Lifecycle := Idle\<rparr>) in
             (True,
              if RestoreIncomingAfterClose s \<and> IsIncomingEnabled s \<and> \<not> IsSuspended s
              then StartConnection go IncomingEnable False (s\<lparr>RestoreIncomingAfterClose := False\<rparr>)
              else s)
           else
             (True,
              BeginClose go epoch ContIdle ResultSuccess False False ReasonNone
                (Publish ResultSuccess False ReasonNormal
                  (RevokeStateChanged (s\<lparr>Lifecycle := Disconnecting\<rparr>)))))"

definition CancelReconnect :: "session \<Rightarrow> session" where
  "CancelReconnect s =
     (if IsShutdown s then s
      else CancelAutomaticReconnect (IsIncomingEnabled s) (s\<lparr>IsReconnectCancelled := True\<rparr>))"

definition SetReconnectEnabled :: "bool \<Rightarrow> session \<Rightarrow> session" where
  "SetReconnectEnabled enabled s =
     (if IsShutdown s then s
      else
        let s = s\<lparr>IsReconnectEnabled := enabled\<rparr> in
        if \<not> enabled \<and> (Lifecycle s = WaitingForReconnect \<or>
             ((Lifecycle s = Connecting \<or> Lifecycle s = Disconnecting) \<and>
              CurrentOperation s = AutomaticReconnect))
        then CancelAutomaticReconnect (IsIncomingEnabled s) s
        else Publish ResultSuccess False ReasonNone s)"

definition SetIncomingEnabled :: "bool \<Rightarrow> session \<Rightarrow> session" where
  "SetIncomingEnabled enabled s =
     (if IsShutdown s then s
      else
        let s = s\<lparr>IsIncomingEnabled := enabled\<rparr>;
            hasIncomingLifecycle =
              (\<not> OpenImmediately s \<and>
               (Connection s \<noteq> 0 \<or> IsCloseInFlight s \<or> Lifecycle s = WaitingForReconnect))
        in if \<not> enabled \<and> hasIncomingLifecycle then snd (Disconnect False s)
           else if enabled \<and> Connection s = 0 \<and> \<not> IsSuspended s
           then StartConnection go IncomingEnable False s
           else Publish ResultSuccess False ReasonNone s)"

definition Suspend :: "session \<Rightarrow> session" where
  "Suspend s =
     (if IsShutdown s \<or> IsSuspended s then s
      else
        let s = s\<lparr>ResumeRequired := (Connection s \<noteq> 0 \<or> IsCloseInFlight s \<or> IsBusy s),
                  ResumeOpenImmediately := OpenImmediately s\<rparr>;
            s = s\<lparr>ResumeOperation := (if ResumeOpenImmediately s then OpResume else IncomingEnable),
                  IsSuspended := True\<rparr>;
            s = CancelTimer s;
            s = s\<lparr>OperationEpoch := OperationEpoch s + 1\<rparr>;
            epoch = OperationEpoch s
        in if Connection s \<noteq> 0 \<or> IsCloseInFlight s then BeginSuspendClose epoch s
           else Publish ResultCancelled False ReasonNone (s\<lparr>Lifecycle := Idle\<rparr>))"

definition Resume :: "session \<Rightarrow> session" where
  "Resume s =
     (if IsShutdown s \<or> \<not> IsSuspended s then s
      else if IsSuspendClosePending s then s\<lparr>ResumeRequested := True\<rparr>
      else StartAfterResume go (s\<lparr>IsSuspended := False\<rparr>))"

definition ResumeIdleAfterPowerTransition :: "session \<Rightarrow> session" where
  "ResumeIdleAfterPowerTransition s =
     (if IsShutdown s \<or> \<not> IsSuspended s \<or> IsSuspendClosePending s \<or> ResumeRequired s \<or>
         ResumeRequested s \<or> IsIncomingEnabled s then s
      else Publish ResultSuccess False ReasonNone (s\<lparr>IsSuspended := False\<rparr>))"

definition CancelPowerTransitionRecovery :: "session \<Rightarrow> session" where
  "CancelPowerTransitionRecovery s =
     (if IsShutdown s \<or> \<not> IsSuspended s then s
      else Publish ResultSuccess False ReasonNone
             (s\<lparr>IsSuspended := False, ResumeRequired := False, ResumeRequested := False,
                IsSuspendClosePending := False\<rparr>))"

definition Shutdown :: "session \<Rightarrow> session" where
  "Shutdown s =
     (if IsShutdown s then s
      else
        let s = s\<lparr>IsShutdown := True\<rparr>;
            s = s\<lparr>OperationEpoch := OperationEpoch s + 1\<rparr>
        in (CloseForShutdown (CancelTimer s))\<lparr>Lifecycle := Idle\<rparr>)"

subsection \<open>Events\<close>

text \<open>
  Everything that runs on the device context for one session: the public operations and the posted
  callbacks with the values they captured.
\<close>

datatype session_event =
  EvRename wstring
| EvHandleDeviceRemoved
| EvConnect DeviceOperationKind bool
| EvDisconnect bool
| EvCancelReconnect
| EvSetReconnectEnabled bool
| EvSetIncomingEnabled bool
| EvSuspend
| EvResume
| EvResumeIdle
| EvCancelPowerTransitionRecovery
| EvShutdown
| EvStarted u64 ptr DeviceConnectionResult
| EvOpened u64 ptr DeviceOpenResult
| EvStateChanged u64 ptr DeviceConnectionState
| EvPostFailure u64 ptr
| EvCloseBarrier u64 bool
| EvCloseCooldown u64
| EvRetryTimer u64 u64
| EvTransientOpenRetryTimer u64 u64

fun session_step :: "session \<Rightarrow> session_event \<Rightarrow> session" where
  "session_step s (EvRename name) = Rename name s"
| "session_step s EvHandleDeviceRemoved = HandleDeviceRemoved s"
| "session_step s (EvConnect operation openImmediately) = Connect operation openImmediately s"
| "session_step s (EvDisconnect restoreIncoming) = snd (Disconnect restoreIncoming s)"
| "session_step s EvCancelReconnect = CancelReconnect s"
| "session_step s (EvSetReconnectEnabled enabled) = SetReconnectEnabled enabled s"
| "session_step s (EvSetIncomingEnabled enabled) = SetIncomingEnabled enabled s"
| "session_step s EvSuspend = Suspend s"
| "session_step s EvResume = Resume s"
| "session_step s EvResumeIdle = ResumeIdleAfterPowerTransition s"
| "session_step s EvCancelPowerTransitionRecovery = CancelPowerTransitionRecovery s"
| "session_step s EvShutdown = Shutdown s"
| "session_step s (EvStarted epoch p result) = OnStarted epoch p result s"
| "session_step s (EvOpened epoch p result) = OnOpened epoch p result s"
| "session_step s (EvStateChanged epoch p state) = OnStateChanged epoch p state s"
| "session_step s (EvPostFailure epoch p) = OnPostFailure epoch p s"
| "session_step s (EvCloseBarrier epoch timedOut) = CompleteCloseBarrier epoch timedOut s"
| "session_step s (EvCloseCooldown epoch) = CompleteCloseCooldown epoch True s"
| "session_step s (EvRetryTimer timerEpoch epoch) = OnRetryTimer timerEpoch epoch s"
| "session_step s (EvTransientOpenRetryTimer timerEpoch epoch) =
     OnTransientOpenRetryTimer timerEpoch epoch s"

text \<open>
  What the environment delivers. Callbacks may come late, twice, in any order or never, with any
  epoch. Three things are assumed of their callers:
  \<^item> a connection callback captured the address of the connection it was registered on, which is
    not null;
  \<^item> a transient-retry timer that carries both current epochs while the session waits is the timer
    armed last: every \<open>Schedule\<close> takes a fresh \<open>TimerEpoch\<close>, so only a wrap of the 64-bit counter
    could make an older one look current;
  \<^item> \<open>CancelPowerTransitionRecovery\<close> is called for a superseded suspension only, never while the close
    that the suspension itself started is still in flight (\<open>DeviceService::ResumeSuspendedSessions\<close>
    calls it when the session's epoch has moved on).
\<close>

fun session_enabled :: "session \<Rightarrow> session_event \<Rightarrow> bool" where
  "session_enabled s (EvStarted epoch p result) = (p \<noteq> 0)"
| "session_enabled s (EvOpened epoch p result) = (p \<noteq> 0)"
| "session_enabled s (EvStateChanged epoch p state) = (p \<noteq> 0)"
| "session_enabled s (EvPostFailure epoch p) = (p \<noteq> 0)"
| "session_enabled s (EvTransientOpenRetryTimer timerEpoch epoch) =
     (timerEpoch = TimerEpoch s \<and> epoch = OperationEpoch s \<and> Lifecycle s = WaitingForReconnect \<longrightarrow>
      ReconnectTimer s = Some (TransientOpenRetryTimer timerEpoch epoch))"
| "session_enabled s EvCancelPowerTransitionRecovery =
     (\<not> (IsCloseInFlight s \<and> \<not> IsCloseContinuationAbandoned s \<and>
         PendingCloseContinuation s = ContSuspend))"
| "session_enabled s e = True"

text \<open>\<open>DeviceService::GetOrCreateSession\<close> never creates a session for an empty identifier.\<close>

definition session_start :: "session \<Rightarrow> bool" where
  "session_start s \<longleftrightarrow> (\<exists>deviceId deviceName sink replies.
     deviceId \<noteq> [] \<and> s = new_session deviceId deviceName sink replies)"

end
