(* ===== verification/Session_Invariant.thy ===== *)
theory Session_Invariant
  imports Device_Session
begin

section \<open>The session invariant\<close>

text \<open>
  What every operation and every callback keeps true of a session, whatever the platform answers.
  It is stated in four parts because the source establishes them at different moments of a method:
  who owns a native connection, what suspension implies, what a close in flight will do next, and
  what each life-cycle state guarantees.
\<close>

definition owns :: "session \<Rightarrow> bool" where
  "owns s \<longleftrightarrow> DeviceId s \<noteq> [] \<and>
     (StateChangedToken s \<noteq> 0 \<longrightarrow> Connection s \<noteq> 0) \<and>
     (IsCloseInFlight s \<longrightarrow> Connection s = 0) \<and>
     (ClosingConnection s \<noteq> 0 \<longleftrightarrow> IsCloseInFlight s \<and> \<not> IsCloseCooldown s) \<and>
     (IsCloseCooldown s \<longrightarrow> IsCloseInFlight s)"

definition suspended_ok :: "session \<Rightarrow> bool" where
  "suspended_ok s \<longleftrightarrow> (IsSuspended s \<longrightarrow> Connection s = 0)"

definition continuation_ok :: "session \<Rightarrow> bool" where
  "continuation_ok s \<longleftrightarrow>
     (PendingCloseContinuation s = ContSuspend \<longrightarrow>
        IsSuspended s \<and> IsSuspendClosePending s \<and> SuspendCloseEpoch s = OperationEpoch s) \<and>
     (PendingCloseContinuation s = ContReplace \<or> PendingCloseContinuation s = ContTransientOpenRetry \<longrightarrow>
        \<not> IsSuspended s)"

definition closing_ok :: "session \<Rightarrow> bool" where
  "closing_ok s \<longleftrightarrow>
     (IsCloseContinuationAbandoned s \<longrightarrow> IsCloseInFlight s) \<and>
     (IsCloseInFlight s \<and> \<not> IsCloseContinuationAbandoned s \<longrightarrow> continuation_ok s)"

fun retry_armed :: "timer_callback option \<Rightarrow> session \<Rightarrow> bool" where
  "retry_armed (Some (RetryTimer timerEpoch epoch)) s =
     (timerEpoch = TimerEpoch s \<and> epoch = OperationEpoch s \<and> CompletedRetryAttempts s < MaxAttempts)"
| "retry_armed (Some (TransientOpenRetryTimer timerEpoch epoch)) s =
     (timerEpoch = TimerEpoch s \<and> epoch = OperationEpoch s \<and> Connection s = 0 \<and>
      TransientOpenRetryAttempts s < TransientOpenRetryMaxAttempts)"
| "retry_armed _ s = False"

definition phase_ok :: "session \<Rightarrow> bool" where
  "phase_ok s \<longleftrightarrow>
     (IsShutdown s \<longrightarrow> Lifecycle s = Idle \<and> Connection s = 0 \<and> \<not> IsCloseInFlight s) \<and>
     (IsCloseInFlight s \<longrightarrow> Lifecycle s = Disconnecting \<or> Lifecycle s = Failed) \<and>
     (Lifecycle s = Connecting \<or> Lifecycle s = Connected \<longrightarrow> Connection s \<noteq> 0) \<and>
     (Lifecycle s = Disconnecting \<longrightarrow> IsCloseInFlight s \<or> IsReconnectCancelled s) \<and>
     (Lifecycle s = WaitingForReconnect \<longrightarrow>
        \<not> IsSuspended s \<and> \<not> IsCloseInFlight s \<and> retry_armed (ReconnectTimer s) s)"

definition session_inv :: "session \<Rightarrow> bool" where
  "session_inv s \<longleftrightarrow> owns s \<and> suspended_ok s \<and> closing_ok s \<and> phase_ok s"

text \<open>The common situation of the private methods: no close is in flight and the session is live.\<close>

definition ready :: "session \<Rightarrow> bool" where
  "ready s \<longleftrightarrow> owns s \<and> suspended_ok s \<and> \<not> IsCloseInFlight s \<and>
     \<not> IsCloseContinuationAbandoned s \<and> \<not> IsShutdown s"

text \<open>
  What is left of the invariant in the middle of a public operation, when the epoch has moved on and
  the life-cycle state is about to be set.
\<close>

definition live :: "session \<Rightarrow> bool" where
  "live s \<longleftrightarrow> owns s \<and> suspended_ok s \<and> (IsCloseContinuationAbandoned s \<longrightarrow> IsCloseInFlight s) \<and> \<not> IsShutdown s"

lemmas inv_defs = owns_def suspended_ok_def continuation_ok_def closing_ok_def phase_ok_def
lemmas prim_defs =
  Publish_def CancelTimer_def CancelCloseBarrierTimer_def RevokeStateChanged_def reset_Connection_def
  reset_ClosingConnection_def called_def after_schedule_def AbandonCloseContinuation_def

text \<open>The fields the invariant does not read.\<close>

lemma retry_armed_cong:
  assumes "TimerEpoch s' = TimerEpoch s" and "OperationEpoch s' = OperationEpoch s"
    and "CompletedRetryAttempts s' = CompletedRetryAttempts s" and "Connection s' = Connection s"
    and "TransientOpenRetryAttempts s' = TransientOpenRetryAttempts s"
  shows "retry_armed t s' = retry_armed t s"
  using assms by (cases "(t, s)" rule: retry_armed.cases) auto

lemma retry_armed_frame [frame]:
  "retry_armed t (s\<lparr>Trace := x\<rparr>) = retry_armed t s"
  "retry_armed t (s\<lparr>Calls := k\<rparr>) = retry_armed t s"
  "retry_armed t (s\<lparr>Exhausted := b\<rparr>) = retry_armed t s"
  "retry_armed t (s\<lparr>DeviceName := n\<rparr>) = retry_armed t s"
  "retry_armed t (s\<lparr>RestoreIncomingAfterClose := b\<rparr>) = retry_armed t s"
  "retry_armed t (s\<lparr>ResumeRequired := b\<rparr>) = retry_armed t s"
  "retry_armed t (s\<lparr>ResumeRequested := b\<rparr>) = retry_armed t s"
  "retry_armed t (s\<lparr>IsIncomingEnabled := b\<rparr>) = retry_armed t s"
  "retry_armed t (s\<lparr>IsReconnectEnabled := b\<rparr>) = retry_armed t s"
  "retry_armed t (s\<lparr>IsReconnectCancelled := b\<rparr>) = retry_armed t s"
  "retry_armed t (s\<lparr>RetryEligible := b\<rparr>) = retry_armed t s"
  "retry_armed t (s\<lparr>IsSuspended := b\<rparr>) = retry_armed t s"
  "retry_armed t (s\<lparr>IsSuspendClosePending := b\<rparr>) = retry_armed t s"
  by (rule retry_armed_cong; simp)+

lemma session_inv_frame [simp]:
  "session_inv (s\<lparr>Trace := x\<rparr>) = session_inv s"
  "session_inv (s\<lparr>Calls := k\<rparr>) = session_inv s"
  "session_inv (s\<lparr>Exhausted := b\<rparr>) = session_inv s"
  "session_inv (s\<lparr>DeviceName := n\<rparr>) = session_inv s"
  "session_inv (s\<lparr>RestoreIncomingAfterClose := b\<rparr>) = session_inv s"
  "session_inv (s\<lparr>ResumeRequired := b\<rparr>) = session_inv s"
  "session_inv (s\<lparr>ResumeRequested := b\<rparr>) = session_inv s"
  "session_inv (s\<lparr>IsIncomingEnabled := b\<rparr>) = session_inv s"
  "session_inv (s\<lparr>IsReconnectEnabled := b\<rparr>) = session_inv s"
  "session_inv (s\<lparr>RetryEligible := b\<rparr>) = session_inv s"
  by (simp_all add: session_inv_def inv_defs frame)

lemma session_inv_Publish [simp]: "session_inv (Publish result terminal reason s) = session_inv s"
  by (simp add: Publish_def)

lemma session_inv_CancelReconnectFlag:
  "session_inv s \<Longrightarrow> session_inv (s\<lparr>IsReconnectCancelled := True\<rparr>)"
  by (auto simp: session_inv_def inv_defs frame)

text \<open>Releasing the local hold of a suspension whose close is not pending.\<close>

lemma session_inv_release:
  "session_inv s \<Longrightarrow> \<not> (IsCloseInFlight s \<and> \<not> IsCloseContinuationAbandoned s \<and> PendingCloseContinuation s = ContSuspend) \<Longrightarrow>
     session_inv (s\<lparr>IsSuspended := False\<rparr>)"
  "session_inv s \<Longrightarrow> \<not> (IsCloseInFlight s \<and> \<not> IsCloseContinuationAbandoned s \<and> PendingCloseContinuation s = ContSuspend) \<Longrightarrow>
     session_inv (s\<lparr>IsSuspendClosePending := p\<rparr>)"
  by (auto simp: session_inv_def inv_defs frame)

subsection \<open>The methods that leave calls open\<close>

text \<open>
  The contract of the open calls: a restart keeps the invariant. The private methods are proved
  against it once, in the locale; \<open>dispatch\<close> satisfies it for every bound on the nesting.
\<close>

locale restart =
  fixes self :: self
  assumes start_keeps:
    "session_inv s \<Longrightarrow> session_inv (self (CallStartConnection operation openImmediately) s)"
begin

lemma RestoreIncomingListenerAfterTerminal_inv:
  assumes "ready s" and "Lifecycle s = Failed \<or> Lifecycle s = Idle"
  shows "session_inv (RestoreIncomingListenerAfterTerminal self s)"
proof -
  have "session_inv s" "session_inv (s\<lparr>RestoreIncomingAfterClose := False\<rparr>)"
    using assms by (auto simp: session_inv_def ready_def inv_defs)
  then show ?thesis
    by (simp add: RestoreIncomingListenerAfterTerminal_def Let_def start_keeps)
qed

lemma fail_terminal_inv: "ready s \<Longrightarrow> session_inv (fail_terminal self result reason s)"
  unfolding fail_terminal_def
  by (rule RestoreIncomingListenerAfterTerminal_inv) (auto simp: ready_def inv_defs prim_defs)

lemma ScheduleReconnect_inv:
  assumes "ready s"
  shows "session_inv (ScheduleReconnect self result shouldRetry completedAttempt reason s)"
proof -
  have *: "ready (s\<lparr>CompletedRetryAttempts := n\<rparr>)"
    "ready (s\<lparr>CompletedRetryAttempts := n, Lifecycle := l, TimerEpoch := e, Calls := c, Trace := t, ReconnectTimer := r\<rparr>)"
    "ready (s\<lparr>Lifecycle := l, TimerEpoch := e, Calls := c, Trace := t, ReconnectTimer := r\<rparr>)" for n l e c t r
    using assms by (auto simp: ready_def inv_defs)
  show ?thesis
    using assms
    apply (simp add: ScheduleReconnect_def Let_def Evaluate_terminal_iff after_schedule_def * fail_terminal_inv)
    apply (auto simp: session_inv_def ready_def inv_defs prim_defs scheduled_def split: if_splits)
    done
qed

lemma ScheduleTransientOpenRetry_inv:
  assumes "ready s" and "Connection s = 0" and "\<not> IsSuspended s" and "IsCurrent epoch s"
    and "Lifecycle s \<noteq> WaitingForReconnect" and "Lifecycle s \<noteq> Connecting" and "Lifecycle s \<noteq> Connected"
  shows "session_inv (ScheduleTransientOpenRetry self epoch result cooled s)"
proof -
  have *: "ready (s\<lparr>TransientOpenRetryAttempts := n\<rparr>)"
    "ready (s\<lparr>TransientOpenRetryAttempts := n, Lifecycle := l, TimerEpoch := e, Calls := c, Trace := t, ReconnectTimer := r\<rparr>)" for n l e c t r
    using assms by (auto simp: ready_def inv_defs)
  show ?thesis
    using assms
    apply (simp add: ScheduleTransientOpenRetry_def Let_def after_schedule_def * fail_terminal_inv)
    apply (auto simp: session_inv_def ready_def inv_defs prim_defs scheduled_def IsCurrent_def split: if_splits)
    done
qed

lemma BeginClose_inv:
  assumes "owns s" and "IsCloseContinuationAbandoned s \<longrightarrow> IsCloseInFlight s" and "\<not> IsShutdown s"
    and "Connection s \<noteq> 0 \<or> IsCloseInFlight s"
    and "Lifecycle s = Disconnecting"
    and "continuation_ok (s\<lparr>PendingCloseContinuation := continuation\<rparr>)"
  shows "session_inv (BeginClose self epoch continuation failure shouldRetry completedAttempt reason s)"
proof (cases "IsCloseInFlight s")
  case True
  then show ?thesis
    using assms by (auto simp: BeginClose_def session_inv_def inv_defs)
next
  case False
  then have "Connection s \<noteq> 0" using assms by simp
  then show ?thesis
    using assms False
    by (cases "value_of (Replies s (Calls s)) = 0")
      (simp_all add: BeginClose_def Let_def session_inv_def inv_defs prim_defs scheduled_def answer_def)
qed

lemma CompleteFailure_inv:
  assumes "ready s" and "IsCurrent epoch s" and "transient \<Longrightarrow> Connection s \<noteq> 0"
  shows "session_inv (CompleteFailure self epoch result transient s)"
proof (cases "Connection s = 0")
  case True
  then have "ready (RevokeStateChanged s)"
    using assms by (auto simp: ready_def inv_defs prim_defs)
  then show ?thesis
    using assms True
    by (auto simp: CompleteFailure_def Let_def prim_defs intro: ScheduleReconnect_inv)
next
  case False
  then show ?thesis
    using assms
    by (auto simp: CompleteFailure_def Let_def ready_def inv_defs prim_defs intro!: BeginClose_inv)
qed

lemma BeginCreate_inv:
  assumes "ready s" and "Connection s = 0" and "IsCurrent epoch s" and "\<not> IsSuspended s"
  shows "session_inv (BeginCreate self epoch s)"
proof -
  define s1 where "s1 = Create (Publish ResultSuccess False ReasonNone (s\<lparr>Lifecycle := Connecting\<rparr>))"
  define s2 where "s2 = RegisterStateChanged s1"
  have s1: "ready s1" "IsCurrent epoch s1" "Lifecycle s1 = Connecting" "\<not> IsSuspended s1"
    using assms by (auto simp: s1_def Create_def Let_def ready_def inv_defs prim_defs IsCurrent_def)
  have s2: "ready s2" "IsCurrent epoch s2" "Lifecycle s2 = Connecting" "\<not> IsSuspended s2"
    "Connection s2 = Connection s1" if "Connection s1 \<noteq> 0"
    using s1 that
    by (auto simp: s2_def RegisterStateChanged_def ready_def inv_defs prim_defs IsCurrent_def split: reply.splits)
  have s3: "ready (called s2)" "IsCurrent epoch (called s2)"
    "session_inv ((called s2)\<lparr>Trace := t\<rparr>)" if "Connection s1 \<noteq> 0" for t
    using s2 that by (auto simp: session_inv_def ready_def inv_defs prim_defs IsCurrent_def)
  have "BeginCreate self epoch s =
     (if Connection s1 = 0 then CompleteFailure self epoch ResultFailed False s1
      else if value_of (answer s1) = 0 then CompleteFailure self epoch ResultFailed False s2
      else if answer s2 = Throws then CompleteFailure self epoch ResultFailed False (called s2)
      else (called s2)\<lparr>Trace := Trace s2 @ [EStart (Connection s2) epoch]\<rparr>)"
    using assms by (simp add: BeginCreate_def Let_def s1_def s2_def ready_def)
  then show ?thesis
    using s1 s2 s3 by (simp add: CompleteFailure_inv)
qed

lemma StartConnection_ready:
  assumes "ready s" and "Lifecycle s \<noteq> Connecting" and "Lifecycle s \<noteq> Disconnecting"
    and "\<not> IsSuspended s"
  shows "session_inv (StartConnection self operation openImmediately s)"
proof -
  define a where "a = (if operation \<noteq> AutomaticReconnect \<and> operation \<noteq> IncomingEnable
    then s\<lparr>IsReconnectCancelled := False, CompletedRetryAttempts := 0\<rparr> else s)"
  define b where "b = CancelTimer (a\<lparr>TransientOpenRetryAttempts := 0\<rparr>)"
  define c where "c = b\<lparr>CurrentOperation := operation,
    RetryEligible := (operation = AutomaticReconnect \<or> operation = Startup \<or> operation = OpResume),
    OpenImmediately := openImmediately, OperationEpoch := OperationEpoch b + 1\<rparr>"
  define d where "d = Publish ResultSuccess False ReasonNormal (RevokeStateChanged (c\<lparr>Lifecycle := Disconnecting,
    RestoreIncomingAfterClose := (IsIncomingEnabled c \<and> \<not> OpenImmediately c)\<rparr>))"
  have a: "ready a" "\<not> IsSuspended a" using assms by (auto simp: a_def ready_def inv_defs)
  then have c: "ready c" "\<not> IsSuspended c" "IsCurrent (OperationEpoch c) c"
    by (auto simp: b_def c_def ready_def inv_defs prim_defs IsCurrent_def)
  then have "session_inv (BeginClose self (OperationEpoch c) ContReplace ResultSuccess False False ReasonNone d)"
    if "Connection c \<noteq> 0"
    using that by (intro BeginClose_inv) (auto simp: d_def ready_def inv_defs prim_defs)
  moreover have "StartConnection self operation openImmediately s =
     (if Connection c \<noteq> 0 then BeginClose self (OperationEpoch c) ContReplace ResultSuccess False False ReasonNone d
      else BeginCreate self (OperationEpoch c) c)"
    using assms by (simp add: StartConnection_def Let_def a_def b_def c_def d_def ready_def owns_def)
  ultimately show ?thesis
    using c by (simp add: BeginCreate_inv)
qed

lemma StartConnection_inv:
  assumes "session_inv s"
  shows "session_inv (StartConnection self operation openImmediately s)"
proof (cases "IsShutdown s \<or> IsSuspended s \<or> DeviceId s = [] \<or> IsCloseInFlight s \<or>
    Lifecycle s = Connecting \<or> Lifecycle s = Disconnecting")
  case True
  with assms show ?thesis by (auto simp: StartConnection_def)
next
  case False
  have "ready s" using assms False by (auto simp: session_inv_def ready_def inv_defs)
  with False show ?thesis by (simp add: StartConnection_ready)
qed

lemma StartAfterResume_inv: "session_inv s \<Longrightarrow> session_inv (StartAfterResume self s)"
  by (simp add: StartAfterResume_def start_keeps)

lemma CompleteSuspendClose_inv:
  assumes "ready s" and "Connection s = 0" and "Lifecycle s = Failed \<or> Lifecycle s = Disconnecting"
    and "\<not> (\<not> IsSuspended s \<or> \<not> IsSuspendClosePending s \<or> SuspendCloseEpoch s \<noteq> epoch \<or> OperationEpoch s \<noteq> epoch)"
  shows "session_inv (CompleteSuspendClose self epoch s)"
proof -
  define t where "t = Publish ResultCancelled False ReasonNone
    ((reset_Connection s)\<lparr>StateChangedToken := 0, IsSuspendClosePending := False, Lifecycle := Idle\<rparr>)"
  have t: "session_inv t" "\<not> IsCloseInFlight t"
    using assms by (auto simp: t_def session_inv_def ready_def inv_defs prim_defs)
  have "CompleteSuspendClose self epoch s =
    (if \<not> ResumeRequested t then t
     else StartAfterResume self (t\<lparr>ResumeRequested := False, IsSuspended := False\<rparr>))"
    using assms by (simp add: CompleteSuspendClose_def Let_def ready_def t_def)
  then show ?thesis
    using t by (simp add: StartAfterResume_inv session_inv_release)
qed

lemma ContinueAfterClose_inv:
  assumes "owns s" and "suspended_ok s" and "\<not> IsCloseInFlight s" and "\<not> IsShutdown s"
    and "Connection s = 0" and "IsCurrent epoch s"
    and "Lifecycle s = Disconnecting \<or> Lifecycle s = Failed"
    and "\<not> IsCloseContinuationAbandoned s \<Longrightarrow> continuation_ok s"
  shows "session_inv (ContinueAfterClose self epoch cooled s)"
proof (cases "IsCloseContinuationAbandoned s")
  case True
  then show ?thesis
    using assms
    apply (simp add: ContinueAfterClose_def Let_def)
    apply (intro conjI impI)
    apply (rule RestoreIncomingListenerAfterTerminal_inv; simp add: ready_def inv_defs prim_defs)+
    done
next
  case False
  define s1 where "s1 = s\<lparr>PendingCloseContinuation := ContIdle, PendingCloseFailure := ResultSuccess,
                  PendingCloseRetryEligible := False, PendingCloseCompletedAttempt := False,
                  PendingCloseDisconnectReason := ReasonNone\<rparr>"
  have s1: "ready s1" "Connection s1 = 0" "IsCurrent epoch s1" "Lifecycle s1 = Lifecycle s"
      "IsSuspended s1 = IsSuspended s"
    using assms False by (simp_all add: s1_def ready_def inv_defs IsCurrent_def)
  have cont: "continuation_ok s" using assms False by simp
  have eq: "ContinueAfterClose self epoch cooled s =
     (case PendingCloseContinuation s of
        ContReplace \<Rightarrow> BeginCreate self epoch s1
      | ContRetry \<Rightarrow> ScheduleReconnect self (PendingCloseFailure s) (PendingCloseRetryEligible s)
           (PendingCloseCompletedAttempt s) (PendingCloseDisconnectReason s) s1
      | ContTransientOpenRetry \<Rightarrow>
           ScheduleTransientOpenRetry self epoch (PendingCloseFailure s) cooled s1
      | ContSuspend \<Rightarrow> CompleteSuspendClose self epoch s1
      | ContIdle \<Rightarrow>
           let t = Publish (PendingCloseFailure s) False (PendingCloseDisconnectReason s)
                     (s1\<lparr>Lifecycle := Idle\<rparr>) in
           if RestoreIncomingAfterClose t \<and> IsIncomingEnabled t \<and> \<not> IsSuspended t
           then self (CallStartConnection IncomingEnable False) (t\<lparr>RestoreIncomingAfterClose := False\<rparr>)
           else t)"
    using assms False
    by (cases "PendingCloseContinuation s") (simp_all add: ContinueAfterClose_def Let_def s1_def)
  show ?thesis
  proof (cases "PendingCloseContinuation s")
    case ContIdle
    have "session_inv (s1\<lparr>Lifecycle := Idle\<rparr>)"
      using s1 by (auto simp: session_inv_def ready_def inv_defs)
    then show ?thesis by (simp add: eq ContIdle Let_def start_keeps)
  next
    case ContReplace
    then show ?thesis using s1 cont by (simp add: eq BeginCreate_inv continuation_ok_def)
  next
    case ContRetry
    then show ?thesis using s1 by (simp add: eq ScheduleReconnect_inv)
  next
    case ContTransientOpenRetry
    then have "\<not> IsSuspended s" using cont by (simp add: continuation_ok_def)
    then show ?thesis
      using s1 assms ContTransientOpenRetry by (auto simp: eq intro!: ScheduleTransientOpenRetry_inv)
  next
    case ContSuspend
    have "IsSuspended s1" "IsSuspendClosePending s1" "SuspendCloseEpoch s1 = epoch" "OperationEpoch s1 = epoch"
      using cont assms ContSuspend by (simp_all add: continuation_ok_def IsCurrent_def s1_def)
    then have "session_inv (CompleteSuspendClose self epoch s1)"
      using s1 assms by (intro CompleteSuspendClose_inv) auto
    then show ?thesis by (simp add: eq ContSuspend)
  qed
qed

end

text \<open>
  The knot: \<open>dispatch\<close> keeps the contract at every bound, so the locale's lemmas hold of the methods
  as the session calls them.
\<close>

lemma dispatch_start_inv:
  "session_inv s \<Longrightarrow> session_inv (dispatch n (CallStartConnection operation openImmediately) s)"
proof (induction n arbitrary: s operation openImmediately)
  case 0
  then show ?case by simp
next
  case (Suc n)
  have "restart (dispatch n)" using Suc.IH by unfold_locales
  then show ?case using Suc.prems by (simp add: restart.StartConnection_inv)
qed

interpretation go: restart go
  by unfold_locales (rule dispatch_start_inv)

subsection \<open>Every event keeps the invariant\<close>

lemma session_inv_ready:
  "session_inv s \<Longrightarrow> \<not> IsShutdown s \<Longrightarrow> \<not> IsCloseInFlight s \<Longrightarrow> ready s"
  by (auto simp: session_inv_def ready_def inv_defs)

lemma current_connection:
  "session_inv s \<Longrightarrow> IsCurrentConnection epoch p s \<Longrightarrow> p \<noteq> 0 \<Longrightarrow>
     ready s \<and> IsCurrent epoch s \<and> Connection s \<noteq> 0 \<and> \<not> IsSuspended s"
  by (auto simp: session_inv_def ready_def inv_defs IsCurrentConnection_def IsCurrent_def)

lemma OnStarted_inv:
  assumes "session_inv s" and "p \<noteq> 0"
  shows "session_inv (OnStarted epoch p result s)"
proof (cases "IsCurrentConnection epoch p s")
  case True
  then have *: "ready s" "IsCurrent epoch s" "Connection s \<noteq> 0"
    using assms current_connection by blast+
  then have "ready (called s)" "IsCurrent epoch (called s)"
    by (auto simp: ready_def inv_defs prim_defs IsCurrent_def)
  moreover have "session_inv (s\<lparr>Lifecycle := Idle\<rparr>)" "session_inv ((called s)\<lparr>Trace := t\<rparr>)" for t
    using * assms by (auto simp: session_inv_def ready_def inv_defs prim_defs frame)
  ultimately show ?thesis
    using * assms by (auto simp: OnStarted_def intro: go.CompleteFailure_inv)
qed (use assms in \<open>simp add: OnStarted_def\<close>)

lemma OnOpened_inv:
  assumes "session_inv s" and "p \<noteq> 0"
  shows "session_inv (OnOpened epoch p openResult s)"
proof (cases "IsCurrentConnection epoch p s")
  case True
  then have *: "ready s" "IsCurrent epoch s" "Connection s \<noteq> 0"
    using assms current_connection by blast+
  then have "session_inv (s\<lparr>Lifecycle := Connected, CompletedRetryAttempts := 0, RetryEligible := b\<rparr>)" for b
    by (auto simp: session_inv_def ready_def inv_defs)
  then show ?thesis
    using * assms by (auto simp: OnOpened_def intro: go.CompleteFailure_inv)
qed (use assms in \<open>simp add: OnOpened_def\<close>)

lemma OnPostFailure_inv:
  assumes "session_inv s" and "p \<noteq> 0"
  shows "session_inv (OnPostFailure epoch p s)"
  using assms current_connection [of s epoch p]
  by (auto simp: OnPostFailure_def intro: go.CompleteFailure_inv)

lemma OnStateChanged_inv:
  assumes "session_inv s" and "p \<noteq> 0"
  shows "session_inv (OnStateChanged epoch p state s)"
proof (cases "IsCurrentConnection epoch p s")
  case True
  then have *: "ready s" "IsCurrent epoch s" "Connection s \<noteq> 0"
    using assms current_connection by blast+
  define t where "t = reset_Connection (RevokeStateChanged s)"
  have t: "ready (t\<lparr>OperationEpoch := e\<rparr>)" "session_inv (t\<lparr>OperationEpoch := e, Lifecycle := Idle\<rparr>)" for e
    using * by (auto simp: t_def session_inv_def ready_def inv_defs prim_defs)
  have o: "session_inv ((CancelTimer s)\<lparr>Lifecycle := Connected, CompletedRetryAttempts := 0, RetryEligible := b\<rparr>)"
    "session_inv (s\<lparr>Lifecycle := Idle, RetryEligible := b\<rparr>)" for b
    using * by (auto simp: session_inv_def ready_def inv_defs prim_defs)
  show ?thesis
    using * assms True t o
    by (simp add: OnStateChanged_def Let_def t_def [symmetric] go.ScheduleReconnect_inv go.StartConnection_inv)
qed (use assms in \<open>simp add: OnStateChanged_def\<close>)

lemma CompleteCloseCooldown_inv:
  assumes "owns s" and "suspended_ok s" and "closing_ok s" and "\<not> IsShutdown s"
    and "Lifecycle s = Disconnecting \<or> Lifecycle s = Failed"
  shows "IsCloseInFlight s \<Longrightarrow> IsCloseCooldown s \<Longrightarrow> closeBarrierEpoch = CloseBarrierEpoch s \<Longrightarrow>
    session_inv (CompleteCloseCooldown closeBarrierEpoch cooled s)"
  using assms
  by (auto simp: CompleteCloseCooldown_def Let_def inv_defs prim_defs IsCurrent_def
    intro!: go.ContinueAfterClose_inv)

lemma CompleteCloseCooldown_event_inv:
  "session_inv s \<Longrightarrow> session_inv (CompleteCloseCooldown closeBarrierEpoch cooled s)"
  using CompleteCloseCooldown_inv [of s closeBarrierEpoch cooled]
  by (cases "IsShutdown s \<or> \<not> IsCloseInFlight s \<or> \<not> IsCloseCooldown s \<or> closeBarrierEpoch \<noteq> CloseBarrierEpoch s")
    (auto simp: session_inv_def phase_ok_def CompleteCloseCooldown_def)

lemma CompleteCloseBarrier_inv:
  assumes "session_inv s"
  shows "session_inv (CompleteCloseBarrier closeBarrierEpoch timedOut s)"
proof (cases "IsShutdown s \<or> \<not> IsCloseInFlight s \<or> IsCloseCooldown s \<or> closeBarrierEpoch \<noteq> CloseBarrierEpoch s")
  case True
  then show ?thesis using assms by (auto simp: CompleteCloseBarrier_def)
next
  case False
  define a where "a = AbandonCloseContinuation (Publish ResultTimedOut True (PendingCloseDisconnectReason s)
    ((CancelCloseBarrierTimer s)\<lparr>Lifecycle := Failed\<rparr>))"
  define t where "t = (reset_ClosingConnection (CancelCloseBarrierTimer s))
    \<lparr>StateChangedToken := 0, IsCloseCooldown := True\<rparr>"
  define u where "u = (after_schedule CloseBarrierCooldown (CloseCooldownTimer closeBarrierEpoch) t)
    \<lparr>CloseBarrierTimer := scheduled (CloseCooldownTimer closeBarrierEpoch) t\<rparr>"
  have "session_inv u" "session_inv a"
    using assms False by (auto simp: a_def u_def t_def session_inv_def inv_defs prim_defs)
  moreover have "CompleteCloseBarrier closeBarrierEpoch timedOut s =
    (if timedOut then a
     else if CloseBarrierTimer u = None then CompleteCloseCooldown closeBarrierEpoch False u else u)"
    using False by (simp add: CompleteCloseBarrier_def Let_def a_def t_def u_def prim_defs)
  ultimately show ?thesis by (simp add: CompleteCloseCooldown_event_inv)
qed

lemma OnRetryTimer_inv:
  assumes "session_inv s"
  shows "session_inv (OnRetryTimer timerEpoch epoch s)"
proof (cases "Lifecycle s = WaitingForReconnect \<and> \<not> IsShutdown s \<and> \<not> IsSuspended s")
  case True
  define t where "t = s\<lparr>ReconnectTimer := None\<rparr>"
  have "ready t" "Lifecycle t \<noteq> Connecting" "Lifecycle t \<noteq> Disconnecting" "\<not> IsSuspended t"
    using True assms by (auto simp: t_def session_inv_def ready_def inv_defs)
  then show ?thesis
    using assms by (simp add: OnRetryTimer_def t_def [symmetric] go.StartConnection_ready)
qed (use assms in \<open>auto simp: OnRetryTimer_def\<close>)

lemma OnTransientOpenRetryTimer_inv:
  assumes "session_inv s"
    and "timerEpoch = TimerEpoch s \<Longrightarrow> epoch = OperationEpoch s \<Longrightarrow> Lifecycle s = WaitingForReconnect \<Longrightarrow>
      ReconnectTimer s = Some (TransientOpenRetryTimer timerEpoch epoch)"
  shows "session_inv (OnTransientOpenRetryTimer timerEpoch epoch s)"
proof (cases "IsShutdown s \<or> IsSuspended s \<or> timerEpoch \<noteq> TimerEpoch s \<or> epoch \<noteq> OperationEpoch s \<or>
    Lifecycle s \<noteq> WaitingForReconnect")
  case False
  define t where "t = s\<lparr>ReconnectTimer := None\<rparr>"
  have "ready t" "Connection t = 0" "IsCurrent epoch t" "\<not> IsSuspended t"
    using False assms by (auto simp: t_def session_inv_def ready_def inv_defs IsCurrent_def)
  then have "session_inv (BeginCreate go epoch t)" by (rule go.BeginCreate_inv)
  then show ?thesis using False by (simp add: OnTransientOpenRetryTimer_def t_def)
qed (use assms in \<open>auto simp: OnTransientOpenRetryTimer_def\<close>)

lemma live_frame [simp]:
  "live (CancelTimer s) = live s"
  "live (Publish result terminal reason s) = live s"
  "live (s\<lparr>OperationEpoch := e\<rparr>) = live s"
  "live (s\<lparr>Lifecycle := l\<rparr>) = live s"
  "live (s\<lparr>RetryEligible := b\<rparr>) = live s"
  "live (s\<lparr>IsReconnectCancelled := b\<rparr>) = live s"
  "live (s\<lparr>RestoreIncomingAfterClose := b\<rparr>) = live s"
  "live (s\<lparr>IsIncomingEnabled := b\<rparr>) = live s"
  "live (s\<lparr>IsReconnectEnabled := b\<rparr>) = live s"
  "live (s\<lparr>CurrentOperation := o'\<rparr>) = live s"
  "live (s\<lparr>OpenImmediately := b\<rparr>) = live s"
  "live (s\<lparr>CompletedRetryAttempts := n\<rparr>) = live s"
  "live (s\<lparr>TransientOpenRetryAttempts := n\<rparr>) = live s"
  by (simp_all add: live_def inv_defs prim_defs)

lemma prim_frame [simp]:
  "Connection (CancelTimer s) = Connection s" "IsCloseInFlight (CancelTimer s) = IsCloseInFlight s"
  "Lifecycle (CancelTimer s) = Lifecycle s" "IsSuspended (CancelTimer s) = IsSuspended s"
  "Connection (Publish r t d s) = Connection s" "IsCloseInFlight (Publish r t d s) = IsCloseInFlight s"
  "Lifecycle (Publish r t d s) = Lifecycle s" "IsSuspended (Publish r t d s) = IsSuspended s"
  "Connection (RevokeStateChanged s) = Connection s" "IsCloseInFlight (RevokeStateChanged s) = IsCloseInFlight s"
  "Lifecycle (RevokeStateChanged s) = Lifecycle s" "IsSuspended (RevokeStateChanged s) = IsSuspended s"
  by (simp_all add: prim_defs)

lemma session_inv_live: "session_inv s \<Longrightarrow> \<not> IsShutdown s \<Longrightarrow> live s"
  by (simp add: session_inv_def live_def closing_ok_def)

lemma live_RevokeStateChanged [simp]: "live s \<Longrightarrow> live (RevokeStateChanged s)"
  by (auto simp: live_def inv_defs prim_defs)

lemma live_ready: "live s \<Longrightarrow> \<not> IsCloseInFlight s \<Longrightarrow> ready s"
  by (auto simp: live_def ready_def)

lemma live_idle: "live s \<Longrightarrow> \<not> IsCloseInFlight s \<Longrightarrow> Lifecycle s = Idle \<Longrightarrow> session_inv s"
  by (auto simp: live_def session_inv_def inv_defs)

lemma live_BeginClose:
  assumes "live s" and "Connection s \<noteq> 0 \<or> IsCloseInFlight s" and "Lifecycle s = Disconnecting"
    and "continuation = ContIdle \<or> continuation = ContRetry \<or> (continuation = ContReplace \<and> \<not> IsSuspended s)"
  shows "session_inv (BeginClose go epoch continuation failure shouldRetry completedAttempt reason s)"
  using assms by (intro go.BeginClose_inv) (auto simp: live_def continuation_ok_def)

lemma CancelAutomaticReconnect_inv:
  assumes "session_inv s" and "\<not> IsShutdown s"
  shows "session_inv (CancelAutomaticReconnect restoreIncoming s)"
proof -
  define t where "t = (CancelTimer s)\<lparr>RetryEligible := False\<rparr>"
  define u where "u = t\<lparr>OperationEpoch := OperationEpoch t + 1\<rparr>"
  define v where "v = RevokeStateChanged (u\<lparr>Lifecycle := Disconnecting,
    RestoreIncomingAfterClose := (restoreIncoming \<and> IsIncomingEnabled u)\<rparr>)"
  define w where "w = Publish ResultCancelled False ReasonNone (u\<lparr>Lifecycle := Idle\<rparr>)"
  have live: "live u" using assms by (simp add: u_def t_def session_inv_live)
  have t: "session_inv t" if "Lifecycle t \<noteq> WaitingForReconnect"
    using assms that by (auto simp: t_def session_inv_def inv_defs CancelTimer_def)
  have v: "session_inv (BeginClose go (OperationEpoch u) ContIdle ResultCancelled False False ReasonNone v)"
    if "Connection u \<noteq> 0 \<or> IsCloseInFlight u"
    using live that by (intro live_BeginClose) (auto simp: v_def)
  have w: "session_inv w" if "\<not> IsCloseInFlight u"
    using live that by (intro live_idle) (auto simp: w_def)
  have "CancelAutomaticReconnect restoreIncoming s =
    (if \<not> (Lifecycle t = WaitingForReconnect \<or>
         (Lifecycle t = Connecting \<and> CurrentOperation t = AutomaticReconnect) \<or>
         (Lifecycle t = Disconnecting \<and> CurrentOperation t = AutomaticReconnect))
     then Publish ResultCancelled False ReasonNone t
     else if Connection u \<noteq> 0 \<or> IsCloseInFlight u
     then BeginClose go (OperationEpoch u) ContIdle ResultCancelled False False ReasonNone v
     else if restoreIncoming \<and> IsIncomingEnabled w then StartConnection go IncomingEnable False w else w)"
    by (simp only: CancelAutomaticReconnect_def Let_def t_def u_def v_def w_def)
  then show ?thesis
    using t v w by (simp add: go.StartConnection_inv)
qed

lemma Disconnect_inv:
  assumes "session_inv s"
  shows "session_inv (snd (Disconnect restoreIncoming s))"
proof (cases "IsShutdown s \<or> (IsCloseInFlight s \<and> IsCloseContinuationAbandoned s)")
  case True
  with assms show ?thesis by (auto simp: Disconnect_def)
next
  case False
  define t where "t = CancelTimer s"
  define u where "u = t\<lparr>IsReconnectCancelled := True, RetryEligible := False, OperationEpoch := OperationEpoch t + 1,
    RestoreIncomingAfterClose := restoreIncoming\<rparr>"
  define v where "v = Publish ResultSuccess False ReasonNormal (u\<lparr>Lifecycle := Idle\<rparr>)"
  have live: "live u" using assms False by (simp add: u_def t_def session_inv_live)
  have v: "session_inv v" if "\<not> IsCloseInFlight u"
    using live that by (intro live_idle) (auto simp: v_def)
  have w: "session_inv (BeginClose go e ContIdle r False False d (Publish ResultSuccess False ReasonNormal
      (RevokeStateChanged (u\<lparr>Lifecycle := Disconnecting\<rparr>))))"
    if "Connection u \<noteq> 0 \<or> IsCloseInFlight u" for e r d
    using live that by (intro live_BeginClose) auto
  have "snd (Disconnect restoreIncoming s) =
     (if Connection u = 0 \<and> \<not> IsCloseInFlight u then
        if RestoreIncomingAfterClose v \<and> IsIncomingEnabled v \<and> \<not> IsSuspended v
        then StartConnection go IncomingEnable False (v\<lparr>RestoreIncomingAfterClose := False\<rparr>) else v
      else BeginClose go (OperationEpoch u) ContIdle ResultSuccess False False ReasonNone
        (Publish ResultSuccess False ReasonNormal (RevokeStateChanged (u\<lparr>Lifecycle := Disconnecting\<rparr>))))"
    using False by (auto simp: Disconnect_def Let_def t_def u_def v_def)
  then show ?thesis using v w by (simp add: go.StartConnection_inv)
qed

lemma HandleDeviceRemoved_inv:
  assumes "session_inv s"
  shows "session_inv (HandleDeviceRemoved s)"
proof (cases "IsShutdown s")
  case False
  define t where "t = (CancelTimer s)\<lparr>RestoreIncomingAfterClose := False\<rparr>"
  define u where "u = t\<lparr>OperationEpoch := OperationEpoch t + 1\<rparr>"
  have live: "live u" "live t" using assms False by (simp_all add: u_def t_def session_inv_live)
  have close: "session_inv (BeginClose go e c r b1 b2 d (Publish r2 b3 d2 (RevokeStateChanged (u\<lparr>Lifecycle := Disconnecting\<rparr>))))"
    "session_inv (BeginClose go e c r b1 b2 d (Publish r2 b3 d2 (u\<lparr>Lifecycle := Disconnecting\<rparr>)))"
    if "Connection t \<noteq> 0 \<or> IsCloseInFlight t" "c = ContIdle \<or> c = ContRetry" for e c r b1 b2 d r2 b3 d2
    using live that by (auto simp: u_def intro!: live_BeginClose)
  have retry: "session_inv (ScheduleReconnect go r b1 b2 d u)" if "\<not> IsCloseInFlight t" for r b1 b2 d
    using live that by (intro go.ScheduleReconnect_inv live_ready) (auto simp: u_def)
  have "HandleDeviceRemoved s =
    (if Connection t = 0 \<and> \<not> IsCloseInFlight t \<and> Lifecycle t = Idle \<and> \<not> RetryEligible t
     then Publish ResultSuccess False ReasonNone t
     else if Connection t \<noteq> 0 \<and> Lifecycle t = Idle \<and> IsIncomingEnabled t \<and> \<not> RetryEligible t then
       BeginClose go (OperationEpoch u) ContIdle ResultSuccess False False ReasonNone
         (Publish ResultSuccess False ReasonNone (RevokeStateChanged (u\<lparr>Lifecycle := Disconnecting\<rparr>)))
     else if IsCloseInFlight t then
       BeginClose go (OperationEpoch u) ContRetry ResultFailed (RetryEligible t) False ReasonDeviceRemoved
         (Publish ResultFailed False ReasonDeviceRemoved (u\<lparr>Lifecycle := Disconnecting\<rparr>))
     else if Connection t = 0 then
       ScheduleReconnect go ResultFailed (RetryEligible t) False ReasonDeviceRemoved u
     else BeginClose go (OperationEpoch u) ContRetry ResultFailed (RetryEligible t) False ReasonDeviceRemoved
         (Publish ResultFailed False ReasonDeviceRemoved (RevokeStateChanged (u\<lparr>Lifecycle := Disconnecting\<rparr>))))"
    using False by (simp add: HandleDeviceRemoved_def Let_def t_def u_def)
  then show ?thesis using live close retry by (simp add: live_idle)
qed (use assms in \<open>simp add: HandleDeviceRemoved_def\<close>)

lemma SupersedePowerTransitionRecovery_inv:
  assumes "session_inv s" and "\<not> IsShutdown s"
  shows "session_inv (SupersedePowerTransitionRecovery operation openImmediately s)"
proof -
  define t where "t = s\<lparr>IsSuspended := False, ResumeRequired := False, ResumeRequested := False,
    IsSuspendClosePending := False\<rparr>"
  define a where "a = CancelTimer (t\<lparr>IsReconnectCancelled := False, CompletedRetryAttempts := 0,
    TransientOpenRetryAttempts := 0\<rparr>)"
  define b where "b = a\<lparr>CurrentOperation := operation, RetryEligible := False,
    OpenImmediately := openImmediately, OperationEpoch := OperationEpoch a + 1\<rparr>"
  define c where "c = Publish ResultSuccess False ReasonNone (b\<lparr>Lifecycle := Disconnecting,
    RestoreIncomingAfterClose := (IsIncomingEnabled b \<and> \<not> OpenImmediately b)\<rparr>)"
  have t: "live t" "\<not> IsSuspended t" "session_inv t" if "\<not> IsCloseInFlight s \<or> IsCloseContinuationAbandoned s"
    using assms that by (auto simp: t_def live_def session_inv_def inv_defs frame)
  have "live t" "\<not> IsSuspended t"
    using assms by (auto simp: t_def live_def session_inv_def inv_defs)
  then have c: "session_inv (BeginClose go e ContReplace r b1 b2 d c)" if "IsCloseInFlight s" for e r b1 b2 d
    using that by (intro live_BeginClose) (auto simp: c_def b_def a_def t_def)
  have "SupersedePowerTransitionRecovery operation openImmediately s =
    (if \<not> IsCloseInFlight t then StartConnection go operation openImmediately t
     else if IsCloseContinuationAbandoned t then t
     else BeginClose go (OperationEpoch b) ContReplace ResultSuccess False False ReasonNone c)"
    by (simp add: SupersedePowerTransitionRecovery_def Let_def t_def a_def b_def c_def)
  then show ?thesis using t c by (simp add: go.StartConnection_inv t_def)
qed

lemma Connect_inv: "session_inv s \<Longrightarrow> session_inv (Connect operation openImmediately s)"
  by (simp add: Connect_def SupersedePowerTransitionRecovery_inv go.StartConnection_inv)

lemma SetReconnectEnabled_inv: "session_inv s \<Longrightarrow> session_inv (SetReconnectEnabled enabled s)"
  by (simp add: SetReconnectEnabled_def Let_def CancelAutomaticReconnect_inv)

lemma CancelReconnect_inv: "session_inv s \<Longrightarrow> session_inv (CancelReconnect s)"
  by (simp add: CancelReconnect_def CancelAutomaticReconnect_inv session_inv_CancelReconnectFlag)

lemma SetIncomingEnabled_inv: "session_inv s \<Longrightarrow> session_inv (SetIncomingEnabled enabled s)"
  by (simp add: SetIncomingEnabled_def Let_def Disconnect_inv go.StartConnection_inv)

lemma Rename_inv: "session_inv s \<Longrightarrow> session_inv (Rename deviceName s)"
  by (simp add: Rename_def)

lemma Suspend_inv:
  assumes "session_inv s"
  shows "session_inv (Suspend s)"
proof (cases "IsShutdown s \<or> IsSuspended s")
  case False
  define t where "t = CancelTimer (s\<lparr>ResumeRequired := (Connection s \<noteq> 0 \<or> IsCloseInFlight s \<or> IsBusy s),
    ResumeOpenImmediately := OpenImmediately s,
    ResumeOperation := (if OpenImmediately s then OpResume else IncomingEnable), IsSuspended := True\<rparr>)"
  define u where "u = t\<lparr>OperationEpoch := OperationEpoch t + 1\<rparr>"
  have u: "owns u" "IsCloseContinuationAbandoned u \<longrightarrow> IsCloseInFlight u" "\<not> IsShutdown u" "IsSuspended u"
    using assms False by (auto simp: u_def t_def session_inv_def inv_defs prim_defs)
  have v: "session_inv (BeginSuspendClose (OperationEpoch u) u)" if "Connection u \<noteq> 0 \<or> IsCloseInFlight u"
    unfolding BeginSuspendClose_def
    using u that by (intro go.BeginClose_inv) (auto simp: inv_defs prim_defs)
  have "session_inv (u\<lparr>Lifecycle := Idle\<rparr>)" if "\<not> (Connection u \<noteq> 0 \<or> IsCloseInFlight u)"
    using u that by (auto simp: session_inv_def inv_defs)
  moreover have "Suspend s = (if Connection u \<noteq> 0 \<or> IsCloseInFlight u then BeginSuspendClose (OperationEpoch u) u
    else Publish ResultCancelled False ReasonNone (u\<lparr>Lifecycle := Idle\<rparr>))"
    using False by (simp add: Suspend_def Let_def t_def u_def)
  ultimately show ?thesis using v by simp
qed (use assms in \<open>auto simp: Suspend_def\<close>)

lemma Resume_inv: "session_inv s \<Longrightarrow> session_inv (Resume s)"
  by (auto simp: Resume_def intro!: go.StartAfterResume_inv session_inv_release)
    (auto simp: session_inv_def inv_defs)

lemma ResumeIdleAfterPowerTransition_inv:
  "session_inv s \<Longrightarrow> session_inv (ResumeIdleAfterPowerTransition s)"
  by (auto simp: ResumeIdleAfterPowerTransition_def intro!: session_inv_release)
    (auto simp: session_inv_def inv_defs)

lemma CancelPowerTransitionRecovery_inv:
  assumes "session_inv s"
    and "\<not> (IsCloseInFlight s \<and> \<not> IsCloseContinuationAbandoned s \<and> PendingCloseContinuation s = ContSuspend)"
  shows "session_inv (CancelPowerTransitionRecovery s)"
  using assms by (simp add: CancelPowerTransitionRecovery_def session_inv_release)

lemma Shutdown_inv: "session_inv s \<Longrightarrow> session_inv (Shutdown s)"
  by (auto simp: Shutdown_def CloseForShutdown_def Let_def session_inv_def inv_defs prim_defs)

lemmas session_op_inv =
  Rename_inv HandleDeviceRemoved_inv Connect_inv Disconnect_inv CancelReconnect_inv
  SetReconnectEnabled_inv SetIncomingEnabled_inv Suspend_inv Resume_inv
  ResumeIdleAfterPowerTransition_inv CancelPowerTransitionRecovery_inv Shutdown_inv
  OnStarted_inv OnOpened_inv OnStateChanged_inv OnPostFailure_inv CompleteCloseBarrier_inv
  CompleteCloseCooldown_event_inv OnRetryTimer_inv OnTransientOpenRetryTimer_inv

lemma session_step_inv:
  "session_inv s \<Longrightarrow> session_enabled s e \<Longrightarrow> session_inv (session_step s e)"
  by (cases e) (simp_all add: session_op_inv)

lemma new_session_inv: "deviceId \<noteq> [] \<Longrightarrow> session_inv (new_session deviceId deviceName sink replies)"
  by (simp add: new_session_def session_inv_def inv_defs)

interpretation session: machine session_start session_step session_enabled session_inv
  by unfold_locales (auto simp: session_start_def new_session_inv session_step_inv)

end
