(* ===== verification/Session_Properties.thy ===== *)
theory Session_Properties
  imports Session_Invariant
begin

section \<open>Properties of the device session\<close>

text \<open>
  The bound on the nesting of the mutually recursive private methods is never hit.
\<close>

subsection \<open>The nesting of calls is bounded\<close>

text \<open>
  A method restarts the listener only where the failed operation wanted to open at once, and the
  restarted listener does not: \<open>restart_quiet\<close> is what a method needs of the open calls so that the
  bound is not hit.
\<close>

definition restart_quiet :: "bool \<Rightarrow> self \<Rightarrow> bool" where
  "restart_quiet openImmediately self \<longleftrightarrow>
     (openImmediately \<longrightarrow> (\<forall>s. Exhausted (self (CallStartConnection IncomingEnable False) s) = Exhausted s))"

lemma prim_quiet [simp]:
  "Exhausted (Publish r t d s) = Exhausted s" "OpenImmediately (Publish r t d s) = OpenImmediately s"
  "Exhausted (CancelTimer s) = Exhausted s" "OpenImmediately (CancelTimer s) = OpenImmediately s"
  "Exhausted (CancelCloseBarrierTimer s) = Exhausted s"
  "OpenImmediately (CancelCloseBarrierTimer s) = OpenImmediately s"
  "Exhausted (RevokeStateChanged s) = Exhausted s"
  "OpenImmediately (RevokeStateChanged s) = OpenImmediately s"
  "Exhausted (reset_Connection s) = Exhausted s" "OpenImmediately (reset_Connection s) = OpenImmediately s"
  "Exhausted (reset_ClosingConnection s) = Exhausted s"
  "Exhausted (called s) = Exhausted s" "OpenImmediately (called s) = OpenImmediately s"
  "Exhausted (after_schedule n c s) = Exhausted s"
  "OpenImmediately (after_schedule n c s) = OpenImmediately s"
  "Exhausted (AbandonCloseContinuation s) = Exhausted s"
  by (simp_all add: prim_defs)

lemma RestoreIncoming_quiet:
  "restart_quiet (OpenImmediately s) self \<Longrightarrow>
     Exhausted (RestoreIncomingListenerAfterTerminal self s) = Exhausted s"
  by (simp add: RestoreIncomingListenerAfterTerminal_def Let_def restart_quiet_def)

lemma fail_terminal_quiet:
  "restart_quiet (OpenImmediately s) self \<Longrightarrow>
     Exhausted (fail_terminal self result reason s) = Exhausted s"
  by (simp add: fail_terminal_def RestoreIncoming_quiet)

lemma ScheduleReconnect_quiet:
  "restart_quiet (OpenImmediately s) self \<Longrightarrow>
     Exhausted (ScheduleReconnect self result shouldRetry completedAttempt reason s) = Exhausted s"
  by (simp add: ScheduleReconnect_def Let_def fail_terminal_quiet)

lemma ScheduleTransientOpenRetry_quiet:
  "restart_quiet (OpenImmediately s) self \<Longrightarrow>
     Exhausted (ScheduleTransientOpenRetry self epoch result cooled s) = Exhausted s"
  by (simp add: ScheduleTransientOpenRetry_def Let_def fail_terminal_quiet)

lemma BeginClose_quiet:
  "Connection s \<noteq> 0 \<or> IsCloseInFlight s \<Longrightarrow>
     Exhausted (BeginClose self epoch continuation failure shouldRetry completedAttempt reason s) = Exhausted s"
  by (auto simp: BeginClose_def Let_def)

lemma CompleteFailure_quiet:
  "restart_quiet (OpenImmediately s) self \<Longrightarrow>
     Exhausted (CompleteFailure self epoch result transient s) = Exhausted s"
  by (cases "OpenImmediately s")
    (simp_all add: CompleteFailure_def Let_def ScheduleTransientOpenRetry_quiet ScheduleReconnect_quiet
      BeginClose_quiet)

lemma Create_simps [simp]:
  "Exhausted (Create s) = Exhausted s" "OpenImmediately (Create s) = OpenImmediately s"
  by (simp_all add: Create_def Let_def)

lemma RegisterStateChanged_simps [simp]:
  "Exhausted (RegisterStateChanged s) = Exhausted s"
  "OpenImmediately (RegisterStateChanged s) = OpenImmediately s"
  by (simp_all add: RegisterStateChanged_def called_def split: reply.split)

lemma BeginCreate_quiet:
  "restart_quiet (OpenImmediately s) self \<Longrightarrow> Exhausted (BeginCreate self epoch s) = Exhausted s"
  by (simp add: BeginCreate_def Let_def CompleteFailure_quiet)

lemma StartConnection_quiet:
  "restart_quiet openImmediately self \<Longrightarrow>
     Exhausted (StartConnection self operation openImmediately s) = Exhausted s"
  by (simp add: StartConnection_def Let_def BeginClose_quiet BeginCreate_quiet)

lemma dispatch_start_quiet:
  "2 \<le> n \<Longrightarrow> Exhausted (dispatch n (CallStartConnection operation openImmediately) s) = Exhausted s"
proof -
  assume "2 \<le> n"
  then obtain k where n: "n = Suc (Suc k)" by (metis Suc_le_D numeral_2_eq_2 Suc_le_mono)
  have "restart_quiet b (dispatch (Suc k))" for b
    by (simp add: restart_quiet_def StartConnection_quiet)
  then show ?thesis by (simp add: n StartConnection_quiet)
qed

lemma StartAfterResume_quiet: "2 \<le> n \<Longrightarrow> Exhausted (StartAfterResume (dispatch n) s) = Exhausted s"
  by (simp add: StartAfterResume_def dispatch_start_quiet)

lemma dispatch_restart_quiet: "2 \<le> n \<Longrightarrow> restart_quiet b (dispatch n)"
  by (simp add: restart_quiet_def dispatch_start_quiet)

lemma ContinueAfterClose_quiet:
  assumes "2 \<le> n"
  shows "Exhausted (ContinueAfterClose (dispatch n) epoch cooled s) = Exhausted s"
  using assms
  by (cases "PendingCloseContinuation s")
    (simp_all add: ContinueAfterClose_def CompleteSuspendClose_def Let_def dispatch_start_quiet
      dispatch_restart_quiet RestoreIncoming_quiet BeginCreate_quiet ScheduleReconnect_quiet
      ScheduleTransientOpenRetry_quiet StartAfterResume_quiet)

lemma go_BeginClose_quiet:
  "Exhausted (BeginClose go epoch continuation failure shouldRetry completedAttempt reason s) = Exhausted s"
proof -
  have "Exhausted (go (CallContinueAfterClose e b) t) = Exhausted t" for e b t
    by (simp add: eval_nat_numeral ContinueAfterClose_quiet)
  then show ?thesis by (simp add: BeginClose_def Let_def)
qed

lemmas go_quiet =
  go_BeginClose_quiet
  StartConnection_quiet [OF dispatch_restart_quiet [of 3]]
  StartAfterResume_quiet [of 3] ContinueAfterClose_quiet [of 3]
  BeginCreate_quiet [OF dispatch_restart_quiet [of 3]]
  CompleteFailure_quiet [OF dispatch_restart_quiet [of 3]]
  ScheduleReconnect_quiet [OF dispatch_restart_quiet [of 3]]

text \<open>
  C38 (termination of the private call cycles). No operation and no callback, in any state, hits the
  bound on nested calls with which the model unrolls the two call cycles of the session: the source's
  methods return, after at most three nested restarts.
\<close>

theorem session_step_never_exhausted: "Exhausted (session_step s e) = Exhausted s"
  by (cases e)
    (simp_all add: go_quiet Rename_def HandleDeviceRemoved_def Connect_def
      SupersedePowerTransitionRecovery_def Disconnect_def CancelReconnect_def CancelAutomaticReconnect_def
      SetReconnectEnabled_def SetIncomingEnabled_def Suspend_def BeginSuspendClose_def Resume_def
      ResumeIdleAfterPowerTransition_def CancelPowerTransitionRecovery_def Shutdown_def CloseForShutdown_def
      OnStarted_def OnOpened_def OnStateChanged_def OnPostFailure_def CompleteCloseBarrier_def
      CompleteCloseCooldown_def OnRetryTimer_def OnTransientOpenRetryTimer_def Let_def)

end
