(* ===== verification/Session_Ownership.thy ===== *)
theory Session_Ownership
  imports Session_Properties
begin

section \<open>What the session does to the platform\<close>

text \<open>
  Safety of the calls a session makes, read off its trace: native connections are neither leaked nor
  released twice, no method is called on a released one, and every timer is armed within its bounds.
  All of them are predicates of the trace and of the two owning pointers. The locale states what such
  a predicate has to survive, one law per way the source touches the platform; the methods are gone
  through once, in the locale, and each predicate is an interpretation.
\<close>

subsection \<open>Laws\<close>

fun delay_ok :: "nat \<Rightarrow> timer_callback \<Rightarrow> bool" where
  "delay_ok delay (RetryTimer _ _) = (5000 \<le> delay \<and> delay \<le> 60000)"
| "delay_ok delay (TransientOpenRetryTimer _ _) = (delay \<le> 8000)"
| "delay_ok delay (CloseTimeoutTimer _) = (delay = 5000)"
| "delay_ok delay (CloseCooldownTimer _) = (delay = 1500)"

fun detached :: "effect \<Rightarrow> bool" where
  "detached (EPublish _) = True"
| "detached (ECancelTimer _) = True"
| "detached (ESchedule delay callback) = delay_ok delay callback"
| "detached _ = False"

fun calls_on :: "ptr \<Rightarrow> effect \<Rightarrow> bool" where
  "calls_on p (ERegisterStateChanged q _) = (q = p)"
| "calls_on p (ERevokeStateChanged q _) = (q = p)"
| "calls_on p (EStart q _) = (q = p)"
| "calls_on p (EOpen q _) = (q = p)"
| "calls_on p (EClose q _) = (q = p)"
| "calls_on p _ = False"

locale trace_law =
  fixes Q :: "effect list \<Rightarrow> ptr \<Rightarrow> ptr \<Rightarrow> bool"
  assumes detached_law: "Q tr c d \<Longrightarrow> detached e \<Longrightarrow> Q (tr @ [e]) c d"
    and call_law: "Q tr c d \<Longrightarrow> p \<noteq> 0 \<Longrightarrow> p = c \<or> p = d \<Longrightarrow> calls_on p e \<Longrightarrow> Q (tr @ [e]) c d"
    and create_law: "Q tr 0 d \<Longrightarrow> Q (tr @ [ECreate p]) p d"
    and destroy_law: "Q tr c d \<Longrightarrow> Q (tr @ destroyed c) 0 d"
    and destroy_closing_law: "Q tr c d \<Longrightarrow> Q (tr @ destroyed d) c 0"
    and move_law: "Q tr c 0 \<Longrightarrow> Q tr 0 c"

definition on_trace :: "(effect list \<Rightarrow> ptr \<Rightarrow> ptr \<Rightarrow> bool) \<Rightarrow> session \<Rightarrow> bool" where
  "on_trace Q s \<longleftrightarrow> Q (Trace s) (Connection s) (ClosingConnection s)"

abbreviation keeps :: "(effect list \<Rightarrow> ptr \<Rightarrow> ptr \<Rightarrow> bool) \<Rightarrow> self \<Rightarrow> bool" where
  "keeps Q self \<equiv> \<forall>c s. on_trace Q s \<longrightarrow> on_trace Q (self c s)"

text \<open>The fields such a predicate does not read.\<close>

lemma on_trace_frame [simp]:
  "on_trace Q (s\<lparr>DeviceName := v0\<rparr>) = on_trace Q s"
  "on_trace Q (s\<lparr>PublishFact := v1\<rparr>) = on_trace Q s"
  "on_trace Q (s\<lparr>ReconnectTimer := v2\<rparr>) = on_trace Q s"
  "on_trace Q (s\<lparr>CloseBarrierTimer := v3\<rparr>) = on_trace Q s"
  "on_trace Q (s\<lparr>StateChangedToken := v4\<rparr>) = on_trace Q s"
  "on_trace Q (s\<lparr>OperationEpoch := v5\<rparr>) = on_trace Q s"
  "on_trace Q (s\<lparr>TimerEpoch := v6\<rparr>) = on_trace Q s"
  "on_trace Q (s\<lparr>CloseBarrierEpoch := v7\<rparr>) = on_trace Q s"
  "on_trace Q (s\<lparr>CompletedRetryAttempts := v8\<rparr>) = on_trace Q s"
  "on_trace Q (s\<lparr>TransientOpenRetryAttempts := v9\<rparr>) = on_trace Q s"
  "on_trace Q (s\<lparr>Lifecycle := v10\<rparr>) = on_trace Q s"
  "on_trace Q (s\<lparr>CurrentOperation := v11\<rparr>) = on_trace Q s"
  "on_trace Q (s\<lparr>IsIncomingEnabled := v12\<rparr>) = on_trace Q s"
  "on_trace Q (s\<lparr>IsReconnectEnabled := v13\<rparr>) = on_trace Q s"
  "on_trace Q (s\<lparr>IsReconnectCancelled := v14\<rparr>) = on_trace Q s"
  "on_trace Q (s\<lparr>IsSuspended := v15\<rparr>) = on_trace Q s"
  "on_trace Q (s\<lparr>IsShutdown := v16\<rparr>) = on_trace Q s"
  "on_trace Q (s\<lparr>OpenImmediately := v17\<rparr>) = on_trace Q s"
  "on_trace Q (s\<lparr>RetryEligible := v18\<rparr>) = on_trace Q s"
  "on_trace Q (s\<lparr>RestoreIncomingAfterClose := v19\<rparr>) = on_trace Q s"
  "on_trace Q (s\<lparr>ResumeRequired := v20\<rparr>) = on_trace Q s"
  "on_trace Q (s\<lparr>ResumeOpenImmediately := v21\<rparr>) = on_trace Q s"
  "on_trace Q (s\<lparr>ResumeOperation := v22\<rparr>) = on_trace Q s"
  "on_trace Q (s\<lparr>ResumeRequested := v23\<rparr>) = on_trace Q s"
  "on_trace Q (s\<lparr>IsSuspendClosePending := v24\<rparr>) = on_trace Q s"
  "on_trace Q (s\<lparr>SuspendCloseEpoch := v25\<rparr>) = on_trace Q s"
  "on_trace Q (s\<lparr>IsCloseInFlight := v26\<rparr>) = on_trace Q s"
  "on_trace Q (s\<lparr>IsCloseCooldown := v27\<rparr>) = on_trace Q s"
  "on_trace Q (s\<lparr>IsCloseContinuationAbandoned := v28\<rparr>) = on_trace Q s"
  "on_trace Q (s\<lparr>PendingCloseContinuation := v29\<rparr>) = on_trace Q s"
  "on_trace Q (s\<lparr>PendingCloseFailure := v30\<rparr>) = on_trace Q s"
  "on_trace Q (s\<lparr>PendingCloseRetryEligible := v31\<rparr>) = on_trace Q s"
  "on_trace Q (s\<lparr>PendingCloseCompletedAttempt := v32\<rparr>) = on_trace Q s"
  "on_trace Q (s\<lparr>PendingCloseDisconnectReason := v33\<rparr>) = on_trace Q s"
  "on_trace Q (s\<lparr>Calls := v34\<rparr>) = on_trace Q s"
  "on_trace Q (s\<lparr>Exhausted := v35\<rparr>) = on_trace Q s"
  by (simp_all add: on_trace_def)

lemma prim_owners [simp]:
  "ClosingConnection (Publish r t d s) = ClosingConnection s"
  "Connection (after_schedule n c s) = Connection s"
  "ClosingConnection (after_schedule n c s) = ClosingConnection s"
  "Connection (AbandonCloseContinuation s) = Connection s"
  "ClosingConnection (AbandonCloseContinuation s) = ClosingConnection s"
  by (simp_all add: prim_defs)

lemma retry_delay_ok:
  "Kind (Evaluate \<lparr>Request = ConnectionLoss, CompletedAttempts = n, IsBlocked = False\<rparr>) \<noteq> TerminalFailure \<Longrightarrow>
     delay_ok (Delay (Evaluate \<lparr>Request = ConnectionLoss, CompletedAttempts = n, IsBlocked = False\<rparr>) * 1000)
       (RetryTimer e f)"
  using RetryDelayForAttempt_bounds [of "Suc n"]
  by (simp add: Evaluate_terminal_iff Evaluate_ConnectionLoss_unblocked reconnect_constants)

lemma transient_delay_le:
  assumes "0 < n" and "n < TransientOpenRetryMaxAttempts"
  shows "TransientOpenRetryDelay n \<le> 8000"
proof -
  have "n - 1 \<in> {0, 1, 2, 3, 4, 5, 6, 7, 8}"
    using assms by (auto simp: TransientOpenRetryMaxAttempts_def)
  then show ?thesis by (auto simp: TransientOpenRetryDelay_def nth_Cons')
qed

context trace_law
begin

lemma prim_law:
  "on_trace Q s \<Longrightarrow> on_trace Q (Publish r t d s)"
  "on_trace Q s \<Longrightarrow> on_trace Q (CancelTimer s)"
  "on_trace Q s \<Longrightarrow> on_trace Q (CancelCloseBarrierTimer s)"
  "on_trace Q s \<Longrightarrow> on_trace Q (RevokeStateChanged s)"
  "on_trace Q s \<Longrightarrow> on_trace Q (reset_Connection s)"
  "on_trace Q s \<Longrightarrow> on_trace Q (reset_ClosingConnection s)"
  "on_trace Q s \<Longrightarrow> on_trace Q (called s)"
  "on_trace Q s \<Longrightarrow> on_trace Q (AbandonCloseContinuation s)"
  "on_trace Q s \<Longrightarrow> delay_ok n callback \<Longrightarrow> on_trace Q (after_schedule n callback s)"
  by (auto simp: on_trace_def prim_defs detached_law destroy_law destroy_closing_law call_law split: option.split)

lemma append_law:
  "on_trace Q s \<Longrightarrow> calls_on p e \<Longrightarrow> p \<noteq> 0 \<Longrightarrow> p = Connection s \<or> p = ClosingConnection s \<Longrightarrow>
     on_trace Q (s\<lparr>Trace := Trace s @ [e]\<rparr>)"
  by (simp add: on_trace_def call_law)

lemma Create_law: "on_trace Q s \<Longrightarrow> on_trace Q (Create s)"
  using create_law [OF destroy_law] by (simp add: on_trace_def Create_def Let_def)

lemma RegisterStateChanged_law:
  "on_trace Q s \<Longrightarrow> Connection s \<noteq> 0 \<Longrightarrow> on_trace Q (RegisterStateChanged s)"
  by (auto simp: on_trace_def RegisterStateChanged_def called_def call_law split: reply.split)

lemma RestoreIncoming_law:
  "keeps Q self \<Longrightarrow> on_trace Q s \<Longrightarrow> on_trace Q (RestoreIncomingListenerAfterTerminal self s)"
  by (simp add: RestoreIncomingListenerAfterTerminal_def Let_def)

lemma fail_terminal_law:
  "keeps Q self \<Longrightarrow> on_trace Q s \<Longrightarrow> on_trace Q (fail_terminal self result reason s)"
  by (simp add: fail_terminal_def RestoreIncoming_law prim_law)

lemma ScheduleReconnect_law:
  "keeps Q self \<Longrightarrow> on_trace Q s \<Longrightarrow>
     on_trace Q (ScheduleReconnect self result shouldRetry completedAttempt reason s)"
  unfolding ScheduleReconnect_def Let_def
  by (simp add: fail_terminal_law prim_law retry_delay_ok del: delay_ok.simps)

lemma ScheduleTransientOpenRetry_law:
  "keeps Q self \<Longrightarrow> on_trace Q s \<Longrightarrow> on_trace Q (ScheduleTransientOpenRetry self epoch result cooled s)"
  using transient_delay_le [of "Suc (TransientOpenRetryAttempts s)"]
  unfolding ScheduleTransientOpenRetry_def Let_def
  by (auto simp: fail_terminal_law prim_law not_le)

lemma BeginClose_law:
  assumes "keeps Q self" and "on_trace Q s"
  shows "on_trace Q (BeginClose self epoch continuation failure shouldRetry completedAttempt reason s)"
proof (cases "IsCloseInFlight s \<or> Connection s = 0")
  case False
  define a where "a = (s\<lparr>PendingCloseContinuation := continuation, PendingCloseFailure := failure,
    PendingCloseRetryEligible := shouldRetry, PendingCloseCompletedAttempt := completedAttempt,
    PendingCloseDisconnectReason := reason, IsCloseContinuationAbandoned := False\<rparr>)"
  define b where "b = (reset_ClosingConnection (RevokeStateChanged a))
    \<lparr>ClosingConnection := Connection s, Connection := 0\<rparr>"
  have c: "on_trace Q (reset_ClosingConnection (RevokeStateChanged a))"
    using assms(2) by (simp add: a_def prim_law)
  then have "on_trace Q b"
    using move_law by (simp add: on_trace_def a_def b_def prim_defs)
  define n where "n = CloseBarrierEpoch (RevokeStateChanged a) + 1"
  define u where "u = b\<lparr>IsCloseInFlight := True, CloseBarrierEpoch := n\<rparr>"
  define v where "v = (after_schedule CloseBarrierTimeout (CloseTimeoutTimer n) u)
    \<lparr>CloseBarrierTimer := scheduled (CloseTimeoutTimer n) u\<rparr>"
  define w where "w = (if CloseBarrierTimer v = None then AbandonCloseContinuation
    (Publish ResultFailed True (PendingCloseDisconnectReason v) (v\<lparr>Lifecycle := Failed\<rparr>)) else v)"
  have "on_trace Q v"
    using \<open>on_trace Q b\<close> by (simp add: v_def u_def prim_law CloseBarrierTimeout_def reconnect_constants)
  then have w: "on_trace Q w" "ClosingConnection w = Connection s"
    by (simp_all add: w_def prim_law) (simp add: v_def u_def b_def)
  have "BeginClose self epoch continuation failure shouldRetry completedAttempt reason s =
    w\<lparr>Trace := Trace w @ [EClose (ClosingConnection w) (Some n)]\<rparr>"
    using False by (simp add: BeginClose_def Let_def a_def b_def n_def u_def v_def w_def)
  then show ?thesis
    using False w append_law [of w "Connection s"] by simp
qed (use assms in \<open>auto simp: BeginClose_def Let_def\<close>)

lemma CompleteFailure_law:
  "keeps Q self \<Longrightarrow> on_trace Q s \<Longrightarrow> on_trace Q (CompleteFailure self epoch result transient s)"
  by (simp add: CompleteFailure_def Let_def ScheduleTransientOpenRetry_law ScheduleReconnect_law
    BeginClose_law prim_law)

lemma start_law:
  assumes "on_trace Q s" and "Connection s \<noteq> 0" and "calls_on (Connection s) e"
  shows "on_trace Q ((called s)\<lparr>Trace := Trace s @ [e]\<rparr>)"
  using append_law [OF assms(1,3,2)] by (simp add: on_trace_def called_def)

lemma Connection_RegisterStateChanged [simp]: "Connection (RegisterStateChanged s) = Connection s"
  by (simp add: RegisterStateChanged_def called_def split: reply.split)

lemma BeginCreate_law:
  "keeps Q self \<Longrightarrow> on_trace Q s \<Longrightarrow> on_trace Q (BeginCreate self epoch s)"
  by (auto simp: BeginCreate_def Let_def CompleteFailure_law prim_law Create_law RegisterStateChanged_law
    intro!: start_law)

lemma StartConnection_law:
  "keeps Q self \<Longrightarrow> on_trace Q s \<Longrightarrow> on_trace Q (StartConnection self operation openImmediately s)"
  by (simp add: StartConnection_def Let_def BeginClose_law BeginCreate_law prim_law)

lemma StartAfterResume_law:
  "keeps Q self \<Longrightarrow> on_trace Q s \<Longrightarrow> on_trace Q (StartAfterResume self s)"
  by (simp add: StartAfterResume_def prim_law)

lemma ContinueAfterClose_law:
  "keeps Q self \<Longrightarrow> on_trace Q s \<Longrightarrow> on_trace Q (ContinueAfterClose self epoch cooled s)"
  by (cases "PendingCloseContinuation s")
    (simp_all add: ContinueAfterClose_def CompleteSuspendClose_def Let_def RestoreIncoming_law
      BeginCreate_law ScheduleReconnect_law ScheduleTransientOpenRetry_law StartAfterResume_law prim_law)

lemma dispatch_law: "on_trace Q s \<Longrightarrow> on_trace Q (dispatch n c s)"
proof (induction n arbitrary: c s)
  case (Suc n)
  then show ?case by (cases c) (simp_all add: StartConnection_law ContinueAfterClose_law)
qed simp

lemma CompleteCloseCooldown_law: "on_trace Q s \<Longrightarrow> on_trace Q (CompleteCloseCooldown epoch cooled s)"
  by (simp add: CompleteCloseCooldown_def Let_def ContinueAfterClose_law dispatch_law prim_law)

lemmas go_law =
  StartConnection_law BeginClose_law BeginCreate_law CompleteFailure_law ScheduleReconnect_law
  StartAfterResume_law ContinueAfterClose_law CompleteCloseCooldown_law dispatch_law prim_law

lemma OnStarted_law: "on_trace Q s \<Longrightarrow> p \<noteq> 0 \<Longrightarrow> on_trace Q (OnStarted epoch p result s)"
  by (auto simp: OnStarted_def IsCurrentConnection_def go_law intro!: start_law)

lemma CloseForShutdown_law: "on_trace Q s \<Longrightarrow> on_trace Q (CloseForShutdown s)"
  by (auto simp: CloseForShutdown_def Let_def go_law append_law)

lemma session_step_law: "on_trace Q s \<Longrightarrow> session_enabled s e \<Longrightarrow> on_trace Q (session_step s e)"
  by (cases e)
    (simp_all add: go_law OnStarted_law CloseForShutdown_law Rename_def HandleDeviceRemoved_def Connect_def
      SupersedePowerTransitionRecovery_def Disconnect_def CancelReconnect_def CancelAutomaticReconnect_def
      SetReconnectEnabled_def SetIncomingEnabled_def Suspend_def BeginSuspendClose_def Resume_def
      ResumeIdleAfterPowerTransition_def CancelPowerTransitionRecovery_def Shutdown_def
      OnOpened_def OnStateChanged_def OnPostFailure_def CompleteCloseBarrier_def
      OnRetryTimer_def OnTransientOpenRetryTimer_def CloseBarrierCooldown_def Let_def)

end

subsection \<open>Native connections are owned exactly once\<close>

text \<open>
  How often an address was handed out and released, and whether each call in the trace was made on an
  object that was alive at that moment.
\<close>

definition created :: "ptr \<Rightarrow> effect list \<Rightarrow> nat" where
  "created p tr = length (filter (\<lambda>e. e = ECreate p) tr)"

definition released :: "ptr \<Rightarrow> effect list \<Rightarrow> nat" where
  "released p tr = length (filter (\<lambda>e. e = EDestroy p) tr)"

fun target :: "effect \<Rightarrow> ptr option" where
  "target (ERegisterStateChanged p _) = Some p"
| "target (ERevokeStateChanged p _) = Some p"
| "target (EStart p _) = Some p"
| "target (EOpen p _) = Some p"
| "target (EClose p _) = Some p"
| "target _ = None"

definition alive_call :: "effect list \<Rightarrow> effect \<Rightarrow> bool" where
  "alive_call past e \<longleftrightarrow>
     (case target e of None \<Rightarrow> True | Some p \<Rightarrow> p \<noteq> 0 \<and> released p past < created p past)"

fun calls_alive :: "effect list \<Rightarrow> effect list \<Rightarrow> bool" where
  "calls_alive past [] = True"
| "calls_alive past (e # es) = (alive_call past e \<and> calls_alive (past @ [e]) es)"

definition owned_once :: "effect list \<Rightarrow> ptr \<Rightarrow> ptr \<Rightarrow> bool" where
  "owned_once tr c d \<longleftrightarrow> calls_alive [] tr \<and>
     (\<forall>p. p \<noteq> 0 \<longrightarrow> created p tr = released p tr + of_bool (c = p) + of_bool (d = p))"

lemma count_simps [simp]:
  "created p (xs @ ys) = created p xs + created p ys" "released p (xs @ ys) = released p xs + released p ys"
  "created p [] = 0" "released p [] = 0"
  "created p [e] = of_bool (e = ECreate p)" "released p [e] = of_bool (e = EDestroy p)"
  by (simp_all add: created_def released_def)

lemma calls_alive_append [simp]:
  "calls_alive past (xs @ [e]) \<longleftrightarrow> calls_alive past xs \<and> alive_call (past @ xs) e"
  by (induction past xs rule: calls_alive.induct) auto

lemma detached_target: "detached e \<Longrightarrow> target e = None \<and> e \<noteq> ECreate p \<and> e \<noteq> EDestroy p"
  by (cases e) auto

lemma calls_on_target: "calls_on q e \<Longrightarrow> target e = Some q \<and> e \<noteq> ECreate p \<and> e \<noteq> EDestroy p"
  by (cases e) auto

interpretation owned: trace_law owned_once
proof
  fix tr c d e
  assume "owned_once tr c d" "detached e"
  then show "owned_once (tr @ [e]) c d"
    using detached_target [of e] by (simp add: owned_once_def alive_call_def)
next
  fix tr c d p e
  assume "owned_once tr c d" "p \<noteq> 0" "p = c \<or> p = d" "calls_on p e"
  then show "owned_once (tr @ [e]) c d"
    using calls_on_target [of p e] by (auto simp: owned_once_def alive_call_def)
next
  fix tr c d
  assume "owned_once tr c d"
  then show "owned_once (tr @ destroyed c) 0 d" "owned_once (tr @ destroyed d) c 0"
    by (auto simp: owned_once_def destroyed_def alive_call_def)
qed (auto simp: owned_once_def alive_call_def)

interpretation session_owned: machine session_start session_step session_enabled "on_trace owned_once"
  by unfold_locales
    (auto simp: session_start_def new_session_def on_trace_def owned_once_def owned.session_step_law [unfolded on_trace_def owned_once_def])

text \<open>
  C2 (no leak, no double release, no use after release). In every reachable state and for every
  address the platform ever returned, the session has released the object exactly as often as it was
  handed out, except for the one it still owns as its connection and the one it still owns as its
  closing connection. Every call it made on a native connection was made on an object that was alive at
  that moment.
\<close>

theorem session_owns_connections_once:
  assumes "reachable session_start session_step session_enabled s" and "p \<noteq> 0"
  shows "created p (Trace s) =
           released p (Trace s) + of_bool (Connection s = p) + of_bool (ClosingConnection s = p) \<and>
         calls_alive [] (Trace s)"
  using session_owned.reachable_inv [OF assms(1)] assms(2) by (auto simp: on_trace_def owned_once_def)

subsection \<open>Timers\<close>

definition delays_ok :: "effect list \<Rightarrow> ptr \<Rightarrow> ptr \<Rightarrow> bool" where
  "delays_ok tr c d \<longleftrightarrow> list_all (\<lambda>e. case e of ESchedule n t \<Rightarrow> delay_ok n t | _ \<Rightarrow> True) tr"

interpretation delays: trace_law delays_ok
  by unfold_locales (auto simp: delays_ok_def destroyed_def split: effect.splits)

interpretation session_delays: machine session_start session_step session_enabled "on_trace delays_ok"
  by unfold_locales (auto simp: session_start_def new_session_def on_trace_def delays_ok_def
    delays.session_step_law [unfolded on_trace_def delays_ok_def])

text \<open>
  Bounds of the timers. Every timer a session ever arms has its documented delay: a reconnect
  waits between 5 and 60 seconds, a transient-open retry at most 8 seconds, a close is abandoned after
  5 seconds and cools down for 1.5 seconds.
\<close>

theorem session_timer_delays:
  assumes "reachable session_start session_step session_enabled s"
    and "ESchedule delay callback \<in> set (Trace s)"
  shows "delay_ok delay callback"
  using session_delays.reachable_inv [OF assms(1)] assms(2) by (auto simp: on_trace_def delays_ok_def list_all_iff)

end
