(* ===== verification/Session_Claims.thy ===== *)
theory Session_Claims
  imports Session_Ownership
begin

section \<open>The contract of the device session\<close>

text \<open>
  What the invariant, the ownership laws and the call bound give for the users of a session, and the
  behaviour of its operations.
\<close>

subsection \<open>A sample run\<close>

text \<open>
  A manual connect that opens, is lost, and waits for its reconnect; the platform always answers with
  the address 1.
\<close>

definition sample_session :: session where
  "sample_session = new_session [65] [66] True (\<lambda>_. Returns 1)"

definition sample_events :: "session_event list" where
  "sample_events =
     [EvConnect ManualConnect True, EvStarted 1 1 ResultSuccess,
      EvOpened 1 1 \<lparr>OpenResult = ResultSuccess, IsTransientFailure = False\<rparr>,
      EvStateChanged 1 1 ConnClosed]"

definition sample_waiting :: session where
  "sample_waiting = foldl session_step sample_session sample_events"

lemma sample_reachable:
  "admissible session_step session_enabled sample_session es \<Longrightarrow>
     reachable session_start session_step session_enabled (foldl session_step sample_session es)"
  by (rule reachable_run [OF reach_start]) (auto simp: session_start_def sample_session_def)

lemma sample_waiting_reachable: "reachable session_start session_step session_enabled sample_waiting"
  unfolding sample_waiting_def
  by (rule sample_reachable) (code_simp)

lemma sample_waiting_state:
  "Lifecycle sample_waiting = WaitingForReconnect \<and> Connection sample_waiting = 0 \<and>
   ClosingConnection sample_waiting = 0 \<and> TimerEpoch sample_waiting = 2 \<and>
   OperationEpoch sample_waiting = 2 \<and> CloseBarrierEpoch sample_waiting = 0 \<and>
   ESchedule 5000 (RetryTimer 2 2) \<in> set (Trace sample_waiting)"
  by code_simp

lemma sample_waiting_not_shutdown: "\<not> IsShutdown sample_waiting"
  using session.reachable_inv [OF sample_waiting_reachable] sample_waiting_state
  by (auto simp: session_inv_def phase_ok_def)

subsection \<open>Ownership of the connection\<close>

text \<open>
  C1 (exclusive ownership). In every reachable state the session owns at most one native connection:
  never one to use and one to close at the same time, none to use while a close is in flight or while
  it is suspended, none at all after shutdown. A registered state handler belongs to the owned
  connection, and an object is being closed exactly while a close is in flight and not yet cooling
  down.
\<close>

theorem session_connection_exclusive:
  assumes "reachable session_start session_step session_enabled s"
  shows "(Connection s = 0 \<or> ClosingConnection s = 0) \<and>
    \<not> (IsCloseInFlight s \<and> Connection s \<noteq> 0) \<and> \<not> (IsSuspended s \<and> Connection s \<noteq> 0) \<and>
    \<not> (IsShutdown s \<and> (Connection s \<noteq> 0 \<or> ClosingConnection s \<noteq> 0)) \<and>
    \<not> (StateChangedToken s \<noteq> 0 \<and> Connection s = 0) \<and>
    (ClosingConnection s \<noteq> 0) = (IsCloseInFlight s \<and> \<not> IsCloseCooldown s)"
  using session.reachable_inv [OF assms] by (auto simp: session_inv_def inv_defs)

theorem session_connection_exclusive_witness:
  "Connection sample_waiting = 0 \<or> ClosingConnection sample_waiting = 0"
  using session_connection_exclusive [OF sample_waiting_reachable] by blast

theorem session_owns_connections_once_witness:
  "created 1 (Trace sample_waiting) = released 1 (Trace sample_waiting) \<and> calls_alive [] (Trace sample_waiting)"
  using session_owns_connections_once [OF sample_waiting_reachable, of 1] sample_waiting_state by simp

theorem session_timer_delays_witness: "delay_ok 5000 (RetryTimer 2 2)"
  using session_timer_delays [OF sample_waiting_reachable] sample_waiting_state by blast

subsection \<open>A waiting or busy session is woken up\<close>

text \<open>
  C3 (a busy session has a pending wake-up). In every reachable state: a session that waits holds a
  timer armed with its current epochs, with attempts left, so its callback is not discarded as stale;
  a connecting or connected one owns the connection whose callbacks move it; a disconnecting one has a
  close in flight, or its automatic reconnect was cancelled.
\<close>

theorem session_busy_has_wakeup:
  assumes "reachable session_start session_step session_enabled s"
  shows "(case Lifecycle s of
       WaitingForReconnect \<Rightarrow>
         (ReconnectTimer s = Some (RetryTimer (TimerEpoch s) (OperationEpoch s)) \<and>
            CompletedRetryAttempts s < MaxAttempts \<or>
          ReconnectTimer s = Some (TransientOpenRetryTimer (TimerEpoch s) (OperationEpoch s)) \<and>
            TransientOpenRetryAttempts s < TransientOpenRetryMaxAttempts) \<and>
         \<not> IsSuspended s \<and> \<not> IsShutdown s \<and> \<not> IsCloseInFlight s
     | Connecting \<Rightarrow> Connection s \<noteq> 0
     | Connected \<Rightarrow> Connection s \<noteq> 0
     | Disconnecting \<Rightarrow> IsCloseInFlight s \<or> IsReconnectCancelled s
     | _ \<Rightarrow> True)"
proof -
  have "phase_ok s" using session.reachable_inv [OF assms] by (simp add: session_inv_def)
  moreover have "retry_armed t s \<Longrightarrow>
    t = Some (RetryTimer (TimerEpoch s) (OperationEpoch s)) \<and> CompletedRetryAttempts s < MaxAttempts \<or>
    t = Some (TransientOpenRetryTimer (TimerEpoch s) (OperationEpoch s)) \<and>
      TransientOpenRetryAttempts s < TransientOpenRetryMaxAttempts" for t
    by (cases "(t, s)" rule: retry_armed.cases) auto
  ultimately show ?thesis by (auto simp: phase_ok_def split: DeviceLifecycleState.split)
qed

theorem session_busy_has_wakeup_witness:
  "ReconnectTimer sample_waiting = Some (RetryTimer 2 2) \<or>
   ReconnectTimer sample_waiting = Some (TransientOpenRetryTimer 2 2)"
  using session_busy_has_wakeup [OF sample_waiting_reachable] sample_waiting_state by auto

subsection \<open>Stale callbacks\<close>

text \<open>Whether a posted callback still belongs to the current operation, timer or close.\<close>

fun stale :: "session \<Rightarrow> session_event \<Rightarrow> bool" where
  "stale s (EvStarted epoch p _) = (epoch \<noteq> OperationEpoch s \<or> p \<noteq> Connection s)"
| "stale s (EvOpened epoch p _) = (epoch \<noteq> OperationEpoch s \<or> p \<noteq> Connection s)"
| "stale s (EvStateChanged epoch p _) = (epoch \<noteq> OperationEpoch s \<or> p \<noteq> Connection s)"
| "stale s (EvPostFailure epoch p) = (epoch \<noteq> OperationEpoch s \<or> p \<noteq> Connection s)"
| "stale s (EvCloseBarrier epoch _) = (epoch \<noteq> CloseBarrierEpoch s)"
| "stale s (EvCloseCooldown epoch) = (epoch \<noteq> CloseBarrierEpoch s)"
| "stale s (EvRetryTimer timerEpoch epoch) = (timerEpoch \<noteq> TimerEpoch s \<or> epoch \<noteq> OperationEpoch s)"
| "stale s (EvTransientOpenRetryTimer timerEpoch epoch) =
     (timerEpoch \<noteq> TimerEpoch s \<or> epoch \<noteq> OperationEpoch s)"
| "stale s _ = False"

text \<open>
  Stale callbacks are inert. A callback of an earlier operation, of another connection, of a
  cancelled timer or of an earlier close changes nothing and does nothing.
\<close>

theorem session_stale_callback_inert: "stale s e \<Longrightarrow> session_step s e = s"
  by (cases e) (auto simp: OnStarted_def OnOpened_def OnStateChanged_def OnPostFailure_def
    CompleteCloseBarrier_def CompleteCloseCooldown_def OnRetryTimer_def OnTransientOpenRetryTimer_def
    IsCurrentConnection_def IsCurrent_def)

theorem session_stale_callback_inert_witness:
  "stale sample_waiting (EvRetryTimer 1 1) \<and> session_step sample_waiting (EvRetryTimer 1 1) = sample_waiting"
  using session_stale_callback_inert [of sample_waiting "EvRetryTimer 1 1"] sample_waiting_state by simp

subsection \<open>Shutdown\<close>

lemma shutdown_inert: "IsShutdown s \<Longrightarrow> session_step s e = s"
  by (cases e) (auto simp: Rename_def HandleDeviceRemoved_def Connect_def Disconnect_def CancelReconnect_def
    SetReconnectEnabled_def SetIncomingEnabled_def Suspend_def Resume_def ResumeIdleAfterPowerTransition_def
    CancelPowerTransitionRecovery_def Shutdown_def OnStarted_def OnOpened_def OnStateChanged_def
    OnPostFailure_def CompleteCloseBarrier_def CompleteCloseCooldown_def OnRetryTimer_def
    OnTransientOpenRetryTimer_def IsCurrentConnection_def IsCurrent_def)

lemma shutdown_run_inert: "IsShutdown s \<Longrightarrow> foldl session_step s es = s"
  by (induction es) (auto simp: shutdown_inert)

lemma Shutdown_IsShutdown: "IsShutdown (session_step s EvShutdown)"
  by (simp add: Shutdown_def CloseForShutdown_def Let_def prim_defs)

text \<open>
  C30 (shutdown is final and complete). From every reachable state, shutdown releases every native
  connection the session was ever given and leaves no timer armed, and no later operation or callback,
  in any order, has an effect.
\<close>

theorem session_shutdown_final:
  assumes "reachable session_start session_step session_enabled s" and "\<not> IsShutdown s" and "p \<noteq> 0"
  shows "created p (Trace (session_step s EvShutdown)) = released p (Trace (session_step s EvShutdown)) \<and>
    ReconnectTimer (session_step s EvShutdown) = None \<and>
    CloseBarrierTimer (session_step s EvShutdown) = None \<and>
    foldl session_step (session_step s EvShutdown) es = session_step s EvShutdown"
proof -
  have "reachable session_start session_step session_enabled (session_step s EvShutdown)"
    using assms(1) by (rule reach_step) simp
  from session_owned.reachable_inv [OF this]
  have "owned_once (Trace (session_step s EvShutdown)) (Connection (session_step s EvShutdown))
    (ClosingConnection (session_step s EvShutdown))" by (simp add: on_trace_def)
  moreover have "Connection (session_step s EvShutdown) = 0" "ClosingConnection (session_step s EvShutdown) = 0"
    "ReconnectTimer (session_step s EvShutdown) = None" "CloseBarrierTimer (session_step s EvShutdown) = None"
    using assms(2) by (simp_all add: Shutdown_def CloseForShutdown_def Let_def prim_defs)
  ultimately show ?thesis
    using assms(3) shutdown_run_inert [OF Shutdown_IsShutdown] by (simp add: owned_once_def)
qed

theorem session_shutdown_final_witness:
  "created 1 (Trace (session_step sample_waiting EvShutdown)) =
     released 1 (Trace (session_step sample_waiting EvShutdown))"
  using session_shutdown_final [OF sample_waiting_reachable, of 1] sample_waiting_not_shutdown by simp

subsection \<open>Connecting\<close>

definition platform_calls :: "effect list \<Rightarrow> effect list" where
  "platform_calls tr = filter (\<lambda>e. case e of EPublish _ \<Rightarrow> False | _ \<Rightarrow> True) tr"

definition published_states :: "effect list \<Rightarrow> DeviceLifecycleState list" where
  "published_states tr =
     concat (map (\<lambda>e. case e of EPublish f \<Rightarrow> [SnapState (FactSnapshot f)] | _ \<Rightarrow> []) tr)"

text \<open>
  (the successful connect). When the platform creates a connection, registers its handler and
  accepts its start and open, a manual connect of a fresh session drives it to the connected state with
  that connection, by exactly these platform calls in this order, and publishes the connecting and the
  connected fact.
\<close>

theorem session_connect_succeeds:
  assumes "deviceId \<noteq> []" and "p \<noteq> 0" and "token \<noteq> 0"
    and "replies 0 = Returns p" and "replies 1 = Returns token"
    and "replies 2 \<noteq> Throws" and "replies 3 \<noteq> Throws"
    and "s = foldl session_step (new_session deviceId deviceName True replies)
     [EvConnect ManualConnect True, EvStarted 1 p ResultSuccess,
      EvOpened 1 p \<lparr>OpenResult = ResultSuccess, IsTransientFailure = transient\<rparr>]"
  shows "Lifecycle s = Connected \<and> Connection s = p \<and> RetryEligible s \<and>
    platform_calls (Trace s) =
      [ECreate p, ERegisterStateChanged p token, EStart p 1, EOpen p 1] \<and>
    published_states (Trace s) = [Connecting, Connected]"
  using assms
  by (simp add: new_session_def Connect_def StartConnection_def BeginCreate_def Let_def IsCurrent_def
      IsCurrentConnection_def Create_def RegisterStateChanged_def prim_defs answer_def OnStarted_def OnOpened_def
      destroyed_def platform_calls_def published_states_def Snapshot_def eval_nat_numeral split: reply.splits)

theorem session_connect_succeeds_witness:
  "Lifecycle (foldl session_step sample_session (take 3 sample_events)) = Connected"
  using session_connect_succeeds [of "[65]" 1 1 "\<lambda>_. Returns 1" _ "[66]" False, OF _ _ _ _ _ _ _ refl]
  by (simp add: sample_session_def sample_events_def)

end
