(* ===== verification/Session_Calm.thy ===== *)
theory Session_Calm
  imports Session_Claims
begin

section \<open>A cancelled reconnect stays cancelled\<close>

text \<open>
  A disconnect requested by the user, or a cancelled reconnect, suppresses automatic reconnects until
  the next explicit connect or resume. \<open>calm\<close> is the state in which nothing is scheduled and nothing
  will be; every callback and every operation that does not ask for a connection keeps it. The last part is the one
  case in which a cancelled retry leaves the session stuck (\<open>wedged\<close>).
\<close>

definition calm :: "session \<Rightarrow> bool" where
  "calm s \<longleftrightarrow> IsReconnectCancelled s \<and> Lifecycle s \<noteq> WaitingForReconnect \<and>
     (IsCloseInFlight s \<longrightarrow> PendingCloseContinuation s \<noteq> ContSuspend)"

fun asks_for_connection :: "session_event \<Rightarrow> bool" where
  "asks_for_connection (EvConnect operation _) = (operation \<noteq> IncomingEnable)"
| "asks_for_connection EvSuspend = True"
| "asks_for_connection EvResume = True"
| "asks_for_connection _ = False"

definition keeps_calm :: "self \<Rightarrow> bool" where
  "keeps_calm self \<longleftrightarrow>
     (\<forall>s openImmediately. calm s \<longrightarrow> calm (self (CallStartConnection IncomingEnable openImmediately) s)) \<and>
     (\<forall>s epoch cooled. calm s \<longrightarrow> PendingCloseContinuation s \<noteq> ContSuspend \<longrightarrow>
        calm (self (CallContinueAfterClose epoch cooled) s))"

lemma keeps_calmD:
  "keeps_calm self \<Longrightarrow> calm s \<Longrightarrow> calm (self (CallStartConnection IncomingEnable openImmediately) s)"
  "keeps_calm self \<Longrightarrow> calm s \<Longrightarrow> PendingCloseContinuation s \<noteq> ContSuspend \<Longrightarrow>
     calm (self (CallContinueAfterClose epoch cooled) s)"
  by (simp_all add: keeps_calm_def)

lemma calm_prim [simp]:
  "calm (Publish r t d s) = calm s" "calm (CancelTimer s) = calm s" "calm (CancelCloseBarrierTimer s) = calm s"
  "calm (RevokeStateChanged s) = calm s" "calm (reset_Connection s) = calm s"
  "calm (reset_ClosingConnection s) = calm s" "calm (called s) = calm s"
  "calm (after_schedule n c s) = calm s"
  by (simp_all add: calm_def prim_defs)

lemma calm_frame [simp]:
  "calm (s\<lparr>DeviceName := v0\<rparr>) = calm s"
  "calm (s\<lparr>PublishFact := v1\<rparr>) = calm s"
  "calm (s\<lparr>ReconnectTimer := v2\<rparr>) = calm s"
  "calm (s\<lparr>CloseBarrierTimer := v3\<rparr>) = calm s"
  "calm (s\<lparr>StateChangedToken := v4\<rparr>) = calm s"
  "calm (s\<lparr>OperationEpoch := v5\<rparr>) = calm s"
  "calm (s\<lparr>TimerEpoch := v6\<rparr>) = calm s"
  "calm (s\<lparr>CloseBarrierEpoch := v7\<rparr>) = calm s"
  "calm (s\<lparr>CompletedRetryAttempts := v8\<rparr>) = calm s"
  "calm (s\<lparr>TransientOpenRetryAttempts := v9\<rparr>) = calm s"
  "calm (s\<lparr>CurrentOperation := v10\<rparr>) = calm s"
  "calm (s\<lparr>IsIncomingEnabled := v11\<rparr>) = calm s"
  "calm (s\<lparr>IsReconnectEnabled := v12\<rparr>) = calm s"
  "calm (s\<lparr>IsSuspended := v13\<rparr>) = calm s"
  "calm (s\<lparr>IsShutdown := v14\<rparr>) = calm s"
  "calm (s\<lparr>OpenImmediately := v15\<rparr>) = calm s"
  "calm (s\<lparr>RetryEligible := v16\<rparr>) = calm s"
  "calm (s\<lparr>RestoreIncomingAfterClose := v17\<rparr>) = calm s"
  "calm (s\<lparr>ResumeRequired := v18\<rparr>) = calm s"
  "calm (s\<lparr>ResumeRequested := v19\<rparr>) = calm s"
  "calm (s\<lparr>IsSuspendClosePending := v20\<rparr>) = calm s"
  "calm (s\<lparr>IsCloseCooldown := v22\<rparr>) = calm s"
  "calm (s\<lparr>IsCloseContinuationAbandoned := v23\<rparr>) = calm s"
  "calm (s\<lparr>PendingCloseFailure := v24\<rparr>) = calm s"
  "calm (s\<lparr>PendingCloseRetryEligible := v25\<rparr>) = calm s"
  "calm (s\<lparr>PendingCloseCompletedAttempt := v26\<rparr>) = calm s"
  "calm (s\<lparr>PendingCloseDisconnectReason := v27\<rparr>) = calm s"
  "calm (s\<lparr>Calls := v28\<rparr>) = calm s"
  "calm (s\<lparr>Exhausted := v29\<rparr>) = calm s"
  "calm (s\<lparr>Trace := v30\<rparr>) = calm s"
  "calm (s\<lparr>Connection := v31\<rparr>) = calm s"
  "calm (s\<lparr>ClosingConnection := v32\<rparr>) = calm s"
  "calm s \<Longrightarrow> calm (s\<lparr>IsReconnectCancelled := True\<rparr>)"
  "calm s \<Longrightarrow> calm (s\<lparr>IsCloseInFlight := False\<rparr>)"
  by (simp_all add: calm_def)

lemma calm_Lifecycle: "calm s \<Longrightarrow> l \<noteq> WaitingForReconnect \<Longrightarrow> calm (s\<lparr>Lifecycle := l\<rparr>)"
  by (simp add: calm_def)

lemma calm_continuation: "calm s \<Longrightarrow> c \<noteq> ContSuspend \<Longrightarrow> calm (s\<lparr>PendingCloseContinuation := c\<rparr>)"
  by (simp add: calm_def)

lemma calm_close_begins:
  "calm s \<Longrightarrow> PendingCloseContinuation s \<noteq> ContSuspend \<Longrightarrow> calm (s\<lparr>IsCloseInFlight := True\<rparr>)"
  by (simp add: calm_def)

lemma calm_cancelled: "calm s \<Longrightarrow> IsReconnectCancelled s"
  by (simp add: calm_def)

lemmas calm_updates = calm_Lifecycle calm_continuation

lemma RestoreIncoming_calm:
  "keeps_calm self \<Longrightarrow> calm s \<Longrightarrow> calm (RestoreIncomingListenerAfterTerminal self s)"
  by (simp add: RestoreIncomingListenerAfterTerminal_def Let_def keeps_calmD)

lemma fail_terminal_calm: "keeps_calm self \<Longrightarrow> calm s \<Longrightarrow> calm (fail_terminal self result reason s)"
  by (simp add: fail_terminal_def RestoreIncoming_calm calm_updates)

lemma ScheduleReconnect_calm:
  "keeps_calm self \<Longrightarrow> calm s \<Longrightarrow> calm (ScheduleReconnect self result shouldRetry completedAttempt reason s)"
  by (simp add: ScheduleReconnect_def fail_terminal_calm calm_cancelled)

lemma ScheduleTransientOpenRetry_calm:
  "calm s \<Longrightarrow> ScheduleTransientOpenRetry self epoch result cooled s = s"
  by (simp add: ScheduleTransientOpenRetry_def calm_cancelled)

lemma AbandonCloseContinuation_calm: "calm s \<Longrightarrow> calm (AbandonCloseContinuation s)"
  by (simp add: AbandonCloseContinuation_def calm_updates)

lemma calm_in_flight: "calm s \<Longrightarrow> IsCloseInFlight s \<Longrightarrow> PendingCloseContinuation s \<noteq> ContSuspend"
  by (simp add: calm_def)

lemma prim_continuation [simp]:
  "PendingCloseContinuation (CancelCloseBarrierTimer s) = PendingCloseContinuation s"
  "PendingCloseContinuation (RevokeStateChanged s) = PendingCloseContinuation s"
  "PendingCloseContinuation (reset_ClosingConnection s) = PendingCloseContinuation s"
  by (simp_all add: prim_defs)

lemma BeginClose_calm_new:
  "keeps_calm self \<Longrightarrow> calm (s\<lparr>PendingCloseContinuation := continuation\<rparr>) \<Longrightarrow> continuation \<noteq> ContSuspend \<Longrightarrow>
     \<not> (IsCloseInFlight s \<and> IsCloseContinuationAbandoned s) \<Longrightarrow>
     calm (BeginClose self epoch continuation failure shouldRetry completedAttempt reason s)"
  by (simp add: BeginClose_def Let_def keeps_calmD calm_Lifecycle calm_close_begins AbandonCloseContinuation_calm)

lemma BeginClose_calm:
  "keeps_calm self \<Longrightarrow> calm s \<Longrightarrow> continuation \<noteq> ContSuspend \<Longrightarrow>
     calm (BeginClose self epoch continuation failure shouldRetry completedAttempt reason s)"
  by (cases "IsCloseInFlight s \<and> IsCloseContinuationAbandoned s")
    (auto simp: BeginClose_calm_new calm_continuation, simp add: BeginClose_def)

lemma CompleteFailure_calm:
  "keeps_calm self \<Longrightarrow> calm s \<Longrightarrow> calm (CompleteFailure self epoch result transient s)"
  by (simp add: CompleteFailure_def Let_def ScheduleTransientOpenRetry_calm ScheduleReconnect_calm
    BeginClose_calm calm_updates)

lemma Create_calm [simp]: "calm (Create s) = calm s"
  by (simp add: Create_def Let_def)

lemma RegisterStateChanged_calm [simp]: "calm (RegisterStateChanged s) = calm s"
  by (simp add: RegisterStateChanged_def split: reply.split)

lemma BeginCreate_calm: "keeps_calm self \<Longrightarrow> calm s \<Longrightarrow> calm (BeginCreate self epoch s)"
  by (simp add: BeginCreate_def Let_def CompleteFailure_calm calm_updates)

lemma StartConnection_calm:
  "keeps_calm self \<Longrightarrow> calm s \<Longrightarrow> calm (StartConnection self IncomingEnable openImmediately s)"
  by (simp add: StartConnection_def Let_def BeginClose_calm BeginCreate_calm calm_updates)

lemma ContinueAfterClose_calm:
  assumes "keeps_calm self" and "calm s" and "PendingCloseContinuation s \<noteq> ContSuspend"
  shows "calm (ContinueAfterClose self epoch cooled s)"
  using assms
  by (cases "PendingCloseContinuation s")
      (simp_all add: ContinueAfterClose_def Let_def RestoreIncoming_calm keeps_calmD BeginCreate_calm
        ScheduleReconnect_calm ScheduleTransientOpenRetry_calm calm_updates)

lemma dispatch_calm: "keeps_calm (dispatch n)"
proof (induction n)
  case (Suc n)
  then show ?case
    unfolding keeps_calm_def [of "dispatch (Suc n)"] by (simp add: StartConnection_calm ContinueAfterClose_calm)
qed (simp add: keeps_calm_def)

lemma CompleteCloseCooldown_calm: "calm s \<Longrightarrow> calm (CompleteCloseCooldown epoch cooled s)"
  by (simp add: CompleteCloseCooldown_def Let_def ContinueAfterClose_calm dispatch_calm calm_in_flight)

lemmas go_calm =
  dispatch_calm StartConnection_calm BeginClose_calm BeginCreate_calm CompleteFailure_calm
  ScheduleReconnect_calm ContinueAfterClose_calm CompleteCloseCooldown_calm AbandonCloseContinuation_calm
  calm_updates calm_cancelled

lemma calm_not_waiting: "calm s \<Longrightarrow> Lifecycle s \<noteq> WaitingForReconnect"
  by (simp add: calm_def)

lemma session_step_calm:
  assumes "calm s" and "\<not> asks_for_connection e"
  shows "calm (session_step s e)"
  using assms calm_not_waiting [OF assms(1)]
  by (cases e)
    (simp_all add: go_calm Rename_def HandleDeviceRemoved_def Connect_def Disconnect_def CancelReconnect_def
      CancelAutomaticReconnect_def SetReconnectEnabled_def SetIncomingEnabled_def CloseForShutdown_def
      ResumeIdleAfterPowerTransition_def CancelPowerTransitionRecovery_def Shutdown_def OnStarted_def
      OnOpened_def OnStateChanged_def OnPostFailure_def CompleteCloseBarrier_def
      OnRetryTimer_def OnTransientOpenRetryTimer_def Let_def)

lemma Disconnect_calm: "fst (Disconnect restoreIncoming s) \<Longrightarrow> calm (snd (Disconnect restoreIncoming s))"
proof -
  define t where "t = (CancelTimer s)\<lparr>IsReconnectCancelled := True, RetryEligible := False,
    OperationEpoch := OperationEpoch (CancelTimer s) + 1, RestoreIncomingAfterClose := restoreIncoming\<rparr>"
  have "calm (t\<lparr>Lifecycle := Idle\<rparr>)" if "\<not> IsCloseInFlight s"
    using that by (simp add: t_def calm_def CancelTimer_def)
  moreover have "calm (BeginClose go e ContIdle r b c d (Publish r2 b2 d2 (RevokeStateChanged (t\<lparr>Lifecycle := Disconnecting\<rparr>))))"
    if "\<not> (IsCloseInFlight s \<and> IsCloseContinuationAbandoned s)" for e r b c d r2 b2 d2
    using that by (intro BeginClose_calm_new dispatch_calm) (simp_all add: t_def calm_def prim_defs)
  moreover have "Disconnect restoreIncoming s =
    (if IsShutdown s \<or> (IsCloseInFlight s \<and> IsCloseContinuationAbandoned s) then (False, s)
     else if Connection t = 0 \<and> \<not> IsCloseInFlight s then
       (True, if RestoreIncomingAfterClose t \<and> IsIncomingEnabled t \<and> \<not> IsSuspended t
              then StartConnection go IncomingEnable False
                ((Publish ResultSuccess False ReasonNormal (t\<lparr>Lifecycle := Idle\<rparr>))\<lparr>RestoreIncomingAfterClose := False\<rparr>)
              else Publish ResultSuccess False ReasonNormal (t\<lparr>Lifecycle := Idle\<rparr>))
     else (True, BeginClose go (OperationEpoch t) ContIdle ResultSuccess False False ReasonNone
       (Publish ResultSuccess False ReasonNormal (RevokeStateChanged (t\<lparr>Lifecycle := Disconnecting\<rparr>)))))"
    by (simp add: Disconnect_def Let_def t_def CancelTimer_def Publish_def)
  ultimately show "fst (Disconnect restoreIncoming s) \<Longrightarrow> calm (snd (Disconnect restoreIncoming s))"
    by (auto simp: StartConnection_calm dispatch_calm split: if_splits)
qed

text \<open>
  A manual disconnect suppresses reconnects. After a disconnect the session accepted, whatever
  callbacks arrive and whatever operations run that do not ask for a connection, and in whatever order,
  the session never waits for a reconnect and its reconnect stays cancelled. A disconnect is refused
  only after shutdown or while an unconfirmed close owns the connection, and then changes nothing.
\<close>

theorem session_disconnect_suppresses_reconnect:
  assumes "list_all (\<lambda>e. \<not> asks_for_connection e) es"
  shows "(case Disconnect restoreIncoming s of
      (True, t) \<Rightarrow> IsReconnectCancelled (foldl session_step t es) \<and>
         Lifecycle (foldl session_step t es) \<noteq> WaitingForReconnect
    | (False, t) \<Rightarrow> t = s \<and> (IsShutdown s \<or> IsCloseInFlight s \<and> IsCloseContinuationAbandoned s))"
proof -
  have run: "calm t \<Longrightarrow> calm (foldl session_step t es)" for t
    using assms by (induction es arbitrary: t) (auto simp: session_step_calm)
  show ?thesis
  proof (cases "fst (Disconnect restoreIncoming s)")
    case True
    then have "calm (foldl session_step (snd (Disconnect restoreIncoming s)) es)"
      by (intro run Disconnect_calm)
    with True show ?thesis by (auto simp: calm_def split: prod.split)
  next
    case False
    then show ?thesis by (auto simp: Disconnect_def Let_def split: if_splits)
  qed
qed

theorem session_disconnect_suppresses_reconnect_witness:
  "case Disconnect True sample_waiting of
     (True, t) \<Rightarrow> IsReconnectCancelled (foldl session_step t [EvRetryTimer 2 2, EvHandleDeviceRemoved]) \<and>
       Lifecycle (foldl session_step t [EvRetryTimer 2 2, EvHandleDeviceRemoved]) \<noteq> WaitingForReconnect
   | (False, t) \<Rightarrow> t = sample_waiting \<and> (IsShutdown sample_waiting \<or>
       IsCloseInFlight sample_waiting \<and> IsCloseContinuationAbandoned sample_waiting)"
  using session_disconnect_suppresses_reconnect [of "[EvRetryTimer 2 2, EvHandleDeviceRemoved]",
      where s = sample_waiting and restoreIncoming = True]
  by simp

subsection \<open>A cancelled retry leaves the session disconnecting\<close>

text \<open>
  The state a session is left in: disconnecting, although there is nothing to disconnect from, no close is in flight and
  no timer is armed. Only a disconnect, the removal of the device, a suspension and a shutdown leave it.
\<close>

definition wedged :: "session \<Rightarrow> bool" where
  "wedged s \<longleftrightarrow> Lifecycle s = Disconnecting \<and> Connection s = 0 \<and> \<not> IsCloseInFlight s \<and> ReconnectTimer s = None \<and>
     CloseBarrierTimer s = None \<and> CurrentOperation s \<noteq> AutomaticReconnect \<and> \<not> IsShutdown s \<and> \<not> IsSuspended s"



lemma wedged_frame [simp]:
  "wedged (Publish r t d s) = wedged s" "wedged s \<Longrightarrow> wedged (CancelTimer s)"
  "wedged (s\<lparr>DeviceName := v0\<rparr>) = wedged s" "wedged (s\<lparr>RetryEligible := v1\<rparr>) = wedged s"
  "wedged (s\<lparr>IsReconnectCancelled := v2\<rparr>) = wedged s" "wedged (s\<lparr>IsReconnectEnabled := v3\<rparr>) = wedged s"
  "wedged (s\<lparr>IsIncomingEnabled := v4\<rparr>) = wedged s"
  by (simp_all add: wedged_def prim_defs)










end
