(* ===== verification/Session_Frame.thy ===== *)
theory Session_Frame
  imports Session_Calm
begin

section \<open>What session operations leave alone\<close>

text \<open>
  Two facts the device service relies on. The identity of a session, its fact sink, its policy flags and
  the epoch of its last suspension change only in the operations that set them. A close whose continuation
  is the suspension is begun by \<open>Suspend\<close> only.
\<close>

subsection \<open>Identity and policy\<close>

definition core :: "session \<Rightarrow> wstring \<times> bool \<times> (nat \<Rightarrow> reply) \<times> bool \<times> bool \<times> u64 \<times> bool" where
  "core s = (DeviceId s, PublishFact s, Replies s, IsReconnectEnabled s, IsIncomingEnabled s, SuspendCloseEpoch s,
     IsShutdown s)"

lemma core_frame [simp]:
  "core (s\<lparr>DeviceName := v0\<rparr>) = core s"
  "core (s\<lparr>ReconnectTimer := v1\<rparr>) = core s"
  "core (s\<lparr>CloseBarrierTimer := v2\<rparr>) = core s"
  "core (s\<lparr>StateChangedToken := v3\<rparr>) = core s"
  "core (s\<lparr>OperationEpoch := v4\<rparr>) = core s"
  "core (s\<lparr>TimerEpoch := v5\<rparr>) = core s"
  "core (s\<lparr>CloseBarrierEpoch := v6\<rparr>) = core s"
  "core (s\<lparr>CompletedRetryAttempts := v7\<rparr>) = core s"
  "core (s\<lparr>TransientOpenRetryAttempts := v8\<rparr>) = core s"
  "core (s\<lparr>Lifecycle := v9\<rparr>) = core s"
  "core (s\<lparr>CurrentOperation := v10\<rparr>) = core s"
  "core (s\<lparr>IsReconnectCancelled := v11\<rparr>) = core s"
  "core (s\<lparr>IsSuspended := v12\<rparr>) = core s"
  "core (s\<lparr>OpenImmediately := v14\<rparr>) = core s"
  "core (s\<lparr>RetryEligible := v15\<rparr>) = core s"
  "core (s\<lparr>RestoreIncomingAfterClose := v16\<rparr>) = core s"
  "core (s\<lparr>ResumeRequired := v17\<rparr>) = core s"
  "core (s\<lparr>ResumeOpenImmediately := v18\<rparr>) = core s"
  "core (s\<lparr>ResumeOperation := v19\<rparr>) = core s"
  "core (s\<lparr>ResumeRequested := v20\<rparr>) = core s"
  "core (s\<lparr>IsSuspendClosePending := v21\<rparr>) = core s"
  "core (s\<lparr>IsCloseInFlight := v22\<rparr>) = core s"
  "core (s\<lparr>IsCloseCooldown := v23\<rparr>) = core s"
  "core (s\<lparr>IsCloseContinuationAbandoned := v24\<rparr>) = core s"
  "core (s\<lparr>PendingCloseContinuation := v25\<rparr>) = core s"
  "core (s\<lparr>PendingCloseFailure := v26\<rparr>) = core s"
  "core (s\<lparr>PendingCloseRetryEligible := v27\<rparr>) = core s"
  "core (s\<lparr>PendingCloseCompletedAttempt := v28\<rparr>) = core s"
  "core (s\<lparr>PendingCloseDisconnectReason := v29\<rparr>) = core s"
  "core (s\<lparr>Calls := v30\<rparr>) = core s"
  "core (s\<lparr>Exhausted := v31\<rparr>) = core s"
  "core (s\<lparr>Trace := v32\<rparr>) = core s"
  "core (s\<lparr>Connection := v33\<rparr>) = core s"
  "core (s\<lparr>ClosingConnection := v34\<rparr>) = core s"
  by (simp_all add: core_def)

lemma core_prim [simp]:
  "core (Publish r t d s) = core s" "core (CancelTimer s) = core s" "core (CancelCloseBarrierTimer s) = core s"
  "core (RevokeStateChanged s) = core s" "core (reset_Connection s) = core s"
  "core (reset_ClosingConnection s) = core s" "core (called s) = core s" "core (after_schedule n c s) = core s"
  "core (AbandonCloseContinuation s) = core s"
  by (simp_all add: prim_defs)

lemma core_create [simp]: "core (Create s) = core s" "core (RegisterStateChanged s) = core s"
  by (simp_all add: Create_def RegisterStateChanged_def Let_def split: reply.split)

abbreviation keeps_core :: "self \<Rightarrow> bool" where
  "keeps_core self \<equiv> \<forall>c s. core (self c s) = core s"

lemma fail_terminal_core: "keeps_core self \<Longrightarrow> core (fail_terminal self result reason s) = core s"
  by (simp add: fail_terminal_def RestoreIncomingListenerAfterTerminal_def Let_def)

lemma RestoreIncoming_core: "keeps_core self \<Longrightarrow> core (RestoreIncomingListenerAfterTerminal self s) = core s"
  by (simp add: RestoreIncomingListenerAfterTerminal_def Let_def)

lemma ScheduleReconnect_core:
  "keeps_core self \<Longrightarrow> core (ScheduleReconnect self result shouldRetry completedAttempt reason s) = core s"
  by (simp add: ScheduleReconnect_def Let_def fail_terminal_core)

lemma ScheduleTransientOpenRetry_core:
  "keeps_core self \<Longrightarrow> core (ScheduleTransientOpenRetry self epoch result cooled s) = core s"
  by (simp add: ScheduleTransientOpenRetry_def Let_def fail_terminal_core)

lemma BeginClose_core:
  "keeps_core self \<Longrightarrow>
     core (BeginClose self epoch continuation failure shouldRetry completedAttempt reason s) = core s"
  by (simp add: BeginClose_def Let_def)

lemma CompleteFailure_core: "keeps_core self \<Longrightarrow> core (CompleteFailure self epoch result transient s) = core s"
  by (simp add: CompleteFailure_def Let_def ScheduleTransientOpenRetry_core ScheduleReconnect_core BeginClose_core)

lemma BeginCreate_core: "keeps_core self \<Longrightarrow> core (BeginCreate self epoch s) = core s"
  by (simp add: BeginCreate_def Let_def CompleteFailure_core)

lemma StartConnection_core:
  "keeps_core self \<Longrightarrow> core (StartConnection self operation openImmediately s) = core s"
  by (simp add: StartConnection_def Let_def BeginClose_core BeginCreate_core)

lemma StartAfterResume_core: "keeps_core self \<Longrightarrow> core (StartAfterResume self s) = core s"
  by (simp add: StartAfterResume_def)

lemma ContinueAfterClose_core: "keeps_core self \<Longrightarrow> core (ContinueAfterClose self epoch cooled s) = core s"
  by (cases "PendingCloseContinuation s")
    (simp_all add: ContinueAfterClose_def CompleteSuspendClose_def Let_def RestoreIncoming_core BeginCreate_core
      ScheduleReconnect_core ScheduleTransientOpenRetry_core StartAfterResume_core)

lemma dispatch_core: "core (dispatch n c s) = core s"
proof (induction n arbitrary: c s)
  case (Suc n)
  then show ?case by (cases c) (simp_all add: StartConnection_core ContinueAfterClose_core)
qed simp

lemmas go_core =
  dispatch_core StartConnection_core BeginClose_core BeginCreate_core CompleteFailure_core
  ScheduleReconnect_core StartAfterResume_core ContinueAfterClose_core

lemma core_intros:
  "core (s\<lparr>IsReconnectEnabled := b\<rparr>) =
     (case core s of (i, p, r, _, n, e, h) \<Rightarrow> (i, p, r, b, n, e, h))"
  "core (s\<lparr>IsIncomingEnabled := b\<rparr>) =
     (case core s of (i, p, r, c, _, e, h) \<Rightarrow> (i, p, r, c, b, e, h))"
  "core (s\<lparr>IsShutdown := b\<rparr>) =
     (case core s of (i, p, r, c, n, e, _) \<Rightarrow> (i, p, r, c, n, e, b))"
  by (simp_all add: core_def)

lemma Disconnect_core: "core (snd (Disconnect restoreIncoming s)) = core s"
  by (simp add: Disconnect_def Let_def go_core)

lemma session_step_core:
  "core (session_step s e) =
     (case core s of (i, p, r, c, n, f, h) \<Rightarrow>
        (i, p, r,
         (case e of EvSetReconnectEnabled b \<Rightarrow> if IsShutdown s then c else b | _ \<Rightarrow> c),
         (case e of EvSetIncomingEnabled b \<Rightarrow> if IsShutdown s then n else b | _ \<Rightarrow> n),
         (if e = EvSuspend then SuspendCloseEpoch (session_step s e) else f),
         e = EvShutdown \<or> h))"
proof (cases "e = EvSuspend")
  case True
  define t where "t = Suspend s"
  have "DeviceId t = DeviceId s \<and> PublishFact t = PublishFact s \<and> Replies t = Replies s \<and>
    IsReconnectEnabled t = IsReconnectEnabled s \<and> IsIncomingEnabled t = IsIncomingEnabled s \<and>
    IsShutdown t = IsShutdown s"
  proof -
    have "core (BeginSuspendClose epoch u) = core (u\<lparr>SuspendCloseEpoch := epoch\<rparr>)" for epoch u
      by (simp add: BeginSuspendClose_def go_core) (simp add: core_def)
    then show ?thesis unfolding t_def
      by (simp add: Suspend_def Let_def core_def prim_defs)
  qed
  with True show ?thesis by (simp add: core_def t_def)
next
  case False
  then show ?thesis
    by (cases e)
      (simp_all add: go_core core_intros Disconnect_core Rename_def HandleDeviceRemoved_def Connect_def
        SupersedePowerTransitionRecovery_def CancelReconnect_def CancelAutomaticReconnect_def
        SetReconnectEnabled_def SetIncomingEnabled_def Resume_def ResumeIdleAfterPowerTransition_def
        CancelPowerTransitionRecovery_def Shutdown_def CloseForShutdown_def OnStarted_def OnOpened_def
        OnStateChanged_def OnPostFailure_def CompleteCloseBarrier_def CompleteCloseCooldown_def
        OnRetryTimer_def OnTransientOpenRetryTimer_def Let_def split: prod.splits, simp add: core_def)
qed

subsection \<open>Closing for a suspension\<close>

definition suspend_closing :: "session \<Rightarrow> bool" where
  "suspend_closing s \<longleftrightarrow> IsCloseInFlight s \<and> \<not> IsCloseContinuationAbandoned s \<and>
     PendingCloseContinuation s = ContSuspend"

lemma suspend_closing_frame [simp]:
  "suspend_closing (s\<lparr>DeviceName := v0\<rparr>) = suspend_closing s"
  "suspend_closing (s\<lparr>ReconnectTimer := v1\<rparr>) = suspend_closing s"
  "suspend_closing (s\<lparr>CloseBarrierTimer := v2\<rparr>) = suspend_closing s"
  "suspend_closing (s\<lparr>StateChangedToken := v3\<rparr>) = suspend_closing s"
  "suspend_closing (s\<lparr>OperationEpoch := v4\<rparr>) = suspend_closing s"
  "suspend_closing (s\<lparr>TimerEpoch := v5\<rparr>) = suspend_closing s"
  "suspend_closing (s\<lparr>CloseBarrierEpoch := v6\<rparr>) = suspend_closing s"
  "suspend_closing (s\<lparr>CompletedRetryAttempts := v7\<rparr>) = suspend_closing s"
  "suspend_closing (s\<lparr>TransientOpenRetryAttempts := v8\<rparr>) = suspend_closing s"
  "suspend_closing (s\<lparr>Lifecycle := v9\<rparr>) = suspend_closing s"
  "suspend_closing (s\<lparr>CurrentOperation := v10\<rparr>) = suspend_closing s"
  "suspend_closing (s\<lparr>IsReconnectCancelled := v11\<rparr>) = suspend_closing s"
  "suspend_closing (s\<lparr>IsSuspended := v12\<rparr>) = suspend_closing s"
  "suspend_closing (s\<lparr>IsShutdown := v13\<rparr>) = suspend_closing s"
  "suspend_closing (s\<lparr>OpenImmediately := v14\<rparr>) = suspend_closing s"
  "suspend_closing (s\<lparr>RetryEligible := v15\<rparr>) = suspend_closing s"
  "suspend_closing (s\<lparr>RestoreIncomingAfterClose := v16\<rparr>) = suspend_closing s"
  "suspend_closing (s\<lparr>ResumeRequired := v17\<rparr>) = suspend_closing s"
  "suspend_closing (s\<lparr>ResumeOpenImmediately := v18\<rparr>) = suspend_closing s"
  "suspend_closing (s\<lparr>ResumeOperation := v19\<rparr>) = suspend_closing s"
  "suspend_closing (s\<lparr>ResumeRequested := v20\<rparr>) = suspend_closing s"
  "suspend_closing (s\<lparr>IsSuspendClosePending := v21\<rparr>) = suspend_closing s"
  "suspend_closing (s\<lparr>IsCloseCooldown := v22\<rparr>) = suspend_closing s"
  "suspend_closing (s\<lparr>PendingCloseFailure := v23\<rparr>) = suspend_closing s"
  "suspend_closing (s\<lparr>PendingCloseRetryEligible := v24\<rparr>) = suspend_closing s"
  "suspend_closing (s\<lparr>PendingCloseCompletedAttempt := v25\<rparr>) = suspend_closing s"
  "suspend_closing (s\<lparr>PendingCloseDisconnectReason := v26\<rparr>) = suspend_closing s"
  "suspend_closing (s\<lparr>Calls := v27\<rparr>) = suspend_closing s"
  "suspend_closing (s\<lparr>Exhausted := v28\<rparr>) = suspend_closing s"
  "suspend_closing (s\<lparr>Trace := v29\<rparr>) = suspend_closing s"
  "suspend_closing (s\<lparr>Connection := v30\<rparr>) = suspend_closing s"
  "suspend_closing (s\<lparr>ClosingConnection := v31\<rparr>) = suspend_closing s"
  "suspend_closing (s\<lparr>IsIncomingEnabled := v32\<rparr>) = suspend_closing s"
  "suspend_closing (s\<lparr>IsReconnectEnabled := v33\<rparr>) = suspend_closing s"
  "suspend_closing (s\<lparr>SuspendCloseEpoch := v34\<rparr>) = suspend_closing s"
  by (simp_all add: suspend_closing_def)

lemma suspend_closing_prim [simp]:
  "suspend_closing (Publish r t d s) = suspend_closing s" "suspend_closing (CancelTimer s) = suspend_closing s"
  "suspend_closing (CancelCloseBarrierTimer s) = suspend_closing s"
  "suspend_closing (RevokeStateChanged s) = suspend_closing s"
  "suspend_closing (reset_Connection s) = suspend_closing s"
  "suspend_closing (reset_ClosingConnection s) = suspend_closing s"
  "suspend_closing (called s) = suspend_closing s" "suspend_closing (after_schedule n c s) = suspend_closing s"
  "\<not> suspend_closing (AbandonCloseContinuation s)" "\<not> suspend_closing (s\<lparr>IsCloseInFlight := False\<rparr>)"
  "\<not> suspend_closing (s\<lparr>IsCloseInFlight := False, IsCloseCooldown := b, IsCloseContinuationAbandoned := g\<rparr>)"
  by (simp_all add: prim_defs) (simp_all add: suspend_closing_def)

lemma suspend_closing_create [simp]:
  "suspend_closing (Create s) = suspend_closing s" "suspend_closing (RegisterStateChanged s) = suspend_closing s"
  by (simp_all add: Create_def RegisterStateChanged_def Let_def split: reply.split)

abbreviation never_closing :: "self \<Rightarrow> bool" where
  "never_closing self \<equiv> \<forall>c s. \<not> suspend_closing s \<longrightarrow> \<not> suspend_closing (self c s)"

lemma RestoreIncoming_closing:
  "never_closing self \<Longrightarrow> \<not> suspend_closing s \<Longrightarrow> \<not> suspend_closing (RestoreIncomingListenerAfterTerminal self s)"
  by (simp add: RestoreIncomingListenerAfterTerminal_def Let_def)

lemma fail_terminal_closing:
  "never_closing self \<Longrightarrow> \<not> suspend_closing s \<Longrightarrow> \<not> suspend_closing (fail_terminal self result reason s)"
  by (simp add: fail_terminal_def RestoreIncoming_closing)

lemma ScheduleReconnect_closing:
  "never_closing self \<Longrightarrow> \<not> suspend_closing s \<Longrightarrow>
     \<not> suspend_closing (ScheduleReconnect self result shouldRetry completedAttempt reason s)"
  by (simp add: ScheduleReconnect_def Let_def fail_terminal_closing)

lemma ScheduleTransientOpenRetry_closing:
  "never_closing self \<Longrightarrow> \<not> suspend_closing s \<Longrightarrow>
     \<not> suspend_closing (ScheduleTransientOpenRetry self epoch result cooled s)"
  by (simp add: ScheduleTransientOpenRetry_def Let_def fail_terminal_closing)

lemma BeginClose_closing:
  assumes "never_closing self" and "continuation \<noteq> ContSuspend"
  shows "\<not> suspend_closing (BeginClose self epoch continuation failure shouldRetry completedAttempt reason s)"
proof -
  have "\<not> suspend_closing (u\<lparr>IsCloseInFlight := b\<rparr>)" if "PendingCloseContinuation u \<noteq> ContSuspend" for u b
    using that by (simp add: suspend_closing_def)
  moreover have "\<not> suspend_closing s" if "IsCloseContinuationAbandoned s"
    using that by (simp add: suspend_closing_def)
  moreover have "\<not> suspend_closing (s\<lparr>PendingCloseContinuation := continuation, PendingCloseFailure := a,
    PendingCloseRetryEligible := b, PendingCloseCompletedAttempt := c, PendingCloseDisconnectReason := d,
    IsCloseContinuationAbandoned := False\<rparr>)" for a b c d
    using assms(2) by (simp add: suspend_closing_def)
  ultimately show ?thesis
    using assms by (simp add: BeginClose_def Let_def)
qed

lemma CompleteFailure_closing:
  "never_closing self \<Longrightarrow> \<not> suspend_closing s \<Longrightarrow> \<not> suspend_closing (CompleteFailure self epoch result transient s)"
  by (simp add: CompleteFailure_def Let_def ScheduleTransientOpenRetry_closing ScheduleReconnect_closing
    BeginClose_closing)

lemma BeginCreate_closing:
  "never_closing self \<Longrightarrow> \<not> suspend_closing s \<Longrightarrow> \<not> suspend_closing (BeginCreate self epoch s)"
  by (simp add: BeginCreate_def Let_def CompleteFailure_closing)

lemma StartConnection_closing:
  "never_closing self \<Longrightarrow> \<not> suspend_closing s \<Longrightarrow>
     \<not> suspend_closing (StartConnection self operation openImmediately s)"
  by (simp add: StartConnection_def Let_def BeginClose_closing BeginCreate_closing)

lemma StartAfterResume_closing:
  "never_closing self \<Longrightarrow> \<not> suspend_closing s \<Longrightarrow> \<not> suspend_closing (StartAfterResume self s)"
  by (simp add: StartAfterResume_def)

lemma ContinueAfterClose_closing:
  assumes "never_closing self" and "\<not> suspend_closing s"
  shows "\<not> suspend_closing (ContinueAfterClose self epoch cooled s)"
proof -
  have [simp]: "\<not> suspend_closing (u\<lparr>PendingCloseContinuation := ContIdle\<rparr>)"
    "\<not> suspend_closing (u\<lparr>PendingCloseContinuation := ContIdle, IsCloseContinuationAbandoned := b\<rparr>)"
    "\<not> suspend_closing (u\<lparr>PendingCloseContinuation := ContIdle, PendingCloseFailure := f,
       PendingCloseRetryEligible := g, PendingCloseCompletedAttempt := h, PendingCloseDisconnectReason := i,
       IsCloseContinuationAbandoned := b\<rparr>)" for u b f g h i
    by (simp_all add: suspend_closing_def)
  show ?thesis
    using assms
    by (cases "PendingCloseContinuation s")
      (simp_all add: ContinueAfterClose_def CompleteSuspendClose_def Let_def RestoreIncoming_closing
        BeginCreate_closing ScheduleReconnect_closing ScheduleTransientOpenRetry_closing StartAfterResume_closing)
qed

lemma dispatch_closing: "\<not> suspend_closing s \<Longrightarrow> \<not> suspend_closing (dispatch n c s)"
proof (induction n arbitrary: c s)
  case (Suc n)
  then show ?case by (cases c) (simp_all add: StartConnection_closing ContinueAfterClose_closing)
qed simp

lemmas go_closing =
  dispatch_closing StartConnection_closing BeginClose_closing BeginCreate_closing CompleteFailure_closing
  ScheduleReconnect_closing StartAfterResume_closing ContinueAfterClose_closing

lemma session_step_closing:
  assumes "\<not> suspend_closing s" and "e \<noteq> EvSuspend"
  shows "\<not> suspend_closing (session_step s e)"
  using assms
  by (cases e)
    (simp_all add: go_closing Disconnect_def Rename_def HandleDeviceRemoved_def Connect_def
      SupersedePowerTransitionRecovery_def CancelReconnect_def CancelAutomaticReconnect_def
      SetReconnectEnabled_def SetIncomingEnabled_def Resume_def ResumeIdleAfterPowerTransition_def
      CancelPowerTransitionRecovery_def Shutdown_def CloseForShutdown_def OnStarted_def OnOpened_def
      OnStateChanged_def OnPostFailure_def CompleteCloseBarrier_def CompleteCloseCooldown_def
      OnRetryTimer_def OnTransientOpenRetryTimer_def Let_def)

end
