(* ===== verification/Device_Watcher.thy ===== *)
theory Device_Watcher
  imports Prelude "HOL-Library.List_Lexorder" "HOL-Library.Product_Lexorder" "HOL-Library.Multiset"
begin

section \<open>The device watcher\<close>

text \<open>
  \<open>core/DeviceWatcher\<close>: the inventory of audio devices, filled by the callbacks of a platform watcher.
  The record is \<open>DeviceWatcher::State\<close>; an association list with distinct keys is the unordered map
  \<open>Devices\<close>. The platform's answers to \<open>CreateDeviceInformationWatcher\<close> and \<open>Start\<close> are an arbitrary
  sequence. Facts are appended to \<open>WFacts\<close> in the order in which the sink receives them, and platform
  calls on the registration to \<open>WCalls\<close>. Every function is one task of the serialized device context.
\<close>

subsection \<open>Data\<close>

record DeviceIdentity =
  Id :: wstring
  Name :: wstring

record DeviceInventorySnapshot =
  InvGeneration :: u64
  EnumerationComplete :: bool
  InvDevices :: "DeviceIdentity list"

datatype DeviceWatcherFactKind =
  DeviceAdded | DeviceRemoved | EnumerationCompleted | WatcherInventoryChanged

record DeviceWatcherFact =
  WFactKind :: DeviceWatcherFactKind
  WFactGeneration :: u64
  WFactInventory :: DeviceInventorySnapshot
  WFactDeviceId :: wstring
  WFactDeviceName :: wstring

text \<open>
  How the platform answers when a watcher is created and started. A registration is an address; the
  exception of \<open>Start\<close> leaves it to be stopped and revoked.
\<close>

datatype watcher_reply = CreateThrows | StartThrows ptr | Started ptr

datatype watcher_call = WStop ptr | WRevokeCallbacks ptr

record watcher =
  WSink :: bool
  Registration :: ptr
  Devices :: "(wstring \<times> wstring) list"
  WatcherGeneration :: u64
  InventoryVersion :: u64
  InventoryGeneration :: u64
  IsWatcherRunning :: bool
  IsEnumerationComplete :: bool
  IsWatcherShutdown :: bool
  WReplies :: "nat \<Rightarrow> watcher_reply"
  WAttempts :: nat
  WFacts :: "DeviceWatcherFact list"
  WCalls :: "watcher_call list"

definition new_watcher :: "bool \<Rightarrow> (nat \<Rightarrow> watcher_reply) \<Rightarrow> watcher" where
  "new_watcher sink replies =
     \<lparr>WSink = sink, Registration = 0, Devices = [], WatcherGeneration = 0, InventoryVersion = 0,
      InventoryGeneration = 0, IsWatcherRunning = False, IsEnumerationComplete = False,
      IsWatcherShutdown = False, WReplies = replies, WAttempts = 0, WFacts = [], WCalls = []\<rparr>"

subsection \<open>Snapshots\<close>

text \<open>
  The comparison of \<open>BuildSnapshot\<close>: by display label, which is the identifier of a nameless device, then
  by identifier. The sort of the standard library is a sort by this key.
\<close>

definition label :: "DeviceIdentity \<Rightarrow> wstring" where
  "label d = (if Name d = [] then Id d else Name d)"

definition device_less :: "DeviceIdentity \<Rightarrow> DeviceIdentity \<Rightarrow> bool" where
  "device_less left right =
     (if label left \<noteq> label right then label left < label right else Id left < Id right)"

definition BuildSnapshot :: "u64 \<Rightarrow> bool \<Rightarrow> (wstring \<times> wstring) list \<Rightarrow> DeviceInventorySnapshot" where
  "BuildSnapshot inventoryGeneration enumerationComplete devices =
     \<lparr>InvGeneration = inventoryGeneration, EnumerationComplete = enumerationComplete,
      InvDevices = sort_key (\<lambda>d. (label d, Id d)) (map (\<lambda>(i, n). \<lparr>Id = i, Name = n\<rparr>) devices)\<rparr>"

definition WSnapshot :: "watcher \<Rightarrow> DeviceInventorySnapshot" where
  "WSnapshot w = BuildSnapshot (InventoryGeneration w) (IsEnumerationComplete w) (Devices w)"

text \<open>What the owner of the watcher sees: \<open>Shutdown\<close> drops the state, and its snapshot is then empty.\<close>

definition DeviceWatcher_Snapshot :: "watcher \<Rightarrow> DeviceInventorySnapshot" where
  "DeviceWatcher_Snapshot w =
     (if IsWatcherShutdown w
      then \<lparr>InvGeneration = 0, EnumerationComplete = False, InvDevices = []\<rparr> else WSnapshot w)"

subsection \<open>Operations\<close>

definition WPublish :: "DeviceWatcherFactKind \<Rightarrow> wstring \<Rightarrow> wstring \<Rightarrow> watcher \<Rightarrow> watcher" where
  "WPublish kind deviceId deviceName w =
     (if \<not> WSink w then w
      else w\<lparr>WFacts := WFacts w @
        [\<lparr>WFactKind = kind, WFactGeneration = WatcherGeneration w, WFactInventory = WSnapshot w,
          WFactDeviceId = deviceId, WFactDeviceName = deviceName\<rparr>]\<rparr>)"

definition Accepts :: "u64 \<Rightarrow> watcher \<Rightarrow> bool" where
  "Accepts callbackGeneration w \<longleftrightarrow>
     \<not> IsWatcherShutdown w \<and> IsWatcherRunning w \<and> callbackGeneration = WatcherGeneration w"

text \<open>\<open>Devices.try_emplace\<close> followed by the assignment of a changed name.\<close>

fun upsert :: "wstring \<Rightarrow> wstring \<Rightarrow> (wstring \<times> wstring) list \<Rightarrow> (wstring \<times> wstring) list" where
  "upsert i n [] = [(i, n)]"
| "upsert i n ((j, m) # ds) = (if j = i then (i, n) # ds else (j, m) # upsert i n ds)"

definition OnDeviceAdded :: "u64 \<Rightarrow> DeviceIdentity \<Rightarrow> watcher \<Rightarrow> watcher" where
  "OnDeviceAdded callbackGeneration device w =
     (if \<not> Accepts callbackGeneration w then w
      else
        let w = w\<lparr>InventoryVersion := InventoryVersion w + 1\<rparr>;
            inventoryChanged = (map_of (Devices w) (Id device) \<noteq> Some (Name device));
            w = (if inventoryChanged
                 then w\<lparr>Devices := upsert (Id device) (Name device) (Devices w),
                        InventoryGeneration := InventoryGeneration w + 1\<rparr>
                 else w);
            w = WPublish DeviceAdded (Id device) (Name device) w
        in if inventoryChanged then WPublish WatcherInventoryChanged [] [] w else w)"

definition OnDeviceRemoved :: "u64 \<Rightarrow> wstring \<Rightarrow> watcher \<Rightarrow> watcher" where
  "OnDeviceRemoved callbackGeneration deviceId w =
     (if \<not> Accepts callbackGeneration w then w
      else
        let w = w\<lparr>InventoryVersion := InventoryVersion w + 1\<rparr>;
            inventoryChanged = (map_of (Devices w) deviceId \<noteq> None);
            w = w\<lparr>Devices := filter (\<lambda>(i, n). i \<noteq> deviceId) (Devices w)\<rparr>;
            w = (if inventoryChanged then w\<lparr>InventoryGeneration := InventoryGeneration w + 1\<rparr> else w);
            w = WPublish DeviceRemoved deviceId [] w
        in if inventoryChanged then WPublish WatcherInventoryChanged [] [] w else w)"

definition OnEnumerationCompleted :: "u64 \<Rightarrow> watcher \<Rightarrow> watcher" where
  "OnEnumerationCompleted callbackGeneration w =
     (if \<not> Accepts callbackGeneration w \<or> IsEnumerationComplete w then w
      else
        let w = w\<lparr>IsEnumerationComplete := True, InventoryVersion := InventoryVersion w + 1,
                  InventoryGeneration := InventoryGeneration w + 1\<rparr>
        in WPublish WatcherInventoryChanged [] [] (WPublish EnumerationCompleted [] [] w))"

definition StopRegistration :: "watcher \<Rightarrow> watcher" where
  "StopRegistration w =
     (if Registration w = 0 then w
      else w\<lparr>Registration := 0,
             WCalls := WCalls w @ [WStop (Registration w), WRevokeCallbacks (Registration w)]\<rparr>)"

text \<open>
  \<open>Start\<close>. The platform delivers its callbacks through the executor, which queues them behind this task,
  so the generation cannot move while the registration starts; the sink of the service does not throw.
\<close>

definition WStart :: "watcher \<Rightarrow> bool \<times> watcher" where
  "WStart w =
     (if IsWatcherShutdown w \<or> IsWatcherRunning w then (False, w)
      else
        let w = w\<lparr>WatcherGeneration := WatcherGeneration w + 1, IsWatcherRunning := True,
                  IsEnumerationComplete := False, Devices := [],
                  InventoryVersion := InventoryVersion w + 1,
                  InventoryGeneration := InventoryGeneration w + 1\<rparr>;
            reply = WReplies w (WAttempts w);
            w = w\<lparr>WAttempts := Suc (WAttempts w)\<rparr>;
            failed = (\<lambda>registration w.
              let w = w\<lparr>IsWatcherRunning := False, IsEnumerationComplete := False,
                        WatcherGeneration := WatcherGeneration w + 1\<rparr>;
                  w = (if registration = 0 then w
                       else w\<lparr>WCalls := WCalls w @ [WStop registration, WRevokeCallbacks registration]\<rparr>)
              in (False, WPublish WatcherInventoryChanged [] [] w))
        in case reply of
             CreateThrows \<Rightarrow> failed 0 w
           | StartThrows registration \<Rightarrow> failed registration w
           | Started registration \<Rightarrow>
               if registration = 0 then failed 0 w
               else (True, WPublish WatcherInventoryChanged [] [] (w\<lparr>Registration := registration\<rparr>)))"

definition WStopWatcher :: "watcher \<Rightarrow> watcher" where
  "WStopWatcher w =
     (if \<not> IsWatcherRunning w then w
      else StopRegistration
             (w\<lparr>IsWatcherRunning := False, IsEnumerationComplete := False,
                WatcherGeneration := WatcherGeneration w + 1,
                InventoryGeneration := InventoryGeneration w + 1\<rparr>))"

definition WShutdown :: "watcher \<Rightarrow> watcher" where
  "WShutdown w =
     (if IsWatcherShutdown w then w
      else StopRegistration
             (w\<lparr>IsWatcherShutdown := True, IsWatcherRunning := False, IsEnumerationComplete := False,
                WatcherGeneration := WatcherGeneration w + 1\<rparr>))"

text \<open>
  \<open>RefreshAsync\<close> in its two halves: the versions it reads before it enumerates, and the task it posts
  with the enumerated devices. \<open>insert_or_assign\<close> keeps the last name of an identifier.
\<close>

definition RefreshBegin :: "watcher \<Rightarrow> u64 \<times> u64" where
  "RefreshBegin w = (WatcherGeneration w, InventoryVersion w)"

definition refreshed :: "DeviceIdentity list \<Rightarrow> (wstring \<times> wstring) list" where
  "refreshed inventory = foldl (\<lambda>ds d. upsert (Id d) (Name d) ds) [] inventory"

definition RefreshCommit :: "u64 \<times> u64 \<Rightarrow> DeviceIdentity list \<Rightarrow> watcher \<Rightarrow> watcher" where
  "RefreshCommit versions inventory w =
     (if IsWatcherShutdown w \<or> fst versions \<noteq> WatcherGeneration w \<or> snd versions \<noteq> InventoryVersion w then w
      else if set (Devices w) = set (refreshed inventory) \<and> IsEnumerationComplete w then w
      else WPublish WatcherInventoryChanged [] []
             (w\<lparr>Devices := refreshed inventory, IsEnumerationComplete := True,
                InventoryVersion := InventoryVersion w + 1,
                InventoryGeneration := InventoryGeneration w + 1\<rparr>))"

subsection \<open>The watcher as a state machine\<close>

datatype watcher_event =
  WEvStart
| WEvStop
| WEvShutdown
| WEvAdded u64 DeviceIdentity
| WEvRemoved u64 wstring
| WEvEnumerationCompleted u64
| WEvRefreshCommit "u64 \<times> u64" "DeviceIdentity list"

fun watcher_step :: "watcher \<Rightarrow> watcher_event \<Rightarrow> watcher" where
  "watcher_step w WEvStart = snd (WStart w)"
| "watcher_step w WEvStop = WStopWatcher w"
| "watcher_step w WEvShutdown = WShutdown w"
| "watcher_step w (WEvAdded generation device) = OnDeviceAdded generation device w"
| "watcher_step w (WEvRemoved generation deviceId) = OnDeviceRemoved generation deviceId w"
| "watcher_step w (WEvEnumerationCompleted generation) = OnEnumerationCompleted generation w"
| "watcher_step w (WEvRefreshCommit versions inventory) = RefreshCommit versions inventory w"

definition watcher_start :: "watcher \<Rightarrow> bool" where
  "watcher_start w \<longleftrightarrow> (\<exists>sink replies. w = new_watcher sink replies)"

text \<open>
  The invariant: one device per identifier, a registration exactly while the watcher runs, and calls on
  the platform in pairs: a registration that is stopped is revoked at once.
\<close>

fun stop_revoke_pairs :: "watcher_call list \<Rightarrow> bool" where
  "stop_revoke_pairs [] = True"
| "stop_revoke_pairs (WStop p # WRevokeCallbacks q # cs) = (p = q \<and> p \<noteq> 0 \<and> stop_revoke_pairs cs)"
| "stop_revoke_pairs _ = False"

definition watcher_inv :: "watcher \<Rightarrow> bool" where
  "watcher_inv w \<longleftrightarrow> distinct (map fst (Devices w)) \<and> (Registration w \<noteq> 0 \<longleftrightarrow> IsWatcherRunning w) \<and>
     \<not> (IsWatcherShutdown w \<and> IsWatcherRunning w) \<and> stop_revoke_pairs (WCalls w)"

lemma stop_revoke_pairs_snoc:
  "stop_revoke_pairs cs \<Longrightarrow> p \<noteq> 0 \<Longrightarrow> stop_revoke_pairs (cs @ [WStop p, WRevokeCallbacks p])"
  by (induction cs rule: stop_revoke_pairs.induct) auto

lemma set_fst_upsert [simp]: "fst ` set (upsert i n ds) = insert i (fst ` set ds)"
  by (induction i n ds rule: upsert.induct) auto

lemma distinct_upsert [simp]: "distinct (map fst ds) \<Longrightarrow> distinct (map fst (upsert i n ds))"
  by (induction i n ds rule: upsert.induct) auto

lemma map_of_upsert [simp]: "map_of (upsert i n ds) = (map_of ds)(i \<mapsto> n)"
  by (induction i n ds rule: upsert.induct) (auto simp: fun_eq_iff)

lemma distinct_refreshed [simp]: "distinct (map fst (refreshed inventory))"
proof -
  have "distinct (map fst ds) \<Longrightarrow>
    distinct (map fst (foldl (\<lambda>ds d. upsert (Id d) (Name d) ds) ds inventory))" for ds
    by (induction inventory arbitrary: ds) auto
  then show ?thesis by (simp add: refreshed_def)
qed

lemma WPublish_frame [simp]:
  "Devices (WPublish k i n w) = Devices w" "Registration (WPublish k i n w) = Registration w"
  "IsWatcherRunning (WPublish k i n w) = IsWatcherRunning w"
  "IsWatcherShutdown (WPublish k i n w) = IsWatcherShutdown w" "WCalls (WPublish k i n w) = WCalls w"
  "InventoryVersion (WPublish k i n w) = InventoryVersion w"
  "WatcherGeneration (WPublish k i n w) = WatcherGeneration w"
  "IsEnumerationComplete (WPublish k i n w) = IsEnumerationComplete w"
  by (simp_all add: WPublish_def)

lemmas watcher_ops =
  WStart_def WStopWatcher_def WShutdown_def OnDeviceAdded_def OnDeviceRemoved_def
  OnEnumerationCompleted_def RefreshCommit_def StopRegistration_def

lemma watcher_step_inv: "watcher_inv w \<Longrightarrow> watcher_inv (watcher_step w e)"
  by (cases e)
    (auto simp: watcher_ops watcher_inv_def Let_def stop_revoke_pairs_snoc distinct_map_filter
      split: watcher_reply.split)

lemma new_watcher_inv: "watcher_inv (new_watcher sink replies)"
  by (simp add: new_watcher_def watcher_inv_def)

interpretation watcher_machine: machine watcher_start watcher_step "\<lambda>_ _. True" watcher_inv
  by unfold_locales (auto simp: watcher_start_def new_watcher_inv watcher_step_inv)

subsection \<open>Properties\<close>

lemma device_less_key: "device_less l r \<longleftrightarrow> (label l, Id l) < (label r, Id r)"
  by (auto simp: device_less_def less_prod_def)

lemma sorted_distinct_strict:
  "sorted (map f xs) \<Longrightarrow> distinct (map f xs) \<Longrightarrow> sorted_wrt (\<lambda>x y. f x < f y) xs"
  for f :: "'a \<Rightarrow> 'b :: linorder"
  by (induction xs) (auto simp: order.strict_iff_order)

text \<open>
  The inventory snapshot: in every reachable state the published inventory lists exactly the known
  devices, each identifier once, strictly increasing in the order of the comparison: by label and then by
  identifier.
\<close>

theorem watcher_snapshot_sorted:
  assumes "reachable watcher_start watcher_step (\<lambda>_ _. True) w"
  shows "sorted_wrt device_less (InvDevices (WSnapshot w)) \<and>
    (\<forall>d. d \<in> set (InvDevices (WSnapshot w)) \<longleftrightarrow> map_of (Devices w) (Id d) = Some (Name d)) \<and>
    distinct (map Id (InvDevices (WSnapshot w)))"
proof -
  define devs where "devs = map (\<lambda>(i, n). \<lparr>Id = i, Name = n\<rparr>) (Devices w)"
  have d: "distinct (map fst (Devices w))"
    using watcher_machine.reachable_inv [OF assms] by (simp add: watcher_inv_def)
  then have "distinct (map Id devs)"
    by (simp add: devs_def comp_def case_prod_unfold)
  then have i: "distinct (map Id (sort_key (\<lambda>d. (label d, Id d)) devs))"
    by (simp add: distinct_map)
  then have "distinct (map (\<lambda>d. (label d, Id d)) (sort_key (\<lambda>d. (label d, Id d)) devs))"
    by (auto simp: distinct_map inj_on_def)
  then have "sorted_wrt device_less (sort_key (\<lambda>d. (label d, Id d)) devs)"
    unfolding device_less_key [abs_def] by (intro sorted_distinct_strict) auto
  moreover have "d \<in> set devs \<longleftrightarrow> map_of (Devices w) (Id d) = Some (Name d)" for d :: DeviceIdentity
    using d by (cases d) (force simp: devs_def)
  ultimately show ?thesis using i by (simp add: WSnapshot_def BuildSnapshot_def devs_def)
qed

text \<open>
  A step that changes the device map takes a new inventory version; no step moves it by more than one.
\<close>

lemma watcher_step_version:
  "InventoryVersion (watcher_step w e) = InventoryVersion w + 1 \<or>
   InventoryVersion (watcher_step w e) = InventoryVersion w \<and> Devices (watcher_step w e) = Devices w"
  by (cases e) (auto simp: watcher_ops Let_def split: watcher_reply.split)

lemma watcher_run_version:
  "\<exists>k \<le> length es. InventoryVersion (foldl watcher_step w es) = InventoryVersion w + of_nat k \<and>
     (k = 0 \<longrightarrow> Devices (foldl watcher_step w es) = Devices w)"
proof (induction es arbitrary: w)
  case (Cons e es)
  from Cons.IH [of "watcher_step w e"] obtain k where k: "k \<le> length es"
    "InventoryVersion (foldl watcher_step (watcher_step w e) es) = InventoryVersion (watcher_step w e) + of_nat k"
    "k = 0 \<longrightarrow> Devices (foldl watcher_step (watcher_step w e) es) = Devices (watcher_step w e)"
    by blast
  from watcher_step_version [of w e] show ?case
  proof
    assume "InventoryVersion (watcher_step w e) = InventoryVersion w + 1"
    with k show ?thesis by (intro exI [of _ "Suc k"]) (simp add: add.assoc)
  next
    assume "InventoryVersion (watcher_step w e) = InventoryVersion w \<and> Devices (watcher_step w e) = Devices w"
    with k show ?thesis by (intro exI [of _ k]) simp
  qed
qed simp

text \<open>
  C39 (a refresh never overwrites newer information). Between the moment an asynchronous refresh reads the
  versions and the moment its result is committed, any callbacks, restarts and other refreshes may run. If
  the device map has changed in between, the result is discarded. (Fewer than \<open>2\<^sup>6\<^sup>4\<close> tasks may run
  during one refresh, so the version cannot come round to its old value.)
\<close>

theorem watcher_refresh_not_stale:
  assumes "length es < 2 ^ 64" and "Devices (foldl watcher_step w es) \<noteq> Devices w"
  shows "RefreshCommit (RefreshBegin w) inventory (foldl watcher_step w es) = foldl watcher_step w es"
proof -
  from watcher_run_version [of es w] obtain k where k: "k \<le> length es"
    "InventoryVersion (foldl watcher_step w es) = InventoryVersion w + of_nat k"
    "k = 0 \<longrightarrow> Devices (foldl watcher_step w es) = Devices w" by blast
  with assms have "0 < k" "k < 2 ^ 64" by auto
  with k(2) have "InventoryVersion w \<noteq> InventoryVersion (foldl watcher_step w es)"
    by (metis word64_plus_of_nat_eq_iff less_numeral_extra(3))
  then show ?thesis by (simp add: RefreshCommit_def RefreshBegin_def)
qed

text \<open>A watcher that started and has seen two devices, the second without a name.\<close>

definition sample_watcher :: watcher where
  "sample_watcher = foldl watcher_step (new_watcher True (\<lambda>_. Started 1))
     [WEvStart, WEvAdded 1 \<lparr>Id = [98], Name = [122]\<rparr>, WEvAdded 1 \<lparr>Id = [97], Name = []\<rparr>]"

lemma sample_watcher_reachable: "reachable watcher_start watcher_step (\<lambda>_ _. True) sample_watcher"
  unfolding sample_watcher_def
  by (rule reachable_run [OF reach_start]) (auto simp: watcher_start_def)

lemma sample_watcher_devices:
  "Devices sample_watcher = [([98], [122]), ([97], [])]"
  "Devices (OnDeviceRemoved 1 [97] sample_watcher) = [([98], [122])]"
  by code_simp+

theorem watcher_snapshot_sorted_witness:
  "sorted_wrt device_less (InvDevices (WSnapshot sample_watcher)) \<and> length (Devices sample_watcher) = 2"
  using watcher_snapshot_sorted [OF sample_watcher_reachable] by (auto simp: sample_watcher_devices)

theorem watcher_refresh_not_stale_witness:
  "RefreshCommit (RefreshBegin sample_watcher) [] (foldl watcher_step sample_watcher [WEvRemoved 1 [97]]) =
     foldl watcher_step sample_watcher [WEvRemoved 1 [97]]"
  by (rule watcher_refresh_not_stale) (simp, simp add: sample_watcher_devices)

end
