(* ===== verification/Device_Service.thy ===== *)
theory Device_Service
  imports Session_Frame Device_Watcher
begin

section \<open>The device service\<close>

text \<open>
  \<open>core/DeviceService\<close>: the owner of every session, of the watcher and of the operation completions.
  \<open>Post\<close> serializes everything: a task posted while another runs is queued and runs after it, so the
  service is a state machine over tasks. The record is \<open>DeviceService::State\<close> without its queue.

  The list order of \<open>Sessions\<close> stands for the unspecified iteration order of the unordered map. A session
  publishes its facts in the middle of an operation, and the service reacts at once: \<open>run_session\<close> replays
  the facts the operation added to the session's trace, each with the snapshot the session shows at that
  moment (\<open>Running\<close>), before it stores the new session. The subscriber's facts are collected in \<open>SFacts\<close>.
  A completion is shared with its waiters: it is an index into \<open>Completions\<close>. An expired weak reference to
  a completion that nobody waits for is unobservable and is not modelled.
\<close>

subsection \<open>Data\<close>

datatype DeviceCommandKind =
  CmdConnect | CmdDisconnect | CmdReconnect | CmdDisconnectAll | CmdReconnectAll | CmdStart | CmdStop
| CmdSuspend | CmdResume | CmdShutdown

datatype DeviceCommandResultKind = Accepted | Coalesced | Rejected | Cancelled

datatype DeviceOperationStatus = OpSucceeded | OpFailed | OpCancelled | OpTimedOut | OpRejected

datatype DeviceFactKind = FactInventoryChanged | FactSessionChanged | FactOperationFailed | FactShutdown

record DeviceOperationCompletion =
  CDeviceId :: wstring
  CEpoch :: u64
  COwnsCancellation :: bool
  CStatus :: "DeviceOperationStatus option"

record DeviceCommandResult =
  RCommand :: DeviceCommandKind
  RKind :: DeviceCommandResultKind
  RDeviceId :: wstring
  ROperationEpoch :: u64
  RCompletion :: "nat option"

record DeviceServiceSnapshot =
  SnGeneration :: u64
  SnIsRunning :: bool
  SnIsSuspended :: bool
  SnIsShutdown :: bool
  SnInventory :: DeviceInventorySnapshot
  SnSessions :: "DeviceSessionSnapshot list"

record DeviceFact =
  FKind :: DeviceFactKind
  FSnapshot :: DeviceServiceSnapshot
  FDeviceId :: wstring
  FConnectionResult :: DeviceConnectionResult
  FOperation :: DeviceOperationKind
  FIsTerminalFailure :: bool
  FDisconnectReason :: DeviceDisconnectReason

record DeviceSettingsPolicy =
  Revision :: u64
  AllowIncomingConnections :: bool
  GlobalReconnectOnConnectionLoss :: bool
  ReconnectDeviceIds :: "wstring list"
  StopRequested :: bool

record service =
  Watcher :: watcher
  Sessions :: "(wstring \<times> session) list"
  Completions :: "DeviceOperationCompletion list"
  PendingOperations :: "nat list"
  IndividuallyReconnectEnabled :: "wstring set"
  PowerTransitionRecoveryEpochs :: "wstring \<rightharpoonup> u64"
  Subscriber :: bool
  ActiveSubscription :: u64
  NextSubscription :: u64
  Generation :: u64
  SvcIsRunning :: bool
  SvcIsSuspended :: bool
  SvcIsShutdown :: bool
  SvcIsIncomingEnabled :: bool
  IsGlobalReconnectEnabled :: bool
  SettingsPolicyRevision :: "u64 option"
  PublishedSnapshot :: DeviceServiceSnapshot
  Running :: "DeviceSessionSnapshot option"
  SFacts :: "DeviceFact list"
  PlatformReplies :: "wstring \<Rightarrow> nat \<Rightarrow> reply"

subsection \<open>Snapshots and completions\<close>

definition visible :: "service \<Rightarrow> (wstring \<times> session) \<Rightarrow> DeviceSessionSnapshot" where
  "visible st entry =
     (case Running st of
        Some snapshot \<Rightarrow> if SnapDeviceId snapshot = fst entry then snapshot else Snapshot (snd entry)
      | None \<Rightarrow> Snapshot (snd entry))"

fun find_session :: "wstring \<Rightarrow> (wstring \<times> session) list \<Rightarrow> session option" where
  "find_session i [] = None"
| "find_session i ((j, s) # ss) = (if j = i then Some s else find_session i ss)"

fun set_session :: "wstring \<Rightarrow> session \<Rightarrow> (wstring \<times> session) list \<Rightarrow> (wstring \<times> session) list" where
  "set_session i s [] = []"
| "set_session i s ((j, t) # ss) = (if j = i then (j, s) # ss else (j, t) # set_session i s ss)"

definition ResolveOperation ::
  "service \<Rightarrow> DeviceOperationCompletion \<Rightarrow> DeviceOperationStatus option" where
  "ResolveOperation st completion =
     (case find_session (CDeviceId completion) (Sessions st) of
        None \<Rightarrow> Some OpCancelled
      | Some session \<Rightarrow>
          if SvcIsShutdown st then Some OpCancelled
          else
            let snapshot = visible st (CDeviceId completion, session) in
            if SnapOperationEpoch snapshot \<noteq> CEpoch completion \<or> SnapState snapshot = Idle
            then Some OpCancelled
            else if SnapState snapshot = Connected then Some OpSucceeded
            else if SnapState snapshot = Failed then Some OpFailed
            else None)"

text \<open>\<open>DeviceOperationCompletion::Resolve\<close>: the first status is final.\<close>

definition Resolve :: "DeviceOperationStatus \<Rightarrow> DeviceOperationCompletion \<Rightarrow> DeviceOperationCompletion" where
  "Resolve status completion =
     (if CStatus completion \<noteq> None then completion else completion\<lparr>CStatus := Some status\<rparr>)"

definition resolve_pending :: "service \<Rightarrow> service" where
  "resolve_pending st =
     st\<lparr>Completions := map (\<lambda>(n, completion).
           if n \<in> set (PendingOperations st) then
             case ResolveOperation st completion of
               None \<Rightarrow> completion | Some status \<Rightarrow> Resolve status completion
           else completion) (enumerate 0 (Completions st)),
        PendingOperations :=
          filter (\<lambda>n. ResolveOperation st (Completions st ! n) = None) (PendingOperations st)\<rparr>"

definition UpdatePublishedSnapshot :: "service \<Rightarrow> service" where
  "UpdatePublishedSnapshot st =
     resolve_pending
       (st\<lparr>PublishedSnapshot :=
          \<lparr>SnGeneration = Generation st, SnIsRunning = SvcIsRunning st, SnIsSuspended = SvcIsSuspended st,
           SnIsShutdown = SvcIsShutdown st, SnInventory = DeviceWatcher_Snapshot (Watcher st),
           SnSessions = sort_key SnapDeviceId (map (visible st) (Sessions st))\<rparr>\<rparr>)"

definition SvcPublish ::
  "DeviceFactKind \<Rightarrow> wstring \<Rightarrow> DeviceConnectionResult \<Rightarrow> bool \<Rightarrow> DeviceOperationKind \<Rightarrow>
     DeviceDisconnectReason \<Rightarrow> service \<Rightarrow> service" where
  "SvcPublish kind deviceId result terminal operation disconnectReason st =
     (let st = UpdatePublishedSnapshot (st\<lparr>Generation := Generation st + 1\<rparr>) in
      if Subscriber st then
        st\<lparr>SFacts := SFacts st @
          [\<lparr>FKind = kind, FSnapshot = PublishedSnapshot st, FDeviceId = deviceId,
            FConnectionResult = result, FOperation = operation, FIsTerminalFailure = terminal,
            FDisconnectReason = disconnectReason\<rparr>]\<rparr>
      else st)"

abbreviation publish_kind :: "DeviceFactKind \<Rightarrow> wstring \<Rightarrow> service \<Rightarrow> service" where
  "publish_kind kind deviceId \<equiv> SvcPublish kind deviceId ResultSuccess False ManualConnect ReasonNone"

subsection \<open>Sessions\<close>

definition OnSessionFact :: "DeviceSessionFact \<Rightarrow> service \<Rightarrow> service" where
  "OnSessionFact f st =
     (if SvcIsShutdown st then st
      else
        let isFailure = (FactResult f = ResultTimedOut \<or> FactResult f = ResultDenied \<or>
                         FactResult f = ResultFailed);
            isExceptionalDisconnect = (FactDisconnectReason f = ReasonUnexpectedLoss \<or>
                                       FactDisconnectReason f = ReasonDeviceRemoved)
        in SvcPublish
             (if isExceptionalDisconnect \<or> \<not> isFailure then FactSessionChanged else FactOperationFailed)
             (SnapDeviceId (FactSnapshot f)) (FactResult f) (FactIsTerminalFailure f) (FactOperation f)
             (FactDisconnectReason f) st)"

definition published_facts :: "effect list \<Rightarrow> DeviceSessionFact list" where
  "published_facts tr = concat (map (\<lambda>e. case e of EPublish f \<Rightarrow> [f] | _ \<Rightarrow> []) tr)"

definition deliver :: "service \<Rightarrow> DeviceSessionFact \<Rightarrow> service" where
  "deliver st f = OnSessionFact f (st\<lparr>Running := Some (FactSnapshot f)\<rparr>)"

definition run_session :: "wstring \<Rightarrow> session_event \<Rightarrow> service \<Rightarrow> service" where
  "run_session i e st =
     (case find_session i (Sessions st) of
        None \<Rightarrow> st
      | Some s \<Rightarrow>
          let s' = session_step s e;
              st = foldl deliver st (published_facts (drop (length (Trace s)) (Trace s')))
          in st\<lparr>Running := None, Sessions := set_session i s' (Sessions st)\<rparr>)"

definition for_sessions :: "(wstring \<Rightarrow> service \<Rightarrow> service) \<Rightarrow> service \<Rightarrow> service" where
  "for_sessions f st = foldl (\<lambda>st i. f i st) st (map fst (Sessions st))"

definition session_snapshot :: "wstring \<Rightarrow> service \<Rightarrow> DeviceSessionSnapshot option" where
  "session_snapshot i st = map_option Snapshot (find_session i (Sessions st))"

definition SvcDeviceName :: "wstring \<Rightarrow> service \<Rightarrow> wstring" where
  "SvcDeviceName deviceId st =
     (case find (\<lambda>d. Id d = deviceId) (InvDevices (DeviceWatcher_Snapshot (Watcher st))) of
        None \<Rightarrow> [] | Some d \<Rightarrow> Name d)"

definition GetOrCreateSession :: "wstring \<Rightarrow> service \<Rightarrow> service" where
  "GetOrCreateSession deviceId st =
     (if deviceId = [] \<or> SvcIsShutdown st then st
      else if find_session deviceId (Sessions st) \<noteq> None then st
      else
        let session = new_session deviceId (SvcDeviceName deviceId st) True (PlatformReplies st deviceId);
            st = st\<lparr>Sessions := Sessions st @ [(deviceId, session)]\<rparr>;
            st = run_session deviceId (EvSetReconnectEnabled
                   (IsGlobalReconnectEnabled st \<or> deviceId \<in> IndividuallyReconnectEnabled st)) st
        in if SvcIsIncomingEnabled st then run_session deviceId (EvSetIncomingEnabled True) st else st)"

subsection \<open>The watcher\<close>

definition OnWatcherFact :: "service \<Rightarrow> DeviceWatcherFact \<Rightarrow> service" where
  "OnWatcherFact st f =
     (if SvcIsShutdown st then st
      else
        let i = WFactDeviceId f;
            st = (case WFactKind f of
                DeviceAdded \<Rightarrow>
                  let st = GetOrCreateSession i st in
                  if find_session i (Sessions st) = None then st
                  else
                    let st = run_session i (EvRename (WFactDeviceName f)) st in
                    if SvcIsIncomingEnabled st then run_session i (EvSetIncomingEnabled True) st else st
              | DeviceRemoved \<Rightarrow> run_session i EvHandleDeviceRemoved st
              | _ \<Rightarrow> st)
        in publish_kind FactInventoryChanged i st)"

definition run_watcher :: "watcher_event \<Rightarrow> service \<Rightarrow> service" where
  "run_watcher e st =
     (let w = Watcher st; w' = watcher_step w e in
      foldl OnWatcherFact (st\<lparr>Watcher := w'\<rparr>) (drop (length (WFacts w)) (WFacts w')))"

definition start_watcher :: "service \<Rightarrow> bool \<times> service" where
  "start_watcher st = (fst (WStart (Watcher st)), run_watcher WEvStart st)"

subsection \<open>Command results\<close>

definition Result ::
  "DeviceCommandKind \<Rightarrow> DeviceCommandResultKind \<Rightarrow> wstring \<Rightarrow> service \<Rightarrow> DeviceCommandResult \<times> service" where
  "Result command kind deviceId st =
     (let epoch = (if deviceId = [] then 0
                   else case session_snapshot deviceId st of
                     None \<Rightarrow> 0 | Some snapshot \<Rightarrow> SnapOperationEpoch snapshot);
          result = \<lparr>RCommand = command, RKind = kind, RDeviceId = deviceId, ROperationEpoch = epoch,
                    RCompletion = None\<rparr>
      in if (command = CmdConnect \<or> command = CmdReconnect) \<and> (kind = Accepted \<or> kind = Coalesced) then
           let completion = \<lparr>CDeviceId = deviceId, CEpoch = epoch, COwnsCancellation = (kind = Accepted),
                             CStatus = None\<rparr>;
               n = length (Completions st)
           in (result\<lparr>RCompletion := Some n\<rparr>,
               case ResolveOperation st completion of
                 None \<Rightarrow> st\<lparr>Completions := Completions st @ [completion],
                            PendingOperations := PendingOperations st @ [n]\<rparr>
               | Some status \<Rightarrow> st\<lparr>Completions := Completions st @ [Resolve status completion]\<rparr>)
         else (result, st))"

definition rejected_result :: "DeviceCommandKind \<Rightarrow> DeviceCommandResult" where
  "rejected_result command =
     \<lparr>RCommand = command, RKind = Rejected, RDeviceId = [], ROperationEpoch = 0, RCompletion = None\<rparr>"

subsection \<open>Commands\<close>

definition Initialize :: "(nat \<Rightarrow> watcher_reply) \<Rightarrow> (wstring \<Rightarrow> nat \<Rightarrow> reply) \<Rightarrow> service" where
  "Initialize watcherReplies replies =
     UpdatePublishedSnapshot
       \<lparr>Watcher = new_watcher True watcherReplies, Sessions = [], Completions = [], PendingOperations = [],
        IndividuallyReconnectEnabled = {}, PowerTransitionRecoveryEpochs = Map.empty, Subscriber = False,
        ActiveSubscription = 0, NextSubscription = 1, Generation = 0, SvcIsRunning = False,
        SvcIsSuspended = False, SvcIsShutdown = False, SvcIsIncomingEnabled = False,
        IsGlobalReconnectEnabled = True, SettingsPolicyRevision = None,
        PublishedSnapshot = \<lparr>SnGeneration = 0, SnIsRunning = False, SnIsSuspended = False,
          SnIsShutdown = False,
          SnInventory = \<lparr>InvGeneration = 0, EnumerationComplete = False, InvDevices = []\<rparr>, SnSessions = []\<rparr>,
        Running = None, SFacts = [], PlatformReplies = replies\<rparr>"

definition Subscribe :: "service \<Rightarrow> u64 \<times> service" where
  "Subscribe st =
     (if SvcIsShutdown st then (0, st)
      else (NextSubscription st,
            st\<lparr>Subscriber := True, ActiveSubscription := NextSubscription st,
               NextSubscription := NextSubscription st + 1\<rparr>))"

definition Unsubscribe :: "u64 \<Rightarrow> service \<Rightarrow> service" where
  "Unsubscribe subscription st =
     (if ActiveSubscription st \<noteq> subscription then st
      else st\<lparr>Subscriber := False, ActiveSubscription := 0\<rparr>)"

definition SvcStart :: "service \<Rightarrow> DeviceCommandResult \<times> service" where
  "SvcStart st =
     (if SvcIsShutdown st then Result CmdStart Rejected [] st
      else if SvcIsRunning st then Result CmdStart Coalesced [] st
      else
        let (started, st) = start_watcher st;
            st = st\<lparr>SvcIsRunning := started\<rparr>;
            (result, st) = Result CmdStart (if SvcIsRunning st then Accepted else Rejected) [] st
        in (result, publish_kind FactInventoryChanged [] st))"

definition SvcStop :: "service \<Rightarrow> DeviceCommandResult \<times> service" where
  "SvcStop st =
     (if SvcIsShutdown st then Result CmdStop Rejected [] st
      else if \<not> SvcIsRunning st then Result CmdStop Coalesced [] st
      else
        let st = (run_watcher WEvStop st)\<lparr>SvcIsRunning := False\<rparr>;
            (result, st) = Result CmdStop Accepted [] st
        in (result, publish_kind FactInventoryChanged [] st))"

definition SvcConnect :: "wstring \<Rightarrow> service \<Rightarrow> DeviceCommandResult \<times> service" where
  "SvcConnect deviceId st =
     (if deviceId = [] then (rejected_result CmdConnect, st)
      else if SvcIsShutdown st \<or> SvcIsSuspended st then Result CmdConnect Rejected deviceId st
      else
        let st = GetOrCreateSession deviceId st in
        case find_session deviceId (Sessions st) of
          None \<Rightarrow> (rejected_result CmdConnect, st)
        | Some session \<Rightarrow>
            let supersedes = IsSuspended session;
                st = st\<lparr>PowerTransitionRecoveryEpochs := (PowerTransitionRecoveryEpochs st)(deviceId := None)\<rparr>;
                snapshot = Snapshot session
            in if IsBusy session \<and> SnapState snapshot = Disconnecting \<and> \<not> supersedes
               then Result CmdConnect Rejected deviceId st
               else if SnapState snapshot = Connected then Result CmdConnect Coalesced deviceId st
               else
                 let operationEpoch = SnapOperationEpoch snapshot;
                     st = run_session deviceId (EvConnect ManualConnect True) st
                 in Result CmdConnect
                      (if map_option SnapOperationEpoch (session_snapshot deviceId st) = Some operationEpoch
                       then Coalesced else Accepted) deviceId st)"

definition SvcDisconnect :: "wstring \<Rightarrow> service \<Rightarrow> DeviceCommandResult \<times> service" where
  "SvcDisconnect deviceId st =
     (if deviceId = [] then (rejected_result CmdDisconnect, st)
      else if SvcIsShutdown st \<or> SvcIsSuspended st then Result CmdDisconnect Rejected deviceId st
      else
        let st = GetOrCreateSession deviceId st in
        case find_session deviceId (Sessions st) of
          None \<Rightarrow> (rejected_result CmdDisconnect, st)
        | Some session \<Rightarrow>
            let accepted = fst (Disconnect (SvcIsIncomingEnabled st) session);
                st = run_session deviceId (EvDisconnect (SvcIsIncomingEnabled st)) st
            in Result CmdDisconnect (if accepted then Accepted else Coalesced) deviceId st)"

definition SvcReconnect :: "wstring \<Rightarrow> service \<Rightarrow> DeviceCommandResult \<times> service" where
  "SvcReconnect deviceId st =
     (if deviceId = [] then (rejected_result CmdReconnect, st)
      else if SvcIsShutdown st \<or> SvcIsSuspended st then Result CmdReconnect Rejected deviceId st
      else
        let st = GetOrCreateSession deviceId st in
        case find_session deviceId (Sessions st) of
          None \<Rightarrow> (rejected_result CmdReconnect, st)
        | Some session \<Rightarrow>
            let supersedes = IsSuspended session;
                st = st\<lparr>PowerTransitionRecoveryEpochs := (PowerTransitionRecoveryEpochs st)(deviceId := None)\<rparr>;
                snapshot = Snapshot session
            in if IsBusy session \<and> SnapState snapshot = Disconnecting \<and> \<not> supersedes
               then Result CmdReconnect Rejected deviceId st
               else
                 let operationEpoch = SnapOperationEpoch snapshot;
                     st = run_session deviceId (EvConnect ManualReconnect True) st
                 in Result CmdReconnect
                      (if map_option SnapOperationEpoch (session_snapshot deviceId st) = Some operationEpoch
                       then Coalesced else Accepted) deviceId st)"

definition SvcCancelReconnect :: "wstring \<Rightarrow> service \<Rightarrow> DeviceCommandResult \<times> service" where
  "SvcCancelReconnect deviceId st =
     (if deviceId = [] then (rejected_result CmdReconnect, st)
      else if SvcIsShutdown st then Result CmdReconnect Rejected deviceId st
      else if find_session deviceId (Sessions st) \<noteq> None
      then Result CmdReconnect Cancelled deviceId (run_session deviceId EvCancelReconnect st)
      else Result CmdReconnect Coalesced deviceId st)"

definition CancelPendingReconnects :: "service \<Rightarrow> DeviceCommandResult \<times> service" where
  "CancelPendingReconnects st =
     (if SvcIsShutdown st then Result CmdReconnectAll Rejected [] st
      else Result CmdReconnectAll Cancelled [] (for_sessions (\<lambda>i. run_session i EvCancelReconnect) st))"

definition DisconnectAll :: "service \<Rightarrow> DeviceCommandResult \<times> service" where
  "DisconnectAll st =
     (if SvcIsShutdown st \<or> SvcIsSuspended st then Result CmdDisconnectAll Rejected [] st
      else Result CmdDisconnectAll Accepted []
             (for_sessions (\<lambda>i st. run_session i (EvDisconnect (SvcIsIncomingEnabled st)) st) st))"

definition ReconnectAll :: "service \<Rightarrow> DeviceCommandResult \<times> service" where
  "ReconnectAll st =
     (if SvcIsShutdown st \<or> SvcIsSuspended st then Result CmdReconnectAll Rejected [] st
      else Result CmdReconnectAll Accepted []
             (for_sessions (\<lambda>i st.
                if map_option SnapState (session_snapshot i st) = Some Connected
                then run_session i (EvConnect ManualReconnect True) st else st) st))"

definition ApplySettingsPolicy :: "DeviceSettingsPolicy \<Rightarrow> service \<Rightarrow> service" where
  "ApplySettingsPolicy policy st =
     (if SvcIsShutdown st \<or> StopRequested policy \<or>
         (case SettingsPolicyRevision st of None \<Rightarrow> False | Some revision \<Rightarrow> Revision policy \<le> revision)
      then st
      else
        let reconnectIds = set (ReconnectDeviceIds policy);
            reconnectChanged = (IsGlobalReconnectEnabled st \<noteq> GlobalReconnectOnConnectionLoss policy \<or>
                                IndividuallyReconnectEnabled st \<noteq> reconnectIds);
            incomingChanged = (SvcIsIncomingEnabled st \<noteq> AllowIncomingConnections policy);
            st = st\<lparr>SettingsPolicyRevision := Some (Revision policy),
                    IsGlobalReconnectEnabled := GlobalReconnectOnConnectionLoss policy,
                    IndividuallyReconnectEnabled := reconnectIds,
                    SvcIsIncomingEnabled := AllowIncomingConnections policy\<rparr>;
            st = for_sessions (\<lambda>i st.
                   let st = (if reconnectChanged
                             then run_session i (EvSetReconnectEnabled
                                    (IsGlobalReconnectEnabled st \<or> i \<in> IndividuallyReconnectEnabled st)) st
                             else st)
                   in if incomingChanged
                      then run_session i (EvSetIncomingEnabled (SvcIsIncomingEnabled st)) st else st) st
        in if incomingChanged \<and> SvcIsIncomingEnabled st
           then foldl (\<lambda>st d. GetOrCreateSession (Id d) st) st
                  (InvDevices (DeviceWatcher_Snapshot (Watcher st)))
           else st)"

definition ConnectStartupTargets :: "wstring list \<Rightarrow> service \<Rightarrow> service" where
  "ConnectStartupTargets deviceIds st =
     (if SvcIsShutdown st \<or> SvcIsSuspended st then st
      else foldl (\<lambda>st i.
             if i = [] then st else run_session i (EvConnect Startup True) (GetOrCreateSession i st))
           st deviceIds)"

definition RequiresPowerTransitionRecovery :: "DeviceSessionSnapshot \<Rightarrow> bool" where
  "RequiresPowerTransitionRecovery snapshot \<longleftrightarrow>
     SnapState snapshot = Connected \<or> SnapIsIncomingEnabled snapshot \<or> SnapState snapshot = Connecting \<or>
     SnapState snapshot = Disconnecting \<or> SnapState snapshot = WaitingForReconnect"

definition CapturePowerTransitionRecoveryAndSuspend :: "service \<Rightarrow> wstring list \<times> service" where
  "CapturePowerTransitionRecoveryAndSuspend st =
     (if SvcIsShutdown st \<or> SvcIsSuspended st then ([], st)
      else
        let recoveryDeviceIds =
              map fst (filter (\<lambda>(i, s). RequiresPowerTransitionRecovery (Snapshot s)) (Sessions st));
            st = run_watcher WEvStop (st\<lparr>SvcIsSuspended := True\<rparr>);
            st = for_sessions (\<lambda>i. run_session i EvSuspend) st;
            st = st\<lparr>PowerTransitionRecoveryEpochs :=
                   (\<lambda>i. if i \<in> set recoveryDeviceIds
                        then map_option SnapOperationEpoch (session_snapshot i st) else None)\<rparr>
        in (recoveryDeviceIds, publish_kind FactSessionChanged [] st))"

definition SvcResume :: "service \<Rightarrow> service" where
  "SvcResume st =
     (if SvcIsShutdown st \<or> \<not> SvcIsSuspended st then st
      else
        let st = st\<lparr>SvcIsSuspended := False, PowerTransitionRecoveryEpochs := Map.empty\<rparr>;
            st = (if SvcIsRunning st
                  then let (started, st) = start_watcher st in st\<lparr>SvcIsRunning := started\<rparr>
                  else st);
            st = for_sessions (\<lambda>i. run_session i EvResume) st
        in publish_kind FactSessionChanged [] st)"

definition StopAndReleaseSessions :: "service \<Rightarrow> service" where
  "StopAndReleaseSessions st =
     (for_sessions (\<lambda>i. run_session i EvShutdown) (run_watcher WEvShutdown st))\<lparr>Sessions := []\<rparr>"

definition SvcShutdown :: "service \<Rightarrow> service" where
  "SvcShutdown st =
     (if SvcIsShutdown st then st
      else
        let st = StopAndReleaseSessions (st\<lparr>SvcIsShutdown := True, SvcIsRunning := False\<rparr>);
            st = publish_kind FactShutdown [] st
        in st\<lparr>Subscriber := False, ActiveSubscription := 0\<rparr>)"

definition ResumeAfterPowerTransition :: "service \<Rightarrow> service" where
  "ResumeAfterPowerTransition st =
     (if SvcIsShutdown st then st
      else
        let wasSuspended = SvcIsSuspended st;
            st = st\<lparr>SvcIsSuspended := False\<rparr>;
            st = (if SvcIsRunning st then
                    let st = (if wasSuspended then st else run_watcher WEvStop st);
                        (started, st) = start_watcher st
                    in st\<lparr>SvcIsRunning := started\<rparr>
                  else st);
            st = (if wasSuspended then for_sessions (\<lambda>i. run_session i EvResumeIdle) st else st)
        in publish_kind FactSessionChanged [] st)"

definition resume_one :: "service \<Rightarrow> wstring \<Rightarrow> service" where
  "resume_one st i =
     (if i = [] then st
      else
        let forget = (\<lambda>st. st\<lparr>PowerTransitionRecoveryEpochs := (PowerTransitionRecoveryEpochs st)(i := None)\<rparr>)
        in case PowerTransitionRecoveryEpochs st i of
             None \<Rightarrow> st
           | Some recoveryEpoch \<Rightarrow>
               if map_option SnapOperationEpoch (session_snapshot i st) = Some recoveryEpoch
               then forget (run_session i EvResume st)
               else forget (run_session i EvCancelPowerTransitionRecovery st))"

definition ResumeSuspendedSessions :: "wstring list \<Rightarrow> service \<Rightarrow> service" where
  "ResumeSuspendedSessions deviceIds st =
     (if SvcIsShutdown st \<or> SvcIsSuspended st then st
      else publish_kind FactSessionChanged [] (foldl resume_one st (remdups deviceIds)))"

subsection \<open>Waiting for a completion\<close>

definition CancelOperation :: "wstring \<Rightarrow> u64 \<Rightarrow> service \<Rightarrow> service" where
  "CancelOperation deviceId operationEpoch st =
     (if SvcIsShutdown st then st
      else if map_option SnapOperationEpoch (session_snapshot deviceId st) \<noteq> Some operationEpoch then st
      else run_session deviceId (EvDisconnect (SvcIsIncomingEnabled st))
             (run_session deviceId EvCancelReconnect st))"

text \<open>
  \<open>WaitForCompletion\<close>: what the waiter gets when the wait ends, and the cancellation it posts when it gave
  up on an operation it owns.
\<close>

definition wait_outcome :: "bool \<Rightarrow> DeviceOperationCompletion \<Rightarrow> DeviceOperationStatus" where
  "wait_outcome stopRequested completion =
     (case CStatus completion of
        Some status \<Rightarrow> status
      | None \<Rightarrow> if stopRequested then OpCancelled else OpTimedOut)"

definition CancelAfterWait :: "nat \<Rightarrow> service \<Rightarrow> service" where
  "CancelAfterWait n st =
     (if length (Completions st) \<le> n then st
      else
        let completion = Completions st ! n in
        if \<not> COwnsCancellation completion \<or> CStatus completion \<noteq> None then st
        else CancelOperation (CDeviceId completion) (CEpoch completion) st)"

subsection \<open>Queries\<close>

definition find_snapshot :: "wstring \<Rightarrow> DeviceServiceSnapshot \<Rightarrow> DeviceSessionSnapshot option" where
  "find_snapshot deviceId snapshot = find (\<lambda>s. SnapDeviceId s = deviceId) (SnSessions snapshot)"

definition IsDeviceConnected :: "wstring \<Rightarrow> service \<Rightarrow> bool" where
  "IsDeviceConnected deviceId st =
     (case find_snapshot deviceId (PublishedSnapshot st) of
        None \<Rightarrow> False | Some s \<Rightarrow> SnapState s = Connected)"

definition busy_state :: "DeviceLifecycleState \<Rightarrow> bool" where
  "busy_state state \<longleftrightarrow> state = Connecting \<or> state = Disconnecting \<or> state = WaitingForReconnect"

definition HasBusyOperations :: "service \<Rightarrow> bool" where
  "HasBusyOperations st = list_ex (\<lambda>s. busy_state (SnapState s)) (SnSessions (PublishedSnapshot st))"

definition IsDeviceBusy :: "wstring \<Rightarrow> service \<Rightarrow> bool" where
  "IsDeviceBusy deviceId st =
     (case find_snapshot deviceId (PublishedSnapshot st) of
        None \<Rightarrow> False | Some s \<Rightarrow> busy_state (SnapState s))"

subsection \<open>Tasks\<close>

datatype service_event =
  SvSubscribe
| SvUnsubscribe u64
| SvStart
| SvStop
| SvConnect wstring
| SvDisconnect wstring
| SvReconnect wstring
| SvCancelReconnect wstring
| SvCancelPendingReconnects
| SvDisconnectAll
| SvReconnectAll
| SvApplySettingsPolicy DeviceSettingsPolicy
| SvConnectStartupTargets "wstring list"
| SvSuspend
| SvResume
| SvShutdown
| SvResumeAfterPowerTransition
| SvResumeSuspendedSessions "wstring list"
| SvCancelAfterWait nat
| SvSessionCallback wstring session_event
| SvWatcherCallback watcher_event

fun service_step :: "service \<Rightarrow> service_event \<Rightarrow> service" where
  "service_step st SvSubscribe = snd (Subscribe st)"
| "service_step st (SvUnsubscribe subscription) = Unsubscribe subscription st"
| "service_step st SvStart = snd (SvcStart st)"
| "service_step st SvStop = snd (SvcStop st)"
| "service_step st (SvConnect i) = snd (SvcConnect i st)"
| "service_step st (SvDisconnect i) = snd (SvcDisconnect i st)"
| "service_step st (SvReconnect i) = snd (SvcReconnect i st)"
| "service_step st (SvCancelReconnect i) = snd (SvcCancelReconnect i st)"
| "service_step st SvCancelPendingReconnects = snd (CancelPendingReconnects st)"
| "service_step st SvDisconnectAll = snd (DisconnectAll st)"
| "service_step st SvReconnectAll = snd (ReconnectAll st)"
| "service_step st (SvApplySettingsPolicy policy) = ApplySettingsPolicy policy st"
| "service_step st (SvConnectStartupTargets is) = ConnectStartupTargets is st"
| "service_step st SvSuspend = snd (CapturePowerTransitionRecoveryAndSuspend st)"
| "service_step st SvResume = SvcResume st"
| "service_step st SvShutdown = SvcShutdown st"
| "service_step st SvResumeAfterPowerTransition = ResumeAfterPowerTransition st"
| "service_step st (SvResumeSuspendedSessions is) = ResumeSuspendedSessions is st"
| "service_step st (SvCancelAfterWait n) = CancelAfterWait n st"
| "service_step st (SvSessionCallback i e) = run_session i e st"
| "service_step st (SvWatcherCallback e) = run_watcher e st"

text \<open>
  The tasks the outside posts: any command at any time, and the callbacks of sessions and of the watcher
  under the assumptions stated for them. Start, stop and shutdown of the watcher and the public operations
  of a session are the service's own calls, never callbacks.
\<close>

fun session_callback :: "session_event \<Rightarrow> bool" where
  "session_callback (EvStarted _ _ _) = True"
| "session_callback (EvOpened _ _ _) = True"
| "session_callback (EvStateChanged _ _ _) = True"
| "session_callback (EvPostFailure _ _) = True"
| "session_callback (EvCloseBarrier _ _) = True"
| "session_callback (EvCloseCooldown _) = True"
| "session_callback (EvRetryTimer _ _) = True"
| "session_callback (EvTransientOpenRetryTimer _ _) = True"
| "session_callback _ = False"

fun watcher_callback :: "watcher_event \<Rightarrow> bool" where
  "watcher_callback (WEvAdded _ _) = True"
| "watcher_callback (WEvRemoved _ _) = True"
| "watcher_callback (WEvEnumerationCompleted _) = True"
| "watcher_callback (WEvRefreshCommit _ _) = True"
| "watcher_callback _ = False"

fun service_enabled :: "service \<Rightarrow> service_event \<Rightarrow> bool" where
  "service_enabled st (SvSessionCallback i e) =
     (session_callback e \<and>
      (case find_session i (Sessions st) of None \<Rightarrow> True | Some s \<Rightarrow> session_enabled s e))"
| "service_enabled st (SvWatcherCallback e) = watcher_callback e"
| "service_enabled st e = True"

definition service_start :: "service \<Rightarrow> bool" where
  "service_start st \<longleftrightarrow> (\<exists>watcherReplies replies. st = Initialize watcherReplies replies)"

end
