(* ===== verification/Service_Laws.thy ===== *)
theory Service_Laws
  imports Device_Service
begin

section \<open>Laws of the device service\<close>

text \<open>
  What a predicate of the service state has to survive in order to hold after every task: one law for
  each way a task changes the state. The tasks are gone through once, in the locale; the invariants of the
  service are its interpretations.
\<close>

subsection \<open>The session map\<close>

lemma map_fst_set_session [simp]: "map fst (set_session i s ss) = map fst ss"
  by (induction i s ss rule: set_session.induct) auto

lemma find_set_session [simp]:
  "find_session j (set_session i s ss) =
     (if j = i \<and> find_session i ss \<noteq> None then Some s else find_session j ss)"
  by (induction i s ss rule: set_session.induct) auto

lemma find_session_append [simp]:
  "find_session i (ss @ ts) = (case find_session i ss of None \<Rightarrow> find_session i ts | Some s \<Rightarrow> Some s)"
  by (induction i ss rule: find_session.induct) auto

lemma find_session_None: "find_session i ss = None \<longleftrightarrow> i \<notin> fst ` set ss"
  by (induction i ss rule: find_session.induct) auto

subsection \<open>What publishing leaves alone\<close>

lemma resolve_pending_frame [simp]:
  "Sessions (resolve_pending st) = Sessions st" "Watcher (resolve_pending st) = Watcher st"
  "PowerTransitionRecoveryEpochs (resolve_pending st) = PowerTransitionRecoveryEpochs st"
  "IndividuallyReconnectEnabled (resolve_pending st) = IndividuallyReconnectEnabled st"
  "IsGlobalReconnectEnabled (resolve_pending st) = IsGlobalReconnectEnabled st"
  "SvcIsShutdown (resolve_pending st) = SvcIsShutdown st"
  "SvcIsSuspended (resolve_pending st) = SvcIsSuspended st"
  "SvcIsIncomingEnabled (resolve_pending st) = SvcIsIncomingEnabled st"
  "SettingsPolicyRevision (resolve_pending st) = SettingsPolicyRevision st"
  "PlatformReplies (resolve_pending st) = PlatformReplies st" "Running (resolve_pending st) = Running st"
  "SvcIsRunning (resolve_pending st) = SvcIsRunning st" "Subscriber (resolve_pending st) = Subscriber st"
  "Generation (resolve_pending st) = Generation st" "SFacts (resolve_pending st) = SFacts st"
  by (simp_all add: resolve_pending_def)

lemma SvcPublish_frame [simp]:
  "Sessions (SvcPublish k i r t p d st) = Sessions st" "Watcher (SvcPublish k i r t p d st) = Watcher st"
  "PowerTransitionRecoveryEpochs (SvcPublish k i r t p d st) = PowerTransitionRecoveryEpochs st"
  "IndividuallyReconnectEnabled (SvcPublish k i r t p d st) = IndividuallyReconnectEnabled st"
  "IsGlobalReconnectEnabled (SvcPublish k i r t p d st) = IsGlobalReconnectEnabled st"
  "SvcIsShutdown (SvcPublish k i r t p d st) = SvcIsShutdown st"
  "SvcIsSuspended (SvcPublish k i r t p d st) = SvcIsSuspended st"
  "SvcIsIncomingEnabled (SvcPublish k i r t p d st) = SvcIsIncomingEnabled st"
  "SettingsPolicyRevision (SvcPublish k i r t p d st) = SettingsPolicyRevision st"
  "PlatformReplies (SvcPublish k i r t p d st) = PlatformReplies st"
  "Running (SvcPublish k i r t p d st) = Running st" "Subscriber (SvcPublish k i r t p d st) = Subscriber st"
  "SvcIsRunning (SvcPublish k i r t p d st) = SvcIsRunning st"
  "Generation (SvcPublish k i r t p d st) = Generation st + 1"
  by (simp_all add: SvcPublish_def UpdatePublishedSnapshot_def Let_def)

lemma deliver_frame [simp]:
  "Sessions (deliver st f) = Sessions st" "Watcher (deliver st f) = Watcher st"
  "PowerTransitionRecoveryEpochs (deliver st f) = PowerTransitionRecoveryEpochs st"
  "IndividuallyReconnectEnabled (deliver st f) = IndividuallyReconnectEnabled st"
  "IsGlobalReconnectEnabled (deliver st f) = IsGlobalReconnectEnabled st"
  "SvcIsShutdown (deliver st f) = SvcIsShutdown st" "SvcIsSuspended (deliver st f) = SvcIsSuspended st"
  "SvcIsIncomingEnabled (deliver st f) = SvcIsIncomingEnabled st"
  "SettingsPolicyRevision (deliver st f) = SettingsPolicyRevision st"
  "PlatformReplies (deliver st f) = PlatformReplies st"
  "SvcIsRunning (deliver st f) = SvcIsRunning st" "Subscriber (deliver st f) = Subscriber st"
  by (simp_all add: deliver_def OnSessionFact_def Let_def)

lemma deliver_all_frame [simp]:
  "Sessions (foldl deliver st fs) = Sessions st" "Watcher (foldl deliver st fs) = Watcher st"
  "PowerTransitionRecoveryEpochs (foldl deliver st fs) = PowerTransitionRecoveryEpochs st"
  "IndividuallyReconnectEnabled (foldl deliver st fs) = IndividuallyReconnectEnabled st"
  "IsGlobalReconnectEnabled (foldl deliver st fs) = IsGlobalReconnectEnabled st"
  "SvcIsShutdown (foldl deliver st fs) = SvcIsShutdown st"
  "SvcIsSuspended (foldl deliver st fs) = SvcIsSuspended st"
  "SvcIsIncomingEnabled (foldl deliver st fs) = SvcIsIncomingEnabled st"
  "SettingsPolicyRevision (foldl deliver st fs) = SettingsPolicyRevision st"
  "PlatformReplies (foldl deliver st fs) = PlatformReplies st"
  "SvcIsRunning (foldl deliver st fs) = SvcIsRunning st" "Subscriber (foldl deliver st fs) = Subscriber st"
  by (induction fs arbitrary: st; simp)+

lemma run_session_frame [simp]:
  "Watcher (run_session i e st) = Watcher st"
  "PowerTransitionRecoveryEpochs (run_session i e st) = PowerTransitionRecoveryEpochs st"
  "IndividuallyReconnectEnabled (run_session i e st) = IndividuallyReconnectEnabled st"
  "IsGlobalReconnectEnabled (run_session i e st) = IsGlobalReconnectEnabled st"
  "SvcIsShutdown (run_session i e st) = SvcIsShutdown st"
  "SvcIsSuspended (run_session i e st) = SvcIsSuspended st"
  "SvcIsIncomingEnabled (run_session i e st) = SvcIsIncomingEnabled st"
  "SettingsPolicyRevision (run_session i e st) = SettingsPolicyRevision st"
  "PlatformReplies (run_session i e st) = PlatformReplies st"
  "SvcIsRunning (run_session i e st) = SvcIsRunning st" "Subscriber (run_session i e st) = Subscriber st"
  by (simp_all add: run_session_def Let_def split: option.split)

lemma run_session_keys [simp]: "map fst (Sessions (run_session i e st)) = map fst (Sessions st)"
  by (simp add: run_session_def Let_def split: option.split)

lemma find_run_session [simp]:
  "find_session j (Sessions (run_session i e st)) =
     (if j = i then map_option (\<lambda>s. session_step s e) (find_session i (Sessions st))
      else find_session j (Sessions st))"
  by (auto simp: run_session_def Let_def split: option.split)

lemma Result_frame [simp]:
  "Sessions (snd (Result c k i st)) = Sessions st" "Watcher (snd (Result c k i st)) = Watcher st"
  "PowerTransitionRecoveryEpochs (snd (Result c k i st)) = PowerTransitionRecoveryEpochs st"
  "IndividuallyReconnectEnabled (snd (Result c k i st)) = IndividuallyReconnectEnabled st"
  "IsGlobalReconnectEnabled (snd (Result c k i st)) = IsGlobalReconnectEnabled st"
  "SvcIsShutdown (snd (Result c k i st)) = SvcIsShutdown st"
  "SvcIsSuspended (snd (Result c k i st)) = SvcIsSuspended st"
  "SvcIsIncomingEnabled (snd (Result c k i st)) = SvcIsIncomingEnabled st"
  "SettingsPolicyRevision (snd (Result c k i st)) = SettingsPolicyRevision st"
  "PlatformReplies (snd (Result c k i st)) = PlatformReplies st"
  "Running (snd (Result c k i st)) = Running st"
  by (simp_all add: Result_def Let_def split: option.split)

lemma run_watcher_shutdown: "run_watcher WEvShutdown st = st\<lparr>Watcher := WShutdown (Watcher st)\<rparr>"
  by (simp add: run_watcher_def Let_def WShutdown_def StopRegistration_def)

subsection \<open>The laws\<close>

text \<open>The events a task passes to sessions without touching the policy flags.\<close>

fun plain_event :: "session_event \<Rightarrow> bool" where
  "plain_event EvSuspend = False"
| "plain_event (EvSetReconnectEnabled _) = False"
| "plain_event (EvSetIncomingEnabled _) = False"
| "plain_event EvShutdown = False"
| "plain_event _ = True"

locale service_frame =
  fixes P :: "service \<Rightarrow> bool" and allowed :: "session_event \<Rightarrow> bool"
  assumes plain_law: "plain_event e \<Longrightarrow> allowed e"
    and publish_law: "P st \<Longrightarrow> P (SvcPublish fkind i result terminal operation reason st)"
    and running_law: "P st \<Longrightarrow> P (st\<lparr>Running := x\<rparr>)"
    and session_law: "P st \<Longrightarrow> find_session i (Sessions st) = Some s \<Longrightarrow> allowed e \<Longrightarrow> session_enabled s e \<Longrightarrow>
      P (st\<lparr>Sessions := set_session i (session_step s e) (Sessions st)\<rparr>)"
    and result_law: "P st \<Longrightarrow> P (snd (Result command kind i st))"
    and watcher_law: "P st \<Longrightarrow> P (st\<lparr>Watcher := watcher_step (Watcher st) we\<rparr>)"
    and status_law: "P st \<Longrightarrow> P (st\<lparr>SvcIsRunning := b\<rparr>)" "P st \<Longrightarrow> P (st\<lparr>SvcIsSuspended := b\<rparr>)"
      "P st \<Longrightarrow> P (st\<lparr>Subscriber := b, ActiveSubscription := n\<rparr>)"
      "P st \<Longrightarrow> P (st\<lparr>Subscriber := b, ActiveSubscription := n, NextSubscription := m\<rparr>)"
    and forget_law:
      "P st \<Longrightarrow> P (st\<lparr>PowerTransitionRecoveryEpochs := (PowerTransitionRecoveryEpochs st)(i := None)\<rparr>)"
      "P st \<Longrightarrow> P (st\<lparr>PowerTransitionRecoveryEpochs := Map.empty\<rparr>)"
    and shutdown_law: "P st \<Longrightarrow> \<not> SvcIsShutdown st \<Longrightarrow>
      P (SvcPublish FactShutdown [] ResultSuccess False ManualConnect ReasonNone
        ((foldl (\<lambda>st i. run_session i EvShutdown st) (st\<lparr>SvcIsShutdown := True, SvcIsRunning := False,
          Watcher := WShutdown (Watcher st)\<rparr>) (map fst (Sessions st)))\<lparr>Sessions := []\<rparr>))"
begin

lemma deliver_law: "P st \<Longrightarrow> P (deliver st f)"
  by (simp add: deliver_def OnSessionFact_def Let_def running_law publish_law)

lemma deliver_all_law: "P st \<Longrightarrow> P (foldl deliver st fs)"
  by (induction fs arbitrary: st) (auto intro: deliver_law)

lemma run_session_law:
  assumes "P st" and "allowed e"
    and "\<And>s. find_session i (Sessions st) = Some s \<Longrightarrow> session_enabled s e"
  shows "P (run_session i e st)"
proof (cases "find_session i (Sessions st)")
  case (Some s)
  define u where "u = foldl deliver st (published_facts (drop (length (Trace s)) (Trace (session_step s e))))"
  have "P u" "Sessions u = Sessions st" using assms(1) by (simp_all add: u_def deliver_all_law)
  moreover from this have "find_session i (Sessions (u\<lparr>Running := None\<rparr>)) = Some s" using Some by simp
  ultimately have "P ((u\<lparr>Running := None\<rparr>)\<lparr>Sessions := set_session i (session_step s e) (Sessions (u\<lparr>Running := None\<rparr>))\<rparr>)"
    using assms Some by (intro session_law running_law) auto
  then show ?thesis using Some by (simp add: run_session_def u_def Let_def)
qed (use assms in \<open>simp add: run_session_def\<close>)

lemma for_list_law: "P st \<Longrightarrow> (\<And>i st. P st \<Longrightarrow> P (f st i)) \<Longrightarrow> P (foldl f st xs)"
  by (induction xs arbitrary: st) auto

lemma for_sessions_law: "P st \<Longrightarrow> (\<And>i st. P st \<Longrightarrow> P (f i st)) \<Longrightarrow> P (for_sessions f st)"
  by (simp add: for_sessions_def for_list_law)

end

text \<open>
  A predicate that also survives the creation of a session and the two tasks that set policy flags holds
  after every task.
\<close>

locale service_tasks = service_frame +
  assumes GetOrCreateSession_law: "P st \<Longrightarrow> P (GetOrCreateSession i st)"
    and incoming_law: "P st \<Longrightarrow> SvcIsIncomingEnabled st \<Longrightarrow> P (run_session i (EvSetIncomingEnabled True) st)"
    and ApplySettingsPolicy_law: "P st \<Longrightarrow> P (ApplySettingsPolicy policy st)"
begin

lemma OnWatcherFact_law:
  assumes "P st"
  shows "P (OnWatcherFact st f)"
proof -
  have "P (run_session i (EvRename name) (GetOrCreateSession i st))" for i name
    using assms by (intro run_session_law GetOrCreateSession_law plain_law) simp_all
  moreover have "P (run_session i EvHandleDeviceRemoved st)" for i
    using assms by (intro run_session_law plain_law) simp_all
  ultimately show ?thesis
    using assms
    by (simp add: OnWatcherFact_def Let_def publish_law GetOrCreateSession_law incoming_law
      split: DeviceWatcherFactKind.split)
qed

lemma OnWatcherFacts_law: "P st \<Longrightarrow> P (foldl OnWatcherFact st fs)"
  by (induction fs arbitrary: st) (auto intro: OnWatcherFact_law)

lemma run_watcher_law: "P st \<Longrightarrow> P (run_watcher e st)"
  by (simp add: run_watcher_def Let_def OnWatcherFacts_law watcher_law)

lemmas call_laws =
  publish_law run_session_law GetOrCreateSession_law run_watcher_law for_sessions_law for_list_law
  status_law forget_law plain_law incoming_law

lemma SvcStart_law: "P st \<Longrightarrow> P (snd (SvcStart st))"
  by (simp add: SvcStart_def start_watcher_def case_prod_unfold Let_def result_law call_laws)

lemma SvcStop_law: "P st \<Longrightarrow> P (snd (SvcStop st))"
  by (simp add: SvcStop_def case_prod_unfold Let_def result_law call_laws)

lemma SvcConnect_law: "P st \<Longrightarrow> P (snd (SvcConnect i st))"
  by (auto simp: SvcConnect_def Let_def result_law intro!: call_laws split: option.split)
    (auto simp: result_law intro!: result_law call_laws)

lemma SvcReconnect_law: "P st \<Longrightarrow> P (snd (SvcReconnect i st))"
  by (auto simp: SvcReconnect_def Let_def result_law intro!: call_laws split: option.split)
    (auto simp: result_law intro!: result_law call_laws)

lemma SvcDisconnect_law: "P st \<Longrightarrow> P (snd (SvcDisconnect i st))"
  by (auto simp: SvcDisconnect_def Let_def intro!: result_law call_laws split: option.split)

lemma SvcCancelReconnect_law: "P st \<Longrightarrow> P (snd (SvcCancelReconnect i st))"
  by (auto simp: SvcCancelReconnect_def intro!: result_law call_laws)

lemma all_sessions_law:
  "P st \<Longrightarrow> P (snd (CancelPendingReconnects st))"
  "P st \<Longrightarrow> P (snd (DisconnectAll st))"
  "P st \<Longrightarrow> P (snd (ReconnectAll st))"
  by (auto simp: CancelPendingReconnects_def DisconnectAll_def ReconnectAll_def intro!: result_law call_laws)

lemma ConnectStartupTargets_law: "P st \<Longrightarrow> P (ConnectStartupTargets is st)"
  by (auto simp: ConnectStartupTargets_def intro!: call_laws)

lemma SvcResume_law: "P st \<Longrightarrow> P (SvcResume st)"
  by (auto simp: SvcResume_def start_watcher_def Let_def intro!: call_laws)

lemma ResumeAfterPowerTransition_law: "P st \<Longrightarrow> P (ResumeAfterPowerTransition st)"
  by (auto simp: ResumeAfterPowerTransition_def start_watcher_def Let_def intro!: call_laws)

lemma CancelAfterWait_law: "P st \<Longrightarrow> P (CancelAfterWait n st)"
  by (auto simp: CancelAfterWait_def CancelOperation_def Let_def intro!: call_laws)

lemma Subscribe_law: "P st \<Longrightarrow> P (snd (Subscribe st))"
  by (simp add: Subscribe_def status_law)

lemma Unsubscribe_law: "P st \<Longrightarrow> P (Unsubscribe n st)"
  by (simp add: Unsubscribe_def status_law)

lemma SvcShutdown_law: "P st \<Longrightarrow> P (SvcShutdown st)"
  using shutdown_law [of st]
  by (simp add: SvcShutdown_def StopAndReleaseSessions_def run_watcher_shutdown for_sessions_def Let_def status_law)

text \<open>
  The two tasks of a power transition need more: the suspension replaces the recorded epochs, and the
  recovery releases a hold only where the session allows it.
\<close>

lemma suspend_law:
  assumes "P st" and "allowed EvSuspend" and "\<And>st r. P st \<Longrightarrow> P (st\<lparr>PowerTransitionRecoveryEpochs := r\<rparr>)"
  shows "P (snd (CapturePowerTransitionRecoveryAndSuspend st))"
  using assms(1,2) by (auto simp: CapturePowerTransitionRecoveryAndSuspend_def Let_def intro!: call_laws assms(3))

lemma resume_one_law:
  assumes "P st"
    and "\<And>s e. find_session i (Sessions st) = Some s \<Longrightarrow> PowerTransitionRecoveryEpochs st i = Some e \<Longrightarrow>
      OperationEpoch s \<noteq> e \<Longrightarrow> session_enabled s EvCancelPowerTransitionRecovery"
  shows "P (resume_one st i)"
proof (cases "PowerTransitionRecoveryEpochs st i")
  case None
  then show ?thesis using assms(1) by (auto simp: resume_one_def)
next
  case (Some e)
  have "P (run_session i EvCancelPowerTransitionRecovery st)"
    if "map_option SnapOperationEpoch (session_snapshot i st) \<noteq> Some e"
    using that Some
    by (intro run_session_law [OF assms(1)] plain_law assms(2)) (auto simp: session_snapshot_def Snapshot_def)
  moreover have "P (run_session i EvResume st)"
    by (intro run_session_law [OF assms(1)] plain_law) simp_all
  ultimately show ?thesis
    using assms(1) Some forget_law(1) [of "run_session i EvResume st" i]
      forget_law(1) [of "run_session i EvCancelPowerTransitionRecovery st" i]
    by (cases "map_option SnapOperationEpoch (session_snapshot i st) = Some e")
      (simp_all add: resume_one_def Let_def del: map_option_eq_Some)
qed

end

text \<open>A predicate that does not speak of the policy flags gives these laws from simpler ones.\<close>

locale service_law = service_frame +
  assumes set_law: "allowed (EvSetReconnectEnabled b)" "allowed (EvSetIncomingEnabled b)"
    and create_law: "P st \<Longrightarrow> i \<noteq> [] \<Longrightarrow> \<not> SvcIsShutdown st \<Longrightarrow> find_session i (Sessions st) = None \<Longrightarrow>
      P (st\<lparr>Sessions := Sessions st @ [(i, new_session i name True replies)]\<rparr>)"
    and policy_law: "P st \<Longrightarrow> P (st\<lparr>SettingsPolicyRevision := r, IsGlobalReconnectEnabled := b,
      IndividuallyReconnectEnabled := ids, SvcIsIncomingEnabled := c\<rparr>)"
begin

lemma new_session_law: "P st \<Longrightarrow> P (GetOrCreateSession i st)"
  by (auto simp: GetOrCreateSession_def Let_def intro!: run_session_law create_law set_law)

lemma new_policy_law: "P st \<Longrightarrow> P (ApplySettingsPolicy policy st)"
  by (auto simp: ApplySettingsPolicy_def Let_def
    intro!: for_list_law for_sessions_law run_session_law new_session_law policy_law set_law)

end

sublocale service_law \<subseteq> service_tasks
  by unfold_locales (auto intro: new_session_law new_policy_law run_session_law set_law)

end
