(* ===== verification/Service_Invariant.thy ===== *)
theory Service_Invariant
  imports Service_Laws
begin

section \<open>The service invariant\<close>

text \<open>
  The invariant of the sessions in the map (\<open>sessions_ok\<close>) and of the recovery from a power transition (\<open>recovery_ok\<close>), each
  an interpretation of the laws, and the machine that follows from them.
\<close>

subsection \<open>Sessions\<close>

text \<open>
  Every session in the map satisfies its own invariant, carries the identifier it is filed under and
  reports to the service; a shut-down service has none.
\<close>

definition sessions_ok :: "service \<Rightarrow> bool" where
  "sessions_ok st \<longleftrightarrow> distinct (map fst (Sessions st)) \<and>
     (\<forall>i s. find_session i (Sessions st) = Some s \<longrightarrow> session_inv s \<and> DeviceId s = i \<and> PublishFact s) \<and>
     (SvcIsShutdown st \<longrightarrow> Sessions st = [])"

lemma session_step_identity:
  "DeviceId (session_step s e) = DeviceId s" "PublishFact (session_step s e) = PublishFact s"
  "Replies (session_step s e) = Replies s"
  "e \<noteq> EvSuspend \<Longrightarrow> SuspendCloseEpoch (session_step s e) = SuspendCloseEpoch s"
  using session_step_core [of s e] by (simp_all add: core_def)

lemma sessions_ok_cong:
  "sessions_ok st \<Longrightarrow> Sessions st' = Sessions st \<Longrightarrow> SvcIsShutdown st' = SvcIsShutdown st \<Longrightarrow> sessions_ok st'"
  by (simp add: sessions_ok_def)

lemma foldl_run_session_frame [simp]:
  "Watcher (foldl (\<lambda>st i. run_session i e st) st is) = Watcher st"
  "SvcIsShutdown (foldl (\<lambda>st i. run_session i e st) st is) = SvcIsShutdown st"
  "map fst (Sessions (foldl (\<lambda>st i. run_session i e st) st is)) = map fst (Sessions st)"
  by (induction "is" arbitrary: st; simp)+

lemma sessions_ok_step:
  assumes "sessions_ok st" and "find_session i (Sessions st) = Some s" and "session_enabled s e"
  shows "sessions_ok (st\<lparr>Sessions := set_session i (session_step s e) (Sessions st)\<rparr>)"
  using assms by (auto simp: sessions_ok_def session_step_inv session_step_identity)

lemma sessions_ok_create:
  assumes "sessions_ok st" and "i \<noteq> []" and "\<not> SvcIsShutdown st" and "find_session i (Sessions st) = None"
  shows "sessions_ok (st\<lparr>Sessions := Sessions st @ [(i, new_session i name True replies)]\<rparr>)"
proof -
  have "DeviceId (new_session i name True replies) = i" "PublishFact (new_session i name True replies)"
    by (simp_all add: new_session_def)
  then show ?thesis
    using assms by (auto simp: sessions_ok_def find_session_None new_session_inv split: option.splits if_splits)
qed

interpretation all_sessions: service_law sessions_ok "\<lambda>_. True"
  by unfold_locales
    (auto intro: sessions_ok_step sessions_ok_create sessions_ok_cong, simp add: sessions_ok_def)

subsection \<open>Recovery after a power transition\<close>

text \<open>
  A session that is closing for a suspension is recorded with the epoch of that very suspension, so a
  recovery that finds another epoch was superseded and may release its hold.
\<close>

definition recovery_ok :: "service \<Rightarrow> bool" where
  "recovery_ok st \<longleftrightarrow> sessions_ok st \<and>
     (\<forall>i s e. PowerTransitionRecoveryEpochs st i = Some e \<and> find_session i (Sessions st) = Some s \<and>
        suspend_closing s \<longrightarrow> SuspendCloseEpoch s = e)"

lemma recovery_ok_cong:
  "recovery_ok st \<Longrightarrow> Sessions st' = Sessions st \<Longrightarrow> SvcIsShutdown st' = SvcIsShutdown st \<Longrightarrow>
     PowerTransitionRecoveryEpochs st' = PowerTransitionRecoveryEpochs st \<Longrightarrow> recovery_ok st'"
  by (auto simp: recovery_ok_def intro: sessions_ok_cong)

lemma recovery_ok_step:
  assumes "recovery_ok st" and "find_session i (Sessions st) = Some s" and "e \<noteq> EvSuspend" and "session_enabled s e"
  shows "recovery_ok (st\<lparr>Sessions := set_session i (session_step s e) (Sessions st)\<rparr>)"
  using assms session_step_closing [of s e]
  by (auto simp: recovery_ok_def sessions_ok_step session_step_identity split: if_splits)

lemma recovery_ok_create:
  assumes "recovery_ok st" and "i \<noteq> []" and "\<not> SvcIsShutdown st" and "find_session i (Sessions st) = None"
  shows "recovery_ok (st\<lparr>Sessions := Sessions st @ [(i, new_session i name True replies)]\<rparr>)"
proof -
  have "\<not> suspend_closing (new_session i name True replies)"
    by (simp add: new_session_def suspend_closing_def)
  then show ?thesis
    using assms by (auto simp: recovery_ok_def sessions_ok_create split: option.splits if_splits)
qed

interpretation recovery: service_law recovery_ok "\<lambda>e. e \<noteq> EvSuspend"
  by unfold_locales
    (auto intro: recovery_ok_step recovery_ok_create recovery_ok_cong,
     auto simp: recovery_ok_def sessions_ok_def)

lemma suspend_closing_epoch: "session_inv s \<Longrightarrow> suspend_closing s \<Longrightarrow> SuspendCloseEpoch s = OperationEpoch s"
  by (simp add: session_inv_def closing_ok_def continuation_ok_def suspend_closing_def)

text \<open>The suspension records its own epochs, so it establishes the recovery invariant anew.\<close>

lemma CapturePowerTransition_recovery:
  assumes "recovery_ok st"
  shows "recovery_ok (snd (CapturePowerTransitionRecoveryAndSuspend st))"
proof (cases "SvcIsShutdown st \<or> SvcIsSuspended st")
  case False
  define u where "u = for_sessions (\<lambda>i. run_session i EvSuspend) (run_watcher WEvStop (st\<lparr>SvcIsSuspended := True\<rparr>))"
  have "sessions_ok u"
    using assms unfolding u_def
    by (intro all_sessions.for_sessions_law all_sessions.run_session_law all_sessions.run_watcher_law
      all_sessions.status_law) (auto simp: recovery_ok_def)
  then have "recovery_ok (u\<lparr>PowerTransitionRecoveryEpochs :=
      (\<lambda>i. if i \<in> R then map_option SnapOperationEpoch (session_snapshot i u) else None)\<rparr>)" for R
    by (auto simp: recovery_ok_def sessions_ok_def session_snapshot_def Snapshot_def suspend_closing_epoch
      split: if_splits)
  then show ?thesis
    using False unfolding CapturePowerTransitionRecoveryAndSuspend_def Let_def u_def [symmetric]
    by (simp add: recovery.publish_law)
qed (use assms in \<open>auto simp: CapturePowerTransitionRecoveryAndSuspend_def\<close>)

text \<open>A recovery releases a hold only when no close for a suspension is in flight.\<close>

lemma superseded_enabled:
  assumes "recovery_ok st" and "find_session i (Sessions st) = Some s"
    and "PowerTransitionRecoveryEpochs st i = Some e" and "OperationEpoch s \<noteq> e"
  shows "session_enabled s EvCancelPowerTransitionRecovery"
proof -
  have "suspend_closing s \<Longrightarrow> SuspendCloseEpoch s = e" "session_inv s"
    using assms(1-3) by (auto simp: recovery_ok_def sessions_ok_def)
  with assms(4) have "\<not> suspend_closing s" using suspend_closing_epoch [of s] by auto
  then show ?thesis by (simp add: suspend_closing_def)
qed

lemma resume_one_recovery: "recovery_ok st \<Longrightarrow> recovery_ok (resume_one st i)"
  by (rule recovery.resume_one_law) (assumption, rule superseded_enabled)

lemma ResumeSuspendedSessions_recovery: "recovery_ok st \<Longrightarrow> recovery_ok (ResumeSuspendedSessions is st)"
  by (auto simp: ResumeSuspendedSessions_def intro!: recovery.publish_law recovery.for_list_law resume_one_recovery)

lemma session_callback_not_suspend: "session_callback e \<Longrightarrow> e \<noteq> EvSuspend"
  by (cases e) auto

lemmas recovery_ops =
  recovery.Subscribe_law recovery.Unsubscribe_law recovery.SvcShutdown_law CapturePowerTransition_recovery ResumeSuspendedSessions_recovery
  recovery.SvcStart_law recovery.SvcStop_law recovery.SvcConnect_law recovery.SvcDisconnect_law
  recovery.SvcReconnect_law recovery.SvcCancelReconnect_law recovery.all_sessions_law
  recovery.ApplySettingsPolicy_law recovery.ConnectStartupTargets_law recovery.SvcResume_law
  recovery.ResumeAfterPowerTransition_law recovery.CancelAfterWait_law recovery.run_watcher_law

lemma service_step_recovery:
  assumes "recovery_ok st" and "service_enabled st e"
  shows "recovery_ok (service_step st e)"
proof (cases e)
  case (SvSessionCallback i f)
  then show ?thesis
    using assms by (auto intro!: recovery.run_session_law dest: session_callback_not_suspend)
qed (use assms in \<open>simp_all add: recovery_ops\<close>)

lemma Initialize_recovery: "recovery_ok (Initialize watcherReplies replies)"
  by (simp add: Initialize_def UpdatePublishedSnapshot_def recovery_ok_def sessions_ok_def)

interpretation service_sessions: machine service_start service_step service_enabled recovery_ok
  by unfold_locales (auto simp: service_start_def Initialize_recovery service_step_recovery)

end
