(* ===== verification/Service_Completions.thy ===== *)
theory Service_Completions
  imports Service_Invariant
begin

section \<open>Operation completions\<close>

text \<open>
  A waiter blocks on its completion until the service resolves it. The first status is final, an
  unresolved completion is always pending, so the next publication looks at it again, and shutdown
  resolves what is left: no waiter is forgotten.
\<close>

subsection \<open>Resolution\<close>

lemma length_resolve_pending [simp]: "length (Completions (resolve_pending st)) = length (Completions st)"
  by (simp add: resolve_pending_def)

lemma nth_resolve_pending:
  "n < length (Completions st) \<Longrightarrow>
     Completions (resolve_pending st) ! n =
       (if n \<in> set (PendingOperations st) then
          case ResolveOperation st (Completions st ! n) of
            None \<Rightarrow> Completions st ! n | Some status \<Rightarrow> Resolve status (Completions st ! n)
        else Completions st ! n)"
  by (simp add: resolve_pending_def nth_enumerate_eq)

lemma Resolve_simps [simp]:
  "CDeviceId (Resolve r c) = CDeviceId c" "CEpoch (Resolve r c) = CEpoch c"
  "COwnsCancellation (Resolve r c) = COwnsCancellation c" "CStatus (Resolve r c) \<noteq> None"
  "CStatus c = None \<Longrightarrow> CStatus (Resolve r c) = Some r"
  "CStatus c \<noteq> None \<Longrightarrow> Resolve r c = c"
  by (simp_all add: Resolve_def)

text \<open>How the completions of a later state relate to those of an earlier one.\<close>

definition keeps_status :: "DeviceOperationCompletion \<Rightarrow> DeviceOperationCompletion \<Rightarrow> bool" where
  "keeps_status c d \<longleftrightarrow> CDeviceId d = CDeviceId c \<and> CEpoch d = CEpoch c \<and>
     COwnsCancellation d = COwnsCancellation c \<and> (CStatus c \<noteq> None \<longrightarrow> CStatus d = CStatus c)"

definition extends :: "service \<Rightarrow> service \<Rightarrow> bool" where
  "extends st0 st \<longleftrightarrow> length (Completions st0) \<le> length (Completions st) \<and>
     (\<forall>n < length (Completions st0). keeps_status (Completions st0 ! n) (Completions st ! n))"

lemma keeps_status_refl [simp]: "keeps_status c c"
  by (simp add: keeps_status_def)

lemma keeps_status_trans: "keeps_status a b \<Longrightarrow> keeps_status b c \<Longrightarrow> keeps_status a c"
  by (auto simp: keeps_status_def)

lemma extends_refl [simp]: "extends st st"
  by (simp add: extends_def)

lemma extends_trans: "extends a b \<Longrightarrow> extends b c \<Longrightarrow> extends a c"
  unfolding extends_def by (meson keeps_status_trans order_trans less_le_trans)

lemma extends_same: "Completions st' = Completions st \<Longrightarrow> extends st st'"
  by (simp add: extends_def)

lemma extends_resolve: "extends st (resolve_pending st)"
  by (auto simp: extends_def nth_resolve_pending keeps_status_def split: option.split)

lemma ResolveOperation_cong:
  "Sessions st' = Sessions st \<Longrightarrow> Running st' = Running st \<Longrightarrow> SvcIsShutdown st' = SvcIsShutdown st \<Longrightarrow>
     ResolveOperation st' = ResolveOperation st"
  by (simp add: fun_eq_iff ResolveOperation_def visible_def Let_def split: option.split)

lemma ResolveOperation_frame [simp]:
  "ResolveOperation (st\<lparr>Generation := n\<rparr>) = ResolveOperation st"
  "ResolveOperation (st\<lparr>PublishedSnapshot := x\<rparr>) = ResolveOperation st"
  by (rule ResolveOperation_cong; simp)+

lemma SvcPublish_completions:
  "Completions (SvcPublish k i r t p d st) = Completions (resolve_pending st)"
  "PendingOperations (SvcPublish k i r t p d st) = PendingOperations (resolve_pending st)"
  unfolding SvcPublish_def UpdatePublishedSnapshot_def resolve_pending_def Let_def ResolveOperation_frame
  by simp_all

lemma extends_publish: "extends st (SvcPublish k i r t p d st)"
  using extends_resolve [of st] by (simp add: extends_def SvcPublish_completions)

lemma extends_deliver_all: "extends st (foldl deliver st fs)"
proof (induction fs arbitrary: st)
  case (Cons f fs)
  have "extends st (deliver st f)"
    using extends_publish [of "st\<lparr>Running := Some (FactSnapshot f)\<rparr>"]
    by (auto simp: deliver_def OnSessionFact_def Let_def extends_def)
  then show ?case using Cons.IH extends_trans by (metis foldl_Cons)
qed simp

lemma extends_run_session: "extends st (run_session i e st)"
proof (cases "find_session i (Sessions st)")
  case (Some s)
  then show ?thesis
    using extends_deliver_all by (simp add: run_session_def Let_def extends_def)
qed (simp add: run_session_def)

lemma extends_result: "extends st (snd (Result c k i st))"
  by (auto simp: Result_def Let_def extends_def nth_append split: option.split)

lemma extends_for_list: "(\<And>st x. extends st (f st x)) \<Longrightarrow> extends st (foldl f st xs)"
  by (induction xs arbitrary: st) (auto intro: extends_trans)

lemma completions_shutdown [simp]:
  "SvcIsShutdown st \<Longrightarrow> Completions (foldl deliver st fs) = Completions st"
  "SvcIsShutdown st \<Longrightarrow> PendingOperations (foldl deliver st fs) = PendingOperations st"
  by (induction fs arbitrary: st; simp add: deliver_def OnSessionFact_def)+

lemma completions_shutdown_session [simp]:
  "SvcIsShutdown st \<Longrightarrow> Completions (run_session i e st) = Completions st"
  "SvcIsShutdown st \<Longrightarrow> PendingOperations (run_session i e st) = PendingOperations st"
  by (simp_all add: run_session_def Let_def split: option.split)

lemma completions_shutdown_sessions [simp]:
  "SvcIsShutdown st \<Longrightarrow> Completions (foldl (\<lambda>st i. run_session i e st) st is) = Completions st"
  "SvcIsShutdown st \<Longrightarrow> PendingOperations (foldl (\<lambda>st i. run_session i e st) st is) = PendingOperations st"
  by (induction "is" arbitrary: st; simp)+

interpretation completions: service_law "extends st0" "\<lambda>_. True" for st0
proof unfold_locales
  fix st
  assume "extends st0 st"
  then show "extends st0
      (publish_kind FactShutdown [] ((foldl (\<lambda>st i. run_session i EvShutdown st)
        (st\<lparr>SvcIsShutdown := True, SvcIsRunning := False, Watcher := WShutdown (Watcher st)\<rparr>)
        (map fst (Sessions st)))\<lparr>Sessions := []\<rparr>))"
    by (rule extends_trans) (rule extends_trans [OF _ extends_publish], rule extends_same, simp)
qed (auto intro: extends_trans [OF _ extends_publish] extends_trans [OF _ extends_result]
    extends_trans [OF _ extends_same])

lemma resume_one_extends: "extends st (resume_one st i)"
proof -
  have "extends st ((run_session i e st)\<lparr>PowerTransitionRecoveryEpochs := r\<rparr>)" for e r
    using extends_run_session extends_same by (rule extends_trans) simp
  then show ?thesis by (simp add: resume_one_def Let_def split: option.split)
qed

lemmas completions_ops =
  completions.Subscribe_law completions.Unsubscribe_law completions.SvcShutdown_law
  completions.SvcStart_law completions.SvcStop_law completions.SvcConnect_law completions.SvcDisconnect_law
  completions.SvcReconnect_law completions.SvcCancelReconnect_law completions.all_sessions_law
  completions.ApplySettingsPolicy_law completions.ConnectStartupTargets_law completions.SvcResume_law
  completions.ResumeAfterPowerTransition_law completions.CancelAfterWait_law completions.run_watcher_law

lemma service_step_extends: "extends st (service_step st e)"
proof (cases e)
  case SvSuspend
  then show ?thesis
    using completions.suspend_law [of st st] by (simp add: extends_trans [OF _ extends_same])
next
  case (SvResumeSuspendedSessions "is")
  then show ?thesis
    by (auto simp: ResumeSuspendedSessions_def
      intro: extends_trans [OF extends_for_list [OF resume_one_extends] extends_publish])
next
  case (SvSessionCallback i f)
  then show ?thesis by (simp add: extends_run_session)
qed (simp_all add: completions_ops)

subsection \<open>No completion is forgotten\<close>

definition completions_ok :: "service \<Rightarrow> bool" where
  "completions_ok st \<longleftrightarrow> sessions_ok st \<and>
     (\<forall>n < length (Completions st). CStatus (Completions st ! n) = None \<longrightarrow> n \<in> set (PendingOperations st)) \<and>
     (\<forall>n \<in> set (PendingOperations st). n < length (Completions st)) \<and>
     (SvcIsShutdown st \<longrightarrow> PendingOperations st = [])"

lemma completions_ok_cong:
  "completions_ok st \<Longrightarrow> sessions_ok st' \<Longrightarrow> Completions st' = Completions st \<Longrightarrow>
     PendingOperations st' = PendingOperations st \<Longrightarrow> SvcIsShutdown st' = SvcIsShutdown st \<Longrightarrow> completions_ok st'"
  by (simp add: completions_ok_def)

lemma completions_ok_same:
  "completions_ok st \<Longrightarrow> Sessions st' = Sessions st \<Longrightarrow> Completions st' = Completions st \<Longrightarrow>
     PendingOperations st' = PendingOperations st \<Longrightarrow> SvcIsShutdown st' = SvcIsShutdown st \<Longrightarrow> completions_ok st'"
  by (simp add: completions_ok_def sessions_ok_def)

lemma completions_ok_publish:
  assumes "completions_ok st"
  shows "completions_ok (SvcPublish k i r t p d st)"
proof -
  have "PendingOperations (resolve_pending st) =
    filter (\<lambda>n. ResolveOperation st (Completions st ! n) = None) (PendingOperations st)"
    by (simp add: resolve_pending_def)
  then show ?thesis
    using assms
    by (auto simp: completions_ok_def SvcPublish_completions nth_resolve_pending all_sessions.publish_law
      split: if_splits option.splits)
qed

lemma ResolveOperation_no_sessions: "Sessions st = [] \<Longrightarrow> ResolveOperation st c = Some OpCancelled"
  by (simp add: ResolveOperation_def)

lemma completions_ok_result:
  assumes "completions_ok st"
  shows "completions_ok (snd (Result c k i st))"
proof -
  have "ResolveOperation st d = Some OpCancelled" if "SvcIsShutdown st" for d
    using assms that by (simp add: completions_ok_def sessions_ok_def ResolveOperation_no_sessions)
  moreover have "sessions_ok (snd (Result c k i st))"
    using assms by (intro all_sessions.result_law) (simp add: completions_ok_def)
  ultimately show ?thesis
    using assms
    by (auto simp: completions_ok_def Result_def Let_def nth_append less_Suc_eq split: option.splits if_splits)
qed

text \<open>Shutdown empties the session map, so the final publication resolves every pending completion.\<close>

lemma completions_ok_shutdown:
  assumes "completions_ok st" and "SvcIsShutdown u" and "Sessions u = []"
    and "Completions u = Completions st" and "PendingOperations u = PendingOperations st"
  shows "completions_ok (SvcPublish k i r t p d u)"
proof -
  have "ResolveOperation u d = Some OpCancelled" for d
    using assms by (simp add: ResolveOperation_no_sessions)
  then have "PendingOperations (resolve_pending u) = []"
    by (simp add: resolve_pending_def)
  then show ?thesis
    using assms \<open>\<And>d. ResolveOperation u d = Some OpCancelled\<close>
    by (auto simp: completions_ok_def SvcPublish_completions nth_resolve_pending sessions_ok_def Resolve_def split: if_splits)
qed

interpretation unresolved: service_law completions_ok "\<lambda>_. True"
proof unfold_locales
  fix st
  assume ok: "completions_ok st"
  show "completions_ok
      (publish_kind FactShutdown [] ((foldl (\<lambda>st i. run_session i EvShutdown st)
        (st\<lparr>SvcIsShutdown := True, SvcIsRunning := False, Watcher := WShutdown (Watcher st)\<rparr>)
        (map fst (Sessions st)))\<lparr>Sessions := []\<rparr>))"
    by (rule completions_ok_shutdown [OF ok]) simp_all
next
  fix st i s e
  assume ok: "completions_ok st" and s: "find_session i (Sessions st) = Some s" "session_enabled s e"
  then have "sessions_ok (st\<lparr>Sessions := set_session i (session_step s e) (Sessions st)\<rparr>)"
    by (simp add: completions_ok_def sessions_ok_step)
  then show "completions_ok (st\<lparr>Sessions := set_session i (session_step s e) (Sessions st)\<rparr>)"
    by (rule completions_ok_cong [OF ok]) simp_all
next
  fix st i name replies
  assume ok: "completions_ok st" and "i \<noteq> []" "\<not> SvcIsShutdown st" "find_session i (Sessions st) = None"
  then have "sessions_ok (st\<lparr>Sessions := Sessions st @ [(i, new_session i name True replies)]\<rparr>)"
    by (simp add: completions_ok_def sessions_ok_create)
  then show "completions_ok (st\<lparr>Sessions := Sessions st @ [(i, new_session i name True replies)]\<rparr>)"
    by (rule completions_ok_cong [OF ok]) simp_all
qed (simp_all add: completions_ok_publish completions_ok_result, (erule completions_ok_same; simp)+)

text \<open>The invariant of the service: sessions, recovery epochs and completions together.\<close>

definition service_inv :: "service \<Rightarrow> bool" where
  "service_inv st \<longleftrightarrow> recovery_ok st \<and> completions_ok st"

lemma completions_ok_suspend:
  "completions_ok st \<Longrightarrow> completions_ok (snd (CapturePowerTransitionRecoveryAndSuspend st))"
  by (erule unresolved.suspend_law, simp, erule completions_ok_same, simp_all)

lemma resume_one_inv: "service_inv st \<Longrightarrow> service_inv (resume_one st i)"
  unfolding service_inv_def
  by (auto intro!: resume_one_recovery unresolved.resume_one_law superseded_enabled)

lemma ResumeSuspendedSessions_inv:
  assumes "service_inv st"
  shows "completions_ok (ResumeSuspendedSessions is st)"
proof -
  have "service_inv st \<Longrightarrow> service_inv (foldl resume_one st xs)" for st xs
    by (induction xs arbitrary: st) (auto intro: resume_one_inv)
  with assms show ?thesis
    by (simp add: ResumeSuspendedSessions_def service_inv_def completions_ok_publish)
qed

lemmas unresolved_ops =
  unresolved.Subscribe_law unresolved.Unsubscribe_law unresolved.SvcShutdown_law completions_ok_suspend
  unresolved.SvcStart_law unresolved.SvcStop_law unresolved.SvcConnect_law unresolved.SvcDisconnect_law
  unresolved.SvcReconnect_law unresolved.SvcCancelReconnect_law unresolved.all_sessions_law
  unresolved.ApplySettingsPolicy_law unresolved.ConnectStartupTargets_law unresolved.SvcResume_law
  unresolved.ResumeAfterPowerTransition_law unresolved.CancelAfterWait_law unresolved.run_watcher_law

lemma service_step_inv:
  assumes "service_inv st" and "service_enabled st e"
  shows "service_inv (service_step st e)"
proof -
  have "completions_ok (service_step st e)"
  proof (cases e)
    case (SvSessionCallback i f)
    then show ?thesis
      using assms by (auto simp: service_inv_def intro!: unresolved.run_session_law)
  next
    case (SvResumeSuspendedSessions "is")
    then show ?thesis using assms by (simp add: ResumeSuspendedSessions_inv)
  qed (use assms in \<open>simp_all add: service_inv_def unresolved_ops\<close>)
  then show ?thesis using assms by (simp add: service_inv_def service_step_recovery)
qed

lemma Initialize_inv: "service_inv (Initialize watcherReplies replies)"
proof -
  have "completions_ok (Initialize watcherReplies replies)"
    by (simp add: Initialize_def UpdatePublishedSnapshot_def completions_ok_def sessions_ok_def resolve_pending_def)
  then show ?thesis by (simp add: service_inv_def Initialize_recovery)
qed

interpretation svc: machine service_start service_step service_enabled service_inv
  by unfold_locales (auto simp: service_start_def Initialize_inv service_step_inv)

subsection \<open>Further invariants\<close>

text \<open>
  A predicate with the laws of the tasks that also survives the suspension holds in every reachable state,
  next to the service invariant.
\<close>

locale service_invariant = service_tasks +
  assumes suspend_allowed: "allowed EvSuspend"
    and recovery_law: "P st \<Longrightarrow> P (st\<lparr>PowerTransitionRecoveryEpochs := epochs\<rparr>)"
    and start_law: "P (Initialize watcherReplies replies)"
begin

lemma resume_all_law: "service_inv st \<Longrightarrow> P st \<Longrightarrow> P (foldl resume_one st is)"
proof (induction "is" arbitrary: st)
  case (Cons i "is")
  have "P (resume_one st i)"
    by (rule resume_one_law [OF Cons.prems(2)], rule superseded_enabled)
      (use Cons.prems(1) in \<open>simp_all add: service_inv_def\<close>)
  with Cons show ?case by (simp add: resume_one_inv)
qed simp

lemma service_step_law:
  assumes "service_inv st \<and> P st" and "service_enabled st e"
  shows "service_inv (service_step st e) \<and> P (service_step st e)"
proof -
  have "P (service_step st e)"
  proof (cases e)
    case SvSuspend
    then show ?thesis using assms suspend_law [of st] suspend_allowed recovery_law by simp
  next
    case (SvResumeSuspendedSessions "is")
    then show ?thesis using assms by (simp add: ResumeSuspendedSessions_def publish_law resume_all_law)
  next
    case (SvSessionCallback i f)
    then have "plain_event f" using assms(2) by (cases f) auto
    with SvSessionCallback assms show ?thesis by (auto intro!: run_session_law plain_law)
  qed (use assms in \<open>simp_all add: Subscribe_law Unsubscribe_law SvcShutdown_law SvcStart_law SvcStop_law
    SvcConnect_law SvcDisconnect_law SvcReconnect_law SvcCancelReconnect_law all_sessions_law
    ApplySettingsPolicy_law ConnectStartupTargets_law SvcResume_law ResumeAfterPowerTransition_law
    CancelAfterWait_law run_watcher_law\<close>)
  then show ?thesis using assms by (simp add: service_step_inv)
qed

end

sublocale service_invariant \<subseteq> machine service_start service_step service_enabled "\<lambda>st. service_inv st \<and> P st"
  by unfold_locales (force simp: service_start_def Initialize_inv start_law, rule service_step_law)

end
