(* ===== verification/Service_Policy.thy ===== *)
theory Service_Policy
  imports Service_Completions
begin

section \<open>Settings policy\<close>

text \<open>
  The settings policy in force and the flags of the sessions agree: a session reconnects exactly when the
  global setting or its own entry asks for it, and listens exactly when incoming connections are allowed.
  Two tasks break this for a moment: a new session starts with its own defaults, and a new policy is
  installed before the sessions are told. \<open>policy_upto\<close> leaves out the sessions still to be told.
\<close>

definition follows_policy :: "service \<Rightarrow> wstring \<Rightarrow> session \<Rightarrow> bool" where
  "follows_policy st i s \<longleftrightarrow>
     IsReconnectEnabled s = (IsGlobalReconnectEnabled st \<or> i \<in> IndividuallyReconnectEnabled st) \<and>
     IsIncomingEnabled s = SvcIsIncomingEnabled st"

definition policy_upto :: "wstring set \<Rightarrow> service \<Rightarrow> bool" where
  "policy_upto X st \<longleftrightarrow>
     (\<forall>i s. find_session i (Sessions st) = Some s \<longrightarrow> \<not> IsShutdown s \<and> (i \<notin> X \<longrightarrow> follows_policy st i s))"

abbreviation policy_ok :: "service \<Rightarrow> bool" where
  "policy_ok \<equiv> policy_upto {}"

lemma session_step_policy:
  "plain_event e \<or> e = EvSuspend \<Longrightarrow> IsReconnectEnabled (session_step s e) = IsReconnectEnabled s"
  "plain_event e \<or> e = EvSuspend \<Longrightarrow> IsIncomingEnabled (session_step s e) = IsIncomingEnabled s"
  "e \<noteq> EvShutdown \<Longrightarrow> IsShutdown (session_step s e) = IsShutdown s"
  "\<not> IsShutdown s \<Longrightarrow> IsReconnectEnabled (session_step s (EvSetReconnectEnabled b)) = b"
  "\<not> IsShutdown s \<Longrightarrow> IsIncomingEnabled (session_step s (EvSetReconnectEnabled b)) = IsIncomingEnabled s"
  "\<not> IsShutdown s \<Longrightarrow> IsIncomingEnabled (session_step s (EvSetIncomingEnabled b)) = b"
  "\<not> IsShutdown s \<Longrightarrow> IsReconnectEnabled (session_step s (EvSetIncomingEnabled b)) = IsReconnectEnabled s"
proof -
  show "plain_event e \<or> e = EvSuspend \<Longrightarrow> IsReconnectEnabled (session_step s e) = IsReconnectEnabled s"
    "plain_event e \<or> e = EvSuspend \<Longrightarrow> IsIncomingEnabled (session_step s e) = IsIncomingEnabled s"
    using session_step_core [of s e] by (cases e; simp add: core_def)+
  show "e \<noteq> EvShutdown \<Longrightarrow> IsShutdown (session_step s e) = IsShutdown s"
    using session_step_core [of s e] by (simp add: core_def)
  show "\<not> IsShutdown s \<Longrightarrow> IsReconnectEnabled (session_step s (EvSetReconnectEnabled b)) = b"
    "\<not> IsShutdown s \<Longrightarrow> IsIncomingEnabled (session_step s (EvSetReconnectEnabled b)) = IsIncomingEnabled s"
    using session_step_core [of s "EvSetReconnectEnabled b"] by (simp_all add: core_def del: session_step.simps)
  show "\<not> IsShutdown s \<Longrightarrow> IsIncomingEnabled (session_step s (EvSetIncomingEnabled b)) = b"
    "\<not> IsShutdown s \<Longrightarrow> IsReconnectEnabled (session_step s (EvSetIncomingEnabled b)) = IsReconnectEnabled s"
    using session_step_core [of s "EvSetIncomingEnabled b"] by (simp_all add: core_def del: session_step.simps)
qed

text \<open>The parts of the state the policy reads.\<close>

lemma policy_upto_cong:
  "policy_upto X st \<Longrightarrow> Sessions st' = Sessions st \<Longrightarrow> IsGlobalReconnectEnabled st' = IsGlobalReconnectEnabled st \<Longrightarrow>
     IndividuallyReconnectEnabled st' = IndividuallyReconnectEnabled st \<Longrightarrow>
     SvcIsIncomingEnabled st' = SvcIsIncomingEnabled st \<Longrightarrow> policy_upto X st'"
  by (simp add: policy_upto_def follows_policy_def)

lemma policy_ok_step:
  assumes "policy_ok st" and "find_session i (Sessions st) = Some s" and e: "plain_event e \<or> e = EvSuspend"
  shows "policy_ok (st\<lparr>Sessions := set_session i (session_step s e) (Sessions st)\<rparr>)"
proof -
  from e have "e \<noteq> EvShutdown" by auto
  with assms show ?thesis by (auto simp: policy_upto_def follows_policy_def session_step_policy)
qed

interpretation policy: service_frame policy_ok "\<lambda>e. plain_event e \<or> e = EvSuspend"
  by unfold_locales
    (auto intro: policy_ok_step policy_upto_cong, simp add: policy_upto_def)


text \<open>Telling one session: both flags when the policy is new, the changed ones when it was in force.\<close>

lemma tell_session:
  assumes "policy_upto X st"
    and "\<And>s. find_session i (Sessions st) = Some s \<Longrightarrow> \<not> a \<Longrightarrow>
      IsReconnectEnabled s = (IsGlobalReconnectEnabled st \<or> i \<in> IndividuallyReconnectEnabled st)"
    and "\<And>s. find_session i (Sessions st) = Some s \<Longrightarrow> \<not> b \<Longrightarrow> IsIncomingEnabled s = SvcIsIncomingEnabled st"
    and "u = (if a then run_session i (EvSetReconnectEnabled
        (IsGlobalReconnectEnabled st \<or> i \<in> IndividuallyReconnectEnabled st)) st else st)"
    and "v = (if b then run_session i (EvSetIncomingEnabled (SvcIsIncomingEnabled u)) u else u)"
  shows "policy_upto (X - {i}) v \<and> map fst (Sessions v) = map fst (Sessions st) \<and>
    (\<forall>j. j \<noteq> i \<longrightarrow> find_session j (Sessions v) = find_session j (Sessions st)) \<and>
    IsGlobalReconnectEnabled v = IsGlobalReconnectEnabled st \<and>
    IndividuallyReconnectEnabled v = IndividuallyReconnectEnabled st \<and>
    SvcIsIncomingEnabled v = SvcIsIncomingEnabled st"
proof -
  have "policy_upto (X - {i}) v"
    using assms(1-3) unfolding assms(4,5) policy_upto_def follows_policy_def
    by (auto simp: session_step_policy simp del: session_step.simps)
  then show ?thesis unfolding assms(4,5) by simp
qed

lemma GetOrCreateSession_policy: "policy_ok st \<Longrightarrow> policy_ok (GetOrCreateSession i st)"
proof (cases "i = [] \<or> SvcIsShutdown st \<or> find_session i (Sessions st) \<noteq> None")
  case False
  assume ok: "policy_ok st"
  define s where "s = new_session i (SvcDeviceName i st) True (PlatformReplies st i)"
  define t where "t = st\<lparr>Sessions := Sessions st @ [(i, s)]\<rparr>"
  have s: "\<not> IsShutdown s" "\<not> IsIncomingEnabled s" by (simp_all add: s_def new_session_def)
  then have "policy_upto {i} t"
    using ok False by (auto simp: t_def policy_upto_def follows_policy_def split: option.splits if_splits)
  moreover have "find_session i (Sessions t) = Some s" using False by (simp add: t_def)
  ultimately have "policy_upto ({i} - {i}) (if SvcIsIncomingEnabled t
      then run_session i (EvSetIncomingEnabled True) (run_session i (EvSetReconnectEnabled
        (IsGlobalReconnectEnabled t \<or> i \<in> IndividuallyReconnectEnabled t)) t)
      else run_session i (EvSetReconnectEnabled
        (IsGlobalReconnectEnabled t \<or> i \<in> IndividuallyReconnectEnabled t)) t)"
    using s tell_session [of "{i}" t i True "SvcIsIncomingEnabled t", OF _ _ _ refl refl] by auto
  then show ?thesis
    using False by (cases "SvcIsIncomingEnabled st") (simp_all add: GetOrCreateSession_def Let_def s_def t_def)
qed (auto simp: GetOrCreateSession_def)

lemma OnIncoming_policy:
  assumes "policy_ok st" and "SvcIsIncomingEnabled st"
  shows "policy_ok (run_session i (EvSetIncomingEnabled True) st)"
  using assms by (auto simp: policy_upto_def follows_policy_def session_step_policy simp del: session_step.simps)

text \<open>The loop of \<open>ApplySettingsPolicy\<close>: each pass tells one more session.\<close>

lemma tell_sessions:
  fixes a b :: bool
  defines "f \<equiv> \<lambda>st i.
    let st = (if a then run_session i (EvSetReconnectEnabled
                (IsGlobalReconnectEnabled st \<or> i \<in> IndividuallyReconnectEnabled st)) st else st)
    in if b then run_session i (EvSetIncomingEnabled (SvcIsIncomingEnabled st)) st else st"
  assumes "policy_upto (set is) st" and "distinct is"
    and "\<And>i s. i \<in> set is \<Longrightarrow> find_session i (Sessions st) = Some s \<Longrightarrow> \<not> a \<Longrightarrow>
      IsReconnectEnabled s = (IsGlobalReconnectEnabled st \<or> i \<in> IndividuallyReconnectEnabled st)"
    and "\<And>i s. i \<in> set is \<Longrightarrow> find_session i (Sessions st) = Some s \<Longrightarrow> \<not> b \<Longrightarrow>
      IsIncomingEnabled s = SvcIsIncomingEnabled st"
  shows "policy_ok (foldl f st is)"
  using assms(2-)
proof (induction "is" arbitrary: st)
  case (Cons i "is")
  define u where "u = (if a then run_session i (EvSetReconnectEnabled
        (IsGlobalReconnectEnabled st \<or> i \<in> IndividuallyReconnectEnabled st)) st else st)"
  have f: "f st i = (if b then run_session i (EvSetIncomingEnabled (SvcIsIncomingEnabled u)) u else u)"
    by (simp add: f_def u_def Let_def)
  note t = tell_session [of "set (i # is)" st i a b, OF Cons.prems(1) _ _ u_def f]
  have "policy_upto (set (i # is) - {i}) (f st i)"
    and same: "\<And>j. j \<noteq> i \<Longrightarrow> find_session j (Sessions (f st i)) = find_session j (Sessions st)"
      "IsGlobalReconnectEnabled (f st i) = IsGlobalReconnectEnabled st"
      "IndividuallyReconnectEnabled (f st i) = IndividuallyReconnectEnabled st"
      "SvcIsIncomingEnabled (f st i) = SvcIsIncomingEnabled st"
    using t Cons.prems(3,4) by auto
  moreover have "set (i # is) - {i} = set is" using Cons.prems(2) by auto
  ultimately have "policy_ok (foldl f (f st i) is)"
    using Cons.prems by (intro Cons.IH) (auto, metis+)
  then show ?case by simp
qed simp

lemma find_session_key: "find_session i ss = Some s \<Longrightarrow> i \<in> fst ` set ss"
  by (metis find_session_None option.distinct(1))

lemma ApplySettingsPolicy_policy:
  assumes "policy_ok st" and "distinct (map fst (Sessions st))"
  shows "policy_ok (ApplySettingsPolicy policy st)"
proof (cases "SvcIsShutdown st \<or> StopRequested policy \<or>
    (case SettingsPolicyRevision st of None \<Rightarrow> False | Some revision \<Rightarrow> Revision policy \<le> revision)")
  case False
  define a where "a = (IsGlobalReconnectEnabled st \<noteq> GlobalReconnectOnConnectionLoss policy \<or>
    IndividuallyReconnectEnabled st \<noteq> set (ReconnectDeviceIds policy))"
  define b where "b = (SvcIsIncomingEnabled st \<noteq> AllowIncomingConnections policy)"
  define t where "t = st\<lparr>SettingsPolicyRevision := Some (Revision policy),
    IsGlobalReconnectEnabled := GlobalReconnectOnConnectionLoss policy,
    IndividuallyReconnectEnabled := set (ReconnectDeviceIds policy),
    SvcIsIncomingEnabled := AllowIncomingConnections policy\<rparr>"
  define u where "u = for_sessions (\<lambda>i st.
    let st = (if a then run_session i (EvSetReconnectEnabled
                (IsGlobalReconnectEnabled st \<or> i \<in> IndividuallyReconnectEnabled st)) st else st)
    in if b then run_session i (EvSetIncomingEnabled (SvcIsIncomingEnabled st)) st else st) t"
  have "policy_upto (set (map fst (Sessions t))) t"
    using assms(1) by (simp add: policy_upto_def t_def) (metis find_session_key)
  moreover have "IsReconnectEnabled s = (IsGlobalReconnectEnabled t \<or> i \<in> IndividuallyReconnectEnabled t)"
    if "find_session i (Sessions t) = Some s" "\<not> a" for i s
    using assms(1) that by (simp add: t_def a_def policy_upto_def follows_policy_def)
  moreover have "IsIncomingEnabled s = SvcIsIncomingEnabled t"
    if "find_session i (Sessions t) = Some s" "\<not> b" for i s
    using assms(1) that by (simp add: t_def b_def policy_upto_def follows_policy_def)
  moreover have "distinct (map fst (Sessions t))" using assms(2) by (simp add: t_def)
  ultimately have "policy_ok u"
    unfolding u_def for_sessions_def by (intro tell_sessions) blast+
  then have "policy_ok (foldl (\<lambda>st d. GetOrCreateSession (Id d) st) u ds)" for ds :: "DeviceIdentity list"
    by (intro policy.for_list_law GetOrCreateSession_policy)
  with \<open>policy_ok u\<close> False show ?thesis
    unfolding ApplySettingsPolicy_def Let_def a_def [symmetric] b_def [symmetric] t_def [symmetric] u_def [symmetric, unfolded Let_def]
    by simp
qed (use assms in \<open>auto simp: ApplySettingsPolicy_def\<close>)

text \<open>Sessions and policy together give the laws of all tasks.\<close>

definition settled :: "service \<Rightarrow> bool" where
  "settled st \<longleftrightarrow> sessions_ok st \<and> policy_ok st"

lemma Initialize_settled: "settled (Initialize watcherReplies replies)"
  using Initialize_recovery [of watcherReplies replies]
  by (simp add: settled_def recovery_ok_def policy_upto_def) (simp add: Initialize_def UpdatePublishedSnapshot_def)

lemma settled_same: "settled st \<Longrightarrow> settled (st\<lparr>PowerTransitionRecoveryEpochs := r\<rparr>)"
  by (simp add: settled_def sessions_ok_def policy_upto_def follows_policy_def)

interpretation settled: service_invariant settled "\<lambda>e. plain_event e \<or> e = EvSuspend"
proof unfold_locales
  fix st i policy
  show "settled st \<Longrightarrow> settled (GetOrCreateSession i st)"
    by (simp add: settled_def GetOrCreateSession_policy all_sessions.GetOrCreateSession_law)
  show "settled st \<Longrightarrow> settled (ApplySettingsPolicy policy st)"
    by (simp add: settled_def ApplySettingsPolicy_policy all_sessions.ApplySettingsPolicy_law)
      (simp add: sessions_ok_def ApplySettingsPolicy_policy)
  show "settled st \<Longrightarrow> SvcIsIncomingEnabled st \<Longrightarrow> settled (run_session i (EvSetIncomingEnabled True) st)"
    by (simp add: settled_def OnIncoming_policy all_sessions.run_session_law)
qed (simp_all add: Initialize_settled settled_same, simp_all add: settled_def policy.publish_law all_sessions.publish_law policy.running_law all_sessions.running_law
  policy.session_law all_sessions.session_law policy.result_law all_sessions.result_law
  policy.watcher_law all_sessions.watcher_law policy.status_law all_sessions.status_law
  policy.forget_law all_sessions.forget_law policy.shutdown_law all_sessions.shutdown_law)

subsection \<open>The revision fence\<close>

definition in_force :: "service \<Rightarrow> u64 option \<times> bool \<times> wstring set \<times> bool" where
  "in_force st = (SettingsPolicyRevision st, IsGlobalReconnectEnabled st, IndividuallyReconnectEnabled st,
     SvcIsIncomingEnabled st)"

definition asked :: "DeviceSettingsPolicy \<Rightarrow> u64 option \<times> bool \<times> wstring set \<times> bool" where
  "asked p = (Some (Revision p), GlobalReconnectOnConnectionLoss p, set (ReconnectDeviceIds p),
     AllowIncomingConnections p)"

lemma run_session_in_force [simp]: "in_force (run_session i e st) = in_force st"
  by (simp add: in_force_def)

lemma GetOrCreateSession_in_force [simp]:
  "in_force (GetOrCreateSession i st) = in_force st" "SvcIsShutdown (GetOrCreateSession i st) = SvcIsShutdown st"
  by (simp_all add: GetOrCreateSession_def Let_def) (simp_all add: in_force_def)

lemma foldl_keeps: "(\<And>st x. g (f st x) = g st) \<Longrightarrow> g (foldl f st xs) = g st"
  by (induction xs arbitrary: st) auto

lemma ApplySettingsPolicy_in_force:
  "in_force (ApplySettingsPolicy p st) =
     (if SvcIsShutdown st \<or> StopRequested p \<or>
         (case SettingsPolicyRevision st of None \<Rightarrow> False | Some revision \<Rightarrow> Revision p \<le> revision)
      then in_force st else asked p)" (is ?A)
  "SvcIsShutdown (ApplySettingsPolicy p st) = SvcIsShutdown st" (is ?B)
proof -
  have t: "in_force (st\<lparr>SettingsPolicyRevision := Some (Revision p),
      IsGlobalReconnectEnabled := GlobalReconnectOnConnectionLoss p,
      IndividuallyReconnectEnabled := set (ReconnectDeviceIds p),
      SvcIsIncomingEnabled := AllowIncomingConnections p\<rparr>) = asked p"
    by (simp add: in_force_def asked_def)
  show ?A
    by (simp add: ApplySettingsPolicy_def Let_def for_sessions_def foldl_keeps [where g = in_force] t)
  show ?B
    by (simp add: ApplySettingsPolicy_def Let_def for_sessions_def foldl_keeps [where g = SvcIsShutdown])
qed

lemma latest_policy:
  assumes "\<not> SvcIsShutdown st"
    and "\<forall>q \<in> set ps. \<not> StopRequested q \<and> (q = p \<or> Revision q < Revision p)"
    and "in_force st = asked p \<or> (p \<in> set ps \<and>
      (case SettingsPolicyRevision st of None \<Rightarrow> True | Some revision \<Rightarrow> revision < Revision p))"
  shows "in_force (foldl (\<lambda>st q. ApplySettingsPolicy q st) st ps) = asked p"
  using assms
proof (induction ps arbitrary: st)
  case (Cons q ps)
  define t where "t = ApplySettingsPolicy q st"
  have "in_force t = asked p \<or> (p \<in> set ps \<and>
      (case SettingsPolicyRevision t of None \<Rightarrow> True | Some revision \<Rightarrow> revision < Revision p))"
  proof -
    have f: "SettingsPolicyRevision t = fst (in_force t)" "SettingsPolicyRevision st = fst (in_force st)"
      by (simp_all add: in_force_def)
    have "in_force t = (if SvcIsShutdown st \<or> StopRequested q \<or>
         (case SettingsPolicyRevision st of None \<Rightarrow> False | Some revision \<Rightarrow> Revision q \<le> revision)
      then in_force st else asked q)"
      by (simp add: t_def ApplySettingsPolicy_in_force)
    with Cons.prems show ?thesis
      unfolding f by (auto simp: asked_def split: option.splits if_splits)
  qed
  then have "in_force (foldl (\<lambda>st q. ApplySettingsPolicy q st) t ps) = asked p"
    using Cons.prems by (intro Cons.IH) (auto simp: t_def ApplySettingsPolicy_in_force(2))
  then show ?case by (simp add: t_def)
qed simp

end
