(* ===== verification/Service_Claims.thy ===== *)
theory Service_Claims
  imports Service_Policy
begin

section \<open>The contract of the device service\<close>

text \<open>
  What the invariants of the service give its callers: final and complete answers to waiters, sound sessions that follow the
  policy, the effect of a suspension, and facts in the order of their generations.
\<close>

subsection \<open>A sample run\<close>

text \<open>A service that subscribed, started its watcher and accepted a connect request for one device.\<close>

definition sample_service :: service where
  "sample_service = foldl service_step (Initialize (\<lambda>_. Started 1) (\<lambda>_ _. Returns 1))
     [SvSubscribe, SvStart, SvConnect [65]]"

lemma sample_service_reachable: "reachable service_start service_step service_enabled sample_service"
  unfolding sample_service_def
  by (rule reachable_run [OF reach_start]) (auto simp: service_start_def)

definition service_probe :: "service \<Rightarrow> nat \<times> nat list \<times> DeviceLifecycleState option \<times> u64 option \<times> bool \<times> bool" where
  "service_probe st = (length (Completions st), PendingOperations st,
     map_option Lifecycle (find_session [65] (Sessions st)),
     map_option OperationEpoch (find_session [65] (Sessions st)), SvcIsShutdown st, SvcIsSuspended st)"

lemma sample_service_probe: "service_probe sample_service = (1, [0], Some Connecting, Some 1, False, False)"
  by code_simp

lemma sample_service_pending: "Completions sample_service \<noteq> []"
  using sample_service_probe by (auto simp: service_probe_def)

subsection \<open>Completions\<close>

text \<open>
  C14 (the first terminal result is final). Once a completion has a status, no later task changes it,
  whatever the session does afterwards and in whatever order tasks run.
\<close>

theorem service_completion_final:
  assumes "n < length (Completions st)" and "CStatus (Completions st ! n) = Some status"
  shows "n < length (Completions (foldl service_step st es)) \<and>
    CStatus (Completions (foldl service_step st es) ! n) = Some status"
proof -
  have "extends st (foldl service_step st es)"
    by (rule extends_for_list) (rule service_step_extends)
  with assms show ?thesis by (auto simp: extends_def keeps_status_def)
qed

lemma shutdown_resolves:
  assumes "reachable service_start service_step service_enabled st"
    and "n < length (Completions (service_step st SvShutdown))"
  shows "CStatus (Completions (service_step st SvShutdown) ! n) \<noteq> None"
proof -
  have "reachable service_start service_step service_enabled (service_step st SvShutdown)"
    using assms(1) by (rule reach_step) simp
  then have ok: "completions_ok (service_step st SvShutdown)"
    using svc.reachable_inv by (simp add: service_inv_def)
  have "SvcIsShutdown (service_step st SvShutdown)"
    by (simp add: SvcShutdown_def StopAndReleaseSessions_def for_sessions_def run_watcher_shutdown Let_def)
  then show ?thesis
    using ok assms(2) by (auto simp: completions_ok_def simp del: service_step.simps)
qed

text \<open>
  C15 (no waiter is lost). In every reachable state a completion without a status is pending, so the
  next publication examines it again, and after shutdown every completion ever handed out has a status.
\<close>

theorem service_no_lost_waiter:
  assumes "reachable service_start service_step service_enabled st" and "n < length (Completions st)"
  shows "(CStatus (Completions st ! n) \<noteq> None \<or> n \<in> set (PendingOperations st)) \<and>
    CStatus (Completions (service_step st SvShutdown) ! n) \<noteq> None"
proof -
  have "n < length (Completions (service_step st SvShutdown))"
    using assms(2) service_step_extends [of st SvShutdown] by (simp add: extends_def)
  with assms(1) have "CStatus (Completions (service_step st SvShutdown) ! n) \<noteq> None"
    by (rule shutdown_resolves)
  moreover have "CStatus (Completions st ! n) \<noteq> None \<or> n \<in> set (PendingOperations st)"
    using svc.reachable_inv [OF assms(1)] assms(2) by (auto simp: service_inv_def completions_ok_def)
  ultimately show ?thesis by simp
qed

theorem service_no_lost_waiter_witness:
  "CStatus (Completions (service_step sample_service SvShutdown) ! 0) \<noteq> None"
  using service_no_lost_waiter [OF sample_service_reachable, of 0] sample_service_pending by simp

theorem service_completion_final_witness:
  "CStatus (Completions (foldl service_step (service_step sample_service SvShutdown) [SvConnect [65]]) ! 0) =
     CStatus (Completions (service_step sample_service SvShutdown) ! 0)"
proof -
  have n: "0 < length (Completions (service_step sample_service SvShutdown))"
    using service_step_extends [of sample_service SvShutdown] sample_service_pending
    by (auto simp: extends_def simp del: service_step.simps)
  moreover obtain status where "CStatus (Completions (service_step sample_service SvShutdown) ! 0) = Some status"
    using shutdown_resolves [OF sample_service_reachable n] by auto
  ultimately show ?thesis
    using service_completion_final [of 0 "service_step sample_service SvShutdown" status "[SvConnect [65]]"] by simp
qed

subsection \<open>Sessions\<close>

lemma find_session_mem: "distinct (map fst ss) \<Longrightarrow> (i, s) \<in> set ss \<Longrightarrow> find_session i ss = Some s"
  by (induction i ss rule: find_session.induct) force+

text \<open>
  C21 (the service keeps its sessions sound). In every reachable state each device has at most one
  session, filed under its own identifier, and each session satisfies the session contract: it owns at most
  one native connection, and none while its close is in flight or while it is suspended.
\<close>

theorem service_sessions_sound:
  assumes "reachable service_start service_step service_enabled st"
  shows "distinct (map fst (Sessions st)) \<and>
    list_all (\<lambda>(i, s). DeviceId s = i \<and> (Connection s = 0 \<or> ClosingConnection s = 0) \<and>
      \<not> ((IsCloseInFlight s \<or> IsSuspended s) \<and> Connection s \<noteq> 0)) (Sessions st)"
proof -
  have ok: "sessions_ok st" using svc.reachable_inv [OF assms] by (simp add: service_inv_def recovery_ok_def)
  have "DeviceId s = i \<and> session_inv s" if "(i, s) \<in> set (Sessions st)" for i s
    using ok find_session_mem [OF _ that] by (auto simp: sessions_ok_def)
  then have "list_all (\<lambda>(i, s). DeviceId s = i \<and> (Connection s = 0 \<or> ClosingConnection s = 0) \<and>
      \<not> ((IsCloseInFlight s \<or> IsSuspended s) \<and> Connection s \<noteq> 0)) (Sessions st)"
    by (fastforce simp: list_all_iff session_inv_def inv_defs)
  then show ?thesis using ok by (simp add: sessions_ok_def)
qed

theorem service_sessions_sound_witness: "distinct (map fst (Sessions sample_service))"
  using service_sessions_sound [OF sample_service_reachable] by blast

subsection \<open>Policy\<close>

text \<open>
  C22 (the sessions follow the settings policy). In every reachable state, whatever policies were applied
  and whatever sessions were created before, in between or afterwards, a session reconnects exactly when the
  policy in force enables it globally or for its device, and listens exactly when the policy allows
  incoming connections.
\<close>

theorem service_sessions_follow_policy:
  assumes "reachable service_start service_step service_enabled st" and "find_session i (Sessions st) = Some s"
  shows "IsReconnectEnabled s = (IsGlobalReconnectEnabled st \<or> i \<in> IndividuallyReconnectEnabled st) \<and>
    IsIncomingEnabled s = SvcIsIncomingEnabled st"
  using settled.reachable_inv [OF assms(1)] assms(2)
  by (auto simp: settled_def policy_upto_def follows_policy_def)

theorem service_sessions_follow_policy_witness:
  "map_option IsReconnectEnabled (find_session [65] (Sessions sample_service)) =
     Some (IsGlobalReconnectEnabled sample_service \<or> [65] \<in> IndividuallyReconnectEnabled sample_service)"
proof -
  obtain s where "find_session [65] (Sessions sample_service) = Some s"
    using sample_service_probe by (auto simp: service_probe_def)
  with service_sessions_follow_policy [OF sample_service_reachable this] show ?thesis by simp
qed

text \<open>
  The newest policy wins. Policies may be posted out of order. Whatever order they are applied in,
  the policy with the highest revision is in force at the end: its revision, both switches and its list of
  devices.
\<close>

theorem service_latest_policy_wins:
  assumes "\<not> SvcIsShutdown st" and "SettingsPolicyRevision st = None" and "p \<in> set ps"
    and "\<forall>q \<in> set ps. \<not> StopRequested q \<and> (q = p \<or> Revision q < Revision p)"
  shows "in_force (foldl (\<lambda>st q. ApplySettingsPolicy q st) st ps) = asked p"
  using assms by (intro latest_policy) auto

theorem service_latest_policy_wins_witness:
  "in_force (foldl (\<lambda>st q. ApplySettingsPolicy q st) (Initialize (\<lambda>_. Started 1) (\<lambda>_ _. Returns 1))
     [\<lparr>Revision = 2, AllowIncomingConnections = True, GlobalReconnectOnConnectionLoss = False,
       ReconnectDeviceIds = [[65]], StopRequested = False\<rparr>,
      \<lparr>Revision = 1, AllowIncomingConnections = False, GlobalReconnectOnConnectionLoss = True,
       ReconnectDeviceIds = [], StopRequested = False\<rparr>]) = (Some 2, False, {[65]}, True)"
  using service_latest_policy_wins [of "Initialize (\<lambda>_. Started 1) (\<lambda>_ _. Returns 1)"
    "\<lparr>Revision = 2, AllowIncomingConnections = True, GlobalReconnectOnConnectionLoss = False,
       ReconnectDeviceIds = [[65]], StopRequested = False\<rparr>"
    "[\<lparr>Revision = 2, AllowIncomingConnections = True, GlobalReconnectOnConnectionLoss = False,
       ReconnectDeviceIds = [[65]], StopRequested = False\<rparr>,
      \<lparr>Revision = 1, AllowIncomingConnections = False, GlobalReconnectOnConnectionLoss = True,
       ReconnectDeviceIds = [], StopRequested = False\<rparr>]"]
  by (simp add: asked_def Initialize_def UpdatePublishedSnapshot_def)

subsection \<open>Power transitions\<close>

lemma Suspend_suspends: "IsSuspended (session_step s EvSuspend) \<or> IsShutdown (session_step s EvSuspend)"
proof -
  have "IsSuspended (BeginSuspendClose epoch u)" if "IsSuspended u" "Connection u \<noteq> 0 \<or> IsCloseInFlight u"
    for epoch u
    using that by (auto simp: BeginSuspendClose_def BeginClose_def Let_def prim_defs)
  then show ?thesis by (simp add: Suspend_def Let_def prim_defs)
qed

lemma find_foldl_run_session:
  "distinct is \<Longrightarrow> find_session j (Sessions (foldl (\<lambda>st i. run_session i e st) st is)) =
     (if j \<in> set is then map_option (\<lambda>s. session_step s e) (find_session j (Sessions st))
      else find_session j (Sessions st))"
  by (induction "is" arbitrary: st) auto

lemma run_watcher_stop: "run_watcher WEvStop st = st\<lparr>Watcher := WStopWatcher (Watcher st)\<rparr>"
  by (simp add: run_watcher_def Let_def WStopWatcher_def StopRegistration_def)

lemma foldl_run_session_suspended:
  "SvcIsSuspended (foldl (\<lambda>st i. run_session i e st) st is) = SvcIsSuspended st"
  by (induction "is" arbitrary: st) (simp_all add: run_session_def Let_def split: option.split)

lemma suspend_watcher:
  assumes "\<not> SvcIsShutdown st" and "\<not> SvcIsSuspended st"
  shows "\<not> IsWatcherRunning (Watcher (service_step st SvSuspend))" and "SvcIsSuspended (service_step st SvSuspend)"
    and "map fst (Sessions (service_step st SvSuspend)) = map fst (Sessions st)"
  using assms
  by (simp_all add: CapturePowerTransitionRecoveryAndSuspend_def Let_def run_watcher_stop for_sessions_def
    WStopWatcher_def StopRegistration_def foldl_run_session_suspended)

lemma suspend_session:
  assumes "reachable service_start service_step service_enabled st"
    and "\<not> SvcIsShutdown st" and "\<not> SvcIsSuspended st"
    and "find_session i (Sessions (service_step st SvSuspend)) = Some s"
  shows "Connection s = 0 \<and> (IsSuspended s \<or> IsShutdown s)"
proof -
  have "reachable service_start service_step service_enabled (service_step st SvSuspend)"
    using assms(1) by (rule reach_step) simp
  then have "session_inv s"
    using svc.reachable_inv assms(4) by (auto simp: service_inv_def recovery_ok_def sessions_ok_def)
  moreover have "distinct (map fst (Sessions st))"
    using svc.reachable_inv [OF assms(1)] by (simp add: service_inv_def recovery_ok_def sessions_ok_def)
  then have "find_session i (Sessions (service_step st SvSuspend)) =
    map_option (\<lambda>s. session_step s EvSuspend) (find_session i (Sessions st))"
    using assms(2,3) find_session_None [of i "Sessions st"]
    by (auto simp: CapturePowerTransitionRecoveryAndSuspend_def Let_def run_watcher_stop for_sessions_def
      find_foldl_run_session simp del: session_step.simps)
  with assms(4) have "\<exists>t. s = session_step t EvSuspend" by (cases "find_session i (Sessions st)") auto
  then have "IsSuspended s \<or> IsShutdown s" using Suspend_suspends by blast
  ultimately show ?thesis by (auto simp: session_inv_def inv_defs)
qed

text \<open>
  C23 (suspension leaves no connection open). When the machine goes to sleep, a running service becomes suspended and its
  device watcher is stopped, whether it has sessions or not; it keeps all its sessions, and every one of them has given
  up its connection and is itself suspended (or shut down).
\<close>

theorem service_suspend_releases:
  assumes "reachable service_start service_step service_enabled st"
    and "\<not> SvcIsShutdown st" and "\<not> SvcIsSuspended st"
  shows "SvcIsSuspended (service_step st SvSuspend) \<and> \<not> IsWatcherRunning (Watcher (service_step st SvSuspend)) \<and>
    map fst (Sessions (service_step st SvSuspend)) = map fst (Sessions st) \<and>
    (\<forall>i s. find_session i (Sessions (service_step st SvSuspend)) = Some s \<longrightarrow>
       Connection s = 0 \<and> (IsSuspended s \<or> IsShutdown s))"
  using suspend_watcher [OF assms(2,3)] suspend_session [OF assms] by blast

theorem service_suspend_releases_witness:
  "map_option Connection (find_session [65] (Sessions (service_step sample_service SvSuspend))) = Some 0 \<and>
   \<not> IsWatcherRunning (Watcher (service_step sample_service SvSuspend))"
proof -
  have "\<not> SvcIsShutdown sample_service" "\<not> SvcIsSuspended sample_service"
    using sample_service_probe by (simp_all add: service_probe_def)
  note r = service_suspend_releases [OF sample_service_reachable this]
  have "find_session [65] (Sessions (service_step sample_service SvSuspend)) \<noteq> None"
    by code_simp
  then show ?thesis using r by (auto simp del: service_step.simps)
qed

subsection \<open>Facts\<close>

text \<open>
  The facts the subscriber has received carry the generations \<open>ks\<close>, counted without wrap-around, and the
  service has published \<open>k\<close> times.
\<close>

definition facts_numbered :: "service \<Rightarrow> bool" where
  "facts_numbered st \<longleftrightarrow> (\<exists>k ks. sorted_wrt (<) ks \<and> (\<forall>j \<in> set ks. j \<le> k) \<and> Generation st = of_nat k \<and>
     map (\<lambda>f. SnGeneration (FSnapshot f)) (SFacts st) = map of_nat ks)"

lemma SvcPublish_facts:
  "map (\<lambda>f. SnGeneration (FSnapshot f)) (SFacts (SvcPublish k i r t p d st)) =
     map (\<lambda>f. SnGeneration (FSnapshot f)) (SFacts st) @ (if Subscriber st then [Generation st + 1] else [])"
  by (simp add: SvcPublish_def UpdatePublishedSnapshot_def Let_def) (simp add: resolve_pending_def)

lemma facts_numbered_publish: "facts_numbered st \<Longrightarrow> facts_numbered (SvcPublish k i r t p d st)"
proof -
  assume "facts_numbered st"
  then obtain k ks where k: "sorted_wrt (<) ks" "\<forall>j \<in> set ks. j \<le> k" "Generation st = of_nat k"
    "map (\<lambda>f. SnGeneration (FSnapshot f)) (SFacts st) = map of_nat ks" by (auto simp: facts_numbered_def)
  show ?thesis
    unfolding facts_numbered_def SvcPublish_facts
    using k
    by (intro exI [of _ "Suc k"] exI [of _ "ks @ (if Subscriber st then [Suc k] else [])"])
      (auto simp: sorted_wrt_append less_Suc_eq_le add.commute)
qed

lemma facts_numbered_same:
  "facts_numbered st \<Longrightarrow> Generation st' = Generation st \<Longrightarrow> SFacts st' = SFacts st \<Longrightarrow> facts_numbered st'"
  by (simp add: facts_numbered_def)

lemma silent_after_shutdown [simp]:
  "SvcIsShutdown st \<Longrightarrow> Generation (foldl deliver st fs) = Generation st"
  "SvcIsShutdown st \<Longrightarrow> SFacts (foldl deliver st fs) = SFacts st"
  by (induction fs arbitrary: st; simp add: deliver_def OnSessionFact_def)+

lemma silent_session_after_shutdown [simp]:
  "SvcIsShutdown st \<Longrightarrow> Generation (run_session i e st) = Generation st"
  "SvcIsShutdown st \<Longrightarrow> SFacts (run_session i e st) = SFacts st"
  by (simp_all add: run_session_def Let_def split: option.split)

lemma silent_sessions_after_shutdown [simp]:
  "SvcIsShutdown st \<Longrightarrow> Generation (foldl (\<lambda>st i. run_session i e st) st is) = Generation st"
  "SvcIsShutdown st \<Longrightarrow> SFacts (foldl (\<lambda>st i. run_session i e st) st is) = SFacts st"
  by (induction "is" arbitrary: st; simp)+

lemma Result_silent [simp]:
  "Generation (snd (Result c k i st)) = Generation st" "SFacts (snd (Result c k i st)) = SFacts st"
  by (simp_all add: Result_def Let_def split: option.split)

interpretation facts: service_law facts_numbered "\<lambda>_. True"
proof unfold_locales
  fix st
  assume ok: "facts_numbered st"
  show "facts_numbered
      (publish_kind FactShutdown [] ((foldl (\<lambda>st i. run_session i EvShutdown st)
        (st\<lparr>SvcIsShutdown := True, SvcIsRunning := False, Watcher := WShutdown (Watcher st)\<rparr>)
        (map fst (Sessions st)))\<lparr>Sessions := []\<rparr>))"
    by (rule facts_numbered_publish, rule facts_numbered_same [OF ok]) simp_all
qed (simp_all add: facts_numbered_publish, (erule facts_numbered_same; simp)+)

interpretation numbered: service_invariant facts_numbered "\<lambda>_. True"
proof unfold_locales
  fix w r
  show "facts_numbered (Initialize w r)"
    by (auto simp: facts_numbered_def Initialize_def UpdatePublishedSnapshot_def intro!: exI [of _ 0] exI [of _ "[]"])
qed (simp_all, erule facts_numbered_same, simp_all)

text \<open>
  Facts are numbered in order. The subscriber receives facts with strictly increasing generations:
  in every reachable state the generations of all delivered facts are a strictly increasing sequence of
  publication numbers, reduced to 64 bits.
\<close>

theorem service_facts_ordered:
  assumes "reachable service_start service_step service_enabled st"
  shows "\<exists>ks :: nat list. sorted_wrt (<) ks \<and> map (\<lambda>f. SnGeneration (FSnapshot f)) (SFacts st) = map of_nat ks"
  using numbered.reachable_inv [OF assms] by (auto simp: facts_numbered_def)

theorem service_facts_ordered_witness:
  "\<exists>ks :: nat list. sorted_wrt (<) ks \<and>
     map (\<lambda>f. SnGeneration (FSnapshot f)) (SFacts sample_service) = map of_nat ks"
  by (rule service_facts_ordered [OF sample_service_reachable])

end
