(* ===== verification/Service_Connect.thy ===== *)
theory Service_Connect
  imports Service_Claims
begin

section \<open>An accepted connect is answered\<close>

text \<open>
  The path from the platform's callback to the waiter: the session becomes connected, its fact is delivered
  while the operation still runs, and the publication resolves the completion and shows the device connected.
\<close>

lemma connect_opened_fact:
  assumes "PublishFact s" and "\<not> IsShutdown s" and "Lifecycle s \<noteq> Connected"
    and "OpenResult result = ResultSuccess"
  defines "t \<equiv> s\<lparr>Lifecycle := Connected, CompletedRetryAttempts := 0, RetryEligible := IsReconnectEnabled s\<rparr>"
  shows "published_facts (drop (length (Trace s))
      (Trace (session_step s (EvOpened (OperationEpoch s) (Connection s) result)))) =
    [\<lparr>FactSnapshot = Snapshot t, FactOperation = CurrentOperation s, FactResult = ResultSuccess,
      FactIsTerminalFailure = False, FactDisconnectReason = ReasonNone\<rparr>]"
  using assms
  by (simp add: OnOpened_def IsCurrentConnection_def IsCurrent_def Publish_def published_facts_def t_def)

lemma visible_running:
  "Running st = Some snapshot \<Longrightarrow> SnapDeviceId snapshot = i \<Longrightarrow> visible st (i, s) = snapshot"
  by (simp add: visible_def)

lemma find_session_in: "find_session i ss = Some s \<Longrightarrow> (i, s) \<in> set ss"
  by (induction i ss rule: find_session.induct) (auto split: if_splits)

lemma visible_generation: "visible (st\<lparr>Generation := n\<rparr>) = visible st"
  by (simp add: fun_eq_iff visible_def)

lemma SvcPublish_snapshot:
  "SnSessions (PublishedSnapshot (SvcPublish k i r t p d st)) =
     sort_key SnapDeviceId (map (visible st) (Sessions st))"
  by (simp add: SvcPublish_def UpdatePublishedSnapshot_def Let_def visible_generation resolve_pending_def)

lemma find_SomeD: "find p xs = Some x \<Longrightarrow> x \<in> set xs \<and> p x"
  by (induction xs) (auto split: if_splits)

lemma find_visible:
  assumes "sessions_ok st" and "find_session i (Sessions st) = Some s"
    and "Running st = Some snapshot" and "SnapDeviceId snapshot = i"
  shows "find (\<lambda>x. SnapDeviceId x = i) (sort_key SnapDeviceId (map (visible st) (Sessions st))) = Some snapshot"
proof -
  have "SnapDeviceId (visible st (j, t)) = j" if "(j, t) \<in> set (Sessions st)" for j t
    using assms that find_session_mem [of "Sessions st" j t]
    by (auto simp: visible_def sessions_ok_def Snapshot_def)
  then have unique: "x = snapshot" if "x \<in> set (map (visible st) (Sessions st))" "SnapDeviceId x = i" for x
    using that assms(3,4) visible_running [of st snapshot i] by fastforce
  have "visible st (i, s) \<in> set (map (visible st) (Sessions st))"
    using find_session_in [OF assms(2)] by (metis image_eqI list.set_map)
  moreover have "visible st (i, s) = snapshot" using assms by (simp add: visible_running)
  ultimately have "find (\<lambda>x. SnapDeviceId x = i) (sort_key SnapDeviceId (map (visible st) (Sessions st))) \<noteq> None"
    using assms(4) by (auto simp: find_None_iff)
  then obtain x where x: "find (\<lambda>x. SnapDeviceId x = i) (sort_key SnapDeviceId (map (visible st) (Sessions st))) = Some x"
    by auto
  then have "x \<in> set (map (visible st) (Sessions st))" "SnapDeviceId x = i"
    by (auto dest!: find_SomeD)
  with unique x show ?thesis by simp
qed

text \<open>
  C16 (a successful open completes the operation). In every reachable state, when the platform reports
  that the connection of a connecting session has opened, every waiter of that session's current operation
  gets the status succeeded, and the published snapshot shows the device as connected.
\<close>

theorem service_connect_completes:
  assumes "reachable service_start service_step service_enabled st" and "\<not> SvcIsShutdown st"
    and "find_session i (Sessions st) = Some s" and "Lifecycle s = Connecting"
    and "n \<in> set (PendingOperations st)" and "CStatus (Completions st ! n) = None"
    and "CDeviceId (Completions st ! n) = i" and "CEpoch (Completions st ! n) = OperationEpoch s"
    and "OpenResult result = ResultSuccess"
    and "u = service_step st (SvSessionCallback i (EvOpened (OperationEpoch s) (Connection s) result))"
  shows "CStatus (Completions u ! n) = Some OpSucceeded \<and> IsDeviceConnected i u"
proof -
  define t where "t = s\<lparr>Lifecycle := Connected, CompletedRetryAttempts := 0, RetryEligible := IsReconnectEnabled s\<rparr>"
  define f where "f = \<lparr>FactSnapshot = Snapshot t, FactOperation = CurrentOperation s, FactResult = ResultSuccess,
      FactIsTerminalFailure = False, FactDisconnectReason = ReasonNone\<rparr>"
  define v where "v = st\<lparr>Running := Some (Snapshot t)\<rparr>"
  have inv: "sessions_ok st" "completions_ok st"
    using svc.reachable_inv [OF assms(1)] by (auto simp: service_inv_def recovery_ok_def)
  then have s: "session_inv s" "DeviceId s = i" "PublishFact s" using assms(3) by (auto simp: sessions_ok_def)
  then have "\<not> IsShutdown s" using assms(4) by (auto simp: session_inv_def phase_ok_def)
  then have facts: "published_facts (drop (length (Trace s))
      (Trace (session_step s (EvOpened (OperationEpoch s) (Connection s) result)))) = [f]"
    using connect_opened_fact s assms(4,9) by (simp add: f_def t_def)
  have d: "deliver st f = SvcPublish FactSessionChanged i ResultSuccess False (CurrentOperation s) ReasonNone v"
    using assms(2) s by (simp add: deliver_def OnSessionFact_def f_def v_def t_def Snapshot_def)
  have u: "Completions u = Completions (deliver st f)" "PublishedSnapshot u = PublishedSnapshot (deliver st f)"
    using facts assms(3,10) by (simp_all add: run_session_def Let_def)
  have n: "n < length (Completions st)" using inv(2) assms(5) by (simp add: completions_ok_def)
  have "ResolveOperation v (Completions st ! n) = Some OpSucceeded"
    using assms s by (simp add: v_def ResolveOperation_def visible_def t_def Snapshot_def)
  then have "CStatus (Completions u ! n) = Some OpSucceeded"
    using u d n assms(5,6) by (simp add: SvcPublish_completions nth_resolve_pending v_def)
  moreover have "find_snapshot i (PublishedSnapshot u) = Some (Snapshot t)"
    using find_visible [of v i s "Snapshot t"] inv(1) assms(3) s
    by (simp add: u d find_snapshot_def SvcPublish_snapshot v_def t_def Snapshot_def sessions_ok_def)
  ultimately show ?thesis by (simp add: IsDeviceConnected_def t_def Snapshot_def)
qed

lemma sample_service_completions:
  "map (\<lambda>c. (CDeviceId c, CEpoch c, CStatus c)) (Completions sample_service) = [([65], 1, None)]"
  by code_simp

theorem service_connect_completes_witness:
  "\<exists>s. find_session [65] (Sessions sample_service) = Some s \<and>
     CStatus (Completions (service_step sample_service (SvSessionCallback [65]
       (EvOpened (OperationEpoch s) (Connection s) \<lparr>OpenResult = ResultSuccess, IsTransientFailure = False\<rparr>))) ! 0) =
       Some OpSucceeded"
proof -
  obtain s where s: "find_session [65] (Sessions sample_service) = Some s" "Lifecycle s = Connecting"
    "OperationEpoch s = 1" "PendingOperations sample_service = [0]" "\<not> SvcIsShutdown sample_service"
    using sample_service_probe by (auto simp: service_probe_def)
  obtain c where c: "Completions sample_service = [c]" "CDeviceId c = [65]" "CEpoch c = 1" "CStatus c = None"
    using sample_service_completions by auto
  have "CStatus (Completions (service_step sample_service (SvSessionCallback [65]
       (EvOpened (OperationEpoch s) (Connection s) \<lparr>OpenResult = ResultSuccess, IsTransientFailure = False\<rparr>))) ! 0) =
       Some OpSucceeded"
    using service_connect_completes [OF sample_service_reachable s(5,1,2), of 0 _ _, OF _ _ _ _ _ refl] s c
    by simp
  with s(1) show ?thesis by blast
qed

end
