(* ===== verification/Command_Protocol.thy ===== *)
theory Command_Protocol
  imports Prelude
begin

section \<open>The control protocol: messages, validation and wire layout\<close>

text \<open>
  \<open>control/CommandProtocol.hpp\<close>: the commands, targets and exit codes, the three fixed-size structures
  that go over the pipe, and the predicates that decide which values are accepted. The structures are
  copied to the pipe byte by byte, so the second half of the theory is their memory image: every field
  little-endian at its offset, without padding (the \<open>static_assert\<close>s on \<open>sizeof\<close>). The locale \<open>codec\<close> is
  the contract of such an image, interpreted on each of the three structures.
\<close>

unbundle bit_operations_syntax

type_synonym byte = "8 word"

subsection \<open>Protocol values\<close>

definition c_protocolVersion :: u32 where "c_protocolVersion = 2"
definition c_requestMagic :: u32 where "c_requestMagic = 0x32514341"
definition c_responseMagic :: u32 where "c_responseMagic = 0x32524341"
definition c_acknowledgementMagic :: u32 where "c_acknowledgementMagic = 0x32414341"
definition c_maxPayloadBytes :: u32 where "c_maxPayloadBytes = 64 * 1024"

datatype CommandType =
    CmdUnknown | CmdList | CmdStatus | CmdConnect | CmdDisconnect | CmdReconnect | CmdToggleLast
  | CmdDisconnectAll | CmdReconnectAll | CmdShow | CmdSettings | CmdDefaultShow | CmdDefaultSet
  | CmdDefaultClear | CmdAliasSet | CmdAliasClear | CmdAliasList

datatype TargetKind =
    TargetNone | TargetId | TargetName | TargetMac | TargetLast | TargetAuto | TargetAlias | TargetDefault

datatype ExitCode =
    ExitSuccess | ExitInvalidRequest | ExitNotFound | ExitAmbiguous | ExitOperationFailed
  | ExitUnavailable | ExitBusy | ExitIndeterminate

text \<open>
  The conversions between an enumeration and its underlying \<open>std::uint32_t\<close>. The code converts a number
  to an enumeration only after checking that it is known, so the value of the other direction outside the
  enumerators is never used (\<open>cast_known_command\<close> and its companions below).
\<close>

definition command_values :: "CommandType list" where
  "command_values = [CmdUnknown, CmdList, CmdStatus, CmdConnect, CmdDisconnect, CmdReconnect,
     CmdToggleLast, CmdDisconnectAll, CmdReconnectAll, CmdShow, CmdSettings, CmdDefaultShow,
     CmdDefaultSet, CmdDefaultClear, CmdAliasSet, CmdAliasClear, CmdAliasList]"

fun command_value :: "CommandType \<Rightarrow> u32" where
  "command_value CmdUnknown = 0" | "command_value CmdList = 1" | "command_value CmdStatus = 2"
| "command_value CmdConnect = 3" | "command_value CmdDisconnect = 4" | "command_value CmdReconnect = 5"
| "command_value CmdToggleLast = 6" | "command_value CmdDisconnectAll = 7"
| "command_value CmdReconnectAll = 8" | "command_value CmdShow = 9" | "command_value CmdSettings = 10"
| "command_value CmdDefaultShow = 11" | "command_value CmdDefaultSet = 12"
| "command_value CmdDefaultClear = 13" | "command_value CmdAliasSet = 14"
| "command_value CmdAliasClear = 15" | "command_value CmdAliasList = 16"

definition target_values :: "TargetKind list" where
  "target_values = [TargetNone, TargetId, TargetName, TargetMac, TargetLast, TargetAuto, TargetAlias,
     TargetDefault]"

fun target_value :: "TargetKind \<Rightarrow> u32" where
  "target_value TargetNone = 0" | "target_value TargetId = 1" | "target_value TargetName = 2"
| "target_value TargetMac = 3" | "target_value TargetLast = 4" | "target_value TargetAuto = 5"
| "target_value TargetAlias = 6" | "target_value TargetDefault = 7"

definition exit_values :: "ExitCode list" where
  "exit_values = [ExitSuccess, ExitInvalidRequest, ExitNotFound, ExitAmbiguous, ExitOperationFailed,
     ExitUnavailable, ExitBusy, ExitIndeterminate]"

fun exit_value :: "ExitCode \<Rightarrow> u32" where
  "exit_value ExitSuccess = 0" | "exit_value ExitInvalidRequest = 3" | "exit_value ExitNotFound = 4"
| "exit_value ExitAmbiguous = 5" | "exit_value ExitOperationFailed = 6"
| "exit_value ExitUnavailable = 7" | "exit_value ExitBusy = 8" | "exit_value ExitIndeterminate = 9"

definition static_cast :: "'e list \<Rightarrow> ('e \<Rightarrow> u32) \<Rightarrow> u32 \<Rightarrow> 'e" where
  "static_cast vals value v =
     (case filter (\<lambda>e. value e = v) vals of [] \<Rightarrow> hd vals | e # _ \<Rightarrow> e)"

definition CommandFlagNone :: u32 where "CommandFlagNone = 0"
definition CommandFlagJson :: u32 where "CommandFlagJson = 1"
definition CommandFlagRaw :: u32 where "CommandFlagRaw = 2"

record CorrelationId =
  High :: u64
  Low :: u64

definition EmptyId :: "CorrelationId \<Rightarrow> bool" where
  "EmptyId c \<longleftrightarrow> High c = 0 \<and> Low c = 0"

definition CorrelationIdHash :: "CorrelationId \<Rightarrow> u64" where
  "CorrelationIdHash v =
     (let mixed = High v XOR (Low v + 0x9E3779B97F4A7C15 + push_bit 6 (High v) + drop_bit 2 (High v))
      in mixed XOR drop_bit 32 mixed)"

subsection \<open>Wire messages\<close>

record RequestHeader =
  rqMagic :: u32
  rqVersion :: u32
  rqCorrelationHigh :: u64
  rqCorrelationLow :: u64
  rqCommand :: u32
  rqTarget :: u32
  rqFlags :: u32
  rqPayloadBytes :: u32

record ResponseHeader =
  rsMagic :: u32
  rsVersion :: u32
  rsCorrelationHigh :: u64
  rsCorrelationLow :: u64
  rsExitCode :: u32
  rsPayloadBytes :: u32

record Acknowledgement =
  akMagic :: u32
  akVersion :: u32
  akCorrelationHigh :: u64
  akCorrelationLow :: u64

record Request =
  Command :: CommandType
  Target :: TargetKind
  Flags :: u32
  Payload :: wstring
  RequestId :: CorrelationId

record Response =
  Code :: ExitCode
  Body :: wstring
  ResponseId :: CorrelationId

subsection \<open>Validation\<close>

definition IsPayloadByteCountValid :: "u32 \<Rightarrow> bool" where
  "IsPayloadByteCountValid n \<longleftrightarrow> n \<le> c_maxPayloadBytes \<and> n mod 2 = 0"

definition IsKnownCommand :: "u32 \<Rightarrow> bool" where
  "IsKnownCommand v \<longleftrightarrow> v \<ge> command_value CmdList \<and> v \<le> command_value CmdAliasList"

definition IsKnownTarget :: "u32 \<Rightarrow> bool" where
  "IsKnownTarget v \<longleftrightarrow> v \<le> target_value TargetDefault"

definition IsKnownExitCode :: "u32 \<Rightarrow> bool" where
  "IsKnownExitCode v \<longleftrightarrow> v = exit_value ExitSuccess \<or>
     (v \<ge> exit_value ExitInvalidRequest \<and> v \<le> exit_value ExitIndeterminate)"

text \<open>\<open>find_from p xs i\<close> is the first position not before \<open>i\<close> whose character satisfies \<open>p\<close>
  (\<open>std::wstring::find\<close>, \<open>find_first_of\<close>; \<open>None\<close> is \<open>npos\<close>).\<close>

fun find_from :: "('a \<Rightarrow> bool) \<Rightarrow> 'a list \<Rightarrow> nat \<Rightarrow> nat option" where
  "find_from p [] i = None"
| "find_from p (x # xs) (Suc i) = map_option Suc (find_from p xs i)"
| "find_from p (x # xs) 0 = (if p x then Some 0 else map_option Suc (find_from p xs 0))"

definition NL :: wchar where "NL = 10"
definition CR :: wchar where "CR = 13"

definition flags_known :: "u32 \<Rightarrow> bool" where
  "flags_known f \<longleftrightarrow> f AND NOT (CommandFlagJson OR CommandFlagRaw) = 0"

definition isExplicitTarget :: "Request \<Rightarrow> bool" where
  "isExplicitTarget r \<longleftrightarrow> Target r \<in> {TargetId, TargetName, TargetMac, TargetAuto, TargetAlias}"

definition hasExplicitTarget :: "Request \<Rightarrow> bool" where
  "hasExplicitTarget r \<longleftrightarrow> isExplicitTarget r \<and> Payload r \<noteq> []"

definition alias_set_ok :: "Request \<Rightarrow> bool" where
  "alias_set_ok r \<longleftrightarrow> isExplicitTarget r \<and>
     (case find_from (\<lambda>c. c = NL) (Payload r) 0 of
        None \<Rightarrow> False
      | Some separator \<Rightarrow> separator > 0 \<and> separator + 1 < length (Payload r) \<and>
          find_from (\<lambda>c. c = CR \<or> c = NL) (Payload r) (separator + 1) = None)"

definition IsRequestValid :: "Request \<Rightarrow> bool" where
  "IsRequestValid r =
     (if EmptyId (RequestId r) \<or> \<not> IsKnownCommand (command_value (Command r)) \<or>
         \<not> IsKnownTarget (target_value (Target r)) \<or> \<not> flags_known (Flags r) \<or>
         length (Payload r) > unat (c_maxPayloadBytes div 2) \<or> (0 :: wchar) \<in> set (Payload r)
      then False
      else case Command r of
          CmdList \<Rightarrow> Target r = TargetNone \<and> Payload r = []
        | CmdStatus \<Rightarrow> Target r = TargetNone \<and> Payload r = []
        | CmdDisconnectAll \<Rightarrow> Target r = TargetNone \<and> Payload r = []
        | CmdReconnectAll \<Rightarrow> Target r = TargetNone \<and> Payload r = []
        | CmdShow \<Rightarrow> Target r = TargetNone \<and> Payload r = []
        | CmdSettings \<Rightarrow> Target r = TargetNone \<and> Payload r = []
        | CmdDefaultShow \<Rightarrow> Target r = TargetNone \<and> Payload r = []
        | CmdDefaultClear \<Rightarrow> Target r = TargetNone \<and> Payload r = []
        | CmdAliasList \<Rightarrow> Target r = TargetNone \<and> Payload r = []
        | CmdDefaultSet \<Rightarrow> hasExplicitTarget r
        | CmdAliasClear \<Rightarrow> hasExplicitTarget r
        | CmdAliasSet \<Rightarrow> alias_set_ok r
        | CmdUnknown \<Rightarrow> False
        | _ \<Rightarrow> hasExplicitTarget r \<or>
            ((Target r = TargetLast \<or> Target r = TargetDefault) \<and> Payload r = []))"

definition PayloadByteCount :: "wstring \<Rightarrow> u32 option" where
  "PayloadByteCount payload =
     (if length payload > unat (- 1 :: u32) div 2 then None
      else let byteCount = of_nat (length payload * 2)
           in if IsPayloadByteCountValid byteCount then Some byteCount else None)"

definition IsRequestHeaderValid :: "RequestHeader \<Rightarrow> bool" where
  "IsRequestHeaderValid h \<longleftrightarrow> rqMagic h = c_requestMagic \<and> rqVersion h = c_protocolVersion \<and>
     \<not> EmptyId \<lparr>High = rqCorrelationHigh h, Low = rqCorrelationLow h\<rparr> \<and>
     IsKnownCommand (rqCommand h) \<and> IsKnownTarget (rqTarget h) \<and> flags_known (rqFlags h) \<and>
     IsPayloadByteCountValid (rqPayloadBytes h)"

definition MakeResponseHeader :: "Response \<Rightarrow> ResponseHeader option" where
  "MakeResponseHeader r =
     (case PayloadByteCount (Body r) of
        None \<Rightarrow> None
      | Some payloadBytes \<Rightarrow>
          if EmptyId (ResponseId r) \<or> \<not> IsKnownExitCode (exit_value (Code r)) then None
          else Some \<lparr>rsMagic = c_responseMagic, rsVersion = c_protocolVersion,
                 rsCorrelationHigh = High (ResponseId r), rsCorrelationLow = Low (ResponseId r),
                 rsExitCode = exit_value (Code r), rsPayloadBytes = payloadBytes\<rparr>)"

definition IsAcknowledgementValid :: "Acknowledgement \<Rightarrow> CorrelationId \<Rightarrow> bool" where
  "IsAcknowledgementValid a expected \<longleftrightarrow> akMagic a = c_acknowledgementMagic \<and>
     akVersion a = c_protocolVersion \<and> akCorrelationHigh a = High expected \<and>
     akCorrelationLow a = Low expected"

lemmas protocol_constants = c_protocolVersion_def c_requestMagic_def c_responseMagic_def
  c_acknowledgementMagic_def c_maxPayloadBytes_def

subsection \<open>Facts about the values\<close>

lemma cast_command_value [simp]: "static_cast command_values command_value (command_value c) = c"
  by (cases c) (simp_all add: static_cast_def command_values_def)

lemma cast_target_value [simp]: "static_cast target_values target_value (target_value t) = t"
  by (cases t) (simp_all add: static_cast_def target_values_def)

lemma cast_exit_value [simp]: "static_cast exit_values exit_value (exit_value e) = e"
  by (cases e) (simp_all add: static_cast_def exit_values_def)

lemma word_interval_cases:
  fixes v :: u32
  assumes "v \<le> of_nat n" "n < 2 ^ 32"
  shows "\<exists>k \<le> n. v = of_nat k"
  using assms by (intro exI [of _ "unat v"]) (simp add: word_le_nat_alt unat_of_nat)

lemma known_target_iff: "IsKnownTarget v \<longleftrightarrow> v \<in> target_value ` UNIV"
proof
  assume "IsKnownTarget v"
  then obtain k where "k \<le> 7" "v = of_nat k"
    using word_interval_cases [of v 7] by (auto simp: IsKnownTarget_def)
  then have "v \<in> target_value ` set target_values"
    by (auto simp: target_values_def le_Suc_eq numeral_eq_Suc)
  then show "v \<in> target_value ` UNIV" by auto
next
  assume "v \<in> target_value ` UNIV"
  then obtain t where "v = target_value t" by auto
  then show "IsKnownTarget v" by (cases t) (simp_all add: IsKnownTarget_def)
qed

lemma known_command_iff: "IsKnownCommand v \<longleftrightarrow> v \<in> command_value ` (UNIV - {CmdUnknown})"
proof
  assume *: "IsKnownCommand v"
  then obtain k where k: "k \<le> 16" "v = of_nat k"
    using word_interval_cases [of v 16] by (auto simp: IsKnownCommand_def)
  then have "v \<in> command_value ` set command_values"
    by (auto simp: command_values_def le_Suc_eq numeral_eq_Suc)
  moreover have "v \<noteq> command_value CmdUnknown"
    using * by (auto simp: IsKnownCommand_def)
  ultimately show "v \<in> command_value ` (UNIV - {CmdUnknown})" by auto
next
  assume "v \<in> command_value ` (UNIV - {CmdUnknown})"
  then obtain c where "v = command_value c" "c \<noteq> CmdUnknown" by auto
  then show "IsKnownCommand v" by (cases c) (simp_all add: IsKnownCommand_def)
qed

lemma known_exit_value [simp]: "IsKnownExitCode (exit_value e)"
  by (cases e) (simp_all add: IsKnownExitCode_def)

lemma known_exit_iff: "IsKnownExitCode v \<longleftrightarrow> v \<in> exit_value ` UNIV"
proof
  assume "IsKnownExitCode v"
  then have "unat v = 0 \<or> 3 \<le> unat v \<and> unat v \<le> 9"
    by (auto simp: IsKnownExitCode_def word_le_nat_alt)
  then obtain k where "v = of_nat k" "k = 0 \<or> 3 \<le> k \<and> k \<le> 9"
    by (metis of_nat_unat ucast_id)
  then have "v \<in> exit_value ` set exit_values"
    by (auto simp: exit_values_def le_Suc_eq numeral_eq_Suc)
  then show "v \<in> exit_value ` UNIV" by auto
qed (auto)

text \<open>The conversions from a number are only applied to known numbers, where they are the inverse.\<close>

lemma cast_known_command:
  "IsKnownCommand v \<Longrightarrow> command_value (static_cast command_values command_value v) = v"
  by (auto simp: known_command_iff)

lemma cast_known_target:
  "IsKnownTarget v \<Longrightarrow> target_value (static_cast target_values target_value v) = v"
  by (auto simp: known_target_iff)

lemma cast_known_exit:
  "IsKnownExitCode v \<Longrightarrow> exit_value (static_cast exit_values exit_value v) = v"
  by (auto simp: known_exit_iff)

lemma max_u32 [simp]: "unat (- 1 :: u32) = 4294967295"
  by (simp add: unsigned_minus_1_eq_mask mask_eq_exp_minus_1)

lemma valid_count_iff: "IsPayloadByteCountValid n \<longleftrightarrow> unat n \<le> 65536 \<and> even (unat n)"
proof -
  have "n mod 2 = 0 \<longleftrightarrow> unat (n mod 2) = 0" by (simp add: unat_eq_zero)
  then show ?thesis
    by (simp add: IsPayloadByteCountValid_def c_maxPayloadBytes_def word_le_nat_alt unat_mod_distrib
        even_iff_mod_2_eq_zero)
qed

definition byte_count :: "wstring \<Rightarrow> u32" where
  "byte_count s = of_nat (2 * length s)"

lemma unat_u32: "n < 4294967296 \<Longrightarrow> unat (of_nat n :: u32) = n"
  by (simp add: unat_of_nat)

lemma unat_byte_count: "length s \<le> 32768 \<Longrightarrow> unat (byte_count s) = 2 * length s"
  unfolding byte_count_def by (rule unat_u32) simp

lemma byte_count_valid: "length s \<le> 32768 \<Longrightarrow> IsPayloadByteCountValid (byte_count s)"
  by (simp add: valid_count_iff unat_byte_count)

lemma PayloadByteCount_eq:
  "PayloadByteCount payload = (if length payload \<le> 32768 then Some (byte_count payload) else None)"
proof (cases "length payload > unat (- 1 :: u32) div 2")
  case False
  then have "unat (byte_count payload) = 2 * length payload"
    unfolding byte_count_def by (intro unat_u32) simp
  then have "IsPayloadByteCountValid (byte_count payload) \<longleftrightarrow> length payload \<le> 32768"
    by (simp add: valid_count_iff)
  then show ?thesis using False
    by (simp add: PayloadByteCount_def Let_def mult.commute byte_count_def)
qed (simp add: PayloadByteCount_def)

subsection \<open>Memory image\<close>

primrec le_bytes :: "nat \<Rightarrow> 'a::len word \<Rightarrow> byte list" where
  "le_bytes 0 w = []"
| "le_bytes (Suc n) w = ucast w # le_bytes n (drop_bit 8 w)"

primrec le_word :: "byte list \<Rightarrow> 'a::len word" where
  "le_word [] = 0"
| "le_word (b # bs) = ucast b OR push_bit 8 (le_word bs)"

lemma length_le_bytes [simp]: "length (le_bytes n w) = n"
  by (induction n arbitrary: w) auto

lemma le_word_bytes_take: "le_word (le_bytes n w) = take_bit (8 * n) w"
proof (induction n arbitrary: w)
  case (Suc n)
  show ?case
    by (rule bit_word_eqI) (auto simp: Suc.IH bit_simps)
qed simp

lemma le_word_bytes [simp]:
  fixes w :: "'a::len word"
  assumes "LENGTH('a) \<le> 8 * n"
  shows "le_word (le_bytes n w) = w"
  using assms by (simp add: le_word_bytes_take take_bit_word_eq_self)

lemma le_bytes_cong:
  "(\<And>i. i < 8 * n \<Longrightarrow> bit v i = bit w i) \<Longrightarrow> le_bytes n v = le_bytes n w"
proof (induction n arbitrary: v w)
  case (Suc n)
  have "ucast v = (ucast w :: byte)"
    by (rule bit_word_eqI) (use Suc.prems in \<open>auto simp: bit_simps\<close>)
  moreover have "le_bytes n (drop_bit 8 v) = le_bytes n (drop_bit 8 w)"
    by (rule Suc.IH) (use Suc.prems in \<open>auto simp: bit_simps\<close>)
  ultimately show ?case by simp
qed simp

lemma le_bytes_word [simp]:
  "8 * length bs \<le> LENGTH('a::len) \<Longrightarrow>
     le_bytes (length bs) (le_word bs :: 'a word) = bs"
proof (induction bs)
  case (Cons b bs)
  have "ucast (ucast b OR push_bit 8 (le_word bs :: 'a word)) = b"
    using Cons.prems by (intro bit_word_eqI) (auto simp: bit_simps)
  moreover have "le_bytes (length bs) (drop_bit 8 (ucast b OR push_bit 8 (le_word bs :: 'a word))) =
      le_bytes (length bs) (le_word bs :: 'a word)"
    using Cons.prems by (intro le_bytes_cong) (auto simp: bit_simps dest: bit_imp_le_length)
  ultimately show ?case using Cons by simp
qed simp

definition le32 :: "u32 \<Rightarrow> byte list" where "le32 w = le_bytes 4 w"
definition le64 :: "u64 \<Rightarrow> byte list" where "le64 w = le_bytes 8 w"

definition field32 :: "nat \<Rightarrow> byte list \<Rightarrow> u32" where "field32 off bs = le_word (take 4 (drop off bs))"
definition field64 :: "nat \<Rightarrow> byte list \<Rightarrow> u64" where "field64 off bs = le_word (take 8 (drop off bs))"

lemma length_le32 [simp]: "length (le32 w) = 4" by (simp add: le32_def)
lemma length_le64 [simp]: "length (le64 w) = 8" by (simp add: le64_def)

lemma le_word_le32 [simp]: "le_word (le32 w) = w" by (simp add: le32_def)
lemma le_word_le64 [simp]: "le_word (le64 w) = w" by (simp add: le64_def)

lemma le32_field32: "off + 4 \<le> length bs \<Longrightarrow> le32 (field32 off bs) = take 4 (drop off bs)"
  using le_bytes_word [of "take 4 (drop off bs)", where ?'a = 32] by (simp add: le32_def field32_def)

lemma le64_field64: "off + 8 \<le> length bs \<Longrightarrow> le64 (field64 off bs) = take 8 (drop off bs)"
  using le_bytes_word [of "take 8 (drop off bs)", where ?'a = 64] by (simp add: le64_def field64_def)

lemma take_drop_rejoin: "n + m = k \<Longrightarrow> take m (drop n bs) @ drop k bs = drop n bs"
  by (metis add.commute append_take_drop_id drop_drop)

definition request_image :: "RequestHeader \<Rightarrow> byte list" where
  "request_image h = le32 (rqMagic h) @ le32 (rqVersion h) @ le64 (rqCorrelationHigh h) @
     le64 (rqCorrelationLow h) @ le32 (rqCommand h) @ le32 (rqTarget h) @ le32 (rqFlags h) @
     le32 (rqPayloadBytes h)"

definition request_header :: "byte list \<Rightarrow> RequestHeader" where
  "request_header bs = \<lparr>rqMagic = field32 0 bs, rqVersion = field32 4 bs,
     rqCorrelationHigh = field64 8 bs, rqCorrelationLow = field64 16 bs, rqCommand = field32 24 bs,
     rqTarget = field32 28 bs, rqFlags = field32 32 bs, rqPayloadBytes = field32 36 bs\<rparr>"

definition response_image :: "ResponseHeader \<Rightarrow> byte list" where
  "response_image h = le32 (rsMagic h) @ le32 (rsVersion h) @ le64 (rsCorrelationHigh h) @
     le64 (rsCorrelationLow h) @ le32 (rsExitCode h) @ le32 (rsPayloadBytes h)"

definition response_header :: "byte list \<Rightarrow> ResponseHeader" where
  "response_header bs = \<lparr>rsMagic = field32 0 bs, rsVersion = field32 4 bs,
     rsCorrelationHigh = field64 8 bs, rsCorrelationLow = field64 16 bs, rsExitCode = field32 24 bs,
     rsPayloadBytes = field32 28 bs\<rparr>"

definition acknowledgement_image :: "Acknowledgement \<Rightarrow> byte list" where
  "acknowledgement_image a = le32 (akMagic a) @ le32 (akVersion a) @ le64 (akCorrelationHigh a) @
     le64 (akCorrelationLow a)"

definition acknowledgement_of :: "byte list \<Rightarrow> Acknowledgement" where
  "acknowledgement_of bs = \<lparr>akMagic = field32 0 bs, akVersion = field32 4 bs,
     akCorrelationHigh = field64 8 bs, akCorrelationLow = field64 16 bs\<rparr>"

text \<open>A \<open>std::wstring\<close> is written as its code units, two bytes each.\<close>

definition wide_image :: "wstring \<Rightarrow> byte list" where
  "wide_image s = concat (map (le_bytes 2) s)"

fun wide_string :: "byte list \<Rightarrow> wstring" where
  "wide_string (a # b # bs) = le_word [a, b] # wide_string bs"
| "wide_string _ = []"

locale codec =
  fixes image :: "'a \<Rightarrow> byte list"
    and parse :: "byte list \<Rightarrow> 'a"
    and size_of :: nat
  assumes image_size: "length (image x) = size_of"
    and parse_image: "parse (image x) = x"
    and image_parse: "length bs = size_of \<Longrightarrow> image (parse bs) = bs"
begin

lemma image_inject: "image x = image y \<longleftrightarrow> x = y"
  by (metis parse_image)

lemma parse_prefix: "parse (take size_of (image x @ rest)) = x"
  by (simp add: image_size parse_image)

lemma image_prefix_free: "image x @ r = image y @ s \<longleftrightarrow> x = y \<and> r = s"
  by (auto simp: image_size image_inject)

end

lemmas field_images = le32_field32 le64_field64 take_drop_rejoin

lemma request_image_header: "length bs = 40 \<Longrightarrow> request_image (request_header bs) = bs"
  by (simp add: request_image_def request_header_def field_images)

lemma response_image_header: "length bs = 32 \<Longrightarrow> response_image (response_header bs) = bs"
  by (simp add: response_image_def response_header_def field_images)

lemma acknowledgement_image_of: "length bs = 24 \<Longrightarrow> acknowledgement_image (acknowledgement_of bs) = bs"
  by (simp add: acknowledgement_image_def acknowledgement_of_def field_images)

interpretation request_codec: codec request_image request_header 40
  by (unfold_locales, simp_all add: request_image_header)
    (simp_all add: request_image_def request_header_def field32_def field64_def)

interpretation response_codec: codec response_image response_header 32
  by (unfold_locales, simp_all add: response_image_header)
    (simp_all add: response_image_def response_header_def field32_def field64_def)

interpretation acknowledgement_codec: codec acknowledgement_image acknowledgement_of 24
  by (unfold_locales, simp_all add: acknowledgement_image_of)
    (simp_all add: acknowledgement_image_def acknowledgement_of_def field32_def field64_def)

lemma length_wide_image [simp]: "length (wide_image s) = 2 * length s"
  by (induction s) (simp_all add: wide_image_def)

lemma wide_string_image [simp]: "wide_string (wide_image s) = s"
proof (induction s)
  case (Cons c s)
  have "le_word (le_bytes 2 c) = c" by simp
  then show ?case using Cons.IH by (simp add: wide_image_def numeral_2_eq_2)
qed (simp add: wide_image_def)

lemma wide_image_string [simp]: "even (length bs) \<Longrightarrow> wide_image (wide_string bs) = bs"
proof (induction bs rule: wide_string.induct)
  case (1 a b bs)
  have "le_bytes (length [a, b]) (le_word [a, b] :: wchar) = [a, b]"
    by (rule le_bytes_word) simp
  then have "le_bytes 2 (le_word [a, b] :: wchar) = [a, b]" by (simp add: numeral_2_eq_2)
  then show ?case using 1 by (simp add: wide_image_def del: le_word.simps)
qed (simp_all add: wide_image_def)

lemma length_wide_string [simp]: "length (wide_string bs) = length bs div 2"
  by (induction bs rule: wide_string.induct) auto

end
