(* ===== verification/Command_Pipe.thy ===== *)
theory Command_Pipe
  imports Command_Protocol
begin

section \<open>The control pipe: deadlines, exact transfers and framed messages\<close>

text \<open>
  \<open>control/CommandPipeIo.cpp\<close>. The operating system is a parameter \<open>os\<close>: what the \<open>i\<close>-th attempt of a
  transfer sees, namely whether the stop event is set when it is polled, the tick count when the deadline
  is compared, and how the overlapped operation ends. \<open>ReadFile\<close> and \<open>WriteFile\<close> move at most the number
  of bytes asked for, in order; an operation that is cancelled may still have moved some before it
  is drained. The two directions of a pipe are byte lists: \<open>incoming\<close> still to be read, \<open>outgoing\<close>
  already written. A transfer ends because each round either returns or moves at least one byte, so no
  fuel is needed.
\<close>

subsection \<open>Endpoints and deadlines\<close>

datatype IoStatus = IoSuccess | IoTimeout | IoCancelled | IoClosed | IoInvalidData | IoFailed

definition c_pipeInstanceCount :: nat where "c_pipeInstanceCount = 4"

definition digit :: "nat \<Rightarrow> wchar" where "digit d = of_nat (48 + d)"

fun to_wstring :: "nat \<Rightarrow> wstring" where
  "to_wstring n = (if n < 10 then [digit n] else to_wstring (n div 10) @ [digit (n mod 10)])"

declare to_wstring.simps [simp del]

definition PipeInstanceName :: "wstring \<Rightarrow> nat \<Rightarrow> wstring" where
  "PipeInstanceName baseName index =
     (if index = 0 then baseName else baseName @ L ''.'' @ to_wstring index)"

definition DeadlineAfter :: "u64 \<Rightarrow> u32 \<Rightarrow> u64" where
  "DeadlineAfter now timeoutMs = now + ucast timeoutMs"

definition INFINITE :: u32 where "INFINITE = - 1"

definition RemainingWait :: "u64 \<Rightarrow> u64 \<Rightarrow> u32" where
  "RemainingWait now deadline =
     (if deadline = 0 then INFINITE
      else if now \<ge> deadline then 0
      else ucast (min (deadline - now) (ucast (- 1 - 1 :: u32))))"

subsection \<open>Overlapped transfers\<close>

datatype TransferDirection = DirRead | DirWrite

datatype win32_error =
  ERROR_BROKEN_PIPE | ERROR_PIPE_NOT_CONNECTED | ERROR_NO_DATA | ERROR_OPERATION_ABORTED | ERROR_OTHER

text \<open>
  How a started operation ends: at once with a count, at once with an error, or pending, and then by the
  wait: a timeout, the stop event, another result, or completion with a count or an error. The number
  with an ended wait is what the drained operation had moved.
\<close>

datatype overlapped_outcome =
    WaitTimeout nat | WaitStop nat | WaitOther nat | WaitDone nat | WaitDoneError win32_error

datatype io_reply = Started nat | StartError win32_error | IoPending overlapped_outcome

record attempt =
  stop_polled :: bool
  ticks :: u64
  reply :: io_reply

type_synonym os = "nat \<Rightarrow> attempt"

record pipe =
  incoming :: "byte list"
  outgoing :: "byte list"
  attempts :: nat

definition error_status :: "win32_error \<Rightarrow> IoStatus" where
  "error_status e =
     (if e = ERROR_BROKEN_PIPE \<or> e = ERROR_PIPE_NOT_CONNECTED \<or> e = ERROR_NO_DATA then IoClosed
      else if e = ERROR_OPERATION_ABORTED then IoCancelled else IoFailed)"

text \<open>The bytes an operation of \<open>chunk\<close> bytes moves when the system offers to move \<open>n\<close>.\<close>

definition moved :: "TransferDirection \<Rightarrow> nat \<Rightarrow> u32 \<Rightarrow> pipe \<Rightarrow> nat" where
  "moved d n chunk p =
     (case d of DirWrite \<Rightarrow> min n (unat chunk)
      | DirRead \<Rightarrow> min n (min (unat chunk) (length (incoming p))))"

definition move_bytes :: "TransferDirection \<Rightarrow> nat \<Rightarrow> nat \<Rightarrow> byte list \<Rightarrow> pipe \<Rightarrow> byte list \<times> pipe" where
  "move_bytes d k cursor buffer p =
     (case d of
        DirWrite \<Rightarrow> (buffer, p\<lparr>outgoing := outgoing p @ take k (drop cursor buffer)\<rparr>)
      | DirRead \<Rightarrow> (take cursor buffer @ take k (incoming p) @ drop (cursor + k) buffer,
                  p\<lparr>incoming := drop k (incoming p)\<rparr>))"

text \<open>One round of the loop: the status to return with, or the number of bytes transferred. The last
  component is what reached or left the pipe in any case.\<close>

definition transfer_round ::
  "TransferDirection \<Rightarrow> bool \<Rightarrow> u64 \<Rightarrow> u32 \<Rightarrow> attempt \<Rightarrow> pipe \<Rightarrow> (IoStatus + nat) \<times> nat" where
  "transfer_round d stopEvent deadline remaining a p =
     (if stopEvent \<and> stop_polled a then (Inl IoCancelled, 0)
      else if deadline \<noteq> 0 \<and> RemainingWait (ticks a) deadline = 0 then (Inl IoTimeout, 0)
      else case reply a of
          Started n \<Rightarrow> (Inr (moved d n remaining p), moved d n remaining p)
        | StartError e \<Rightarrow> (Inl (error_status e), 0)
        | IoPending (WaitTimeout n) \<Rightarrow> (Inl IoTimeout, moved d n remaining p)
        | IoPending (WaitStop n) \<Rightarrow>
            (Inl (if stopEvent then IoCancelled else IoFailed), moved d n remaining p)
        | IoPending (WaitOther n) \<Rightarrow> (Inl IoFailed, moved d n remaining p)
        | IoPending (WaitDoneError e) \<Rightarrow> (Inl (error_status e), 0)
        | IoPending (WaitDone n) \<Rightarrow> (Inr (moved d n remaining p), moved d n remaining p))"

lemma moved_le: "moved d n chunk p \<le> unat chunk"
  by (cases d) (auto simp: moved_def)

lemma moved_read_le: "moved DirRead n chunk p \<le> length (incoming p)"
  by (simp add: moved_def)

lemma transfer_round_moved:
  "transfer_round d stopEvent deadline remaining a p = (Inr k, m) \<Longrightarrow>
     m = k \<and> (\<exists>n. k = moved d n remaining p)"
  by (auto simp: transfer_round_def split: if_splits io_reply.splits overlapped_outcome.splits)

lemma remaining_decreases:
  assumes "transfer_round d stopEvent deadline remaining a p = (Inr k, m)" "k \<noteq> 0"
  shows "unat (remaining - of_nat k) = unat remaining - k" "k \<le> unat remaining"
proof -
  show le: "k \<le> unat remaining"
    using transfer_round_moved [OF assms(1)] moved_le by auto
  then have "k < 2 ^ 32"
    using order_le_less_trans [OF le unsigned_less] by simp
  then have "(of_nat k :: u32) \<le> remaining" "unat (of_nat k :: u32) = k"
    using le by (auto simp: word_le_nat_alt unat_of_nat)
  then show "unat (remaining - of_nat k) = unat remaining - k"
    by (metis unat_sub)
qed

lemma remaining_less:
  assumes "(Inr k, m) = transfer_round d stopEvent deadline remaining a p" "0 < k"
  shows "unat (remaining - of_nat k) < unat remaining"
  using remaining_decreases [OF assms(1) [symmetric]] assms(2) by simp

function (sequential) transfer_loop ::
  "os \<Rightarrow> TransferDirection \<Rightarrow> bool \<Rightarrow> u64 \<Rightarrow> u32 \<Rightarrow> nat \<Rightarrow> byte list \<Rightarrow> pipe
     \<Rightarrow> IoStatus \<times> byte list \<times> pipe" where
  "transfer_loop os d stopEvent deadline remaining cursor buffer p =
     (if remaining = 0 then (IoSuccess, buffer, p)
      else case transfer_round d stopEvent deadline remaining (os (attempts p)) p of
          (Inl status, m) \<Rightarrow>
            (let (buffer', p') = move_bytes d m cursor buffer p
             in (status, buffer', p'\<lparr>attempts := Suc (attempts p)\<rparr>))
        | (Inr k, _) \<Rightarrow>
            (if k = 0 then (IoClosed, buffer, p\<lparr>attempts := Suc (attempts p)\<rparr>)
             else let (buffer', p') = move_bytes d k cursor buffer p
                  in transfer_loop os d stopEvent deadline (remaining - of_nat k) (cursor + k) buffer'
                       (p'\<lparr>attempts := Suc (attempts p)\<rparr>)))"
  by pat_completeness auto
termination
  by (relation "measure (\<lambda>(os, d, s, dl, remaining, c, b, p). unat remaining)")
    (auto simp: remaining_less)

declare transfer_loop.simps [simp del]

text \<open>\<open>event_created\<close>: whether \<open>CreateEventW\<close> succeeded.\<close>

definition TransferExact ::
  "os \<Rightarrow> bool \<Rightarrow> TransferDirection \<Rightarrow> bool \<Rightarrow> u64 \<Rightarrow> u32 \<Rightarrow> byte list \<Rightarrow> pipe
     \<Rightarrow> IoStatus \<times> byte list \<times> pipe" where
  "TransferExact os event_created d stopEvent deadline byteCount buffer p =
     (if \<not> event_created then (IoFailed, buffer, p)
      else transfer_loop os d stopEvent deadline byteCount 0 buffer p)"

subsection \<open>Framed messages\<close>

text \<open>What a call passes down unchanged: the stop event, the deadline and the system's answers;
  \<open>events i\<close> says whether the \<open>i\<close>-th attempt can be preceded by the creation of an event.\<close>

record io_context =
  ctx_os :: os
  ctx_events :: "nat \<Rightarrow> bool"
  ctx_stopEvent :: bool
  ctx_deadline :: u64

definition ReadExact :: "io_context \<Rightarrow> u32 \<Rightarrow> byte list \<Rightarrow> pipe \<Rightarrow> IoStatus \<times> byte list \<times> pipe" where
  "ReadExact c byteCount buffer p =
     TransferExact (ctx_os c) (ctx_events c (attempts p)) DirRead (ctx_stopEvent c) (ctx_deadline c)
       byteCount buffer p"

definition WriteExact :: "io_context \<Rightarrow> u32 \<Rightarrow> byte list \<Rightarrow> pipe \<Rightarrow> IoStatus \<times> pipe" where
  "WriteExact c byteCount buffer p =
     (case TransferExact (ctx_os c) (ctx_events c (attempts p)) DirWrite (ctx_stopEvent c)
             (ctx_deadline c) byteCount buffer p of
        (status, _, p') \<Rightarrow> (status, p'))"

definition zero_bytes :: "u32 \<Rightarrow> byte list" where "zero_bytes n = replicate (unat n) 0"

text \<open>The payload of a message whose header announced \<open>n\<close> bytes; nothing is read when it is empty.\<close>

definition ReadPayload :: "io_context \<Rightarrow> u32 \<Rightarrow> pipe \<Rightarrow> IoStatus \<times> wstring \<times> pipe" where
  "ReadPayload c n p =
     (if n > 0 then
        (case ReadExact c n (zero_bytes n) p of (status, bytes, p') \<Rightarrow> (status, wide_string bytes, p'))
      else (IoSuccess, [], p))"

definition ReadRequest :: "io_context \<Rightarrow> Request \<Rightarrow> pipe \<Rightarrow> IoStatus \<times> Request \<times> pipe" where
  "ReadRequest c request p =
     (case ReadExact c 40 (zero_bytes 40) p of
        (status, bytes, p1) \<Rightarrow>
          if status \<noteq> IoSuccess then (status, request, p1)
          else let header = request_header bytes in
            if \<not> IsRequestHeaderValid header then (IoInvalidData, request, p1)
            else case ReadPayload c (rqPayloadBytes header) p1 of
              (status, payload, p2) \<Rightarrow>
                if status \<noteq> IoSuccess then (status, request, p2)
                else let request' =
                    \<lparr>Command = static_cast command_values command_value (rqCommand header),
                     Target = static_cast target_values target_value (rqTarget header),
                     Flags = rqFlags header, Payload = payload,
                     RequestId = \<lparr>High = rqCorrelationHigh header, Low = rqCorrelationLow header\<rparr>\<rparr>
                  in (if IsRequestValid request' then IoSuccess else IoInvalidData, request', p2))"

definition request_header_of :: "Request \<Rightarrow> u32 \<Rightarrow> RequestHeader" where
  "request_header_of r payloadBytes =
     \<lparr>rqMagic = c_requestMagic, rqVersion = c_protocolVersion,
      rqCorrelationHigh = High (RequestId r), rqCorrelationLow = Low (RequestId r),
      rqCommand = command_value (Command r), rqTarget = target_value (Target r), rqFlags = Flags r,
      rqPayloadBytes = payloadBytes\<rparr>"

definition WriteRequest :: "io_context \<Rightarrow> Request \<Rightarrow> pipe \<Rightarrow> IoStatus \<times> pipe" where
  "WriteRequest c r p =
     (case PayloadByteCount (Payload r) of
        None \<Rightarrow> (IoInvalidData, p)
      | Some payloadBytes \<Rightarrow>
          if \<not> IsRequestValid r then (IoInvalidData, p)
          else case WriteExact c 40 (request_image (request_header_of r payloadBytes)) p of
            (status, p1) \<Rightarrow>
              if status \<noteq> IoSuccess \<or> payloadBytes = 0 then (status, p1)
              else WriteExact c payloadBytes (wide_image (Payload r)) p1)"

definition ReadResponse :: "io_context \<Rightarrow> Response \<Rightarrow> pipe \<Rightarrow> IoStatus \<times> Response \<times> pipe" where
  "ReadResponse c response p =
     (case ReadExact c 32 (zero_bytes 32) p of
        (status, bytes, p1) \<Rightarrow>
          if status \<noteq> IoSuccess then (status, response, p1)
          else let header = response_header bytes;
                   correlationId = \<lparr>High = rsCorrelationHigh header, Low = rsCorrelationLow header\<rparr> in
            if rsMagic header \<noteq> c_responseMagic \<or> rsVersion header \<noteq> c_protocolVersion \<or>
               EmptyId correlationId \<or> \<not> IsKnownExitCode (rsExitCode header) \<or>
               \<not> IsPayloadByteCountValid (rsPayloadBytes header)
            then (IoInvalidData, response, p1)
            else case ReadPayload c (rsPayloadBytes header) p1 of
              (status, payload, p2) \<Rightarrow>
                if status \<noteq> IoSuccess then (status, response, p2)
                else (IoSuccess,
                  \<lparr>Code = static_cast exit_values exit_value (rsExitCode header), Body = payload,
                   ResponseId = correlationId\<rparr>, p2))"

definition WriteResponse :: "io_context \<Rightarrow> Response \<Rightarrow> pipe \<Rightarrow> IoStatus \<times> pipe" where
  "WriteResponse c r p =
     (case MakeResponseHeader r of
        None \<Rightarrow> (IoInvalidData, p)
      | Some header \<Rightarrow>
          (case WriteExact c 32 (response_image header) p of
            (status, p1) \<Rightarrow>
              if status \<noteq> IoSuccess \<or> rsPayloadBytes header = 0 then (status, p1)
              else WriteExact c (rsPayloadBytes header) (wide_image (Body r)) p1))"

definition WriteAcknowledgement :: "io_context \<Rightarrow> CorrelationId \<Rightarrow> pipe \<Rightarrow> IoStatus \<times> pipe" where
  "WriteAcknowledgement c correlationId p =
     (if EmptyId correlationId then (IoInvalidData, p)
      else WriteExact c 24 (acknowledgement_image
        \<lparr>akMagic = c_acknowledgementMagic, akVersion = c_protocolVersion,
         akCorrelationHigh = High correlationId, akCorrelationLow = Low correlationId\<rparr>) p)"

definition ReadAcknowledgement :: "io_context \<Rightarrow> CorrelationId \<Rightarrow> pipe \<Rightarrow> IoStatus \<times> pipe" where
  "ReadAcknowledgement c correlationId p =
     (case ReadExact c 24 (zero_bytes 24) p of
        (status, bytes, p1) \<Rightarrow>
          if status \<noteq> IoSuccess then (status, p1)
          else if \<not> IsAcknowledgementValid (acknowledgement_of bytes) correlationId
            then (IoInvalidData, p1)
          else (IoSuccess, p1))"

end
