(* ===== verification/Command_Claims.thy ===== *)
theory Command_Claims
  imports Command_Pipe
begin

section \<open>What the control pipe guarantees\<close>

text \<open>
  Every successful write puts exactly one canonical message on the wire, and a read succeeds exactly on
  such a message: requests, responses and acknowledgements round trip whatever way the system splits the
  transfer, and nothing else is accepted.
\<close>

subsection \<open>Exact transfers\<close>

lemma take_drop_add: "take k (drop c xs) @ take j (drop (c + k) xs) = take (k + j) (drop c xs)"
  by (metis add.commute drop_drop take_add)

lemma take_drop_sub: "k \<le> n \<Longrightarrow> take k xs @ take (n - k) (drop k xs) = take n xs"
  by (metis le_add_diff_inverse take_add)

lemma moved_zero: "0 = moved d 0 chunk p"
  by (simp add: moved_def split: TransferDirection.split)

lemma move_zero [simp]: "move_bytes d 0 cursor buffer p = (buffer, p)"
  by (simp add: move_bytes_def split: TransferDirection.split)

text \<open>A round that does not end the transfer moves between one byte and all that remain.\<close>

lemma transfer_loop_cases:
  assumes "transfer_loop os d s dl remaining cursor buffer p = (status, buffer', p')"
  obtains
    (finished) "remaining = 0" "status = IoSuccess" "buffer' = buffer" "p' = p"
  | (returned) m p1 where "remaining \<noteq> 0" "status \<noteq> IoSuccess" "status \<noteq> IoInvalidData"
      "\<exists>n. m = moved d n remaining p" "move_bytes d m cursor buffer p = (buffer', p1)"
      "p' = p1\<lparr>attempts := Suc (attempts p)\<rparr>"
  | (continued) k buffer1 p1 where "remaining \<noteq> 0" "k \<noteq> 0" "k \<le> unat remaining"
      "\<exists>n. k = moved d n remaining p"
      "unat (remaining - of_nat k) = unat remaining - k"
      "move_bytes d k cursor buffer p = (buffer1, p1)"
      "transfer_loop os d s dl (remaining - of_nat k) (cursor + k) buffer1
         (p1\<lparr>attempts := Suc (attempts p)\<rparr>) = (status, buffer', p')"
proof (cases "remaining = 0")
  case True
  then show ?thesis using assms finished by (simp add: transfer_loop.simps)
next
  case False
  obtain r m where round: "transfer_round d s dl remaining (os (attempts p)) p = (r, m)"
    by fastforce
  show ?thesis
  proof (cases r)
    case (Inl st)
    have "st \<noteq> IoSuccess \<and> st \<noteq> IoInvalidData \<and> (\<exists>n. m = moved d n remaining p)"
      using round Inl moved_zero [of d remaining p]
      by (auto simp: transfer_round_def error_status_def
          split: if_splits io_reply.splits overlapped_outcome.splits)
    moreover obtain p1 where "move_bytes d m cursor buffer p = (buffer', p1)"
      "p' = p1\<lparr>attempts := Suc (attempts p)\<rparr>" "status = st"
      using assms False round Inl by (auto simp: transfer_loop.simps [of os] split: prod.splits)
    ultimately show ?thesis using False returned by blast
  next
    case (Inr k)
    show ?thesis
    proof (cases "k = 0")
      case True
      then have "status = IoClosed" "buffer' = buffer" "p' = p\<lparr>attempts := Suc (attempts p)\<rparr>"
        using assms False round Inr by (auto simp: transfer_loop.simps [of os])
      then show ?thesis using False moved_zero [of d remaining p]
        by (intro returned [of 0 p]) auto
    next
      case nz: False
      obtain buffer1 p1 where "move_bytes d k cursor buffer p = (buffer1, p1)" by fastforce
      then show ?thesis
        using assms False round Inr nz remaining_decreases [of d s dl remaining _ p k m]
          transfer_round_moved [of d s dl remaining _ p k m]
        by (intro continued [of k buffer1 p1]) (auto simp: transfer_loop.simps [of os _ _ _ remaining])
    qed
  qed
qed

lemma transfer_write:
  assumes "transfer_loop os DirWrite s dl remaining cursor buffer p = (status, buffer', p')"
    and "cursor + unat remaining = length buffer"
  shows "\<exists>j \<le> unat remaining. outgoing p' = outgoing p @ take j (drop cursor buffer) \<and>
           incoming p' = incoming p \<and> (status = IoSuccess \<longrightarrow> j = unat remaining)"
  using assms
proof (induction "unat remaining" arbitrary: remaining cursor buffer p rule: less_induct)
  case less
  from less.prems(1) show ?case
  proof (cases rule: transfer_loop_cases)
    case (continued k buffer1 p1)
    obtain j where "j \<le> unat remaining - k" 
        "outgoing p' = outgoing p1 @ take j (drop (cursor + k) buffer1)" "incoming p' = incoming p1"
        "status = IoSuccess \<longrightarrow> j = unat remaining - k"
      using less.hyps [OF _ continued(7)] continued less.prems(2) by (auto simp: move_bytes_def)
    then show ?thesis using continued
      by (intro exI [of _ "k + j"]) (auto simp: move_bytes_def take_drop_add)
  next
    case (returned m p1)
    then show ?thesis using moved_le by (intro exI [of _ m]) (auto simp: move_bytes_def)
  qed auto
qed

lemma transfer_read:
  assumes "transfer_loop os DirRead s dl remaining cursor buffer p = (status, buffer', p')"
    and "cursor + unat remaining = length buffer"
  shows "\<exists>j \<le> unat remaining. j \<le> length (incoming p) \<and>
           incoming p' = drop j (incoming p) \<and> outgoing p' = outgoing p \<and>
           (status = IoSuccess \<longrightarrow> j = unat remaining \<and> buffer' = take cursor buffer @ take j (incoming p))"
  using assms
proof (induction "unat remaining" arbitrary: remaining cursor buffer p rule: less_induct)
  case less
  from less.prems(1) show ?case
  proof (cases rule: transfer_loop_cases)
    case (continued k buffer1 p1)
    then have k: "k \<le> length (incoming p)" using moved_read_le by auto
    have p1: "p1 = p\<lparr>incoming := drop k (incoming p)\<rparr>"
      "buffer1 = take cursor buffer @ take k (incoming p) @ drop (cursor + k) buffer"
      using continued(6) by (auto simp: move_bytes_def)
    obtain j where "j \<le> unat remaining - k" "j \<le> length (incoming p1)"
        "incoming p' = drop j (incoming p1)" "outgoing p' = outgoing p1"
        "status = IoSuccess \<longrightarrow> j = unat remaining - k \<and>
           buffer' = take (cursor + k) buffer1 @ take j (incoming p1)"
      using less.hyps [OF _ continued(7)] continued(1-5) less.prems(2) k p1 by auto
    then show ?thesis using continued(1-5) k p1 less.prems(2)
      by (intro exI [of _ "k + j"]) (auto simp: take_drop_sub ac_simps)
  next
    case (returned m p1)
    then show ?thesis using moved_le moved_read_le
      by (intro exI [of _ m]) (auto simp: move_bytes_def)
  qed (use less.prems(2) in auto)
qed

lemma transfer_never_invalid:
  "transfer_loop os d s dl remaining cursor buffer p = (status, buffer', p') \<Longrightarrow> status \<noteq> IoInvalidData"
proof (induction "unat remaining" arbitrary: remaining cursor buffer p rule: less_induct)
  case less
  from less.prems show ?case
  proof (cases rule: transfer_loop_cases)
    case (continued k buffer1 p1)
    then show ?thesis using less.hyps [OF _ continued(7)] by auto
  qed auto
qed

lemma transfer_attempts:
  "transfer_loop os d s dl remaining cursor buffer p = (status, buffer', p') \<Longrightarrow>
     attempts p \<le> attempts p' \<and> attempts p' \<le> attempts p + unat remaining"
proof (induction "unat remaining" arbitrary: remaining cursor buffer p rule: less_induct)
  case less
  from less.prems show ?case
  proof (cases rule: transfer_loop_cases)
    case (continued k buffer1 p1)
    then show ?thesis using less.hyps [OF _ continued(7)] by auto
  next
    case (returned m p1)
    then show ?thesis by (cases "unat remaining") (auto simp: unat_eq_zero)
  qed auto
qed

text \<open>
  A system that always answers: an event can be created, the stop event is not set, the deadline is not
  over, and each operation moves at least one byte.
\<close>

definition responsive :: "io_context \<Rightarrow> bool" where
  "responsive c \<longleftrightarrow> (\<forall>i. ctx_events c i \<and> \<not> (ctx_stopEvent c \<and> stop_polled (ctx_os c i)) \<and>
     (ctx_deadline c = 0 \<or> RemainingWait (ticks (ctx_os c i)) (ctx_deadline c) \<noteq> 0) \<and>
     (\<exists>n > 0. reply (ctx_os c i) = Started n \<or> reply (ctx_os c i) = IoPending (WaitDone n)))"

lemma responsive_round:
  assumes "responsive c" "remaining \<noteq> 0" "d = DirRead \<Longrightarrow> incoming p \<noteq> []"
  shows "\<exists>k > 0. transfer_round d (ctx_stopEvent c) (ctx_deadline c) remaining (ctx_os c i) p = (Inr k, k)"
proof -
  obtain n where n: "n > 0" "reply (ctx_os c i) = Started n \<or> reply (ctx_os c i) = IoPending (WaitDone n)"
    using assms(1) by (auto simp: responsive_def)
  have "transfer_round d (ctx_stopEvent c) (ctx_deadline c) remaining (ctx_os c i) p =
      (Inr (moved d n remaining p), moved d n remaining p)"
    using assms(1) n(2) unfolding responsive_def transfer_round_def by auto
  moreover have "moved d n remaining p > 0"
    using assms(2,3) n(1) by (cases d) (auto simp: moved_def unat_gt_0)
  ultimately show ?thesis by blast
qed

lemma responsive_transfer:
  assumes "responsive c" "d = DirRead \<Longrightarrow> unat remaining \<le> length (incoming p)"
  shows "fst (transfer_loop (ctx_os c) d (ctx_stopEvent c) (ctx_deadline c) remaining cursor buffer p)
           = IoSuccess"
  using assms(2)
proof (induction "unat remaining" arbitrary: remaining cursor buffer p rule: less_induct)
  case less
  show ?case
  proof (cases "remaining = 0")
    case False
    then have "d = DirRead \<Longrightarrow> incoming p \<noteq> []"
      using less.prems by (auto simp: unat_eq_zero)
    then obtain k where k: "k > 0" "transfer_round d (ctx_stopEvent c) (ctx_deadline c) remaining
        (ctx_os c (attempts p)) p = (Inr k, k)"
      using responsive_round [OF assms(1) False] by blast
    obtain buffer1 p1 where move: "move_bytes d k cursor buffer p = (buffer1, p1)" by fastforce
    have smaller: "unat (remaining - of_nat k) = unat remaining - k" "k \<le> unat remaining"
      using remaining_decreases [OF k(2)] k(1) by auto
    have "d = DirRead \<Longrightarrow> unat (remaining - of_nat k) \<le> length (incoming p1)"
      using move less.prems smaller by (auto simp: move_bytes_def)
    then have "fst (transfer_loop (ctx_os c) d (ctx_stopEvent c) (ctx_deadline c) (remaining - of_nat k)
        (cursor + k) buffer1 (p1\<lparr>attempts := Suc (attempts p)\<rparr>)) = IoSuccess"
      using smaller k(1) by (intro less.hyps) auto
    then show ?thesis using False k move
      by (subst transfer_loop.simps) simp
  qed (simp add: transfer_loop.simps)
qed

lemma WriteExact_sound:
  assumes "WriteExact c n buffer p = (status, p')" "length buffer = unat n"
  shows "status \<noteq> IoInvalidData"
    and "status = IoSuccess \<Longrightarrow> outgoing p' = outgoing p @ buffer \<and> incoming p' = incoming p"
  using assms
   apply (auto simp: WriteExact_def TransferExact_def split: prod.splits if_splits
      dest: transfer_never_invalid)
  by (auto dest!: transfer_write)

lemma ReadExact_sound:
  assumes "ReadExact c n (zero_bytes n) p = (status, bytes, p')"
  shows "status \<noteq> IoInvalidData"
    and "status = IoSuccess \<Longrightarrow> incoming p = bytes @ incoming p' \<and> length bytes = unat n"
proof -
  show "status \<noteq> IoInvalidData"
    using assms by (auto simp: ReadExact_def TransferExact_def split: if_splits dest: transfer_never_invalid)
  assume "status = IoSuccess"
  then have "transfer_loop (ctx_os c) DirRead (ctx_stopEvent c) (ctx_deadline c) n 0 (zero_bytes n) p =
      (IoSuccess, bytes, p')"
    using assms by (auto simp: ReadExact_def TransferExact_def split: if_splits)
  from transfer_read [OF this] obtain j where "j \<le> length (incoming p)" "j = unat n"
      "incoming p' = drop j (incoming p)" "bytes = take j (incoming p)"
    by (auto simp: zero_bytes_def)
  then show "incoming p = bytes @ incoming p' \<and> length bytes = unat n" by simp
qed

lemma ReadExact_responsive:
  "responsive c \<Longrightarrow> unat n \<le> length (incoming p) \<Longrightarrow> fst (ReadExact c n buffer p) = IoSuccess"
  using responsive_transfer [of c DirRead n p]
  by (auto simp: ReadExact_def TransferExact_def) (simp add: responsive_def)

lemma WriteExact_responsive: "responsive c \<Longrightarrow> fst (WriteExact c n buffer p) = IoSuccess"
  using responsive_transfer [of c DirWrite n p 0 buffer]
  by (auto simp: WriteExact_def TransferExact_def split: prod.split) (simp add: responsive_def)

subsection \<open>Payloads\<close>

lemma ReadPayload_sound:
  assumes "ReadPayload c n p = (status, payload, p')" "IsPayloadByteCountValid n"
  shows "status \<noteq> IoInvalidData"
    and "status = IoSuccess \<Longrightarrow> incoming p = wide_image payload @ incoming p' \<and>
           n = byte_count payload \<and> length payload \<le> 32768"
proof -
  show "status \<noteq> IoInvalidData"
    using assms(1) by (auto simp: ReadPayload_def split: if_splits prod.splits dest: ReadExact_sound(1))
  have bounds: "unat n \<le> 65536" "even (unat n)"
    using assms(2) by (simp_all add: valid_count_iff)
  assume "status = IoSuccess"
  show "incoming p = wide_image payload @ incoming p' \<and> n = byte_count payload \<and>
      length payload \<le> 32768"
  proof (cases "n > 0")
    case True
    then obtain bytes where "ReadExact c n (zero_bytes n) p = (IoSuccess, bytes, p')"
        "payload = wide_string bytes"
      using assms(1) \<open>status = IoSuccess\<close> by (auto simp: ReadPayload_def split: prod.splits)
    then show ?thesis using ReadExact_sound(2) [of c n p IoSuccess bytes p'] bounds
      by (auto simp: byte_count_def)
  next
    case False
    then show ?thesis using assms(1)
      by (auto simp: ReadPayload_def wide_image_def word_gt_0 byte_count_def)
  qed
qed

lemma ReadPayload_complete:
  assumes "responsive c" "unat n \<le> length (incoming p)"
  shows "fst (ReadPayload c n p) = IoSuccess"
  using ReadExact_responsive [OF assms, of "zero_bytes n"]
  by (auto simp: ReadPayload_def split: prod.split)

lemma wide_image_inject [simp]: "wide_image s = wide_image t \<longleftrightarrow> s = t"
  by (metis wide_string_image)

lemma payload_read:
  assumes read: "ReadPayload c (byte_count s) p = (status, payload, p')"
    and bound: "length s \<le> 32768" and wire: "incoming p = wide_image s @ rest"
  shows "status \<noteq> IoInvalidData"
    and "responsive c \<Longrightarrow> status = IoSuccess"
    and "status = IoSuccess \<Longrightarrow> payload = s \<and> incoming p' = rest"
proof -
  note valid = byte_count_valid [OF bound] and size = unat_byte_count [OF bound]
  show "status \<noteq> IoInvalidData" by (rule ReadPayload_sound(1) [OF read valid])
  show "responsive c \<Longrightarrow> status = IoSuccess"
    using ReadPayload_complete [of c "byte_count s" p] read wire size by simp
  assume "status = IoSuccess"
  from ReadPayload_sound(2) [OF read valid this] have "incoming p = wide_image payload @ incoming p'"
      "length payload = length s"
    using size unat_byte_count [of payload] by auto
  then show "payload = s \<and> incoming p' = rest"
    using wire by auto
qed

subsection \<open>Headers\<close>

text \<open>What reading the memory image of a structure gives its reader.\<close>

locale wire_codec = codec +
  fixes size_word :: u32
  assumes size_word: "unat size_word = size_of"
begin

lemma read_any:
  "ReadExact c size_word (zero_bytes size_word) p = (IoSuccess, bytes, p') \<Longrightarrow>
     incoming p = image (parse bytes) @ incoming p'"
  by (drule ReadExact_sound(2)) (simp_all add: size_word image_parse)

lemma read_image:
  assumes read: "ReadExact c size_word (zero_bytes size_word) p = (status, bytes, p')"
    and wire: "incoming p = image x @ rest"
  shows "status \<noteq> IoInvalidData"
    and "responsive c \<Longrightarrow> status = IoSuccess"
    and "status = IoSuccess \<Longrightarrow> parse bytes = x \<and> incoming p' = rest"
proof -
  show "status \<noteq> IoInvalidData" by (rule ReadExact_sound(1) [OF read])
  show "responsive c \<Longrightarrow> status = IoSuccess"
    using ReadExact_responsive [of c size_word p "zero_bytes size_word"] read wire
    by (simp add: size_word image_size)
  assume "status = IoSuccess"
  then have "image (parse bytes) @ incoming p' = image x @ rest"
    using read_any read wire by metis
  then show "parse bytes = x \<and> incoming p' = rest" by (simp add: image_prefix_free)
qed

end

interpretation request_wire_codec: wire_codec request_image request_header 40 40
  by unfold_locales simp

interpretation response_wire_codec: wire_codec response_image response_header 32 32
  by unfold_locales simp

interpretation acknowledgement_wire_codec: wire_codec acknowledgement_image acknowledgement_of 24 24
  by unfold_locales simp

subsection \<open>Requests\<close>

text \<open>The bytes that stand for a request.\<close>

definition request_wire :: "Request \<Rightarrow> byte list" where
  "request_wire r =
     request_image (request_header_of r (byte_count (Payload r))) @ wide_image (Payload r)"

lemma valid_request_bounded: "IsRequestValid r \<Longrightarrow> length (Payload r) \<le> 32768"
  by (auto simp: IsRequestValid_def c_maxPayloadBytes_def split: if_splits)

lemma valid_request_header:
  assumes "IsRequestValid r"
  shows "PayloadByteCount (Payload r) = Some (byte_count (Payload r))"
    and "IsRequestHeaderValid (request_header_of r (byte_count (Payload r)))"
  using assms valid_request_bounded [OF assms] byte_count_valid [of "Payload r"]
  by (auto simp: PayloadByteCount_eq IsRequestValid_def IsRequestHeaderValid_def request_header_of_def
      EmptyId_def split: if_splits)

text \<open>A header and the payload it announces, written one after the other.\<close>

lemma write_two:
  assumes first: "WriteExact c k header p = (status, p1)" "length header = unat k"
    and two: "(if status \<noteq> IoSuccess \<or> byte_count s = 0 then (status, p1)
      else WriteExact c (byte_count s) (wide_image s) p1) = (IoSuccess, p')"
    and bound: "length s \<le> 32768"
  shows "outgoing p' = outgoing p @ header @ wide_image s"
proof -
  have success: "status = IoSuccess" using two by (auto split: if_splits)
  then have out1: "outgoing p1 = outgoing p @ header"
    using WriteExact_sound(2) [OF first] by simp
  show ?thesis
  proof (cases "byte_count s = 0")
    case True
    then have "s = []" using unat_byte_count [OF bound] by simp
    then show ?thesis using True two out1 success by (simp add: wide_image_def)
  next
    case False
    then have "WriteExact c (byte_count s) (wide_image s) p1 = (IoSuccess, p')"
      using two success by simp
    from WriteExact_sound(2) [OF this] show ?thesis
      using out1 unat_byte_count [OF bound] by simp
  qed
qed

lemma WriteRequest_sound:
  assumes "WriteRequest c r p = (IoSuccess, p')"
  shows "IsRequestValid r \<and> outgoing p' = outgoing p @ request_wire r"
proof -
  have valid: "IsRequestValid r"
    using assms by (auto simp: WriteRequest_def split: option.splits if_splits)
  obtain status p1 where first:
      "WriteExact c 40 (request_image (request_header_of r (byte_count (Payload r)))) p = (status, p1)"
    by fastforce
  from write_two [OF first] assms first valid show ?thesis
    by (simp add: WriteRequest_def valid_request_header request_wire_def request_codec.image_size
        valid_request_bounded)
qed

lemma WriteRequest_responsive:
  "responsive c \<Longrightarrow> IsRequestValid r \<Longrightarrow> fst (WriteRequest c r p) = IoSuccess"
  using WriteExact_responsive [of c]
  by (auto simp: WriteRequest_def valid_request_header split: prod.split) (metis fst_conv)+

lemma request_header_of_parsed:
  assumes "IsRequestHeaderValid h"
  shows "request_header_of \<lparr>Command = static_cast command_values command_value (rqCommand h),
           Target = static_cast target_values target_value (rqTarget h), Flags = rqFlags h, Payload = s,
           RequestId = \<lparr>High = rqCorrelationHigh h, Low = rqCorrelationLow h\<rparr>\<rparr> (rqPayloadBytes h) = h"
  using assms
  by (simp add: request_header_of_def IsRequestHeaderValid_def cast_known_command cast_known_target)

lemma ReadRequest_sound:
  assumes "ReadRequest c r0 p = (IoSuccess, r, p')"
  shows "IsRequestValid r \<and> incoming p = request_wire r @ incoming p'"
proof -
  obtain bytes p1 where head: "ReadExact c 40 (zero_bytes 40) p = (IoSuccess, bytes, p1)"
    and valid: "IsRequestHeaderValid (request_header bytes)"
    using assms by (auto simp: ReadRequest_def Let_def split: prod.splits if_splits)
  define h where "h = request_header bytes"
  obtain payload where tail: "ReadPayload c (rqPayloadBytes h) p1 = (IoSuccess, payload, p')"
    and r: "r = \<lparr>Command = static_cast command_values command_value (rqCommand h),
        Target = static_cast target_values target_value (rqTarget h), Flags = rqFlags h, Payload = payload,
        RequestId = \<lparr>High = rqCorrelationHigh h, Low = rqCorrelationLow h\<rparr>\<rparr>" and "IsRequestValid r"
    using assms head valid by (auto simp: ReadRequest_def Let_def h_def split: prod.splits if_splits)
  have "IsPayloadByteCountValid (rqPayloadBytes h)"
    using valid by (simp add: h_def IsRequestHeaderValid_def)
  from ReadPayload_sound(2) [OF tail this]
  have "incoming p1 = wide_image payload @ incoming p'" "rqPayloadBytes h = byte_count payload" by auto
  moreover have "incoming p = request_image h @ incoming p1"
    using request_wire_codec.read_any [OF head] by (simp add: h_def)
  moreover have "request_header_of r (rqPayloadBytes h) = h"
    using valid unfolding r h_def by (rule request_header_of_parsed)
  ultimately show ?thesis using \<open>IsRequestValid r\<close> by (simp add: request_wire_def r)
qed

lemma id_eta [simp]: "\<lparr>High = High i, Low = Low i\<rparr> = i"
  by simp

lemma request_eta [simp]:
  "\<lparr>Command = Command r, Target = Target r, Flags = Flags r, Payload = Payload r,
    RequestId = RequestId r\<rparr> = r"
  by simp

lemma response_eta [simp]: "\<lparr>Code = Code r, Body = Body r, ResponseId = ResponseId r\<rparr> = r"
  by simp

lemma ReadRequest_complete:
  assumes valid: "IsRequestValid r" and wire: "incoming p = request_wire r @ rest"
    and read: "ReadRequest c r0 p = (status, r', p')"
  shows "status = IoSuccess \<and> r' = r \<and> incoming p' = rest \<or>
         status \<notin> {IoSuccess, IoInvalidData} \<and> r' = r0 \<and> \<not> responsive c"
proof -
  define h where "h = request_header_of r (byte_count (Payload r))"
  have h: "IsRequestHeaderValid h" "rqPayloadBytes h = byte_count (Payload r)"
    using valid_request_header(2) [OF valid] by (simp_all add: h_def request_header_of_def)
  obtain status1 bytes p1 where head: "ReadExact c 40 (zero_bytes 40) p = (status1, bytes, p1)"
    by (cases "ReadExact c 40 (zero_bytes 40) p") auto
  have wire1: "incoming p = request_image h @ wide_image (Payload r) @ rest"
    using wire by (simp add: request_wire_def h_def)
  note first = request_wire_codec.read_image [OF head wire1]
  show ?thesis
  proof (cases "status1 = IoSuccess")
    case False
    then show ?thesis using read head first by (auto simp: ReadRequest_def)
  next
    case True
    then have parsed: "request_header bytes = h" and wire2: "incoming p1 = wide_image (Payload r) @ rest"
      using first(3) by auto
    obtain status2 payload p2 where body: "ReadPayload c (byte_count (Payload r)) p1 = (status2, payload, p2)"
      by (cases "ReadPayload c (byte_count (Payload r)) p1") auto
    note second = payload_read [OF body valid_request_bounded [OF valid] wire2]
    have "rqCommand h = command_value (Command r) \<and> rqTarget h = target_value (Target r) \<and>
        rqFlags h = Flags r \<and> rqCorrelationHigh h = High (RequestId r) \<and>
        rqCorrelationLow h = Low (RequestId r)"
      by (simp add: h_def request_header_of_def)
    then show ?thesis using read head True h parsed body second valid
      by (cases "status2 = IoSuccess") (auto simp: ReadRequest_def Let_def)
  qed
qed

subsection \<open>Responses\<close>

definition response_header_of :: "Response \<Rightarrow> ResponseHeader" where
  "response_header_of r = \<lparr>rsMagic = c_responseMagic, rsVersion = c_protocolVersion,
     rsCorrelationHigh = High (ResponseId r), rsCorrelationLow = Low (ResponseId r),
     rsExitCode = exit_value (Code r), rsPayloadBytes = byte_count (Body r)\<rparr>"

lemma payload_bytes_of: "rsPayloadBytes (response_header_of r) = byte_count (Body r)"
  by (simp add: response_header_of_def)

definition response_wire :: "Response \<Rightarrow> byte list" where
  "response_wire r = response_image (response_header_of r) @ wide_image (Body r)"

lemma MakeResponseHeader_eq:
  "MakeResponseHeader r =
     (if length (Body r) \<le> 32768 \<and> \<not> EmptyId (ResponseId r) then Some (response_header_of r) else None)"
  by (simp add: MakeResponseHeader_def PayloadByteCount_eq response_header_of_def)

lemma WriteResponse_sound:
  assumes "WriteResponse c r p = (IoSuccess, p')"
  shows "length (Body r) \<le> 32768 \<and> \<not> EmptyId (ResponseId r) \<and> outgoing p' = outgoing p @ response_wire r"
proof -
  have ok: "length (Body r) \<le> 32768" "\<not> EmptyId (ResponseId r)"
    using assms by (auto simp: WriteResponse_def MakeResponseHeader_eq split: if_splits)
  obtain status p1 where first: "WriteExact c 32 (response_image (response_header_of r)) p = (status, p1)"
    by fastforce
  from write_two [OF first, where s = "Body r"] assms first ok show ?thesis
    by (simp add: WriteResponse_def MakeResponseHeader_eq response_wire_def response_codec.image_size
        payload_bytes_of cong: if_cong)
qed

lemma WriteResponse_responsive:
  "responsive c \<Longrightarrow> length (Body r) \<le> 32768 \<Longrightarrow> \<not> EmptyId (ResponseId r) \<Longrightarrow>
     fst (WriteResponse c r p) = IoSuccess"
  using WriteExact_responsive [of c]
  by (auto simp: WriteResponse_def MakeResponseHeader_eq split: prod.split) (metis fst_conv)+

lemma ReadResponse_complete:
  assumes ok: "length (Body r) \<le> 32768" "\<not> EmptyId (ResponseId r)"
    and wire: "incoming p = response_wire r @ rest"
    and read: "ReadResponse c r0 p = (status, r', p')"
  shows "status = IoSuccess \<and> r' = r \<and> incoming p' = rest \<or>
         status \<notin> {IoSuccess, IoInvalidData} \<and> r' = r0 \<and> \<not> responsive c"
proof -
  define h where "h = response_header_of r"
  have h: "rsMagic h = c_responseMagic" "rsVersion h = c_protocolVersion"
      "rsCorrelationHigh h = High (ResponseId r)" "rsCorrelationLow h = Low (ResponseId r)"
      "rsExitCode h = exit_value (Code r)" "rsPayloadBytes h = byte_count (Body r)"
    by (simp_all add: h_def response_header_of_def)
  obtain status1 bytes p1 where head: "ReadExact c 32 (zero_bytes 32) p = (status1, bytes, p1)"
    by (cases "ReadExact c 32 (zero_bytes 32) p") auto
  have wire1: "incoming p = response_image h @ wide_image (Body r) @ rest"
    using wire by (simp add: response_wire_def h_def)
  note first = response_wire_codec.read_image [OF head wire1]
  show ?thesis
  proof (cases "status1 = IoSuccess")
    case False
    then show ?thesis using read head first by (auto simp: ReadResponse_def)
  next
    case True
    then have parsed: "response_header bytes = h" and wire2: "incoming p1 = wide_image (Body r) @ rest"
      using first(3) by auto
    obtain status2 payload p2 where body: "ReadPayload c (byte_count (Body r)) p1 = (status2, payload, p2)"
      by (cases "ReadPayload c (byte_count (Body r)) p1") auto
    note second = payload_read [OF body ok(1) wire2]
    show ?thesis using read head True h parsed body second ok byte_count_valid [OF ok(1)]
      by (cases "status2 = IoSuccess") (auto simp: ReadResponse_def Let_def)
  qed
qed

subsection \<open>Acknowledgements\<close>

lemma ReadAcknowledgement_image:
  assumes read: "ReadAcknowledgement c j p = (status, p')"
    and wire: "incoming p = acknowledgement_image a @ rest"
  shows "status = (if IsAcknowledgementValid a j then IoSuccess else IoInvalidData) \<or>
         status \<notin> {IoSuccess, IoInvalidData} \<and> \<not> responsive c"
proof -
  obtain status1 bytes p1 where head: "ReadExact c 24 (zero_bytes 24) p = (status1, bytes, p1)"
    by (cases "ReadExact c 24 (zero_bytes 24) p") auto
  note first = acknowledgement_wire_codec.read_image [OF head wire]
  then show ?thesis using read head by (auto simp: ReadAcknowledgement_def split: if_splits)
qed

subsection \<open>Sample exchange\<close>

text \<open>A system that moves seven bytes at a time, and a request, a response and a correlation to send.\<close>

definition sample_context :: io_context where
  "sample_context = \<lparr>ctx_os = (\<lambda>i. \<lparr>stop_polled = False, ticks = 100 + of_nat i,
       reply = (if even i then Started 7 else IoPending (WaitDone 7))\<rparr>),
     ctx_events = (\<lambda>i. True), ctx_stopEvent = True, ctx_deadline = 0\<rparr>"

definition sample_pipe :: pipe where
  "sample_pipe = \<lparr>incoming = [], outgoing = [], attempts = 0\<rparr>"

definition sample_request :: Request where
  "sample_request = \<lparr>Command = CmdConnect, Target = TargetName, Flags = CommandFlagJson,
     Payload = L ''Hi'', RequestId = \<lparr>High = 1, Low = 2\<rparr>\<rparr>"

definition blank_request :: Request where
  "blank_request = \<lparr>Command = CmdUnknown, Target = TargetNone, Flags = CommandFlagNone, Payload = [],
     RequestId = \<lparr>High = 0, Low = 0\<rparr>\<rparr>"

definition sample_response :: Response where
  "sample_response = \<lparr>Code = ExitBusy, Body = L ''no'', ResponseId = \<lparr>High = 1, Low = 2\<rparr>\<rparr>"

lemma sample_responsive: "responsive sample_context"
  by (simp add: responsive_def sample_context_def)

lemma sample_request_valid: "IsRequestValid sample_request"
  by (simp add: IsRequestValid_def sample_request_def EmptyId_def IsKnownCommand_def IsKnownTarget_def
      flags_known_def CommandFlagJson_def CommandFlagRaw_def c_maxPayloadBytes_def hasExplicitTarget_def
      isExplicitTarget_def L_def)

definition sample_request_sent :: pipe where
  "sample_request_sent = snd (WriteRequest sample_context sample_request sample_pipe)"

definition sample_response_sent :: pipe where
  "sample_response_sent = snd (WriteResponse sample_context sample_response sample_pipe)"

definition sample_ack_sent :: pipe where
  "sample_ack_sent = snd (WriteAcknowledgement sample_context \<lparr>High = 1, Low = 2\<rparr> sample_pipe)"

lemma sample_request_written:
  "WriteRequest sample_context sample_request sample_pipe = (IoSuccess, sample_request_sent)"
proof -
  have "fst (WriteRequest sample_context sample_request sample_pipe) = IoSuccess"
    by (intro WriteRequest_responsive sample_responsive sample_request_valid)
  then show ?thesis by (metis prod.collapse sample_request_sent_def)
qed

lemma sample_response_written:
  "WriteResponse sample_context sample_response sample_pipe = (IoSuccess, sample_response_sent)"
proof -
  have "fst (WriteResponse sample_context sample_response sample_pipe) = IoSuccess"
    by (intro WriteResponse_responsive sample_responsive) (simp_all add: sample_response_def EmptyId_def)
  then show ?thesis by (metis prod.collapse sample_response_sent_def)
qed

lemma sample_ack_written:
  "WriteAcknowledgement sample_context \<lparr>High = 1, Low = 2\<rparr> sample_pipe = (IoSuccess, sample_ack_sent)"
proof -
  have "fst (WriteAcknowledgement sample_context \<lparr>High = 1, Low = 2\<rparr> sample_pipe) = IoSuccess"
    using WriteExact_responsive [OF sample_responsive] by (simp add: WriteAcknowledgement_def EmptyId_def)
  then show ?thesis by (metis prod.collapse sample_ack_sent_def)
qed

text \<open>The reading end of the pipe after the writes above.\<close>

definition reading_end :: "pipe \<Rightarrow> pipe" where
  "reading_end p = \<lparr>incoming = outgoing p, outgoing = [], attempts = 0\<rparr>"

lemma reading_end_sample: "incoming (reading_end p) = drop (length (outgoing sample_pipe)) (outgoing p) @ []"
  by (simp add: reading_end_def sample_pipe_def)

subsection \<open>The claims\<close>

text \<open>C24: a request that was written is read back unchanged, whatever way the system splits both
  transfers: the reader takes exactly the bytes of that request, or reports a transport failure and leaves
  its request alone; it never reports the data invalid, and it succeeds when the system responds.\<close>

theorem request_roundtrip:
  assumes "WriteRequest c r p = (IoSuccess, p')"
    and "incoming q = drop (length (outgoing p)) (outgoing p') @ rest"
    and "ReadRequest d r0 q = (status, r', q')"
  shows "status = IoSuccess \<and> r' = r \<and> incoming q' = rest \<or>
         status \<notin> {IoSuccess, IoInvalidData} \<and> r' = r0 \<and> \<not> responsive d"
  using WriteRequest_sound [OF assms(1)] assms(2,3) by (intro ReadRequest_complete) auto

theorem request_roundtrip_witness:
  "\<exists>q'. ReadRequest sample_context blank_request (reading_end sample_request_sent) =
     (IoSuccess, sample_request, q')"
proof -
  obtain status r' q' where read:
      "ReadRequest sample_context blank_request (reading_end sample_request_sent) = (status, r', q')"
    by (cases "ReadRequest sample_context blank_request (reading_end sample_request_sent)") auto
  from request_roundtrip [OF sample_request_written reading_end_sample read] show ?thesis
    using sample_responsive read by auto
qed

text \<open>C25: a request is only accepted when it satisfies the validation rules and the bytes consumed are
  exactly its own wire image, so the payload is bounded and no second byte string stands for it.\<close>

theorem request_read_canonical:
  assumes "ReadRequest c r0 p = (IoSuccess, r, p')"
  shows "IsRequestValid r \<and> length (Payload r) \<le> 32768 \<and> incoming p = request_wire r @ incoming p'"
  using ReadRequest_sound [OF assms] valid_request_bounded by simp

theorem request_read_canonical_witness:
  "IsRequestValid sample_request \<and> length (Payload sample_request) \<le> 32768 \<and>
   outgoing sample_request_sent = request_wire sample_request"
proof -
  obtain status r q where
      read: "ReadRequest sample_context blank_request (reading_end sample_request_sent) = (status, r, q)"
    by (cases "ReadRequest sample_context blank_request (reading_end sample_request_sent)") auto
  have "incoming (reading_end sample_request_sent) = request_wire sample_request @ []"
    using WriteRequest_sound [OF sample_request_written] by (simp add: reading_end_def sample_pipe_def)
  from ReadRequest_complete [OF sample_request_valid this read]
  have "ReadRequest sample_context blank_request (reading_end sample_request_sent) =
      (IoSuccess, sample_request, q)" "incoming q = []"
    using sample_responsive read by auto
  from request_read_canonical [OF this(1)] this(2) show ?thesis by (simp add: reading_end_def)
qed

text \<open>A response that was written is read back unchanged, under the same conditions.\<close>

theorem response_roundtrip:
  assumes "WriteResponse c r p = (IoSuccess, p')"
    and "incoming q = drop (length (outgoing p)) (outgoing p') @ rest"
    and "ReadResponse d r0 q = (status, r', q')"
  shows "status = IoSuccess \<and> r' = r \<and> incoming q' = rest \<or>
         status \<notin> {IoSuccess, IoInvalidData} \<and> r' = r0 \<and> \<not> responsive d"
  using WriteResponse_sound [OF assms(1)] assms(2,3) by (intro ReadResponse_complete) auto

theorem response_roundtrip_witness:
  "\<exists>q'. ReadResponse sample_context (sample_response\<lparr>Body := []\<rparr>) (reading_end sample_response_sent) =
     (IoSuccess, sample_response, q')"
proof -
  obtain status r' q' where read:
      "ReadResponse sample_context (sample_response\<lparr>Body := []\<rparr>) (reading_end sample_response_sent) = (status, r', q')"
    by (cases "ReadResponse sample_context (sample_response\<lparr>Body := []\<rparr>) (reading_end sample_response_sent)") auto
  from response_roundtrip [OF sample_response_written reading_end_sample read] show ?thesis
    using sample_responsive read by auto
qed

text \<open>An acknowledgement is accepted for the correlation it was written for and for no other.\<close>

theorem acknowledgement_matches:
  assumes "WriteAcknowledgement c i p = (IoSuccess, p')"
    and "incoming q = drop (length (outgoing p)) (outgoing p') @ rest"
    and "ReadAcknowledgement d j q = (status, q')"
  shows "status = (if i = j then IoSuccess else IoInvalidData) \<or>
         status \<notin> {IoSuccess, IoInvalidData} \<and> \<not> responsive d"
proof -
  define a where "a = \<lparr>akMagic = c_acknowledgementMagic, akVersion = c_protocolVersion,
    akCorrelationHigh = High i, akCorrelationLow = Low i\<rparr>"
  have "WriteExact c 24 (acknowledgement_image a) p = (IoSuccess, p')"
    using assms(1) by (simp add: WriteAcknowledgement_def a_def split: if_splits)
  then have "incoming q = acknowledgement_image a @ rest"
    using WriteExact_sound(2) [of c 24 "acknowledgement_image a"] assms(2)
    by (simp add: acknowledgement_codec.image_size)
  moreover have "IsAcknowledgementValid a j \<longleftrightarrow> i = j"
    by (cases i, cases j) (simp add: IsAcknowledgementValid_def a_def)
  ultimately show ?thesis using ReadAcknowledgement_image [OF assms(3)] by metis
qed

theorem acknowledgement_matches_witness:
  "fst (ReadAcknowledgement sample_context \<lparr>High = 1, Low = 2\<rparr> (reading_end sample_ack_sent)) = IoSuccess \<and>
   fst (ReadAcknowledgement sample_context \<lparr>High = 1, Low = 3\<rparr> (reading_end sample_ack_sent)) = IoInvalidData"
proof -
  have "fst (ReadAcknowledgement sample_context j (reading_end sample_ack_sent)) =
      (if \<lparr>High = 1, Low = 2\<rparr> = j then IoSuccess else IoInvalidData)" for j
    using acknowledgement_matches [OF sample_ack_written reading_end_sample, of sample_context j]
      sample_responsive by (metis prod.collapse)
  then show ?thesis by simp
qed

text \<open>A transfer ends after at most as many operations as it has bytes, and no way it ends is
  mistaken for invalid data.\<close>

theorem transfer_bounded:
  assumes "TransferExact os created d stopEvent deadline byteCount buffer p = (status, buffer', p')"
  shows "attempts p' \<le> attempts p + unat byteCount \<and> status \<noteq> IoInvalidData"
  using assms transfer_attempts [of os d stopEvent deadline byteCount 0 buffer p]
    transfer_never_invalid [of os d stopEvent deadline byteCount 0 buffer p]
  by (auto simp: TransferExact_def split: if_splits)

theorem transfer_bounded_witness:
  "case TransferExact (ctx_os sample_context) True DirWrite True 0 3 [1, 2, 3] sample_pipe of
     (status, buffer', p') \<Rightarrow> attempts p' \<le> 3 \<and> status = IoSuccess"
proof -
  have "case TransferExact (ctx_os sample_context) True DirWrite True 0 3 [1, 2, 3] sample_pipe of
     (status, buffer', p') \<Rightarrow> status = IoSuccess"
    by code_simp
  then show ?thesis
    using transfer_bounded [of "ctx_os sample_context" True DirWrite True 0 3 "[1, 2, 3]" sample_pipe]
    by (auto simp: sample_pipe_def split: prod.splits)
qed

text \<open>A wait under a deadline is never an infinite one, never outlasts the deadline and is zero
  exactly when the deadline has been reached; deadline zero means no timeout.\<close>

theorem remaining_wait_bounds:
  "(deadline = 0 \<longrightarrow> RemainingWait now deadline = INFINITE) \<and>
   (deadline \<noteq> 0 \<longrightarrow> RemainingWait now deadline \<noteq> INFINITE \<and>
      (RemainingWait now deadline = 0 \<longleftrightarrow> deadline \<le> now) \<and>
      (now \<le> deadline \<longrightarrow> unat (RemainingWait now deadline) \<le> unat deadline - unat now))"
proof (cases "deadline = 0 \<or> deadline \<le> now")
  case False
  define gap where "gap = min (deadline - now) (ucast (- 1 - 1 :: u32))"
  have max: "unat (ucast (- 1 - 1 :: u32) :: u64) = 4294967294"
    by simp
  have "unat (deadline - now) = unat deadline - unat now"
    using False by (intro unat_sub) auto
  then have gap: "unat gap = min (unat deadline - unat now) 4294967294"
    using max by (simp add: gap_def min_def word_le_nat_alt split: if_splits)
  moreover have "unat (ucast gap :: u32) = unat gap"
    using gap by (simp add: unsigned_ucast_eq take_bit_nat_eq_self_iff)
  ultimately have wait: "unat (RemainingWait now deadline) = min (unat deadline - unat now) 4294967294"
    using False by (simp add: RemainingWait_def gap_def)
  moreover have "unat now < unat deadline" using False by (simp add: word_less_nat_alt not_le)
  moreover have "unat INFINITE = 4294967295" by (simp add: INFINITE_def)
  ultimately show ?thesis using False
    by (auto simp flip: unat_eq_zero simp: word_unat_eq_iff)
qed (auto simp: RemainingWait_def INFINITE_def)

theorem remaining_wait_bounds_witness:
  "RemainingWait 100 0 = INFINITE \<and> RemainingWait 100 100 = 0 \<and> RemainingWait 100 (2 ^ 40) \<noteq> INFINITE \<and>
   unat (RemainingWait 100 150) \<le> 50"
  using remaining_wait_bounds [of 0 100] remaining_wait_bounds [of 100 100]
    remaining_wait_bounds [of "2 ^ 40" 100] remaining_wait_bounds [of 150 100]
  by simp

end
