(* ===== verification/Settings_Model.thy ===== *)
theory Settings_Model
  imports Prelude
begin

section \<open>Settings: limits, identifiers and data\<close>

text \<open>
  \<open>core/SettingsLimits.hpp\<close>, \<open>core/DeviceId.hpp\<close>, \<open>core/SettingsData.hpp\<close> and the persistability test of
  \<open>core/SettingsCodec.cpp\<close>. The loop of \<open>IsValidUtf16\<close> over an index is recursion on the rest of the
  string; \<open>int32_t\<close> is a 32-bit word read with \<open>sint\<close>.
\<close>

type_synonym i32 = "32 word"

subsection \<open>Limits\<close>

definition c_maxSettingsFileBytes :: nat where "c_maxSettingsFileBytes = 4 * 1024 * 1024"
definition c_maxPersistedDeviceCount :: nat where "c_maxPersistedDeviceCount = 384"
definition c_maxDeviceIdCharacters :: nat where "c_maxDeviceIdCharacters = 512"
definition c_maxDeviceNameCharacters :: nat where "c_maxDeviceNameCharacters = 256"
definition c_maxDeviceAliasCharacters :: nat where "c_maxDeviceAliasCharacters = 128"
definition c_minWindowDpi :: u32 where "c_minWindowDpi = 48"
definition c_maxWindowDpi :: u32 where "c_maxWindowDpi = 960"
definition USER_DEFAULT_SCREEN_DPI :: u32 where "USER_DEFAULT_SCREEN_DPI = 96"

lemmas limit_constants = c_maxSettingsFileBytes_def c_maxPersistedDeviceCount_def
  c_maxDeviceIdCharacters_def c_maxDeviceNameCharacters_def c_maxDeviceAliasCharacters_def
  c_minWindowDpi_def c_maxWindowDpi_def USER_DEFAULT_SCREEN_DPI_def

definition is_high :: "wchar \<Rightarrow> bool" where "is_high c \<longleftrightarrow> 0xD800 \<le> c \<and> c \<le> 0xDBFF"
definition is_low :: "wchar \<Rightarrow> bool" where "is_low c \<longleftrightarrow> 0xDC00 \<le> c \<and> c \<le> 0xDFFF"

fun IsValidUtf16 :: "wstring \<Rightarrow> bool" where
  "IsValidUtf16 [] = True"
| "IsValidUtf16 [c] = (\<not> is_high c \<and> \<not> is_low c)"
| "IsValidUtf16 (c # d # cs) =
     (if is_high c then is_low d \<and> IsValidUtf16 cs else \<not> is_low c \<and> IsValidUtf16 (d # cs))"

definition IsBoundedUtf16 :: "wstring \<Rightarrow> nat \<Rightarrow> bool" where
  "IsBoundedUtf16 v limit \<longleftrightarrow> length v \<le> limit \<and> 0 \<notin> set v \<and> IsValidUtf16 v"

definition IsSupportedLanguage :: "wstring \<Rightarrow> bool" where
  "IsSupportedLanguage v \<longleftrightarrow> v \<in> set (map L
     [''system'', ''en'', ''de'', ''fr'', ''es'', ''ja'', ''ko'', ''zh_hans'', ''zh_hant''])"

definition TruncateUtf16 :: "wstring \<Rightarrow> nat \<Rightarrow> wstring" where
  "TruncateUtf16 v limit =
     (if 0 \<in> set v \<or> \<not> IsValidUtf16 v then []
      else let len = min (length v) limit;
               len' = (if len \<noteq> length v \<and> len \<noteq> 0 \<and> is_high (v ! (len - 1)) then len - 1 else len)
           in take len' v)"

definition DeviceId_TryCreate :: "wstring \<Rightarrow> wstring option" where
  "DeviceId_TryCreate v =
     (if v = [] \<or> \<not> IsBoundedUtf16 v c_maxDeviceIdCharacters then None else Some v)"

subsection \<open>Data\<close>

record DeviceSettings =
  dsId :: wstring
  dsName :: wstring
  dsAlias :: wstring
  dsConnectOnStartup :: bool
  dsReconnectOnConnectionLoss :: bool

datatype DefaultDeviceMode = LastConnected | SpecificDevice

record RatingPromptData =
  FirstLaunchDate :: wstring
  UsageDays :: i32
  LastUsageDate :: wstring
  Asked :: bool

definition default_prompt :: RatingPromptData where
  "default_prompt = \<lparr>FirstLaunchDate = [], UsageDays = 0, LastUsageDate = [], Asked = False\<rparr>"

record PersistedWindowBounds =
  wbX :: i32
  wbY :: i32
  wbWidth :: i32
  wbHeight :: i32
  wbDpi :: u32

record SettingsData =
  GlobalConnectOnStartup :: bool
  GlobalReconnectOnConnectionLoss :: bool
  AllowIncomingConnections :: bool
  StartWithWindows :: bool
  ShowNotifications :: bool
  UseSystemBackdropEffects :: bool
  Language :: wstring
  SettingsWindowBounds :: "PersistedWindowBounds option"
  PrivacyModeEnabled :: bool
  DefaultDevice :: DefaultDeviceMode
  DefaultDeviceId :: wstring
  Devices :: "DeviceSettings list"
  LastConnectedIds :: "wstring list"
  RatingPrompt :: RatingPromptData

definition default_settings :: SettingsData where
  "default_settings = \<lparr>GlobalConnectOnStartup = False, GlobalReconnectOnConnectionLoss = False,
     AllowIncomingConnections = False, StartWithWindows = False, ShowNotifications = True,
     UseSystemBackdropEffects = True, Language = L ''system'', SettingsWindowBounds = None,
     PrivacyModeEnabled = False, DefaultDevice = LastConnected, DefaultDeviceId = [], Devices = [],
     LastConnectedIds = [], RatingPrompt = default_prompt\<rparr>"

subsection \<open>What may be persisted\<close>

definition bounds_persistable :: "PersistedWindowBounds \<Rightarrow> bool" where
  "bounds_persistable b \<longleftrightarrow> \<not> (sint (wbWidth b) \<le> 0 \<or> sint (wbHeight b) \<le> 0 \<or>
     wbDpi b < c_minWindowDpi \<or> wbDpi b > c_maxWindowDpi)"

text \<open>The two loops of \<open>IsPersistable\<close>: each entry is checked and its identifier must be new.\<close>

fun devices_persistable :: "wstring set \<Rightarrow> DeviceSettings list \<Rightarrow> bool" where
  "devices_persistable seen [] = True"
| "devices_persistable seen (d # ds) =
     (if dsId d = [] \<or> \<not> IsBoundedUtf16 (dsId d) c_maxDeviceIdCharacters \<or>
         \<not> IsBoundedUtf16 (dsName d) c_maxDeviceNameCharacters \<or>
         \<not> IsBoundedUtf16 (dsAlias d) c_maxDeviceAliasCharacters \<or> dsId d \<in> seen
      then False else devices_persistable (insert (dsId d) seen) ds)"

fun ids_persistable :: "wstring set \<Rightarrow> wstring list \<Rightarrow> bool" where
  "ids_persistable seen [] = True"
| "ids_persistable seen (i # ids) =
     (if i = [] \<or> \<not> IsBoundedUtf16 i c_maxDeviceIdCharacters \<or> i \<in> seen
      then False else ids_persistable (insert i seen) ids)"

definition IsPersistable :: "SettingsData \<Rightarrow> bool" where
  "IsPersistable data =
     (if length (Devices data) > c_maxPersistedDeviceCount \<or>
         length (LastConnectedIds data) > c_maxPersistedDeviceCount \<or>
         \<not> IsSupportedLanguage (Language data) \<or>
         \<not> IsBoundedUtf16 (DefaultDeviceId data) c_maxDeviceIdCharacters \<or>
         (DefaultDevice data = SpecificDevice) \<noteq> (DefaultDeviceId data \<noteq> [])
      then False
      else if (case SettingsWindowBounds data of None \<Rightarrow> False | Some b \<Rightarrow> \<not> bounds_persistable b) then False
      else devices_persistable {} (Devices data) \<and> ids_persistable {} (LastConnectedIds data))"

subsection \<open>Facts\<close>

text \<open>In a well-formed string a high surrogate is never preceded by a high surrogate.\<close>

lemma no_double_high:
  "IsValidUtf16 v \<Longrightarrow> Suc i < length v \<Longrightarrow> is_high (v ! Suc i) \<Longrightarrow> \<not> is_high (v ! i)"
proof (induction v arbitrary: i rule: IsValidUtf16.induct)
  case (3 c d cs)
  have disjoint: "is_low x \<Longrightarrow> \<not> is_high x" for x
    by (simp add: is_high_def is_low_def word_le_nat_alt)
  show ?case
  proof (cases i)
    case 0
    then show ?thesis using 3 disjoint by (auto split: if_splits)
  next
    case (Suc j)
    show ?thesis
    proof (cases "is_high c")
      case True
      then show ?thesis using 3 Suc disjoint [of d] by (cases j) auto
    next
      case False
      then show ?thesis using "3.IH"(2) [OF False, of j] "3.prems" Suc by auto
    qed
  qed
qed auto

lemma truncate_pair:
  assumes "IsValidUtf16 v" "n \<le> length v" "n \<noteq> length v" "n \<noteq> 0" "is_high (v ! (n - 1))"
  shows "n - 1 = 0 \<or> \<not> is_high (v ! (n - 1 - 1))"
  using no_double_high [of v "n - 2"] assms by (cases n; cases "n - 1") auto

lemma IsValidUtf16_take:
  "IsValidUtf16 v \<Longrightarrow> n = 0 \<or> n \<ge> length v \<or> \<not> is_high (v ! (n - 1)) \<Longrightarrow> IsValidUtf16 (take n v)"
proof (induction v arbitrary: n rule: IsValidUtf16.induct)
  case (2 c)
  then show ?case by (cases n) auto
next
  case (3 c d cs)
  consider "n = 0" | "n = 1" | m where "n = Suc (Suc m)"
    by (metis One_nat_def not0_implies_Suc)
  then show ?case
  proof cases
    case (3 m)
    have prems: "if is_high c then is_low d \<and> IsValidUtf16 cs else \<not> is_low c \<and> IsValidUtf16 (d # cs)"
      using "3.prems"(1) by simp
    show ?thesis
    proof (cases "is_high c")
      case True
      have "m = 0 \<or> length cs \<le> m \<or> \<not> is_high (cs ! (m - 1))"
        using "3.prems"(2) 3 by (cases m) auto
      with "3.IH"(1) [OF True, of m] prems True show ?thesis by (simp add: 3)
    next
      case False
      have "Suc m = 0 \<or> length (d # cs) \<le> Suc m \<or> \<not> is_high ((d # cs) ! (Suc m - 1))"
        using "3.prems"(2) 3 by simp
      with "3.IH"(2) [OF False, of "Suc m"] prems False show ?thesis by (simp add: 3)
    qed
  next
    case 2
    then show ?thesis using "3.prems" by (auto split: if_splits)
  qed simp
qed simp

lemma devices_persistable_iff:
  "devices_persistable seen ds \<longleftrightarrow>
     (\<forall>d \<in> set ds. dsId d \<noteq> [] \<and> IsBoundedUtf16 (dsId d) c_maxDeviceIdCharacters \<and>
        IsBoundedUtf16 (dsName d) c_maxDeviceNameCharacters \<and>
        IsBoundedUtf16 (dsAlias d) c_maxDeviceAliasCharacters \<and> dsId d \<notin> seen) \<and>
     distinct (map dsId ds)"
proof (induction ds arbitrary: seen)
  case (Cons d ds)
  show ?case by (simp add: Cons.IH) (metis (no_types, lifting) image_iff)
qed simp

lemma ids_persistable_iff:
  "ids_persistable seen ids \<longleftrightarrow>
     (\<forall>i \<in> set ids. i \<noteq> [] \<and> IsBoundedUtf16 i c_maxDeviceIdCharacters \<and> i \<notin> seen) \<and> distinct ids"
  by (induction ids arbitrary: seen) auto

lemmas persistable_iff = devices_persistable_iff ids_persistable_iff

text \<open>Truncation gives a well-formed string within the limit that is a prefix of the input, drops at
  most one code unit more than it must, and leaves a string alone that already fits.\<close>

theorem truncate_bounded:
  "IsBoundedUtf16 (TruncateUtf16 v limit) limit \<and>
   TruncateUtf16 v limit = take (length (TruncateUtf16 v limit)) v \<and>
   (IsBoundedUtf16 v limit \<longrightarrow> TruncateUtf16 v limit = v) \<and>
   (0 \<notin> set v \<and> IsValidUtf16 v \<longrightarrow> min (length v) limit \<le> Suc (length (TruncateUtf16 v limit)))"
proof (cases "0 \<in> set v \<or> \<not> IsValidUtf16 v")
  case False
  define len where "len = min (length v) limit"
  define len' where "len' = (if len \<noteq> length v \<and> len \<noteq> 0 \<and> is_high (v ! (len - 1)) then len - 1 else len)"
  have trunc: "TruncateUtf16 v limit = take len' v"
    using False by (simp add: TruncateUtf16_def Let_def len_def len'_def)
  have le: "len' \<le> len" "len \<le> length v" "len \<le> limit" "len \<le> Suc len'"
    by (auto simp: len'_def len_def)
  have "len' = 0 \<or> len' \<ge> length v \<or> \<not> is_high (v ! (len' - 1))"
    using truncate_pair [of v len] False le by (auto simp: len'_def)
  then have "IsValidUtf16 (take len' v)"
    using False by (intro IsValidUtf16_take) auto
  moreover have "0 \<notin> set (take len' v)" using False by (metis in_set_takeD)
  ultimately show ?thesis using le False
    by (auto simp: trunc IsBoundedUtf16_def len'_def len_def)
qed (auto simp: TruncateUtf16_def IsBoundedUtf16_def)

theorem truncate_bounded_witness:
  "TruncateUtf16 [0x41, 0xD83D, 0xDE00] 2 = [0x41] \<and>
   IsBoundedUtf16 (TruncateUtf16 [0x41, 0xD83D, 0xDE00] 2) 2 \<and> TruncateUtf16 [0x41] 2 = [0x41]"
  using truncate_bounded [of "[0x41, 0xD83D, 0xDE00]" 2] truncate_bounded [of "[0x41]" 2]
  by (simp add: TruncateUtf16_def IsBoundedUtf16_def is_high_def is_low_def)

end
