(* ===== verification/App_Models.thy ===== *)
theory App_Models
  imports Settings_Model
begin

section \<open>Application vocabulary\<close>

text \<open>
  \<open>util/Text.hpp\<close> and \<open>app/AppModels.hpp\<close>: case-insensitive text, device selectors, and the values that
  commands exchange with the application controller. \<open>std::towlower\<close> depends on the C locale; the functions
  that use it take it as the argument \<open>lower\<close>.
\<close>

subsection \<open>Text\<close>

definition LowerInvariant :: "(wchar \<Rightarrow> wchar) \<Rightarrow> wstring \<Rightarrow> wstring" where
  "LowerInvariant lower v = map lower v"

definition EqualsIgnoreCase :: "(wchar \<Rightarrow> wchar) \<Rightarrow> wstring \<Rightarrow> wstring \<Rightarrow> bool" where
  "EqualsIgnoreCase lower lhs rhs \<longleftrightarrow>
     length lhs = length rhs \<and> LowerInvariant lower lhs = LowerInvariant lower rhs"

text \<open>\<open>value.find(query) != npos\<close>.\<close>

fun contains_text :: "'a list \<Rightarrow> 'a list \<Rightarrow> bool" where
  "contains_text [] q = (q = [])"
| "contains_text (c # cs) q = (take (length q) (c # cs) = q \<or> contains_text cs q)"

definition ContainsIgnoreCase :: "(wchar \<Rightarrow> wchar) \<Rightarrow> wstring \<Rightarrow> wstring \<Rightarrow> bool" where
  "ContainsIgnoreCase lower v query \<longleftrightarrow>
     query \<noteq> [] \<and> contains_text (LowerInvariant lower v) (LowerInvariant lower query)"

definition is_hex_char :: "wchar \<Rightarrow> bool" where
  "is_hex_char c \<longleftrightarrow> (48 \<le> c \<and> c \<le> 57) \<or> (97 \<le> c \<and> c \<le> 102) \<or> (65 \<le> c \<and> c \<le> 70)"

definition NormalizeHex :: "(wchar \<Rightarrow> wchar) \<Rightarrow> wstring \<Rightarrow> wstring" where
  "NormalizeHex lower v = map lower (filter is_hex_char v)"

lemma contains_text_iff: "contains_text v q \<longleftrightarrow> (\<exists>pre post. v = pre @ q @ post)"
proof (induction v)
  case (Cons c cs)
  show ?case
  proof
    assume "contains_text (c # cs) q"
    then show "\<exists>pre post. c # cs = pre @ q @ post"
      using Cons.IH by (metis append_Cons append_Nil append_take_drop_id contains_text.simps(2))
  next
    assume "\<exists>pre post. c # cs = pre @ q @ post"
    then obtain pre post where *: "c # cs = pre @ q @ post" by blast
    show "contains_text (c # cs) q"
    proof (cases pre)
      case Nil
      then show ?thesis using * by (metis append_Nil append_eq_conv_conj contains_text.simps(2))
    next
      case (Cons a pre')
      then show ?thesis using * Cons.IH by auto
    qed
  qed
qed simp

subsection \<open>Identity and selectors\<close>

definition c_maxAppCommandTextCharacters :: nat where
  "c_maxAppCommandTextCharacters = 64 * 1024 div 2"

definition ExternalDeviceId_TryCreate :: "wstring \<Rightarrow> wstring option" where
  "ExternalDeviceId_TryCreate v =
     (if v = [] \<or> length v > c_maxAppCommandTextCharacters \<or> 0 \<in> set v then None else Some v)"

datatype DeviceSelectorKind =
  SelId | SelName | SelMac | SelLast | SelAuto | SelAlias | SelDefault

record DeviceSelector =
  m_kind :: DeviceSelectorKind
  m_value :: wstring

definition IsValidCommandText :: "wstring \<Rightarrow> bool" where
  "IsValidCommandText v \<longleftrightarrow> v \<noteq> [] \<and> length v \<le> c_maxAppCommandTextCharacters \<and> 0 \<notin> set v"

definition IsQueryKind :: "DeviceSelectorKind \<Rightarrow> bool" where
  "IsQueryKind k \<longleftrightarrow> k = SelName \<or> k = SelMac \<or> k = SelAuto \<or> k = SelAlias"

definition ById :: "wstring \<Rightarrow> DeviceSelector option" where
  "ById v = (if IsValidCommandText v then Some \<lparr>m_kind = SelId, m_value = v\<rparr> else None)"

definition ByQuery :: "DeviceSelectorKind \<Rightarrow> wstring \<Rightarrow> DeviceSelector option" where
  "ByQuery k v =
     (if \<not> IsQueryKind k \<or> \<not> IsValidCommandText v then None else Some \<lparr>m_kind = k, m_value = v\<rparr>)"

definition SelectLast :: DeviceSelector where "SelectLast = \<lparr>m_kind = SelLast, m_value = []\<rparr>"
definition SelectDefault :: DeviceSelector where "SelectDefault = \<lparr>m_kind = SelDefault, m_value = []\<rparr>"

definition IdText :: "DeviceSelector \<Rightarrow> wstring" where
  "IdText s = (if m_kind s \<noteq> SelId then [] else m_value s)"

definition SelectorQuery :: "DeviceSelector \<Rightarrow> wstring" where
  "SelectorQuery s = (if \<not> IsQueryKind (m_kind s) then [] else m_value s)"

subsection \<open>Actions and outcomes\<close>

datatype AppConnectionState =
  ConnIdle | ConnConnecting | ConnConnected | ConnDisconnecting | ConnWaitingForReconnect | ConnFailed

datatype AppCommandKind =
    AppShowDevicePicker | AppShowSettings | AppListDevices | AppStatus | AppShowDefault | AppSetDefault
  | AppClearDefault | AppListAliases | AppSetAlias | AppClearAlias | AppConnect | AppDisconnect
  | AppReconnect | AppToggleLast | AppDisconnectAll | AppReconnectAll

datatype AppResultCode =
    RcSuccess | RcInvalidInput | RcNotFound | RcAmbiguous | RcOperationFailed | RcUnavailable | RcBusy
  | RcCancelled | RcTimedOut | RcIndeterminate | RcInternalError

datatype AppDispatchPhase = PhaseNotStarted | PhaseStarted

datatype AppOutcomeReason =
    RsnNone | RsnAlreadyConnected | RsnAlreadyDisconnected | RsnConnectSucceeded | RsnConnectFailed
  | RsnDisconnectSucceeded | RsnDisconnectFailed | RsnReconnectSucceeded | RsnReconnectFailed
  | RsnShowOpened | RsnSettingsOpened | RsnDefaultSet | RsnDefaultCleared | RsnAliasSet
  | RsnAliasSetFailed | RsnAliasCleared | RsnAliasClearFailed | RsnDisconnectAllSucceeded
  | RsnReconnectAllSucceeded | RsnNotReady | RsnTargetRequired | RsnTargetNotFound | RsnTargetAmbiguous
  | RsnDefaultTargetMissing | RsnLastTargetMissing | RsnInvalidAliasPayload | RsnUnsupported
  | RsnInternalError

subsection \<open>Snapshots\<close>

record DeviceSnapshot =
  snId :: wstring
  snName :: wstring
  snAlias :: wstring
  snDisplayName :: wstring
  snState :: AppConnectionState
  snIsKnown :: bool
  snIsConnected :: bool
  snIsBusy :: bool
  snIsAvailable :: bool

record AppTargetSnapshot =
  tgId :: wstring
  tgName :: wstring
  tgAlias :: wstring
  tgDisplayName :: wstring
  tgExists :: bool
  tgIsConnected :: bool
  tgIsKnown :: bool

record DefaultDeviceSnapshot =
  ddMode :: DefaultDeviceMode
  ddId :: "wstring option"
  ddDisplayName :: wstring
  ddIsResolved :: bool
  ddIsConnected :: bool

record TraySnapshot =
  trGeneration :: u64
  trDevicePickerOpenedGeneration :: u64
  trConnectedDevices :: "DeviceSnapshot list"
  trHasBusyOperations :: bool

datatype Residency = ResCold | ResWarm | ResHot
datatype MemoryPressure = MemUnknown | MemLow | MemNeutral | MemHigh
datatype UserActivity =
    ActUnknown | ActAvailable | ActNotPresent | ActBusy | ActFullscreen | ActPresentation | ActQuietTime
  | ActImmersiveApp

record ResourceStatusSnapshot =
  rsEvaluated :: bool
  rsForegroundResidency :: Residency
  rsBackgroundResidency :: Residency
  rsSnapshotFresh :: bool
  rsPositiveAuthorizationCurrent :: bool
  rsPreloadAllowed :: bool
  rsUiResourcesLoaded :: bool
  rsUiResourcesInitialized :: bool
  rsMemory :: MemoryPressure
  rsActivity :: UserActivity
  rsEnergySaver :: "bool option"

record StartupTaskSnapshot =
  stPublication :: u64
  stRevision :: u64
  stEnabled :: bool
  stKnown :: bool
  stBusy :: bool
  stFailed :: bool

record AppSnapshot =
  apGeneration :: u64
  apIsRunning :: bool
  apPrivacyModeEnabled :: bool
  apDevices :: "DeviceSnapshot list"
  apLastConnectedDeviceIds :: "wstring list"
  apDefaultDevice :: "DefaultDeviceSnapshot option"
  apTray :: TraySnapshot
  apAdaptiveResources :: ResourceStatusSnapshot
  apSettings :: SettingsData
  apStartupTask :: "StartupTaskSnapshot option"
  apSettingsRevision :: u64
  apDeviceGeneration :: u64
  apInventoryComplete :: bool

record AppResult =
  arCode :: AppResultCode
  arCommand :: AppCommandKind
  arDevice :: "DeviceSnapshot option"
  arDevices :: "DeviceSnapshot list"
  arDefaultDevice :: "DefaultDeviceSnapshot option"
  arTray :: "TraySnapshot option"
  arReason :: AppOutcomeReason
  arAlias :: wstring
  arSnapshot :: "AppSnapshot option"
  arTarget :: "AppTargetSnapshot option"
  arRequestedTarget :: wstring
  arPrivacyModeEnabled :: "bool option"
  arDispatchPhase :: AppDispatchPhase

definition blank_result :: "AppResultCode \<Rightarrow> AppResult" where
  "blank_result code = \<lparr>arCode = code, arCommand = AppStatus, arDevice = None, arDevices = [],
     arDefaultDevice = None, arTray = None, arReason = RsnNone, arAlias = [], arSnapshot = None,
     arTarget = None, arRequestedTarget = [], arPrivacyModeEnabled = None, arDispatchPhase = PhaseNotStarted\<rparr>"

end
