(* ===== verification/Target_Matcher.thy ===== *)
theory Target_Matcher
  imports App_Models
begin

section \<open>Automatic target matching and the UI action gate\<close>

text \<open>
  \<open>control/ControlTargetMatcher.hpp\<close> chooses the devices a free-text query means: the first of four
  criteria that any device meets decides, and all devices meeting it are returned.
  \<open>control/ControlUiActionGate.hpp\<close> is the race between one UI action and its cancellation.
\<close>

subsection \<open>Matching\<close>

record TargetCandidate =
  tcId :: wstring
  tcName :: wstring
  tcAlias :: wstring

datatype AutoTargetMatchRank = RankNone | ExactId | ExactAliasOrName | MacFragment | AliasOrNameSubstring

record AutoTargetMatches =
  Rank :: AutoTargetMatchRank
  Indices :: "nat list"

definition collect ::
  "TargetCandidate list \<Rightarrow> AutoTargetMatchRank \<Rightarrow> (TargetCandidate \<Rightarrow> bool) \<Rightarrow> AutoTargetMatches
     \<Rightarrow> bool \<times> AutoTargetMatches" where
  "collect candidates rank p result =
     (let indices = filter (\<lambda>i. p (candidates ! i)) [0..<length candidates];
          result1 = result\<lparr>Indices := indices\<rparr>
      in (indices \<noteq> [], if indices \<noteq> [] then result1\<lparr>Rank := rank\<rparr> else result1))"

definition FindAutoTargetMatches ::
  "(wchar \<Rightarrow> wchar) \<Rightarrow> TargetCandidate list \<Rightarrow> wstring \<Rightarrow> AutoTargetMatches" where
  "FindAutoTargetMatches lower candidates query =
     (let result0 = \<lparr>Rank = RankNone, Indices = []\<rparr> in
      if query = [] then result0
      else case collect candidates ExactId (\<lambda>c. EqualsIgnoreCase lower (tcId c) query) result0 of
        (True, result) \<Rightarrow> result
      | (False, result1) \<Rightarrow>
      (case collect candidates ExactAliasOrName
          (\<lambda>c. EqualsIgnoreCase lower (tcAlias c) query \<or> EqualsIgnoreCase lower (tcName c) query) result1 of
        (True, result) \<Rightarrow> result
      | (False, result2) \<Rightarrow>
      (let queryHex = NormalizeHex lower query;
           (found, result3) =
             (if length queryHex \<ge> 6
              then collect candidates MacFragment
                     (\<lambda>c. contains_text (NormalizeHex lower (tcId c)) queryHex) result2
              else (False, result2))
       in if found then result3
          else snd (collect candidates AliasOrNameSubstring
            (\<lambda>c. ContainsIgnoreCase lower (tcAlias c) query \<or> ContainsIgnoreCase lower (tcName c) query)
            result3))))"

text \<open>The specification: a criterion per rank, in order of preference.\<close>

definition criterion :: "(wchar \<Rightarrow> wchar) \<Rightarrow> wstring \<Rightarrow> AutoTargetMatchRank \<Rightarrow> TargetCandidate \<Rightarrow> bool" where
  "criterion lower query rank c =
     (case rank of
        RankNone \<Rightarrow> False
      | ExactId \<Rightarrow> LowerInvariant lower (tcId c) = LowerInvariant lower query
      | ExactAliasOrName \<Rightarrow> LowerInvariant lower (tcAlias c) = LowerInvariant lower query \<or>
                            LowerInvariant lower (tcName c) = LowerInvariant lower query
      | MacFragment \<Rightarrow> length (NormalizeHex lower query) \<ge> 6 \<and>
          (\<exists>pre post. NormalizeHex lower (tcId c) = pre @ NormalizeHex lower query @ post)
      | AliasOrNameSubstring \<Rightarrow>
          (\<exists>pre post. LowerInvariant lower (tcAlias c) = pre @ LowerInvariant lower query @ post) \<or>
          (\<exists>pre post. LowerInvariant lower (tcName c) = pre @ LowerInvariant lower query @ post))"

definition preference :: "AutoTargetMatchRank list" where
  "preference = [ExactId, ExactAliasOrName, MacFragment, AliasOrNameSubstring]"

definition best_rank :: "(AutoTargetMatchRank \<Rightarrow> TargetCandidate \<Rightarrow> bool) \<Rightarrow> TargetCandidate list \<Rightarrow> AutoTargetMatchRank" where
  "best_rank crit cs =
     (case filter (\<lambda>r. \<exists>c \<in> set cs. crit r c) preference of [] \<Rightarrow> RankNone | r # _ \<Rightarrow> r)"

definition match_spec :: "(wchar \<Rightarrow> wchar) \<Rightarrow> TargetCandidate list \<Rightarrow> wstring \<Rightarrow> AutoTargetMatches" where
  "match_spec lower cs query =
     (let crit = (\<lambda>r c. query \<noteq> [] \<and> criterion lower query r c); r = best_rank crit cs
      in \<lparr>Rank = r, Indices = filter (\<lambda>i. crit r (cs ! i)) [0..<length cs]\<rparr>)"

lemma EqualsIgnoreCase_iff:
  "EqualsIgnoreCase lower a b \<longleftrightarrow> LowerInvariant lower a = LowerInvariant lower b"
  by (auto simp: EqualsIgnoreCase_def LowerInvariant_def dest: map_eq_imp_length_eq)

lemma collect_eq:
  "collect cs rank p result =
     (if \<exists>c \<in> set cs. p c then (True, \<lparr>Rank = rank, Indices = filter (\<lambda>i. p (cs ! i)) [0..<length cs]\<rparr>)
      else (False, result\<lparr>Indices := []\<rparr>))"
proof (cases "\<exists>c \<in> set cs. p c")
  case True
  then have "filter (\<lambda>i. p (cs ! i)) [0..<length cs] \<noteq> []"
    by (simp add: filter_upt_Nil_iff)
  then show ?thesis using True by (simp add: collect_def Let_def)
next
  case False
  then have "filter (\<lambda>i. p (cs ! i)) [0..<length cs] = []"
    by (simp add: filter_upt_Nil_iff)
  then show ?thesis using False by (simp add: collect_def Let_def)
qed

lemmas criterion_simps = criterion_def EqualsIgnoreCase_iff ContainsIgnoreCase_def contains_text_iff

text \<open>C37: automatic matching implements its specification: exact identifiers win over exact aliases or
  names, those over address fragments of at least six hexadecimal digits, those over substrings; all devices
  of the winning rank are returned in order, and nothing matches an empty query.\<close>

theorem auto_match_refines:
  "FindAutoTargetMatches lower cs query = match_spec lower cs query"
proof (cases "query = []")
  case True
  then show ?thesis
    by (simp add: FindAutoTargetMatches_def match_spec_def best_rank_def preference_def)
next
  case False
  then show ?thesis
    by (auto simp: FindAutoTargetMatches_def match_spec_def best_rank_def preference_def collect_eq Let_def
        criterion_simps)
qed

subsection \<open>The UI action gate\<close>

datatype GatePhase = Pending | Running | Cancelled | Completed
datatype GateResult = GateFailed | GateSucceeded | GateIndeterminate

record ControlUiActionGate =
  m_phase :: GatePhase
  m_succeeded :: bool

definition new_gate :: ControlUiActionGate where
  "new_gate = \<lparr>m_phase = Pending, m_succeeded = False\<rparr>"

definition TryBegin :: "ControlUiActionGate \<Rightarrow> bool \<times> ControlUiActionGate" where
  "TryBegin g = (if m_phase g = Pending then (True, g\<lparr>m_phase := Running\<rparr>) else (False, g))"

definition GateComplete :: "bool \<Rightarrow> ControlUiActionGate \<Rightarrow> ControlUiActionGate" where
  "GateComplete succeeded g = g\<lparr>m_succeeded := succeeded, m_phase := Completed\<rparr>"

definition Classify :: "ControlUiActionGate \<Rightarrow> GatePhase \<Rightarrow> GateResult" where
  "Classify g phase =
     (if phase = Completed then (if m_succeeded g then GateSucceeded else GateFailed)
      else if phase = Running then GateIndeterminate else GateFailed)"

definition CancelOrClassify :: "ControlUiActionGate \<Rightarrow> GateResult \<times> ControlUiActionGate" where
  "CancelOrClassify g =
     (if m_phase g = Pending then (GateFailed, g\<lparr>m_phase := Cancelled\<rparr>) else (Classify g (m_phase g), g))"

definition CurrentResult :: "ControlUiActionGate \<Rightarrow> GateResult" where
  "CurrentResult g = Classify g (m_phase g)"

text \<open>The two parties: the UI thread begins the action, and only if it may, runs and completes it; the
  waiting thread cancels or classifies at any moment. The history counts the runs and records answers.\<close>

datatype gate_event = UiBegin | UiComplete bool | WaiterCancel

record gate_run =
  gate :: ControlUiActionGate
  ui_owns :: bool
  runs :: nat
  answers :: "GateResult list"

definition new_run :: gate_run where
  "new_run = \<lparr>gate = new_gate, ui_owns = False, runs = 0, answers = []\<rparr>"

fun gate_step :: "gate_run \<Rightarrow> gate_event \<Rightarrow> gate_run" where
  "gate_step s UiBegin =
     (case TryBegin (gate s) of
        (True, g) \<Rightarrow> s\<lparr>gate := g, ui_owns := True, runs := Suc (runs s)\<rparr>
      | (False, g) \<Rightarrow> s\<lparr>gate := g\<rparr>)"
| "gate_step s (UiComplete ok) = s\<lparr>gate := GateComplete ok (gate s), ui_owns := False\<rparr>"
| "gate_step s WaiterCancel =
     (case CancelOrClassify (gate s) of (r, g) \<Rightarrow> s\<lparr>gate := g, answers := answers s @ [r]\<rparr>)"

fun gate_enabled :: "gate_run \<Rightarrow> gate_event \<Rightarrow> bool" where
  "gate_enabled s (UiComplete ok) = ui_owns s"
| "gate_enabled s _ = True"

definition gate_inv :: "gate_run \<Rightarrow> bool" where
  "gate_inv s \<longleftrightarrow> runs s \<le> 1 \<and> (runs s = 0 \<longleftrightarrow> m_phase (gate s) \<in> {Pending, Cancelled}) \<and>
     (ui_owns s \<longleftrightarrow> m_phase (gate s) = Running) \<and>
     (GateSucceeded \<in> set (answers s) \<longrightarrow> m_phase (gate s) = Completed \<and> m_succeeded (gate s)) \<and>
     (GateIndeterminate \<in> set (answers s) \<longrightarrow> runs s = 1) \<and>
     (m_phase (gate s) = Pending \<longrightarrow> answers s = []) \<and>
     (m_phase (gate s) = Cancelled \<longrightarrow> set (answers s) \<subseteq> {GateFailed}) \<and>
     (m_phase (gate s) = Running \<longrightarrow> set (answers s) \<subseteq> {GateIndeterminate}) \<and>
     (m_phase (gate s) = Completed \<and> m_succeeded (gate s) \<longrightarrow> GateFailed \<notin> set (answers s))"

lemmas gate_defs = TryBegin_def GateComplete_def CancelOrClassify_def Classify_def

lemma gate_step_inv: "gate_inv s \<Longrightarrow> gate_enabled s e \<Longrightarrow> gate_inv (gate_step s e)"
proof (induction s e rule: gate_step.induct)
  case (1 s)
  then show ?case by (cases "m_phase (gate s)") (auto simp: gate_inv_def gate_defs)
next
  case (2 s ok)
  then have "m_phase (gate s) = Running" by (simp add: gate_inv_def)
  with 2 show ?case by (auto simp: gate_inv_def gate_defs)
next
  case (3 s)
  then show ?case by (cases "m_phase (gate s)") (auto simp: gate_inv_def gate_defs)
qed

interpretation gate_machine: machine "\<lambda>s. s = new_run" gate_step gate_enabled gate_inv
  by (unfold_locales, simp add: gate_inv_def new_run_def new_gate_def) (rule gate_step_inv)

text \<open>In every interleaving of the UI thread and the waiting thread, the action runs at most once; when
  the waiter was told the action failed, it did not succeed; when it was told it succeeded, it did; and an
  action cancelled while pending never runs.\<close>

theorem ui_gate_exclusive:
  assumes "reachable (\<lambda>s. s = new_run) gate_step gate_enabled s"
  shows "runs s \<le> 1 \<and>
         (GateSucceeded \<in> set (answers s) \<longrightarrow> CurrentResult (gate s) = GateSucceeded) \<and>
         (GateFailed \<in> set (answers s) \<longrightarrow> CurrentResult (gate s) = GateFailed) \<and>
         (m_phase (gate s) = Cancelled \<longrightarrow> runs s = 0)"
  using gate_machine.reachable_inv [OF assms]
  by (cases "m_phase (gate s)") (auto simp: gate_inv_def CurrentResult_def Classify_def)

theorem ui_gate_exclusive_witness:
  "runs (foldl gate_step new_run [UiBegin, WaiterCancel, UiComplete True, UiBegin, WaiterCancel]) = 1 \<and>
   CurrentResult (gate (foldl gate_step new_run
     [UiBegin, WaiterCancel, UiComplete True, UiBegin, WaiterCancel])) = GateSucceeded"
proof -
  define s where "s = foldl gate_step new_run [UiBegin, WaiterCancel, UiComplete True, UiBegin, WaiterCancel]"
  have "reachable (\<lambda>s. s = new_run) gate_step gate_enabled s"
    unfolding s_def
    by (rule reachable_run) (auto intro: reach_start simp: new_run_def new_gate_def gate_defs)
  from ui_gate_exclusive [OF this] show ?thesis
    unfolding s_def [symmetric] by (simp add: s_def new_run_def new_gate_def gate_defs CurrentResult_def)
qed

end
