(* ===== verification/Control_Adapter.thy ===== *)
theory Control_Adapter
  imports App_Models Command_Pipe "HOL-Library.List_Lexorder" "HOL-Library.Product_Lexorder"
begin

section \<open>The control command adapter\<close>

text \<open>
  \<open>control/ControlCommandAdapter.cpp\<close>: a validated request becomes a call of the application controller and
  its result a response. The localised resources are a function from keys (absent when none is
  configured), \<open>std::towlower\<close> is \<open>lower\<close>, and the text of a WinRT JSON value is the parameter \<open>stringify\<close>:
  what is modelled is the value that is built. A \<open>CreateNumberValue\<close> carries the integer whose conversion
  to \<open>double\<close> the source passes. The application controller is a function from calls to results;
  \<open>None\<close> is an exception it throws.
\<close>

type_synonym localize = "(string \<Rightarrow> wstring) option"

unbundle bit_operations_syntax

subsection \<open>Resources\<close>

definition KeyText :: "string \<Rightarrow> wstring" where "KeyText key = L key"

definition Resource :: "localize \<Rightarrow> string \<Rightarrow> wstring" where
  "Resource localize key = (case localize of Some f \<Rightarrow> f key | None \<Rightarrow> KeyText key)"

text \<open>The loop of \<open>Replace\<close>: what is left of \<open>value\<close> after the current offset. The placeholder is never
  empty.\<close>

function replace_loop :: "wstring \<Rightarrow> wstring \<Rightarrow> wstring \<Rightarrow> wstring" where
  "replace_loop placeholder replacement [] = []"
| "replace_loop placeholder replacement (c # cs) =
     (if placeholder \<noteq> [] \<and> take (length placeholder) (c # cs) = placeholder
      then replacement @ replace_loop placeholder replacement (drop (length placeholder) (c # cs))
      else c # replace_loop placeholder replacement cs)"
  by pat_completeness auto
termination
  by (relation "measure (\<lambda>(p, r, s). length s)") simp_all

definition Replace :: "wstring \<Rightarrow> wstring \<Rightarrow> wstring \<Rightarrow> wstring" where
  "Replace val placeholder replacement = replace_loop placeholder replacement val"

definition FormatResource :: "localize \<Rightarrow> string \<Rightarrow> wstring \<Rightarrow> wstring" where
  "FormatResource localize key first = Replace (Resource localize key) (L ''{0}'') first"

definition FormatResource2 :: "localize \<Rightarrow> string \<Rightarrow> wstring \<Rightarrow> wstring \<Rightarrow> wstring" where
  "FormatResource2 localize key first second =
     Replace (FormatResource localize key first) (L ''{1}'') second"

definition FormatResourceCount :: "localize \<Rightarrow> string \<Rightarrow> nat \<Rightarrow> wstring" where
  "FormatResourceCount localize key n = FormatResource localize key (to_wstring n)"

subsection \<open>Dispatch\<close>

fun MakeSelector :: "TargetKind \<Rightarrow> wstring \<Rightarrow> DeviceSelector option" where
  "MakeSelector TargetId v = ById v"
| "MakeSelector TargetName v = ByQuery SelName v"
| "MakeSelector TargetMac v = ByQuery SelMac v"
| "MakeSelector TargetAuto v = ByQuery SelAuto v"
| "MakeSelector TargetAlias v = ByQuery SelAlias v"
| "MakeSelector TargetLast v = (if v = [] then Some SelectLast else None)"
| "MakeSelector TargetDefault v = (if v = [] then Some SelectDefault else None)"
| "MakeSelector TargetNone v = None"

text \<open>\<open>substr\<close> up to and after the first line break; without one, \<open>npos + 1\<close> is 0.\<close>

definition RequestTargetText :: "Request \<Rightarrow> wstring" where
  "RequestTargetText r =
     (if Command r = CmdAliasSet
      then (case find_from (\<lambda>c. c = NL) (Payload r) 0 of None \<Rightarrow> Payload r | Some i \<Rightarrow> take i (Payload r))
      else Payload r)"

definition RequestAlias :: "Request \<Rightarrow> wstring" where
  "RequestAlias r =
     (if Command r \<noteq> CmdAliasSet then []
      else (case find_from (\<lambda>c. c = NL) (Payload r) 0 of
              None \<Rightarrow> Payload r | Some i \<Rightarrow> drop (i + 1) (Payload r)))"

datatype app_call =
    CallShowDevicePicker | CallShowSettings | CallListDevices | CallStatus | CallShowDefault
  | CallClearDefault | CallListAliases | CallSetDefault DeviceSelector
  | CallSetAlias DeviceSelector wstring | CallClearAlias DeviceSelector | CallConnect DeviceSelector
  | CallDisconnect DeviceSelector | CallReconnect DeviceSelector | CallToggle DeviceSelector
  | CallDisconnectAll | CallReconnectAll

text \<open>The controller call a request stands for; \<open>None\<close> is the \<open>InvalidInput\<close> result.\<close>

definition dispatch_call :: "Request \<Rightarrow> app_call option" where
  "dispatch_call r =
     (let target = MakeSelector (Target r) (RequestTargetText r) in
      case Command r of
        CmdShow \<Rightarrow> Some CallShowDevicePicker
      | CmdSettings \<Rightarrow> Some CallShowSettings
      | CmdList \<Rightarrow> Some CallListDevices
      | CmdStatus \<Rightarrow> Some CallStatus
      | CmdDefaultShow \<Rightarrow> Some CallShowDefault
      | CmdDefaultClear \<Rightarrow> Some CallClearDefault
      | CmdAliasList \<Rightarrow> Some CallListAliases
      | CmdDefaultSet \<Rightarrow> map_option CallSetDefault target
      | CmdAliasSet \<Rightarrow> map_option (\<lambda>t. CallSetAlias t (RequestAlias r)) target
      | CmdAliasClear \<Rightarrow> map_option CallClearAlias target
      | CmdConnect \<Rightarrow> map_option CallConnect target
      | CmdDisconnect \<Rightarrow> map_option CallDisconnect target
      | CmdReconnect \<Rightarrow> map_option CallReconnect target
      | CmdToggleLast \<Rightarrow> map_option CallToggle target
      | CmdDisconnectAll \<Rightarrow> Some CallDisconnectAll
      | CmdReconnectAll \<Rightarrow> Some CallReconnectAll
      | CmdUnknown \<Rightarrow> None)"

definition Dispatch :: "(app_call \<Rightarrow> AppResult option) \<Rightarrow> Request \<Rightarrow> AppResult option" where
  "Dispatch controller r =
     (case dispatch_call r of None \<Rightarrow> Some (blank_result RcInvalidInput) | Some call \<Rightarrow> controller call)"

definition IsMutating :: "CommandType \<Rightarrow> bool" where
  "IsMutating c \<longleftrightarrow> c \<in> {CmdConnect, CmdDisconnect, CmdReconnect, CmdToggleLast, CmdDisconnectAll,
     CmdReconnectAll, CmdDefaultSet, CmdDefaultClear, CmdAliasSet, CmdAliasClear}"

definition IsQuery :: "CommandType \<Rightarrow> bool" where
  "IsQuery c \<longleftrightarrow> c \<in> {CmdList, CmdStatus, CmdDefaultShow, CmdAliasList}"

definition ToExitCode :: "AppResult \<Rightarrow> ExitCode" where
  "ToExitCode r =
     (case arCode r of
        RcSuccess \<Rightarrow> ExitSuccess
      | RcInvalidInput \<Rightarrow> ExitInvalidRequest
      | RcNotFound \<Rightarrow> ExitNotFound
      | RcAmbiguous \<Rightarrow> ExitAmbiguous
      | RcOperationFailed \<Rightarrow> ExitOperationFailed
      | RcUnavailable \<Rightarrow> ExitUnavailable
      | RcBusy \<Rightarrow> ExitBusy
      | RcCancelled \<Rightarrow> if arDispatchPhase r = PhaseNotStarted then ExitUnavailable else ExitIndeterminate
      | RcTimedOut \<Rightarrow> if arDispatchPhase r = PhaseNotStarted then ExitUnavailable else ExitIndeterminate
      | RcIndeterminate \<Rightarrow> ExitIndeterminate
      | RcInternalError \<Rightarrow> ExitIndeterminate)"

definition IsPreDispatchTermination :: "AppResult \<Rightarrow> bool" where
  "IsPreDispatchTermination r \<longleftrightarrow>
     arDispatchPhase r = PhaseNotStarted \<and> (arCode r = RcCancelled \<or> arCode r = RcTimedOut)"

subsection \<open>Names under privacy mode\<close>

definition DeviceDisplayName :: "localize \<Rightarrow> DeviceSnapshot \<Rightarrow> bool \<Rightarrow> wstring" where
  "DeviceDisplayName localize d redact =
     (if redact then Resource localize ''Privacy_RedactedDevice''
      else if snDisplayName d \<noteq> [] then snDisplayName d
      else if snAlias d \<noteq> [] then snAlias d
      else if snName d \<noteq> [] then snName d
      else snId d)"

definition TargetDisplayName :: "localize \<Rightarrow> AppTargetSnapshot \<Rightarrow> bool \<Rightarrow> wstring" where
  "TargetDisplayName localize t redact =
     (if redact then Resource localize ''Privacy_RedactedDevice''
      else if tgDisplayName t \<noteq> [] then tgDisplayName t
      else if tgAlias t \<noteq> [] then tgAlias t
      else if tgName t \<noteq> [] then tgName t
      else tgId t)"

definition ResponseIdText :: "localize \<Rightarrow> wstring \<Rightarrow> bool \<Rightarrow> wstring" where
  "ResponseIdText localize i redact =
     (if redact \<and> i \<noteq> [] then Resource localize ''Privacy_RedactedValue'' else i)"

definition ResponseName :: "DeviceSnapshot \<Rightarrow> bool \<Rightarrow> wstring" where
  "ResponseName d redact = (if redact then [] else snName d)"

subsection \<open>Sorted devices\<close>

definition merge_entry :: "DeviceSnapshot \<Rightarrow> DeviceSnapshot \<Rightarrow> DeviceSnapshot" where
  "merge_entry existing d = existing\<lparr>
     snName := (if snName existing = [] then snName d else snName existing),
     snAlias := (if snAlias existing = [] then snAlias d else snAlias existing),
     snDisplayName := (if snDisplayName existing = [] then snDisplayName d else snDisplayName existing),
     snIsConnected := (snIsConnected existing \<or> snIsConnected d),
     snIsKnown := (snIsKnown existing \<or> snIsKnown d),
     snIsBusy := (snIsBusy existing \<or> snIsBusy d),
     snState := (if snState existing = ConnIdle \<and> snState d \<noteq> ConnIdle then snState d
                 else snState existing)\<rparr>"

fun merge_into :: "DeviceSnapshot list \<Rightarrow> DeviceSnapshot \<Rightarrow> DeviceSnapshot list" where
  "merge_into [] d = [d]"
| "merge_into (e # es) d = (if snId e = snId d then merge_entry e d # es else e # merge_into es d)"

definition device_sort_key :: "(wchar \<Rightarrow> wchar) \<Rightarrow> DeviceSnapshot \<Rightarrow> wstring \<times> wstring" where
  "device_sort_key lower d =
     (LowerInvariant lower (if snAlias d = [] then (if snName d = [] then snId d else snName d) else snAlias d),
      LowerInvariant lower (snId d))"

definition SortedDevices :: "(wchar \<Rightarrow> wchar) \<Rightarrow> DeviceSnapshot list \<Rightarrow> DeviceSnapshot list" where
  "SortedDevices lower devices = sort_key (device_sort_key lower) (foldl merge_into [] devices)"

subsection \<open>Messages\<close>

datatype wjson =
    WNull | WBool bool | WNumber nat | WString wstring | WArray "wjson list"
  | WObject "(string \<times> wjson) list"

type_synonym stringify = "wjson \<Rightarrow> wstring"

definition DeviceJson :: "localize \<Rightarrow> DeviceSnapshot \<Rightarrow> bool \<Rightarrow> (string \<times> wjson) list" where
  "DeviceJson localize d redact =
     [(''id'', WString (ResponseIdText localize (snId d) redact)),
      (''name'', WString (ResponseName d redact)),
      (''alias'', WString (snAlias d)),
      (''displayName'', WString (DeviceDisplayName localize d redact)),
      (''connected'', WBool (snIsConnected d)),
      (''known'', WBool (snIsKnown d)),
      (''privacyRedacted'', WBool redact)]"

fun ActionName :: "AppCommandKind \<Rightarrow> wstring" where
  "ActionName AppShowDevicePicker = L ''show''"
| "ActionName AppShowSettings = L ''settings''"
| "ActionName AppSetDefault = L ''default-set''"
| "ActionName AppClearDefault = L ''default-clear''"
| "ActionName AppSetAlias = L ''alias-set''"
| "ActionName AppClearAlias = L ''alias-clear''"
| "ActionName AppConnect = L ''connect''"
| "ActionName AppDisconnect = L ''disconnect''"
| "ActionName AppReconnect = L ''reconnect''"
| "ActionName AppToggleLast = L ''toggle''"
| "ActionName AppDisconnectAll = L ''disconnect-all''"
| "ActionName AppReconnectAll = L ''reconnect-all''"
| "ActionName _ = []"

text \<open>The last two stages of \<open>FailureMessage\<close>: by result code, then by command.\<close>

definition failure_by_command :: "localize \<Rightarrow> AppResult \<Rightarrow> wstring \<Rightarrow> wstring" where
  "failure_by_command localize r target =
     (case arCommand r of
        AppConnect \<Rightarrow> FormatResource localize ''Command_ConnectFailed'' target
      | AppToggleLast \<Rightarrow>
          (if arReason r = RsnDisconnectFailed then FormatResource localize ''Command_DisconnectFailed'' target
           else FormatResource localize ''Command_ConnectFailed'' target)
      | AppDisconnect \<Rightarrow> FormatResource localize ''Command_DisconnectFailed'' target
      | AppReconnect \<Rightarrow> FormatResource localize ''Command_ReconnectFailed'' target
      | AppReconnectAll \<Rightarrow> FormatResource localize ''Command_ReconnectFailed'' target
      | AppSetAlias \<Rightarrow> FormatResource localize ''Command_AliasSetFailed'' target
      | AppClearAlias \<Rightarrow> FormatResource localize ''Command_AliasClearFailed'' target
      | _ \<Rightarrow> Resource localize ''Command_NotReady'')"

definition FailureMessage :: "localize \<Rightarrow> AppResult \<Rightarrow> Request \<Rightarrow> bool \<Rightarrow> wstring" where
  "FailureMessage localize r request redact =
     (let rawTarget = (if arRequestedTarget r = [] then RequestTargetText request else arRequestedTarget r);
          target = (case arTarget r of
                      Some t \<Rightarrow> TargetDisplayName localize t redact
                    | None \<Rightarrow> (case arDevice r of
                                 Some d \<Rightarrow> DeviceDisplayName localize d redact
                               | None \<Rightarrow> rawTarget))
      in case arReason r of
        RsnNotReady \<Rightarrow> Resource localize ''Command_NotReady''
      | RsnTargetRequired \<Rightarrow> Resource localize ''Command_TargetRequired''
      | RsnTargetNotFound \<Rightarrow> FormatResource localize ''Command_TargetNotFound'' rawTarget
      | RsnTargetAmbiguous \<Rightarrow> FormatResource localize ''Command_TargetAmbiguous'' rawTarget
      | RsnDefaultTargetMissing \<Rightarrow> Resource localize ''Command_DefaultTargetMissing''
      | RsnLastTargetMissing \<Rightarrow> Resource localize ''Command_LastTargetMissing''
      | RsnInvalidAliasPayload \<Rightarrow> Resource localize ''Command_InvalidAliasPayload''
      | RsnUnsupported \<Rightarrow> Resource localize ''Command_Unsupported''
      | _ \<Rightarrow>
        (if arCode r = RcNotFound then FormatResource localize ''Command_TargetNotFound'' rawTarget
         else if arCode r = RcAmbiguous then FormatResource localize ''Command_TargetAmbiguous'' rawTarget
         else if arCode r = RcUnavailable \<or> arCode r = RcBusy \<or> arCode r = RcCancelled
         then (if arCode r = RcBusy then Resource localize ''Command_Busy''
               else Resource localize ''Command_NotReady'')
         else failure_by_command localize r target))"

definition success_by_command :: "localize \<Rightarrow> AppResult \<Rightarrow> Request \<Rightarrow> wstring \<Rightarrow> wstring" where
  "success_by_command localize r request displayName =
     (case arCommand r of
        AppShowDevicePicker \<Rightarrow> Resource localize ''Command_ShowOpened''
      | AppShowSettings \<Rightarrow> Resource localize ''Command_SettingsOpened''
      | AppSetDefault \<Rightarrow> FormatResource localize ''Command_DefaultSet'' displayName
      | AppClearDefault \<Rightarrow> Resource localize ''Command_DefaultCleared''
      | AppSetAlias \<Rightarrow> FormatResource2 localize ''Command_AliasSet'' displayName
          (if arAlias r = [] then RequestAlias request else arAlias r)
      | AppClearAlias \<Rightarrow> FormatResource localize ''Command_AliasCleared'' displayName
      | AppDisconnectAll \<Rightarrow> Resource localize ''Command_DisconnectAllSucceeded''
      | AppReconnectAll \<Rightarrow> Resource localize ''Command_ReconnectAllSucceeded''
      | _ \<Rightarrow> [])"

definition SuccessMessage :: "localize \<Rightarrow> AppResult \<Rightarrow> Request \<Rightarrow> wstring \<Rightarrow> wstring" where
  "SuccessMessage localize r request displayName =
     (case arReason r of
        RsnAlreadyConnected \<Rightarrow> FormatResource localize ''Command_DeviceAlreadyConnected'' displayName
      | RsnAlreadyDisconnected \<Rightarrow> FormatResource localize ''Command_DeviceAlreadyDisconnected'' displayName
      | RsnConnectSucceeded \<Rightarrow> FormatResource localize ''Command_ConnectSucceeded'' displayName
      | RsnDisconnectSucceeded \<Rightarrow> FormatResource localize ''Command_DisconnectSucceeded'' displayName
      | RsnReconnectSucceeded \<Rightarrow> FormatResource localize ''Command_ReconnectSucceeded'' displayName
      | RsnShowOpened \<Rightarrow> Resource localize ''Command_ShowOpened''
      | RsnSettingsOpened \<Rightarrow> Resource localize ''Command_SettingsOpened''
      | RsnDefaultSet \<Rightarrow> FormatResource localize ''Command_DefaultSet'' displayName
      | RsnDefaultCleared \<Rightarrow> Resource localize ''Command_DefaultCleared''
      | RsnAliasSet \<Rightarrow> FormatResource2 localize ''Command_AliasSet'' displayName (arAlias r)
      | RsnAliasCleared \<Rightarrow> FormatResource localize ''Command_AliasCleared'' displayName
      | RsnDisconnectAllSucceeded \<Rightarrow> Resource localize ''Command_DisconnectAllSucceeded''
      | RsnReconnectAllSucceeded \<Rightarrow> Resource localize ''Command_ReconnectAllSucceeded''
      | _ \<Rightarrow> success_by_command localize r request displayName)"

definition MessageResponse :: "stringify \<Rightarrow> Request \<Rightarrow> ExitCode \<Rightarrow> wstring \<Rightarrow> bool \<Rightarrow> Response" where
  "MessageResponse stringify request code message wantsJson =
     \<lparr>Code = code,
      Body = (if \<not> wantsJson then message
              else stringify (WObject
                [(''ok'', WBool (code = ExitSuccess)),
                 (''exitCode'', WNumber (unat (exit_value code))),
                 (''message'', WString message)])),
      ResponseId = RequestId request\<rparr>"

definition OperationResponse ::
  "stringify \<Rightarrow> Request \<Rightarrow> ExitCode \<Rightarrow> wstring \<Rightarrow> wstring \<Rightarrow> wstring \<Rightarrow> bool \<Rightarrow> wstring \<Rightarrow> localize
     \<Rightarrow> bool \<Rightarrow> Response" where
  "OperationResponse stringify request code action i name redact message localize wantsJson =
     \<lparr>Code = code,
      Body = (if \<not> wantsJson then message
              else stringify (WObject
                [(''ok'', WBool (code = ExitSuccess)),
                 (''exitCode'', WNumber (unat (exit_value code))),
                 (''action'', WString action),
                 (''id'', WString (ResponseIdText localize i redact)),
                 (''name'', WString name),
                 (''displayName'', WString name),
                 (''privacyRedacted'', WBool redact),
                 (''message'', WString message)])),
      ResponseId = RequestId request\<rparr>"

subsection \<open>Queries\<close>

definition DevicesFor :: "AppResult \<Rightarrow> AppSnapshot \<Rightarrow> DeviceSnapshot list" where
  "DevicesFor r snapshot = (if arDevices r \<noteq> [] then arDevices r else apDevices snapshot)"

fun residencyName :: "Residency \<Rightarrow> wstring" where
  "residencyName ResCold = L ''Cold''"
| "residencyName ResWarm = L ''Warm''"
| "residencyName ResHot = L ''Hot''"

fun memoryName :: "MemoryPressure \<Rightarrow> wstring" where
  "memoryName MemUnknown = L ''Unknown''"
| "memoryName MemLow = L ''Low''"
| "memoryName MemNeutral = L ''Neutral''"
| "memoryName MemHigh = L ''High''"

fun activityName :: "UserActivity \<Rightarrow> wstring" where
  "activityName ActUnknown = L ''Unknown''"
| "activityName ActAvailable = L ''Available''"
| "activityName ActNotPresent = L ''NotPresent''"
| "activityName ActBusy = L ''Busy''"
| "activityName ActFullscreen = L ''Fullscreen''"
| "activityName ActPresentation = L ''Presentation''"
| "activityName ActQuietTime = L ''QuietTime''"
| "activityName ActImmersiveApp = L ''ImmersiveApp''"

definition ResourceStatusJson :: "ResourceStatusSnapshot \<Rightarrow> string \<times> wjson" where
  "ResourceStatusJson s = (''adaptiveResources'', WObject
     [(''evaluated'', WBool (rsEvaluated s)),
      (''residency'', WString (residencyName (rsForegroundResidency s))),
      (''backgroundResidency'', WString (residencyName (rsBackgroundResidency s))),
      (''snapshotFresh'', WBool (rsSnapshotFresh s)),
      (''positiveAuthorizationCurrent'', WBool (rsPositiveAuthorizationCurrent s)),
      (''preloadAllowed'', WBool (rsPreloadAllowed s)),
      (''uiResourcesLoaded'', WBool (rsUiResourcesLoaded s)),
      (''uiResourcesInitialized'', WBool (rsUiResourcesInitialized s)),
      (''memoryPressure'', WString (memoryName (rsMemory s))),
      (''userActivity'', WString (activityName (rsActivity s))),
      (''energySaver'', (case rsEnergySaver s of None \<Rightarrow> WNull | Some b \<Rightarrow> WBool b))])"

definition success_response :: "Request \<Rightarrow> wstring \<Rightarrow> Response" where
  "success_response request body =
     \<lparr>Code = ExitSuccess, Body = body, ResponseId = RequestId request\<rparr>"

definition line_end :: wstring where "line_end = [NL]"

definition id_line :: "localize \<Rightarrow> DeviceSnapshot \<Rightarrow> bool \<Rightarrow> wstring" where
  "id_line localize d redact = L ''  ID: '' @ ResponseIdText localize (snId d) redact @ line_end"

definition FormatList ::
  "stringify \<Rightarrow> localize \<Rightarrow> Request \<Rightarrow> DeviceSnapshot list \<Rightarrow> bool \<Rightarrow> bool \<Rightarrow> Response" where
  "FormatList stringify localize request devices redact wantsJson =
     success_response request
      (if wantsJson then
         stringify (WObject [(''devices'', WArray (map (\<lambda>d. WObject (DeviceJson localize d redact)) devices))])
       else if devices = [] then Resource localize ''Command_List_NoDevices'' @ line_end
       else Resource localize ''Command_List_Header'' @ line_end @
         concat (map (\<lambda>d. L ''- '' @ DeviceDisplayName localize d redact @
           (if snIsConnected d then L '' ('' @ Resource localize ''Command_ConnectedSuffix'' @ L '')'' else []) @
           line_end @ id_line localize d redact) devices))"

definition FormatStatus ::
  "stringify \<Rightarrow> localize \<Rightarrow> Request \<Rightarrow> DeviceSnapshot list \<Rightarrow> AppSnapshot \<Rightarrow> bool \<Rightarrow> bool \<Rightarrow> Response" where
  "FormatStatus stringify localize request devices snapshot redact wantsJson =
     (let connected = filter snIsConnected devices in
      success_response request
       (if wantsJson then
          stringify (WObject
            [(''running'', WBool True),
             (''connectedCount'', WNumber (length connected)),
             (''connectedDevices'', WArray (map (\<lambda>d. WObject (DeviceJson localize d redact)) connected)),
             (''devicePickerOpenedGeneration'', WNumber (unat (trDevicePickerOpenedGeneration (apTray snapshot)))),
             ResourceStatusJson (apAdaptiveResources snapshot)])
        else Resource localize ''Command_Status_Running'' @ line_end @
          FormatResourceCount localize ''Command_Status_Connections'' (length connected) @ line_end @
          concat (map (\<lambda>d. L ''- '' @ DeviceDisplayName localize d redact @ line_end @ id_line localize d redact)
            connected)))"

text \<open>The device a default query is about: the one the default names, else the most recent one; a device
  that is not in the list is made up from what is known of it.\<close>

definition synthetic_device :: "wstring \<Rightarrow> wstring \<Rightarrow> bool \<Rightarrow> bool \<Rightarrow> DeviceSnapshot" where
  "synthetic_device i displayName known connected =
     \<lparr>snId = i, snName = [], snAlias = [], snDisplayName = displayName, snState = ConnIdle,
      snIsKnown = known, snIsConnected = connected, snIsBusy = False, snIsAvailable = False\<rparr>"

definition find_device :: "wstring \<Rightarrow> DeviceSnapshot list \<Rightarrow> DeviceSnapshot option" where
  "find_device i devices = find (\<lambda>d. snId d = i) devices"

definition device_or :: "wstring \<Rightarrow> DeviceSnapshot list \<Rightarrow> DeviceSnapshot \<Rightarrow> DeviceSnapshot" where
  "device_or i devices d = (case find_device i devices of Some e \<Rightarrow> e | None \<Rightarrow> d)"

definition recent_target :: "DeviceSnapshot list \<Rightarrow> AppSnapshot \<Rightarrow> DeviceSnapshot option" where
  "recent_target devices snapshot =
     (case apLastConnectedDeviceIds snapshot of
        [] \<Rightarrow> None
      | i # _ \<Rightarrow> Some (device_or i devices (synthetic_device i [] False False)))"

definition default_target ::
  "DefaultDeviceSnapshot option \<Rightarrow> DeviceSnapshot list \<Rightarrow> AppSnapshot \<Rightarrow> DeviceSnapshot option" where
  "default_target defaultDevice devices snapshot =
     (case defaultDevice of
        None \<Rightarrow> recent_target devices snapshot
      | Some dd \<Rightarrow>
          (case ddId dd of
             None \<Rightarrow> recent_target devices snapshot
           | Some i \<Rightarrow> Some (device_or i devices
               (synthetic_device i (ddDisplayName dd) (ddIsResolved dd) (ddIsConnected dd)))))"

definition FormatDefault ::
  "stringify \<Rightarrow> localize \<Rightarrow> Request \<Rightarrow> AppResult \<Rightarrow> DeviceSnapshot list \<Rightarrow> AppSnapshot \<Rightarrow> bool \<Rightarrow> bool \<Rightarrow> Response" where
  "FormatDefault stringify localize request r devices snapshot redact wantsJson =
     (let defaultDevice = (if arDefaultDevice r \<noteq> None then arDefaultDevice r else apDefaultDevice snapshot);
          mode = (case defaultDevice of
                    Some d \<Rightarrow> if ddMode d = SpecificDevice then L ''specificDevice'' else L ''lastConnected''
                  | None \<Rightarrow> L ''lastConnected'');
          target = default_target defaultDevice devices snapshot;
          displayName = (case target of Some d \<Rightarrow> DeviceDisplayName localize d redact | None \<Rightarrow> [])
      in success_response request
        (if wantsJson then
           stringify (WObject
             [(''ok'', WBool True),
              (''mode'', WString mode),
              (''privacyRedacted'', WBool redact),
              (''id'', WString (case target of Some d \<Rightarrow> ResponseIdText localize (snId d) redact | None \<Rightarrow> [])),
              (''displayName'', WString displayName),
              (''resolved'', WBool (case target of Some d \<Rightarrow> snIsKnown d | None \<Rightarrow> False)),
              (''connected'', WBool (case target of Some d \<Rightarrow> snIsConnected d | None \<Rightarrow> False))])
         else if target = None then Resource localize ''Command_DefaultMode_LastConnected'' @ line_end
         else FormatResource localize ''Command_DefaultMode_Specific'' displayName @ line_end))"

definition FormatAliases ::
  "stringify \<Rightarrow> localize \<Rightarrow> Request \<Rightarrow> DeviceSnapshot list \<Rightarrow> bool \<Rightarrow> bool \<Rightarrow> Response" where
  "FormatAliases stringify localize request devices redact wantsJson =
     success_response request
      (if wantsJson then
         stringify (WObject
           [(''devices'', WArray (map (\<lambda>d. WObject (DeviceJson localize d redact @
               [(''hasAlias'', WBool (snAlias d \<noteq> []))])) devices)),
            (''privacyRedacted'', WBool redact)])
       else if devices = [] then Resource localize ''Command_AliasList_NoDevices'' @ line_end
       else Resource localize ''Command_AliasList_Header'' @ line_end @
         concat (map (\<lambda>d. L ''- '' @ DeviceDisplayName localize d redact @ L '': '' @
           (if snAlias d = [] then Resource localize ''Command_AliasNone'' else snAlias d) @ line_end @
           id_line localize d redact) devices))"

definition FormatQuery ::
  "(wchar \<Rightarrow> wchar) \<Rightarrow> stringify \<Rightarrow> Request \<Rightarrow> AppResult \<Rightarrow> AppSnapshot \<Rightarrow> localize \<Rightarrow> bool \<Rightarrow> bool \<Rightarrow> Response" where
  "FormatQuery lower stringify request r snapshot localize redact wantsJson =
     (let code = ToExitCode r in
      if arCode r \<noteq> RcSuccess then
        (if arCode r = RcInternalError then \<lparr>Code = code, Body = [], ResponseId = RequestId request\<rparr>
         else MessageResponse stringify request code (FailureMessage localize r request redact) wantsJson)
      else
        (let devices = SortedDevices lower (DevicesFor r snapshot) in
         case arCommand r of
           AppListDevices \<Rightarrow> FormatList stringify localize request devices redact wantsJson
         | AppStatus \<Rightarrow> FormatStatus stringify localize request devices snapshot redact wantsJson
         | AppShowDefault \<Rightarrow> FormatDefault stringify localize request r devices snapshot redact wantsJson
         | AppListAliases \<Rightarrow> FormatAliases stringify localize request devices redact wantsJson
         | _ \<Rightarrow> MessageResponse stringify request ExitInvalidRequest
                 (Resource localize ''Command_Unsupported'') wantsJson))"

subsection \<open>Operations\<close>

definition hasResolvedTarget :: "AppResult \<Rightarrow> bool" where
  "hasResolvedTarget r \<longleftrightarrow>
     arDevice r \<noteq> None \<or> (case arTarget r of Some t \<Rightarrow> tgExists t | None \<Rightarrow> False)"

definition isResolutionFailure :: "AppResult \<Rightarrow> bool" where
  "isResolutionFailure r =
     (if arReason r \<in> {RsnTargetRequired, RsnTargetNotFound, RsnTargetAmbiguous, RsnDefaultTargetMissing,
           RsnLastTargetMissing, RsnInvalidAliasPayload, RsnUnsupported}
      then \<not> hasResolvedTarget r
      else \<not> hasResolvedTarget r \<and>
        (arCode r = RcInvalidInput \<or> arCode r = RcNotFound \<or> arCode r = RcAmbiguous))"

definition redacted_or :: "localize \<Rightarrow> bool \<Rightarrow> wstring \<Rightarrow> wstring" where
  "redacted_or localize redact v = (if redact then Resource localize ''Privacy_RedactedDevice'' else v)"

text \<open>The identifier and display name a response reports.\<close>

definition operation_identity :: "localize \<Rightarrow> AppResult \<Rightarrow> Request \<Rightarrow> bool \<Rightarrow> wstring \<times> wstring" where
  "operation_identity localize r request redact =
     (case arTarget r of
        Some t \<Rightarrow> (tgId t, TargetDisplayName localize t redact)
      | None \<Rightarrow>
          (case arDevice r of
             Some d \<Rightarrow> (snId d, DeviceDisplayName localize d redact)
           | None \<Rightarrow>
               if Target request = TargetId
               then (RequestTargetText request, redacted_or localize redact (RequestTargetText request))
               else ([], [])))"

definition operation_json_name ::
  "localize \<Rightarrow> AppResult \<Rightarrow> ExitCode \<Rightarrow> wstring \<Rightarrow> wstring \<Rightarrow> bool \<Rightarrow> wstring" where
  "operation_json_name localize r code i displayName redact =
     (let name1 =
        (if arCommand r = AppSetAlias \<and> code = ExitSuccess then
           (case arDevice r of
              Some d \<Rightarrow> DeviceDisplayName localize d redact
            | None \<Rightarrow> if arAlias r \<noteq> [] then redacted_or localize redact (arAlias r) else displayName)
         else displayName)
      in if arCommand r = AppClearAlias \<and> code = ExitSuccess \<and> (arDevice r \<noteq> None \<or> arTarget r \<noteq> None)
         then redacted_or localize redact
           (case arTarget r of
              Some t \<Rightarrow> (if tgName t = [] then i else tgName t)
            | None \<Rightarrow> (case arDevice r of Some d \<Rightarrow> (if snName d = [] then i else snName d) | None \<Rightarrow> i))
         else name1)"

definition operation_message :: "localize \<Rightarrow> AppResult \<Rightarrow> Request \<Rightarrow> wstring \<Rightarrow> bool \<Rightarrow> wstring" where
  "operation_message localize r request displayName redact =
     (let message1 = (if arCode r = RcSuccess then SuccessMessage localize r request displayName
                      else FailureMessage localize r request redact);
          message2 = (if arCode r = RcSuccess \<and> message1 = [] \<and> arCommand r = AppToggleLast
                      then Resource localize ''Command_NotReady'' else message1)
      in if arCode r = RcTimedOut \<and> arReason r = RsnNone
         then (if arCommand r = AppReconnect then FormatResource localize ''Command_ReconnectFailed'' displayName
               else FormatResource localize ''Command_ConnectFailed'' displayName)
         else message2)"

definition FormatOperation ::
  "stringify \<Rightarrow> Request \<Rightarrow> AppResult \<Rightarrow> localize \<Rightarrow> bool \<Rightarrow> bool \<Rightarrow> Response" where
  "FormatOperation stringify request r localize redact wantsJson =
     (let code = ToExitCode r in
      if arCode r = RcInternalError then \<lparr>Code = code, Body = [], ResponseId = RequestId request\<rparr>
      else if arCode r \<noteq> RcSuccess \<and> isResolutionFailure r
      then MessageResponse stringify request code (FailureMessage localize r request redact) wantsJson
      else
        (let (i, displayName) = operation_identity localize r request redact;
             jsonName = operation_json_name localize r code i displayName redact;
             message = operation_message localize r request displayName redact
         in OperationResponse stringify request code (ActionName (arCommand r)) i jsonName redact message
              localize wantsJson))"

subsection \<open>Handling a request\<close>

definition FormatResponse ::
  "(wchar \<Rightarrow> wchar) \<Rightarrow> stringify \<Rightarrow> localize \<Rightarrow> Request \<Rightarrow> AppResult \<Rightarrow> Response" where
  "FormatResponse lower stringify localize request r =
     (let wantsJson = (Flags request AND CommandFlagJson \<noteq> 0);
          wantsRaw = (Flags request AND CommandFlagRaw \<noteq> 0);
          notReady = MessageResponse stringify request ExitUnavailable
            (Resource localize ''Command_NotReady'') wantsJson
      in if IsPreDispatchTermination r then notReady
         else if IsQuery (Command request) then
           (case arSnapshot r of
              None \<Rightarrow> notReady
            | Some snapshot \<Rightarrow>
                if \<not> apIsRunning snapshot then notReady
                else
                  (let current = (case arTray r of None \<Rightarrow> snapshot | Some t \<Rightarrow> snapshot\<lparr>apTray := t\<rparr>);
                       privacyMode = (case arPrivacyModeEnabled r of
                                        Some b \<Rightarrow> b | None \<Rightarrow> apPrivacyModeEnabled current);
                       redact = (privacyMode \<and> \<not> wantsRaw)
                   in FormatQuery lower stringify request r current localize redact wantsJson))
         else
           (let privacyMode = (case arPrivacyModeEnabled r of
                                 Some b \<Rightarrow> b
                               | None \<Rightarrow> (case arSnapshot r of Some s \<Rightarrow> apPrivacyModeEnabled s | None \<Rightarrow> False));
                redact = (privacyMode \<and> \<not> wantsRaw)
            in FormatOperation stringify request r localize redact wantsJson))"

text \<open>The context of a command: times are milliseconds on the steady clock, \<open>None\<close> is \<open>TimePoint::max()\<close>.\<close>

record AppCommandContext =
  acStopRequested :: bool
  acDeadline :: "int option"
  acDetached :: bool

definition MakeContext :: "u64 \<Rightarrow> int \<Rightarrow> bool \<Rightarrow> u64 \<Rightarrow> AppCommandContext" where
  "MakeContext nowTick now stop deadline =
     \<lparr>acStopRequested = stop,
      acDeadline =
        (if deadline = 0 then None
         else if deadline \<le> nowTick then Some now
         else Some (now + min (uint (deadline - nowTick)) 9223372036854775807)),
      acDetached = False\<rparr>"

text \<open>
  \<open>Handle\<close> in two halves around the call of the controller, so that calls of it may overlap: admission,
  which decides the response at once or claims the mutation flag, and completion, which formats the
  result and releases the flag. \<open>terminated\<close> is the pre-dispatch cancellation or deadline.
\<close>

definition HandleBegin ::
  "stringify \<Rightarrow> localize \<Rightarrow> bool \<Rightarrow> Request \<Rightarrow> bool \<Rightarrow> (Response + bool) \<times> bool" where
  "HandleBegin stringify localize terminated request mutationActive =
     (let wantsJson = (Flags request AND CommandFlagJson \<noteq> 0) in
      if \<not> IsRequestValid request then
        (Inl (if terminated
              then MessageResponse stringify request ExitUnavailable
                     (Resource localize ''Command_NotReady'') wantsJson
              else MessageResponse stringify request ExitInvalidRequest
                     (Resource localize ''Command_Unsupported'') wantsJson), mutationActive)
      else
        (let mutation = (\<not> terminated \<and> IsMutating (Command request)) in
         if mutation \<and> mutationActive
         then (Inl (MessageResponse stringify request ExitBusy
                 (Resource localize ''Command_Busy'') wantsJson), True)
         else (Inr mutation, if mutation then True else mutationActive)))"

definition HandleEnd ::
  "(wchar \<Rightarrow> wchar) \<Rightarrow> stringify \<Rightarrow> localize \<Rightarrow> Request \<Rightarrow> bool \<Rightarrow> AppResult option \<Rightarrow> bool \<Rightarrow> Response \<times> bool" where
  "HandleEnd lower stringify localize request mutation result mutationActive =
     ((case result of
         None \<Rightarrow> \<lparr>Code = ExitIndeterminate, Body = [], ResponseId = RequestId request\<rparr>
       | Some r \<Rightarrow> FormatResponse lower stringify localize request r),
      if mutation then False else mutationActive)"

text \<open>A call that is not overlapped.\<close>

definition Handle ::
  "(wchar \<Rightarrow> wchar) \<Rightarrow> stringify \<Rightarrow> localize \<Rightarrow> (app_call \<Rightarrow> AppResult option) \<Rightarrow> bool \<Rightarrow> Request \<Rightarrow> bool
     \<Rightarrow> Response \<times> bool" where
  "Handle lower stringify localize controller terminated request mutationActive =
     (case HandleBegin stringify localize terminated request mutationActive of
        (Inl response, active) \<Rightarrow> (response, active)
      | (Inr mutation, active) \<Rightarrow>
          HandleEnd lower stringify localize request mutation (Dispatch controller request) active)"

end
