(* ===== verification/Adapter_Claims.thy ===== *)
theory Adapter_Claims
  imports Control_Adapter
begin

section \<open>What the control adapter guarantees\<close>

text \<open>
  Privacy mode hides device names and identifiers, a success is only reported for a call that the
  controller reported as one, at most one mutation runs at a time, and every valid request names a
  controller call.
\<close>

subsection \<open>Line breaks in payloads\<close>

lemma find_from_0_Some:
  "find_from p xs 0 = Some i \<longleftrightarrow> i < length xs \<and> p (xs ! i) \<and> (\<forall>j < i. \<not> p (xs ! j))"
proof (induction xs arbitrary: i)
  case (Cons x xs)
  then show ?case by (cases i) (auto simp: less_Suc_eq_0_disj)
qed simp

lemma find_from_None:
  "find_from p xs n = None \<longleftrightarrow> (\<forall>x \<in> set (drop n xs). \<not> p x)"
  by (induction p xs n rule: find_from.induct) auto

lemma alias_set_split:
  assumes "Command r = CmdAliasSet" "alias_set_ok r"
  shows "Payload r = RequestTargetText r @ NL # RequestAlias r \<and> RequestTargetText r \<noteq> [] \<and>
         RequestAlias r \<noteq> [] \<and> NL \<notin> set (RequestTargetText r) \<and>
         NL \<notin> set (RequestAlias r) \<and> CR \<notin> set (RequestAlias r)"
proof -
  obtain i where i: "find_from (\<lambda>c. c = NL) (Payload r) 0 = Some i" "i > 0" "i + 1 < length (Payload r)"
      "find_from (\<lambda>c. c = CR \<or> c = NL) (Payload r) (i + 1) = None"
    using assms(2) by (auto simp: alias_set_ok_def split: option.splits)
  then have at: "i < length (Payload r)" "Payload r ! i = NL" "\<forall>j < i. Payload r ! j \<noteq> NL"
    by (auto simp: find_from_0_Some)
  have texts: "RequestTargetText r = take i (Payload r)" "RequestAlias r = drop (i + 1) (Payload r)"
    using i(1) assms(1) by (simp_all add: RequestTargetText_def RequestAlias_def)
  have "Payload r = take i (Payload r) @ NL # drop (i + 1) (Payload r)"
    using at by (metis Suc_eq_plus1 id_take_nth_drop)
  moreover have "NL \<notin> set (take i (Payload r))" using at by (auto simp: in_set_conv_nth)
  moreover have "NL \<notin> set (drop (i + 1) (Payload r))" "CR \<notin> set (drop (i + 1) (Payload r))"
    using i(4) by (auto simp: find_from_None)
  ultimately show ?thesis using i(2,3) texts by auto
qed

subsection \<open>Samples\<close>

definition sample_alias_request :: Request where
  "sample_alias_request = \<lparr>Command = CmdAliasSet, Target = TargetId, Flags = CommandFlagNone,
     Payload = L ''a'' @ [NL] @ L ''b'', RequestId = \<lparr>High = 1, Low = 2\<rparr>\<rparr>"

lemma sample_alias_valid: "IsRequestValid sample_alias_request"
  by (simp add: IsRequestValid_def sample_alias_request_def EmptyId_def IsKnownCommand_def IsKnownTarget_def
      flags_known_def CommandFlagJson_def CommandFlagRaw_def CommandFlagNone_def c_maxPayloadBytes_def
      alias_set_ok_def isExplicitTarget_def NL_def CR_def L_def)

definition sample_device :: "wstring \<Rightarrow> DeviceSnapshot" where
  "sample_device i = \<lparr>snId = i, snName = i, snAlias = L ''desk'', snDisplayName = i, snState = ConnIdle,
     snIsKnown = True, snIsConnected = True, snIsBusy = False, snIsAvailable = True\<rparr>"

definition sample_result :: AppResult where
  "sample_result = (blank_result RcSuccess)\<lparr>arCommand := AppConnect, arReason := RsnConnectSucceeded,
     arDevice := Some (sample_device (L ''a'')), arPrivacyModeEnabled := Some True, arDispatchPhase := PhaseStarted\<rparr>"

definition sample_list :: AppResult where
  "sample_list = (blank_result RcSuccess)\<lparr>arCommand := AppListDevices, arDevices := [sample_device (L ''a'')]\<rparr>"

subsection \<open>Valid requests\<close>

lemma valid_request_text:
  assumes "IsRequestValid r" "v \<noteq> []" "set v \<subseteq> set (Payload r)" "length v \<le> length (Payload r)"
  shows "IsValidCommandText v"
  using assms
  by (auto simp: IsRequestValid_def IsValidCommandText_def c_maxPayloadBytes_def
      c_maxAppCommandTextCharacters_def split: if_splits)

lemma explicit_selector:
  assumes "isExplicitTarget r" "IsValidCommandText v"
  shows "MakeSelector (Target r) v \<noteq> None"
  using assms by (cases "Target r") (auto simp: isExplicitTarget_def ById_def ByQuery_def IsQueryKind_def)

lemma valid_alias_request: "IsRequestValid r \<Longrightarrow> Command r = CmdAliasSet \<Longrightarrow> alias_set_ok r"
  by (simp add: IsRequestValid_def split: if_splits)

lemma valid_target_selector:
  assumes valid: "IsRequestValid r"
    and cmd: "Command r \<in> {CmdDefaultSet, CmdAliasSet, CmdAliasClear, CmdConnect, CmdDisconnect, CmdReconnect,
      CmdToggleLast}"
  shows "MakeSelector (Target r) (RequestTargetText r) \<noteq> None"
proof (cases "Command r = CmdAliasSet")
  case True
  note split = alias_set_split [OF True valid_alias_request [OF valid True]]
  have "isExplicitTarget r" using valid_alias_request [OF valid True] by (simp add: alias_set_ok_def)
  moreover have "set (RequestTargetText r) \<subseteq> set (Payload r)" "length (RequestTargetText r) \<le> length (Payload r)"
    using True by (auto simp: RequestTargetText_def split: option.splits dest: in_set_takeD)
  ultimately show ?thesis
    using explicit_selector valid_request_text [OF valid] split by blast
next
  case False
  then have same: "RequestTargetText r = Payload r" by (simp add: RequestTargetText_def)
  have "hasExplicitTarget r \<or> (Target r = TargetLast \<or> Target r = TargetDefault) \<and> Payload r = []"
    using valid cmd False by (auto simp: IsRequestValid_def split: if_splits)
  then show ?thesis
  proof
    assume "hasExplicitTarget r"
    then show ?thesis
      using explicit_selector valid_request_text [OF valid, of "Payload r"] same
      by (auto simp: hasExplicitTarget_def)
  qed (auto simp: same)
qed

lemma valid_request_call: "IsRequestValid r \<Longrightarrow> \<exists>call. dispatch_call r = Some call"
proof -
  assume valid: "IsRequestValid r"
  then have "Command r \<noteq> CmdUnknown" by (auto simp: IsRequestValid_def split: if_splits)
  then show ?thesis
    using valid_target_selector [OF valid] by (cases "Command r") (auto simp: dispatch_call_def)
qed

text \<open>Every valid request names a call of the controller, so the rejection of a missing selector is never
  taken; and a valid alias request splits at its first line break into a non-empty target and a non-empty
  alias of one line.\<close>

theorem valid_request_dispatches:
  assumes "IsRequestValid r"
  shows "dispatch_call r \<noteq> None \<and>
         (Command r = CmdAliasSet \<longrightarrow> Payload r = RequestTargetText r @ NL # RequestAlias r \<and>
            RequestTargetText r \<noteq> [] \<and> RequestAlias r \<noteq> [] \<and> NL \<notin> set (RequestAlias r))"
  using valid_request_call [OF assms] alias_set_split valid_alias_request [OF assms] by blast

theorem valid_request_dispatches_witness:
  "dispatch_call sample_alias_request \<noteq> None \<and> RequestAlias sample_alias_request = L ''b''"
proof -
  have "RequestAlias sample_alias_request = L ''b''"
    by (simp add: sample_alias_request_def RequestAlias_def NL_def L_def)
  then show ?thesis using valid_request_dispatches [OF sample_alias_valid] by blast
qed

subsection \<open>Merged devices\<close>

lemma merge_into_ids: "map snId (merge_into es d) = map snId es @ (if snId d \<in> snId ` set es then [] else [snId d])"
  by (induction es) (auto simp: merge_entry_def)

lemma merge_all_ids:
  "distinct (map snId es) \<Longrightarrow> distinct (map snId (foldl merge_into es ds)) \<and>
     snId ` set (foldl merge_into es ds) = snId ` set es \<union> snId ` set ds"
proof (induction ds arbitrary: es)
  case (Cons d ds)
  have ids: "distinct (map snId (merge_into es d))" "snId ` set (merge_into es d) = insert (snId d) (snId ` set es)"
    using Cons.prems merge_into_ids [of es d]
    by (auto simp: set_map [symmetric] simp del: set_map)
  show ?case using Cons.IH [OF ids(1)] ids(2) by auto
qed simp

lemma merge_into_connected:
  "(\<exists>e \<in> set (merge_into es d). snId e = i \<and> snIsConnected e) \<longleftrightarrow>
     (\<exists>e \<in> set es. snId e = i \<and> snIsConnected e) \<or> (snId d = i \<and> snIsConnected d)"
  by (induction es) (auto simp: merge_entry_def)

lemma merge_all_connected:
  "(\<exists>e \<in> set (foldl merge_into es ds). snId e = i \<and> snIsConnected e) \<longleftrightarrow>
     (\<exists>e \<in> set es. snId e = i \<and> snIsConnected e) \<or> (\<exists>e \<in> set ds. snId e = i \<and> snIsConnected e)"
  by (induction ds arbitrary: es) (simp_all add: merge_into_connected)

lemma sorted_devices_ids: "snId ` set (SortedDevices lower ds) = snId ` set ds"
  using merge_all_ids [of "[]" ds] by (simp add: SortedDevices_def)

text \<open>The device list of a query has each device once, exactly the devices reported, in the order of the
  lower-case label and identifier, and a device is connected in it when any of its reports says so.\<close>

theorem sorted_devices_correct:
  "distinct (map snId (SortedDevices lower ds)) \<and>
   snId ` set (SortedDevices lower ds) = snId ` set ds \<and>
   sorted (map (device_sort_key lower) (SortedDevices lower ds)) \<and>
   ((\<exists>e \<in> set (SortedDevices lower ds). snId e = i \<and> snIsConnected e) \<longleftrightarrow>
      (\<exists>d \<in> set ds. snId d = i \<and> snIsConnected d))"
proof -
  have "distinct (map snId (SortedDevices lower ds))"
    using merge_all_ids [of "[]" ds] by (simp add: SortedDevices_def distinct_map)
  moreover have "set (SortedDevices lower ds) = set (foldl merge_into [] ds)"
    by (simp add: SortedDevices_def)
  moreover have "sorted (map (device_sort_key lower) (SortedDevices lower ds))"
    by (simp add: SortedDevices_def)
  ultimately show ?thesis
    using merge_all_ids [of "[]" ds] merge_all_connected [of "[]" ds i] by simp
qed

subsection \<open>Privacy\<close>

text \<open>Two results that differ at most in who the device is: the same devices are present, and none of them
  has an empty identifier.\<close>

definition same_device :: "DeviceSnapshot option \<Rightarrow> DeviceSnapshot option \<Rightarrow> bool" where
  "same_device a b \<longleftrightarrow>
     (case (a, b) of (None, None) \<Rightarrow> True | (Some d, Some e) \<Rightarrow> snId d \<noteq> [] \<and> snId e \<noteq> [] | _ \<Rightarrow> False)"

definition same_target :: "AppTargetSnapshot option \<Rightarrow> AppTargetSnapshot option \<Rightarrow> bool" where
  "same_target a b \<longleftrightarrow>
     (case (a, b) of
        (None, None) \<Rightarrow> True
      | (Some t, Some u) \<Rightarrow> tgId t \<noteq> [] \<and> tgId u \<noteq> [] \<and> tgExists t = tgExists u
      | _ \<Rightarrow> False)"

lemma redacted_names [simp]:
  "DeviceDisplayName loc d True = Resource loc ''Privacy_RedactedDevice''"
  "TargetDisplayName loc t True = Resource loc ''Privacy_RedactedDevice''"
  "redacted_or loc True v = Resource loc ''Privacy_RedactedDevice''"
  "ResponseName d True = []"
  "i \<noteq> [] \<Longrightarrow> ResponseIdText loc i True = Resource loc ''Privacy_RedactedValue''"
  by (simp_all add: DeviceDisplayName_def TargetDisplayName_def redacted_or_def ResponseName_def
      ResponseIdText_def)

lemma same_cases:
  assumes "same_device a b" "same_target t u"
  obtains "a = None" "b = None" "t = None" "u = None"
  | d e where "a = Some d" "b = Some e" "snId d \<noteq> []" "snId e \<noteq> []" "t = None" "u = None"
  | v w where "a = None" "b = None" "t = Some v" "u = Some w" "tgId v \<noteq> []" "tgId w \<noteq> []" "tgExists v = tgExists w"
  | d e v w where "a = Some d" "b = Some e" "snId d \<noteq> []" "snId e \<noteq> []" "t = Some v" "u = Some w"
      "tgId v \<noteq> []" "tgId w \<noteq> []" "tgExists v = tgExists w"
  using assms by (cases a; cases b; cases t; cases u) (auto simp: same_device_def same_target_def)

lemma redacted_failure:
  assumes "same_device (arDevice r) d'" "same_target (arTarget r) t'"
  shows "FailureMessage loc (r\<lparr>arDevice := d', arTarget := t'\<rparr>) request True = FailureMessage loc r request True"
  by (rule same_cases [OF assms])
    (simp_all add: FailureMessage_def failure_by_command_def Let_def cong: AppOutcomeReason.case_cong)

lemma success_message_cong:
  "SuccessMessage loc (r\<lparr>arDevice := d', arTarget := t'\<rparr>) request name = SuccessMessage loc r request name"
  by (simp add: SuccessMessage_def success_by_command_def
      cong: AppOutcomeReason.case_cong AppCommandKind.case_cong)

lemma redacted_message:
  assumes "same_device (arDevice r) d'" "same_target (arTarget r) t'"
  shows "operation_message loc (r\<lparr>arDevice := d', arTarget := t'\<rparr>) request name True =
         operation_message loc r request name True"
  by (simp add: operation_message_def success_message_cong redacted_failure [OF assms] cong: if_cong)

lemma redacted_json_name:
  assumes "same_device (arDevice r) d'" "same_target (arTarget r) t'"
  shows "operation_json_name loc (r\<lparr>arDevice := d', arTarget := t'\<rparr>) code i' name True =
         operation_json_name loc r code i name True"
  by (rule same_cases [OF assms]) (simp_all add: operation_json_name_def Let_def)

lemma redacted_identity:
  assumes "same_device (arDevice r) d'" "same_target (arTarget r) t'"
  shows "snd (operation_identity loc (r\<lparr>arDevice := d', arTarget := t'\<rparr>) request True) =
           snd (operation_identity loc r request True)"
    and "ResponseIdText loc (fst (operation_identity loc (r\<lparr>arDevice := d', arTarget := t'\<rparr>) request True)) True =
           ResponseIdText loc (fst (operation_identity loc r request True)) True"
  by (rule same_cases [OF assms]; simp add: operation_identity_def)+

lemma redacted_operation:
  assumes "same_device (arDevice r) d'" "same_target (arTarget r) t'"
  shows "FormatOperation str request (r\<lparr>arDevice := d', arTarget := t'\<rparr>) loc True json =
         FormatOperation str request r loc True json"
proof -
  have same: "ToExitCode (r\<lparr>arDevice := d', arTarget := t'\<rparr>) = ToExitCode r"
    by (simp add: ToExitCode_def cong: AppResultCode.case_cong)
  have resolved: "isResolutionFailure (r\<lparr>arDevice := d', arTarget := t'\<rparr>) = isResolutionFailure r"
    by (rule same_cases [OF assms]) (simp_all add: isResolutionFailure_def hasResolvedTarget_def)
  show ?thesis
    using redacted_identity [OF assms, of loc request]
      redacted_json_name [OF assms, of loc "ToExitCode r" _ _ "fst (operation_identity loc r request True)"]
    by (simp add: FormatOperation_def same resolved redacted_failure [OF assms] redacted_message [OF assms]
        OperationResponse_def case_prod_beta' Let_def cong: if_cong)
qed

text \<open>C31: in privacy mode, unless raw output is asked for, the response to an operation does not depend on
  which device it was about: replacing the identifiers and all names of the device and of the target in the
  result leaves the response unchanged.\<close>

theorem operation_response_private:
  assumes "\<not> IsQuery (Command request)" "Flags request AND CommandFlagRaw = 0"
    and "arPrivacyModeEnabled r = Some True"
    and "same_device (arDevice r) d'" "same_target (arTarget r) t'"
  shows "FormatResponse lower str loc request (r\<lparr>arDevice := d', arTarget := t'\<rparr>) =
         FormatResponse lower str loc request r"
  using assms(1-3)
  by (auto simp: FormatResponse_def IsPreDispatchTermination_def redacted_operation [OF assms(4,5)] Let_def)

theorem operation_response_private_witness:
  "FormatResponse id (\<lambda>_. []) None (sample_alias_request\<lparr>Command := CmdConnect\<rparr>)
     (sample_result\<lparr>arDevice := Some (sample_device (L ''z''))\<rparr>) =
   FormatResponse id (\<lambda>_. []) None (sample_alias_request\<lparr>Command := CmdConnect\<rparr>) sample_result"
proof -
  have "same_device (arDevice sample_result) (Some (sample_device (L ''z'')))" "same_target (arTarget sample_result) None"
    by (simp_all add: same_device_def same_target_def sample_result_def blank_result_def sample_device_def L_def)
  from operation_response_private [OF _ _ _ this, of "sample_alias_request\<lparr>Command := CmdConnect\<rparr>" id "\<lambda>_. []" None]
  show ?thesis
    by (simp add: IsQuery_def sample_alias_request_def sample_result_def blank_result_def CommandFlagRaw_def
        CommandFlagNone_def)
qed

text \<open>The part of a device that privacy mode shows.\<close>

definition shown :: "DeviceSnapshot \<Rightarrow> wstring \<times> bool \<times> bool" where
  "shown d = (snAlias d, snIsConnected d, snIsKnown d)"

definition alike :: "DeviceSnapshot list \<Rightarrow> DeviceSnapshot list \<Rightarrow> bool" where
  "alike ds es \<longleftrightarrow> list_all2 (\<lambda>d e. shown d = shown e \<and> snId d \<noteq> [] \<and> snId e \<noteq> []) ds es"

lemma alike_map:
  assumes "alike ds es" "\<And>d e. shown d = shown e \<Longrightarrow> snId d \<noteq> [] \<Longrightarrow> snId e \<noteq> [] \<Longrightarrow> f d = f e"
  shows "map f ds = map f es"
  using assms(1) unfolding alike_def by (induction rule: list_all2_induct) (auto intro: assms(2))

lemma alike_connected: "alike ds es \<Longrightarrow> alike (filter snIsConnected ds) (filter snIsConnected es)"
  unfolding alike_def by (induction rule: list_all2_induct) (auto simp: shown_def)

lemma alike_length: "alike ds es \<Longrightarrow> length ds = length es"
  by (simp add: alike_def list_all2_lengthD)

lemma alikeI:
  "map shown ds = map shown es \<Longrightarrow> \<forall>d \<in> set ds \<union> set es. snId d \<noteq> [] \<Longrightarrow> alike ds es"
proof -
  assume same: "map shown ds = map shown es" and ids: "\<forall>d \<in> set ds \<union> set es. snId d \<noteq> []"
  have len: "length ds = length es" using map_eq_imp_length_eq [OF same] .
  moreover have "shown (ds ! i) = shown (es ! i)" if "i < length ds" for i
    using arg_cong [OF same, of "\<lambda>xs. xs ! i"] that len by simp
  ultimately show ?thesis using ids by (simp add: alike_def list_all2_conv_all_nth)
qed

lemma redacted_device:
  "shown d = shown e \<Longrightarrow> snId d \<noteq> [] \<Longrightarrow> snId e \<noteq> [] \<Longrightarrow>
     DeviceJson loc d True = DeviceJson loc e True \<and> id_line loc d True = id_line loc e True \<and>
     snAlias d = snAlias e \<and> snIsConnected d = snIsConnected e"
  by (simp add: shown_def DeviceJson_def id_line_def)

lemma redacted_list:
  assumes "alike ds es"
  shows "FormatList str loc request ds True json = FormatList str loc request es True json"
proof -
  have "map (\<lambda>d. WObject (DeviceJson loc d True)) ds = map (\<lambda>d. WObject (DeviceJson loc d True)) es"
    "map (\<lambda>d. L ''- '' @ DeviceDisplayName loc d True @
           (if snIsConnected d then L '' ('' @ Resource loc ''Command_ConnectedSuffix'' @ L '')'' else []) @
           line_end @ id_line loc d True) ds =
     map (\<lambda>d. L ''- '' @ DeviceDisplayName loc d True @
           (if snIsConnected d then L '' ('' @ Resource loc ''Command_ConnectedSuffix'' @ L '')'' else []) @
           line_end @ id_line loc d True) es"
    by (rule alike_map [OF assms], drule (2) redacted_device [where loc = loc], simp)+
  moreover have "ds = [] \<longleftrightarrow> es = []" using alike_length [OF assms] by auto
  ultimately show ?thesis by (simp only: FormatList_def)
qed

lemma redacted_status:
  assumes "alike ds es"
  shows "FormatStatus str loc request ds snapshot True json = FormatStatus str loc request es snapshot True json"
proof -
  note connected = alike_connected [OF assms]
  have "map (\<lambda>d. WObject (DeviceJson loc d True)) (filter snIsConnected ds) =
      map (\<lambda>d. WObject (DeviceJson loc d True)) (filter snIsConnected es)"
    "map (\<lambda>d. L ''- '' @ DeviceDisplayName loc d True @ line_end @ id_line loc d True) (filter snIsConnected ds) =
      map (\<lambda>d. L ''- '' @ DeviceDisplayName loc d True @ line_end @ id_line loc d True) (filter snIsConnected es)"
    by (rule alike_map [OF connected], drule (2) redacted_device [where loc = loc], simp)+
  then show ?thesis using alike_length [OF connected] by (simp only: FormatStatus_def Let_def)
qed

lemma redacted_aliases:
  assumes "alike ds es"
  shows "FormatAliases str loc request ds True json = FormatAliases str loc request es True json"
proof -
  have "map (\<lambda>d. WObject (DeviceJson loc d True @ [(''hasAlias'', WBool (snAlias d \<noteq> []))])) ds =
      map (\<lambda>d. WObject (DeviceJson loc d True @ [(''hasAlias'', WBool (snAlias d \<noteq> []))])) es"
    "map (\<lambda>d. L ''- '' @ DeviceDisplayName loc d True @ L '': '' @
       (if snAlias d = [] then Resource loc ''Command_AliasNone'' else snAlias d) @ line_end @
       id_line loc d True) ds =
     map (\<lambda>d. L ''- '' @ DeviceDisplayName loc d True @ L '': '' @
       (if snAlias d = [] then Resource loc ''Command_AliasNone'' else snAlias d) @ line_end @
       id_line loc d True) es"
    by (rule alike_map [OF assms], drule (2) redacted_device [where loc = loc], simp)+
  moreover have "ds = [] \<longleftrightarrow> es = []" using alike_length [OF assms] by auto
  ultimately show ?thesis by (simp only: FormatAliases_def)
qed

text \<open>Privacy mode for queries: a listing, a status or an alias list in privacy mode is determined by
  the aliases and the connection flags of the devices in their order.\<close>

theorem query_response_private:
  assumes "arCode r = RcSuccess" "arCommand r \<in> {AppListDevices, AppStatus, AppListAliases}"
    and "arDevices r \<noteq> []" "ds' \<noteq> []"
    and "\<forall>d \<in> set (arDevices r) \<union> set ds'. snId d \<noteq> []"
    and "map shown (SortedDevices lower (arDevices r)) = map shown (SortedDevices lower ds')"
  shows "FormatQuery lower str request (r\<lparr>arDevices := ds'\<rparr>) snapshot loc True json =
         FormatQuery lower str request r snapshot loc True json"
proof -
  have "\<forall>d \<in> set (SortedDevices lower (arDevices r)) \<union> set (SortedDevices lower ds'). snId d \<noteq> []"
    using sorted_devices_ids [of lower "arDevices r"] sorted_devices_ids [of lower ds'] assms(5)
    by (metis UnE UnI1 UnI2 imageE imageI)
  then have alike: "alike (SortedDevices lower ds') (SortedDevices lower (arDevices r))"
    using assms(6) by (intro alikeI) auto
  have "ToExitCode (r\<lparr>arDevices := ds'\<rparr>) = ToExitCode r"
    by (simp add: ToExitCode_def cong: AppResultCode.case_cong)
  then show ?thesis
    using assms(1-4)
    by (auto simp: FormatQuery_def DevicesFor_def Let_def redacted_list [OF alike] redacted_status [OF alike]
        redacted_aliases [OF alike])
qed

theorem query_response_private_witness:
  "\<forall>snapshot. FormatQuery id (\<lambda>_. []) sample_alias_request (sample_list\<lparr>arDevices := [sample_device (L ''z'')]\<rparr>) snapshot None True False =
   FormatQuery id (\<lambda>_. []) sample_alias_request sample_list snapshot None True False"
  by (rule allI, rule query_response_private)
    (auto simp: sample_list_def blank_result_def sample_device_def L_def SortedDevices_def shown_def)

subsection \<open>Reported success\<close>

lemma success_code: "ToExitCode r = ExitSuccess \<longleftrightarrow> arCode r = RcSuccess"
  by (cases "arCode r") (auto simp: ToExitCode_def)

lemma query_success:
  "Code (FormatQuery lower str request r snapshot loc redact json) = ExitSuccess \<Longrightarrow> arCode r = RcSuccess"
  by (auto simp: FormatQuery_def Let_def MessageResponse_def success_code split: if_splits)

lemma operation_success:
  "Code (FormatOperation str request r loc redact json) = ExitSuccess \<Longrightarrow> arCode r = RcSuccess"
  by (auto simp: FormatOperation_def Let_def MessageResponse_def OperationResponse_def success_code
      split: if_splits prod.splits)

lemma response_success:
  "Code (FormatResponse lower str loc request r) = ExitSuccess \<Longrightarrow> arCode r = RcSuccess"
  by (auto simp: FormatResponse_def Let_def MessageResponse_def
      dest: query_success operation_success split: if_splits option.splits)

lemma response_id [simp]: "ResponseId (FormatResponse lower str loc request r) = RequestId request"
proof -
  have "ResponseId (FormatQuery lower str request r snapshot loc redact json) = RequestId request" for snapshot redact json
    by (auto simp: FormatQuery_def Let_def MessageResponse_def FormatList_def FormatStatus_def FormatDefault_def
        FormatAliases_def success_response_def split: AppCommandKind.split)
  moreover have "ResponseId (FormatOperation str request r loc redact json) = RequestId request" for redact json
    by (auto simp: FormatOperation_def Let_def MessageResponse_def OperationResponse_def split: prod.split)
  ultimately show ?thesis
    by (auto simp: FormatResponse_def Let_def MessageResponse_def split: option.split)
qed

text \<open>C32: a response always answers its own request, and it reports success only for a valid request whose
  controller call was made and itself reported success; an exception becomes an indeterminate outcome.\<close>

theorem handle_success_sound:
  assumes "Handle lower str loc controller terminated request active = (response, active')"
  shows "ResponseId response = RequestId request \<and>
         (Code response = ExitSuccess \<longrightarrow> IsRequestValid request \<and>
            (\<exists>call r. dispatch_call request = Some call \<and> controller call = Some r \<and> arCode r = RcSuccess))"
proof (cases "HandleBegin str loc terminated request active")
  case (Pair admitted active1)
  show ?thesis
  proof (cases admitted)
    case (Inl early)
    then show ?thesis using assms Pair
      by (auto simp: Handle_def HandleBegin_def Let_def MessageResponse_def split: if_splits)
  next
    case (Inr mutation)
    then have valid: "IsRequestValid request"
      using Pair by (auto simp: HandleBegin_def Let_def split: if_splits)
    obtain call where call: "dispatch_call request = Some call"
      using valid_request_call [OF valid] by blast
    have "response = fst (HandleEnd lower str loc request mutation (controller call) active1)"
      using assms Pair Inr call by (simp add: Handle_def Dispatch_def)
    then show ?thesis
      using valid call by (cases "controller call") (auto simp: HandleEnd_def dest: response_success)
  qed
qed

theorem handle_success_sound_witness:
  "ResponseId (fst (Handle id (\<lambda>_. []) None (\<lambda>_. Some (blank_result RcSuccess)) False sample_alias_request False)) =
     \<lparr>High = 1, Low = 2\<rparr> \<and> IsRequestValid sample_alias_request"
proof -
  obtain response active where run: "Handle id (\<lambda>_. []) None (\<lambda>_. Some (blank_result RcSuccess)) False sample_alias_request False =
      (response, active)" by fastforce
  moreover have "Code response = ExitSuccess"
    using run sample_alias_valid valid_request_call [OF sample_alias_valid]
    by (auto simp: Handle_def HandleBegin_def HandleEnd_def Dispatch_def Let_def FormatResponse_def
        IsPreDispatchTermination_def blank_result_def FormatOperation_def OperationResponse_def ToExitCode_def
        IsQuery_def split: prod.splits) (simp_all add: sample_alias_request_def)
  ultimately show ?thesis
    using handle_success_sound [OF run] by (simp add: sample_alias_request_def)
qed

subsection \<open>One mutation at a time\<close>

text \<open>Overlapping calls of \<open>Handle\<close>: the flag and, for every admitted call that has not completed, whether it was
  made to report a termination before the dispatch, its request and whether it claimed the flag. The rejected calls
  return at once.\<close>

record adapter_run =
  mutationActive :: bool
  inFlight :: "(bool \<times> Request \<times> bool) list"

datatype adapter_event = BeginCall bool Request | EndCall nat "AppResult option"

fun adapter_step ::
  "(wchar \<Rightarrow> wchar) \<Rightarrow> stringify \<Rightarrow> localize \<Rightarrow> adapter_run \<Rightarrow> adapter_event \<Rightarrow> adapter_run" where
  "adapter_step lower str loc s (BeginCall terminated request) =
     (case HandleBegin str loc terminated request (mutationActive s) of
        (Inl _, active) \<Rightarrow> s\<lparr>mutationActive := active\<rparr>
      | (Inr mutation, active) \<Rightarrow>
          s\<lparr>mutationActive := active, inFlight := inFlight s @ [(terminated, request, mutation)]\<rparr>)"
| "adapter_step lower str loc s (EndCall i result) =
     (case inFlight s ! i of
        (terminated, request, mutation) \<Rightarrow>
          s\<lparr>mutationActive := snd (HandleEnd lower str loc request mutation result (mutationActive s)),
            inFlight := take i (inFlight s) @ drop (Suc i) (inFlight s)\<rparr>)"

fun adapter_enabled :: "adapter_run \<Rightarrow> adapter_event \<Rightarrow> bool" where
  "adapter_enabled s (BeginCall _ _) = True"
| "adapter_enabled s (EndCall i _) = (i < length (inFlight s))"

definition idle_adapter :: adapter_run where
  "idle_adapter = \<lparr>mutationActive = False, inFlight = []\<rparr>"

text \<open>The commands that only read or only show a window; every other known command changes connections or settings.\<close>

definition read_only :: "CommandType \<Rightarrow> bool" where
  "read_only c \<longleftrightarrow> c \<in> {CmdList, CmdStatus, CmdShow, CmdSettings, CmdDefaultShow, CmdAliasList}"

definition changing :: "bool \<times> Request \<times> bool \<Rightarrow> bool" where
  "changing call \<longleftrightarrow> \<not> fst call \<and> \<not> read_only (Command (fst (snd call)))"

lemma changing_iff:
  "IsRequestValid request \<Longrightarrow> changing (terminated, request, mutation) \<longleftrightarrow> \<not> terminated \<and> IsMutating (Command request)"
  by (cases "Command request") (auto simp: changing_def read_only_def IsMutating_def IsRequestValid_def split: if_splits)

definition adapter_inv :: "adapter_run \<Rightarrow> bool" where
  "adapter_inv s \<longleftrightarrow> length (filter changing (inFlight s)) = (if mutationActive s then 1 else 0) \<and>
     (\<forall>(terminated, request, mutation) \<in> set (inFlight s). mutation = changing (terminated, request, mutation))"

lemma HandleBegin_cases:
  "HandleBegin str loc terminated request active =
     (if \<not> IsRequestValid request
      then (Inl (if terminated
              then MessageResponse str request ExitUnavailable (Resource loc ''Command_NotReady'')
                (Flags request AND CommandFlagJson \<noteq> 0)
              else MessageResponse str request ExitInvalidRequest (Resource loc ''Command_Unsupported'')
                (Flags request AND CommandFlagJson \<noteq> 0)), active)
      else if \<not> terminated \<and> \<not> read_only (Command request)
      then (if active
            then (Inl (MessageResponse str request ExitBusy (Resource loc ''Command_Busy'')
                (Flags request AND CommandFlagJson \<noteq> 0)), True)
            else (Inr True, True))
      else (Inr False, active))"
  using changing_iff [of request terminated] by (simp add: HandleBegin_def Let_def changing_def)

lemma adapter_step_inv:
  assumes "adapter_inv s" "adapter_enabled s e"
  shows "adapter_inv (adapter_step lower str loc s e)"
proof (cases e)
  case (BeginCall terminated request)
  define adds where "adds \<longleftrightarrow> IsRequestValid request \<and> \<not> terminated \<and> \<not> read_only (Command request)"
  show ?thesis
  proof (cases "IsRequestValid request \<and> \<not> (adds \<and> mutationActive s)")
    case True
    then have "adapter_step lower str loc s e =
        s\<lparr>mutationActive := mutationActive s \<or> adds, inFlight := inFlight s @ [(terminated, request, adds)]\<rparr>"
      unfolding BeginCall by (cases s) (auto simp: HandleBegin_cases adds_def)
    moreover have "changing (terminated, request, adds) = adds" using True by (simp add: changing_def adds_def)
    ultimately show ?thesis using assms(1) True by (auto simp: adapter_inv_def)
  next
    case False
    then have "adapter_step lower str loc s e = s"
      unfolding BeginCall by (cases s) (auto simp: HandleBegin_cases adds_def)
    then show ?thesis using assms(1) by simp
  qed
next
  case (EndCall i result)
  then have i: "i < length (inFlight s)" using assms(2) by simp
  obtain terminated request mutation where at: "inFlight s ! i = (terminated, request, mutation)"
    by (cases "inFlight s ! i") auto
  have split: "inFlight s = take i (inFlight s) @ (terminated, request, mutation) # drop (Suc i) (inFlight s)"
    using i at by (metis id_take_nth_drop)
  have "length (filter changing (inFlight s)) =
      length (filter changing (take i (inFlight s) @ drop (Suc i) (inFlight s))) +
        (if changing (terminated, request, mutation) then 1 else 0)"
    using arg_cong [OF split, of "\<lambda>xs. length (filter changing xs)"] by simp
  moreover have "(terminated, request, mutation) \<in> set (inFlight s)" using i at by (metis nth_mem)
  then have "mutation = changing (terminated, request, mutation)" using assms(1) by (auto simp: adapter_inv_def)
  moreover have "set (take i (inFlight s) @ drop (Suc i) (inFlight s)) \<subseteq> set (inFlight s)"
    by (auto dest: in_set_takeD in_set_dropD)
  ultimately show ?thesis
    using assms(1) EndCall at by (auto simp: adapter_inv_def HandleEnd_def split: if_splits)
qed

interpretation adapter: machine "\<lambda>s. s = idle_adapter" "adapter_step lower str loc" adapter_enabled adapter_inv
  for lower str loc
  by (unfold_locales, simp add: adapter_inv_def idle_adapter_def) (rule adapter_step_inv)

text \<open>C33: however calls of the adapter overlap, at most one of them is executing a command that changes connections
  or settings (any known command but the six that only read or show a window), and the flag is set exactly while one
  is. While it is set, a further valid request for such a command is refused as busy and is not executed; a valid
  request for one of the six is always admitted and leaves the flag alone.\<close>

theorem adapter_single_mutation:
  assumes "reachable (\<lambda>s. s = idle_adapter) (adapter_step lower str loc) adapter_enabled s"
  defines "running \<equiv> filter (\<lambda>(terminated, request, claimed). \<not> terminated \<and>
     Command request \<notin> {CmdList, CmdStatus, CmdShow, CmdSettings, CmdDefaultShow, CmdAliasList}) (inFlight s)"
  shows "length running \<le> 1 \<and> (mutationActive s \<longleftrightarrow> running \<noteq> []) \<and>
    (\<forall>request. IsRequestValid request \<longrightarrow>
       (if Command request \<in> {CmdList, CmdStatus, CmdShow, CmdSettings, CmdDefaultShow, CmdAliasList}
        then HandleBegin str loc False request (mutationActive s) = (Inr False, mutationActive s)
        else if running \<noteq> []
        then (\<exists>response. HandleBegin str loc False request (mutationActive s) = (Inl response, True) \<and> Code response = ExitBusy)
        else HandleBegin str loc False request (mutationActive s) = (Inr True, True)))"
proof -
  have running: "running = filter changing (inFlight s)"
    unfolding running_def by (rule filter_cong) (auto simp: changing_def read_only_def)
  have "length (filter changing (inFlight s)) = (if mutationActive s then 1 else 0)"
    using adapter.reachable_inv [OF assms(1)] by (simp add: adapter_inv_def)
  then have "length running \<le> 1" and active: "mutationActive s \<longleftrightarrow> running \<noteq> []"
    unfolding running by (auto split: if_splits)
  moreover have "changing (False, request, True) \<longleftrightarrow>
      Command request \<notin> {CmdList, CmdStatus, CmdShow, CmdSettings, CmdDefaultShow, CmdAliasList}" for request
    by (simp add: changing_def read_only_def)
  ultimately show ?thesis
    by (simp add: HandleBegin_cases read_only_def MessageResponse_def)
qed

theorem adapter_single_mutation_witness:
  "\<exists>response. HandleBegin (\<lambda>_. []) None False sample_alias_request
     (mutationActive (adapter_step id (\<lambda>_. []) None idle_adapter (BeginCall False sample_alias_request))) = (Inl response, True) \<and>
     Code response = ExitBusy"
proof -
  define s where "s = adapter_step id (\<lambda>_. []) None idle_adapter (BeginCall False sample_alias_request)"
  have "reachable (\<lambda>s. s = idle_adapter) (adapter_step id (\<lambda>_. []) None) adapter_enabled s"
    unfolding s_def by (intro reach_step reach_start) auto
  note r = adapter_single_mutation [OF this]
  have active: "mutationActive s"
    using sample_alias_valid by (simp add: s_def HandleBegin_def idle_adapter_def IsMutating_def)
      (simp add: sample_alias_request_def)
  have "Command sample_alias_request = CmdAliasSet" by (simp add: sample_alias_request_def)
  with conjunct1 [OF conjunct2 [OF r]] conjunct2 [OF conjunct2 [OF r], rule_format, OF sample_alias_valid] active
  show ?thesis unfolding s_def [symmetric] by (simp only: insert_iff empty_iff CommandType.distinct simp_thms if_True if_False)
qed

end
