(* ===== verification/Settings_Codec.thy ===== *)
theory Settings_Codec
  imports Settings_Model "HOL-Library.Monad_Syntax" "HOL-Library.List_Lexorder" "HOL-Library.Char_ord"
begin

section \<open>The settings file format\<close>

text \<open>
  \<open>core/SettingsCodec.cpp\<close>. The JSON library and the conversions between UTF-8 and UTF-16 are not part of
  the program: they are the fields of a record \<open>json_lib\<close>. \<open>lib_parse\<close> gives the tree the library walks,
  with repeated keys still in it, since the callback of \<open>ParseJson\<close> is what rejects them; \<open>lib_dump\<close> is
  \<open>dump()\<close>. An object is its members in key order, the order the library keeps them in. A thrown
  \<open>std::invalid_argument\<close> (the library's own exceptions become one) is \<open>None\<close>.
\<close>

datatype json =
    JNull | JBool bool | JInteger int | JFloat | JString string | JArray "json list"
  | JObject "(string \<times> json) list"

record json_lib =
  lib_parse :: "string \<Rightarrow> json option"
  lib_dump :: "json \<Rightarrow> string"
  to_hstring :: "string \<Rightarrow> wstring"
  to_string :: "wstring \<Rightarrow> string"

definition c_schemaVersion :: int where "c_schemaVersion = 2"

definition c_topLevelKeys :: "string list" where
  "c_topLevelKeys = [''schemaVersion'', ''globalConnectOnStartup'', ''globalReconnectOnConnectionLoss'',
     ''allowIncomingConnections'', ''startWithWindows'', ''showNotifications'',
     ''useSystemBackdropEffects'', ''privacyModeEnabled'', ''language'', ''defaultDeviceMode'',
     ''defaultDeviceId'', ''settingsWindowBounds'', ''devices'', ''lastConnectedIds'', ''ratingPrompt'']"

definition c_windowBoundsKeys :: "string list" where
  "c_windowBoundsKeys = [''x'', ''y'', ''width'', ''height'', ''dpi'']"

definition c_deviceKeys :: "string list" where
  "c_deviceKeys = [''id'', ''name'', ''alias'', ''connectOnStartup'', ''reconnectOnConnectionLoss'']"

definition c_ratingPromptKeys :: "string list" where
  "c_ratingPromptKeys = [''firstLaunchDate'', ''usageDays'', ''lastUsageDate'', ''asked'']"

definition c_legacyTopLevelKeys :: "string list" where
  "c_legacyTopLevelKeys = [''globalAutoReconnect'', ''globalConnectOnStartup'',
     ''globalReconnectOnConnectionLoss'', ''allowIncomingConnections'', ''startWithWindows'',
     ''showNotifications'', ''useSystemBackdropEffects'', ''privacyModeEnabled'', ''language'',
     ''lastUpdateCheckUnixSeconds'', ''lastNotifiedUpdateVersion'', ''defaultDeviceMode'',
     ''defaultDeviceId'', ''settingsWindowBounds'', ''devices'', ''lastConnectedIds'']"

lemmas key_lists = c_topLevelKeys_def c_windowBoundsKeys_def c_deviceKeys_def c_ratingPromptKeys_def
  c_legacyTopLevelKeys_def

subsection \<open>Validation\<close>

definition Require :: "bool \<Rightarrow> unit option" where
  "Require valid = (if valid then Some () else None)"

text \<open>\<open>value.find(key)\<close>: the member of an object; anything but an object has none.\<close>

fun member :: "json \<Rightarrow> string \<Rightarrow> json option" where
  "member (JObject ms) key = map_of ms key"
| "member _ key = None"

fun Object :: "json \<Rightarrow> string list \<Rightarrow> unit option" where
  "Object (JObject ms) keys = Require (\<forall>(key, ignored) \<in> set ms. key \<in> set keys)"
| "Object _ keys = None"

definition Text :: "json_lib \<Rightarrow> json \<Rightarrow> string \<Rightarrow> wstring \<Rightarrow> wstring option" where
  "Text lib object key fallback =
     (case member object key of
        None \<Rightarrow> Some fallback
      | Some (JString text) \<Rightarrow> Some (to_hstring lib text)
      | Some _ \<Rightarrow> None)"

text \<open>A non-negative integer is unsigned to the library and compared as \<open>uint64_t\<close>, a negative one as
  \<open>int64_t\<close>; either way the value must fit \<open>int32_t\<close>.\<close>

definition Integer :: "json \<Rightarrow> string \<Rightarrow> i32 \<Rightarrow> i32 option" where
  "Integer object key fallback =
     (case member object key of
        None \<Rightarrow> Some fallback
      | Some (JInteger n) \<Rightarrow>
          do { Require (if n \<ge> 0 then n \<le> 2147483647 else n \<ge> - 2147483648 \<and> n \<le> 2147483647);
               Some (word_of_int n) }
      | Some _ \<Rightarrow> None)"

text \<open>\<open>object.value(key, fallback)\<close> for a \<open>bool\<close>: a member of another type throws.\<close>

definition value_bool :: "json \<Rightarrow> string \<Rightarrow> bool \<Rightarrow> bool option" where
  "value_bool object key fallback =
     (case object of
        JObject _ \<Rightarrow>
          (case member object key of
             None \<Rightarrow> Some fallback
           | Some (JBool b) \<Rightarrow> Some b
           | Some _ \<Rightarrow> None)
      | _ \<Rightarrow> None)"

definition Array :: "json \<Rightarrow> string \<Rightarrow> json list option" where
  "Array object key =
     (case member object key of
        None \<Rightarrow> Some []
      | Some (JArray rows) \<Rightarrow> do { Require (length rows \<le> c_maxPersistedDeviceCount); Some rows }
      | Some _ \<Rightarrow> None)"

text \<open>What the parse callback rejects: nesting deeper than 16 and a key repeated in one object.\<close>

fun callback_ok :: "nat \<Rightarrow> json \<Rightarrow> bool" where
  "callback_ok depth (JArray rows) = (depth \<le> 16 \<and> (\<forall>j \<in> set rows. callback_ok (Suc depth) j))"
| "callback_ok depth (JObject ms) =
     (depth \<le> 16 \<and> distinct (map fst ms) \<and> (\<forall>m \<in> set ms. callback_ok (Suc depth) (snd m)))"
| "callback_ok depth _ = (depth \<le> 16)"

definition ParseJson :: "json_lib \<Rightarrow> string \<Rightarrow> json option" where
  "ParseJson lib bytes =
     do { Require (bytes \<noteq> [] \<and> length bytes \<le> c_maxSettingsFileBytes);
          j \<leftarrow> lib_parse lib bytes;
          Require (callback_ok 0 j);
          Some j }"

subsection \<open>Calendar dates\<close>

definition is_digit :: "wchar \<Rightarrow> bool" where "is_digit c \<longleftrightarrow> 48 \<le> c \<and> c \<le> 57"
definition digit_of :: "wchar \<Rightarrow> nat" where "digit_of c = unat (c - 48)"

definition is_leap :: "nat \<Rightarrow> bool" where
  "is_leap y \<longleftrightarrow> y mod 4 = 0 \<and> (y mod 100 \<noteq> 0 \<or> y mod 400 = 0)"

definition days_in_month :: "nat \<Rightarrow> nat \<Rightarrow> nat" where
  "days_in_month y m =
     (if m = 2 then (if is_leap y then 29 else 28) else if m \<in> {4, 6, 9, 11} then 30 else 31)"

text \<open>\<open>std::chrono::year_month_day::ok()\<close> for a four-digit year.\<close>

definition ymd_ok :: "nat \<Rightarrow> nat \<Rightarrow> nat \<Rightarrow> bool" where
  "ymd_ok y m d \<longleftrightarrow> 1 \<le> m \<and> m \<le> 12 \<and> 1 \<le> d \<and> d \<le> days_in_month y m"

definition date_ok :: "wstring \<Rightarrow> bool" where
  "date_ok date \<longleftrightarrow> date = [] \<or>
     (length date = 10 \<and> date ! 4 = 45 \<and> date ! 7 = 45 \<and>
      (\<forall>i \<in> {0, 1, 2, 3, 5, 6, 8, 9}. is_digit (date ! i)) \<and>
      (let dig = (\<lambda>i. digit_of (date ! i))
       in ymd_ok (dig 0 * 1000 + dig 1 * 100 + dig 2 * 10 + dig 3) (dig 5 * 10 + dig 6)
            (dig 8 * 10 + dig 9)))"

subsection \<open>Current format\<close>

definition decode_bounds :: "json \<Rightarrow> PersistedWindowBounds option option" where
  "decode_bounds j =
     (case member j ''settingsWindowBounds'' of
        None \<Rightarrow> Some None
      | Some b \<Rightarrow>
          do { Object b c_windowBoundsKeys;
               dpi \<leftarrow> Integer b ''dpi'' USER_DEFAULT_SCREEN_DPI;
               Require (sint dpi > 0);
               x \<leftarrow> Integer b ''x'' 0;
               y \<leftarrow> Integer b ''y'' 0;
               width \<leftarrow> Integer b ''width'' 0;
               height \<leftarrow> Integer b ''height'' 0;
               Some (Some \<lparr>wbX = x, wbY = y, wbWidth = width, wbHeight = height, wbDpi = dpi\<rparr>) })"

definition decode_device :: "json_lib \<Rightarrow> json \<Rightarrow> DeviceSettings option" where
  "decode_device lib row =
     do { Object row c_deviceKeys;
          i \<leftarrow> Text lib row ''id'' [];
          name \<leftarrow> Text lib row ''name'' [];
          alias \<leftarrow> Text lib row ''alias'' [];
          c \<leftarrow> value_bool row ''connectOnStartup'' False;
          r \<leftarrow> value_bool row ''reconnectOnConnectionLoss'' False;
          Some \<lparr>dsId = i, dsName = name, dsAlias = alias, dsConnectOnStartup = c,
            dsReconnectOnConnectionLoss = r\<rparr> }"

fun decode_id :: "json_lib \<Rightarrow> json \<Rightarrow> wstring option" where
  "decode_id lib (JString text) = Some (to_hstring lib text)"
| "decode_id lib _ = None"

fun traverse :: "('a \<Rightarrow> 'b option) \<Rightarrow> 'a list \<Rightarrow> 'b list option" where
  "traverse f [] = Some []"
| "traverse f (x # xs) = do { y \<leftarrow> f x; ys \<leftarrow> traverse f xs; Some (y # ys) }"

definition decode_prompt :: "json_lib \<Rightarrow> json \<Rightarrow> RatingPromptData option" where
  "decode_prompt lib j =
     (case member j ''ratingPrompt'' of
        None \<Rightarrow> Some default_prompt
      | Some rating \<Rightarrow>
          do { Object rating c_ratingPromptKeys;
               first \<leftarrow> Text lib rating ''firstLaunchDate'' [];
               last \<leftarrow> Text lib rating ''lastUsageDate'' [];
               days \<leftarrow> Integer rating ''usageDays'' 0;
               Require (sint days \<ge> 0);
               asked \<leftarrow> value_bool rating ''asked'' False;
               Require (date_ok first \<and> date_ok last);
               Some \<lparr>FirstLaunchDate = first, UsageDays = days, LastUsageDate = last, Asked = asked\<rparr> })"

definition decode_mode :: "json_lib \<Rightarrow> json \<Rightarrow> DefaultDeviceMode option" where
  "decode_mode lib j =
     do { mode \<leftarrow> Text lib j ''defaultDeviceMode'' (L ''lastConnected'');
          Require (mode = L ''lastConnected'' \<or> mode = L ''specificDevice'');
          Some (if mode = L ''specificDevice'' then SpecificDevice else LastConnected) }"

definition decode_json :: "json_lib \<Rightarrow> json \<Rightarrow> SettingsData option" where
  "decode_json lib j =
     do { Object j c_topLevelKeys;
          version \<leftarrow> Integer j ''schemaVersion'' (- 1);
          Require (sint version = c_schemaVersion);
          connect \<leftarrow> value_bool j ''globalConnectOnStartup'' False;
          reconnect \<leftarrow> value_bool j ''globalReconnectOnConnectionLoss'' False;
          allow \<leftarrow> value_bool j ''allowIncomingConnections'' False;
          start \<leftarrow> value_bool j ''startWithWindows'' False;
          notify \<leftarrow> value_bool j ''showNotifications'' True;
          backdrop \<leftarrow> value_bool j ''useSystemBackdropEffects'' True;
          privacy \<leftarrow> value_bool j ''privacyModeEnabled'' False;
          language \<leftarrow> Text lib j ''language'' (L ''system'');
          mode \<leftarrow> decode_mode lib j;
          defaultId \<leftarrow> Text lib j ''defaultDeviceId'' [];
          bounds \<leftarrow> decode_bounds j;
          rows \<leftarrow> Array j ''devices'';
          devices \<leftarrow> traverse (decode_device lib) rows;
          idRows \<leftarrow> Array j ''lastConnectedIds'';
          ids \<leftarrow> traverse (decode_id lib) idRows;
          prompt \<leftarrow> decode_prompt lib j;
          let data = \<lparr>GlobalConnectOnStartup = connect, GlobalReconnectOnConnectionLoss = reconnect,
            AllowIncomingConnections = allow, StartWithWindows = start, ShowNotifications = notify,
            UseSystemBackdropEffects = backdrop, Language = language, SettingsWindowBounds = bounds,
            PrivacyModeEnabled = privacy, DefaultDevice = mode, DefaultDeviceId = defaultId,
            Devices = devices, LastConnectedIds = ids, RatingPrompt = prompt\<rparr>;
          Require (IsPersistable data);
          Some data }"

definition Decode :: "json_lib \<Rightarrow> string \<Rightarrow> SettingsData option" where
  "Decode lib bytes = do { j \<leftarrow> ParseJson lib bytes; decode_json lib j }"

subsection \<open>The unversioned format of 0.9.1\<close>

text \<open>\<open>json[key] = value\<close> and \<open>erase\<close> on an object kept in key order.\<close>

fun set_member :: "string \<Rightarrow> json \<Rightarrow> (string \<times> json) list \<Rightarrow> (string \<times> json) list" where
  "set_member key v [] = [(key, v)]"
| "set_member key v ((k, w) # ms) =
     (if k = key then (key, v) # ms
      else if key < k then (key, v) # (k, w) # ms
      else (k, w) # set_member key v ms)"

definition erase_member :: "string \<Rightarrow> (string \<times> json) list \<Rightarrow> (string \<times> json) list" where
  "erase_member key ms = filter (\<lambda>m. fst m \<noteq> key) ms"

text \<open>An old combined flag becomes the two current ones, unless they are already there.\<close>

definition split_flag ::
  "string \<Rightarrow> string \<Rightarrow> string \<Rightarrow> (string \<times> json) list \<Rightarrow> (string \<times> json) list option" where
  "split_flag old first second ms =
     (case map_of ms old of
        None \<Rightarrow> Some ms
      | Some (JBool b) \<Rightarrow>
          (let ms1 = (if map_of ms first = None then set_member first (JBool b) ms else ms);
               ms2 = (if map_of ms1 second = None then set_member second (JBool b) ms1 else ms1)
           in Some (erase_member old ms2))
      | Some _ \<Rightarrow> None)"

fun migrate_device :: "json \<Rightarrow> json option" where
  "migrate_device (JObject ms) =
     do { ms' \<leftarrow> split_flag ''autoReconnect'' ''connectOnStartup'' ''reconnectOnConnectionLoss'' ms;
          Some (JObject ms') }"
| "migrate_device _ = None"

definition migrate_devices :: "(string \<times> json) list \<Rightarrow> (string \<times> json) list option" where
  "migrate_devices ms =
     (case map_of ms ''devices'' of
        None \<Rightarrow> Some ms
      | Some (JArray rows) \<Rightarrow>
          do { rows' \<leftarrow> traverse migrate_device rows; Some (set_member ''devices'' (JArray rows') ms) }
      | Some _ \<Rightarrow> None)"

definition migrate :: "(string \<times> json) list \<Rightarrow> (string \<times> json) list option" where
  "migrate ms =
     do { ms1 \<leftarrow> split_flag ''globalAutoReconnect'' ''globalConnectOnStartup''
            ''globalReconnectOnConnectionLoss'' ms;
          ms2 \<leftarrow> migrate_devices ms1;
          Some (set_member ''schemaVersion'' (JInteger c_schemaVersion)
            (erase_member ''lastNotifiedUpdateVersion''
              (erase_member ''lastUpdateCheckUnixSeconds'' ms2))) }"

definition DecodePersisted :: "json_lib \<Rightarrow> string \<Rightarrow> (SettingsData \<times> bool) option" where
  "DecodePersisted lib bytes =
     do { j \<leftarrow> ParseJson lib bytes;
          case j of
            JObject ms \<Rightarrow>
              if map_of ms ''schemaVersion'' \<noteq> None
              then do { d \<leftarrow> Decode lib bytes; Some (d, False) }
              else do { Object j c_legacyTopLevelKeys;
                        ms' \<leftarrow> migrate ms;
                        d \<leftarrow> Decode lib (lib_dump lib (JObject ms'));
                        Some (d, True) }
          | _ \<Rightarrow> None }"

subsection \<open>Encoding\<close>

definition encode_bounds :: "PersistedWindowBounds \<Rightarrow> json" where
  "encode_bounds b = JObject [(''dpi'', JInteger (int (unat (wbDpi b)))), (''height'', JInteger (sint (wbHeight b))),
     (''width'', JInteger (sint (wbWidth b))), (''x'', JInteger (sint (wbX b))), (''y'', JInteger (sint (wbY b)))]"

definition encode_prompt :: "json_lib \<Rightarrow> RatingPromptData \<Rightarrow> json" where
  "encode_prompt lib p = JObject [(''asked'', JBool (Asked p)),
     (''firstLaunchDate'', JString (to_string lib (FirstLaunchDate p))),
     (''lastUsageDate'', JString (to_string lib (LastUsageDate p))),
     (''usageDays'', JInteger (sint (UsageDays p)))]"

definition encode_device :: "json_lib \<Rightarrow> DeviceSettings \<Rightarrow> json" where
  "encode_device lib d = JObject [(''alias'', JString (to_string lib (dsAlias d))),
     (''connectOnStartup'', JBool (dsConnectOnStartup d)), (''id'', JString (to_string lib (dsId d))),
     (''name'', JString (to_string lib (dsName d))),
     (''reconnectOnConnectionLoss'', JBool (dsReconnectOnConnectionLoss d))]"

text \<open>The document, its members in the order the library keeps them.\<close>

definition document_members :: "json_lib \<Rightarrow> SettingsData \<Rightarrow> (string \<times> json) list" where
  "document_members lib data =
     [(''allowIncomingConnections'', JBool (AllowIncomingConnections data)),
      (''defaultDeviceId'', JString (to_string lib (DefaultDeviceId data))),
      (''defaultDeviceMode'',
        JString (if DefaultDevice data = SpecificDevice then ''specificDevice'' else ''lastConnected'')),
      (''devices'', JArray (map (encode_device lib) (Devices data))),
      (''globalConnectOnStartup'', JBool (GlobalConnectOnStartup data)),
      (''globalReconnectOnConnectionLoss'', JBool (GlobalReconnectOnConnectionLoss data)),
      (''language'', JString (to_string lib (Language data))),
      (''lastConnectedIds'', JArray (map (\<lambda>i. JString (to_string lib i)) (LastConnectedIds data))),
      (''privacyModeEnabled'', JBool (PrivacyModeEnabled data))] @
     (if RatingPrompt data \<noteq> default_prompt
      then [(''ratingPrompt'', encode_prompt lib (RatingPrompt data))] else []) @
     [(''schemaVersion'', JInteger c_schemaVersion)] @
     (case SettingsWindowBounds data of
        None \<Rightarrow> [] | Some b \<Rightarrow> [(''settingsWindowBounds'', encode_bounds b)]) @
     [(''showNotifications'', JBool (ShowNotifications data)),
      (''startWithWindows'', JBool (StartWithWindows data)),
      (''useSystemBackdropEffects'', JBool (UseSystemBackdropEffects data))]"

definition document :: "json_lib \<Rightarrow> SettingsData \<Rightarrow> json" where
  "document lib data = JObject (document_members lib data)"

definition Encode :: "json_lib \<Rightarrow> SettingsData \<Rightarrow> string option" where
  "Encode lib data =
     do { Require (IsPersistable data);
          let bytes = lib_dump lib (document lib data);
          Require (length bytes \<le> c_maxSettingsFileBytes);
          Some bytes }"

end
