(* ===== verification/Settings_Claims.thy ===== *)
theory Settings_Claims
  imports Settings_Codec
begin

section \<open>Settings survive a round trip\<close>

text \<open>
  What is decoded may be persisted, what is encoded is decoded back unchanged, and a document of the
  unversioned format becomes a current one. The assumptions on the JSON library and on the UTF-8
  conversions are collected in \<open>reads_back\<close>, for the one document a statement is about;
  \<open>faithful_on\<close> adds that the document fits into a settings file.
\<close>

definition prompt_ok :: "RatingPromptData \<Rightarrow> bool" where
  "prompt_ok p \<longleftrightarrow> sint (UsageDays p) \<ge> 0 \<and> date_ok (FirstLaunchDate p) \<and> date_ok (LastUsageDate p)"

definition texts :: "SettingsData \<Rightarrow> wstring set" where
  "texts d = {Language d, DefaultDeviceId d, FirstLaunchDate (RatingPrompt d), LastUsageDate (RatingPrompt d)} \<union>
     set (LastConnectedIds d) \<union> (\<Union>e \<in> set (Devices d). {dsId e, dsName e, dsAlias e})"

definition reads_back :: "json_lib \<Rightarrow> SettingsData \<Rightarrow> bool" where
  "reads_back lib d \<longleftrightarrow>
     lib_parse lib (lib_dump lib (document lib d)) = Some (document lib d) \<and>
     lib_dump lib (document lib d) \<noteq> [] \<and>
     (\<forall>s \<in> texts d. to_hstring lib (to_string lib s) = s) \<and>
     to_hstring lib ''lastConnected'' = L ''lastConnected'' \<and>
     to_hstring lib ''specificDevice'' = L ''specificDevice''"

definition faithful_on :: "json_lib \<Rightarrow> SettingsData \<Rightarrow> bool" where
  "faithful_on lib d \<longleftrightarrow> reads_back lib d \<and> length (lib_dump lib (document lib d)) \<le> c_maxSettingsFileBytes"

lemma Require_bind [simp]: "Require b \<bind> (\<lambda>_. x) = (if b then x else None)"
  by (simp add: Require_def)

lemma Require_eq [simp]: "Require b = Some u \<longleftrightarrow> b"
  by (cases u) (simp add: Require_def)

subsection \<open>Lookups in the document\<close>

lemma document_lookup:
  "map_of (document_members lib d) ''schemaVersion'' = Some (JInteger c_schemaVersion)"
  "map_of (document_members lib d) ''globalConnectOnStartup'' = Some (JBool (GlobalConnectOnStartup d))"
  "map_of (document_members lib d) ''globalReconnectOnConnectionLoss'' =
     Some (JBool (GlobalReconnectOnConnectionLoss d))"
  "map_of (document_members lib d) ''allowIncomingConnections'' = Some (JBool (AllowIncomingConnections d))"
  "map_of (document_members lib d) ''startWithWindows'' = Some (JBool (StartWithWindows d))"
  "map_of (document_members lib d) ''showNotifications'' = Some (JBool (ShowNotifications d))"
  "map_of (document_members lib d) ''useSystemBackdropEffects'' = Some (JBool (UseSystemBackdropEffects d))"
  "map_of (document_members lib d) ''privacyModeEnabled'' = Some (JBool (PrivacyModeEnabled d))"
  "map_of (document_members lib d) ''language'' = Some (JString (to_string lib (Language d)))"
  "map_of (document_members lib d) ''defaultDeviceMode'' =
     Some (JString (if DefaultDevice d = SpecificDevice then ''specificDevice'' else ''lastConnected''))"
  "map_of (document_members lib d) ''defaultDeviceId'' = Some (JString (to_string lib (DefaultDeviceId d)))"
  "map_of (document_members lib d) ''settingsWindowBounds'' = map_option encode_bounds (SettingsWindowBounds d)"
  "map_of (document_members lib d) ''devices'' = Some (JArray (map (encode_device lib) (Devices d)))"
  "map_of (document_members lib d) ''lastConnectedIds'' =
     Some (JArray (map (\<lambda>i. JString (to_string lib i)) (LastConnectedIds d)))"
  "map_of (document_members lib d) ''ratingPrompt'' =
     (if RatingPrompt d = default_prompt then None else Some (encode_prompt lib (RatingPrompt d)))"
  by (simp_all add: document_members_def split: option.split)

lemma document_keys: "\<forall>(key, ignored) \<in> set (document_members lib d). key \<in> set c_topLevelKeys"
  by (auto simp: document_members_def c_topLevelKeys_def split: option.splits if_splits)

lemma document_distinct: "distinct (map fst (document_members lib d))"
  by (simp add: document_members_def split: option.split)

lemma document_callback_ok: "callback_ok 0 (document lib d)"
  unfolding document_def
  by (auto simp: document_distinct) (auto simp: document_members_def encode_device_def encode_prompt_def
      encode_bounds_def split: option.splits if_splits)

subsection \<open>Decoding the parts\<close>

lemma Integer_sint:
  assumes "map_of ms key = Some (JInteger (sint w))"
  shows "Integer (JObject ms) key fallback = Some w"
proof -
  have "- 2147483648 \<le> sint w" "sint w \<le> 2147483647"
    using sint_ge [of w] sint_lt [of w] by simp_all
  then show ?thesis using assms by (simp add: Integer_def)
qed

lemma Integer_unat:
  assumes "map_of ms key = Some (JInteger (int (unat w)))" "w \<le> c_maxWindowDpi"
  shows "Integer (JObject ms) key fallback = Some w"
  using assms by (simp add: Integer_def word_le_def c_maxWindowDpi_def)

lemma decode_encode_bounds:
  assumes "bounds_persistable b"
  shows "member j ''settingsWindowBounds'' = Some (encode_bounds b) \<Longrightarrow> decode_bounds j = Some (Some b)"
proof -
  have dpi: "wbDpi b \<le> c_maxWindowDpi" "48 \<le> uint (wbDpi b)" "uint (wbDpi b) \<le> 960"
    using assms by (auto simp: bounds_persistable_def c_minWindowDpi_def c_maxWindowDpi_def word_le_def
        word_less_def not_less not_le)
  then have pos: "0 < sint (wbDpi b)"
    by (simp add: sint_uint signed_take_bit_int_eq_self)
  assume "member j ''settingsWindowBounds'' = Some (encode_bounds b)"
  then show ?thesis
    using dpi(1) pos
    by (simp add: decode_bounds_def encode_bounds_def c_windowBoundsKeys_def Integer_sint Integer_unat)
qed

lemma decode_encode_device:
  "to_hstring lib (to_string lib (dsId d)) = dsId d \<Longrightarrow> to_hstring lib (to_string lib (dsName d)) = dsName d \<Longrightarrow>
     to_hstring lib (to_string lib (dsAlias d)) = dsAlias d \<Longrightarrow>
     decode_device lib (encode_device lib d) = Some d"
  by (simp add: decode_device_def encode_device_def Text_def value_bool_def c_deviceKeys_def)

lemma traverse_map: "(\<And>x. x \<in> set xs \<Longrightarrow> f (g x) = Some x) \<Longrightarrow> traverse f (map g xs) = Some xs"
  by (induction xs) auto

lemma decode_encode_prompt:
  assumes "prompt_ok p" "to_hstring lib (to_string lib (FirstLaunchDate p)) = FirstLaunchDate p"
    "to_hstring lib (to_string lib (LastUsageDate p)) = LastUsageDate p"
  shows "member j ''ratingPrompt'' = Some (encode_prompt lib p) \<Longrightarrow> decode_prompt lib j = Some p"
  using assms
  by (simp add: decode_prompt_def encode_prompt_def c_ratingPromptKeys_def Text_def value_bool_def prompt_ok_def
      Integer_sint)

lemma device_texts: "e \<in> set (Devices d) \<Longrightarrow> dsId e \<in> texts d \<and> dsName e \<in> texts d \<and> dsAlias e \<in> texts d"
  by (auto simp: texts_def)

lemma settings_eta [simp]:
  "\<lparr>GlobalConnectOnStartup = GlobalConnectOnStartup d,
    GlobalReconnectOnConnectionLoss = GlobalReconnectOnConnectionLoss d,
    AllowIncomingConnections = AllowIncomingConnections d, StartWithWindows = StartWithWindows d,
    ShowNotifications = ShowNotifications d, UseSystemBackdropEffects = UseSystemBackdropEffects d,
    Language = Language d, SettingsWindowBounds = SettingsWindowBounds d,
    PrivacyModeEnabled = PrivacyModeEnabled d, DefaultDevice = DefaultDevice d,
    DefaultDeviceId = DefaultDeviceId d, Devices = Devices d, LastConnectedIds = LastConnectedIds d,
    RatingPrompt = RatingPrompt d\<rparr> = d"
  by simp

lemma decode_document:
  assumes persist: "IsPersistable d" and prompt: "prompt_ok (RatingPrompt d)" and lib: "reads_back lib d"
  shows "decode_json lib (document lib d) = Some d"
proof -
  have conv: "s \<in> texts d \<Longrightarrow> to_hstring lib (to_string lib s) = s" for s
    using lib by (simp add: reads_back_def)
  have count: "length (Devices d) \<le> c_maxPersistedDeviceCount" "length (LastConnectedIds d) \<le> c_maxPersistedDeviceCount"
    using persist by (auto simp: IsPersistable_def split: if_splits)
  have bounds: "decode_bounds (document lib d) = Some (SettingsWindowBounds d)"
  proof (cases "SettingsWindowBounds d")
    case None
    then show ?thesis by (simp add: decode_bounds_def document_def document_lookup)
  next
    case (Some b)
    moreover from this have "bounds_persistable b"
      using persist by (auto simp: IsPersistable_def split: if_splits)
    ultimately show ?thesis by (simp add: decode_encode_bounds document_def document_lookup)
  qed
  have devices: "traverse (decode_device lib) (map (encode_device lib) (Devices d)) = Some (Devices d)"
    by (rule traverse_map, rule decode_encode_device) (simp_all add: conv device_texts)
  have ids: "traverse (decode_id lib) (map (\<lambda>i. JString (to_string lib i)) (LastConnectedIds d)) =
      Some (LastConnectedIds d)"
    by (rule traverse_map) (simp add: conv texts_def)
  have rating: "decode_prompt lib (document lib d) = Some (RatingPrompt d)"
  proof (cases "RatingPrompt d = default_prompt")
    case True
    then show ?thesis by (simp add: decode_prompt_def document_def document_lookup)
  next
    case False
    then show ?thesis
      by (intro decode_encode_prompt prompt conv) (auto simp: texts_def document_def document_lookup)
  qed
  have mode: "decode_mode lib (document lib d) = Some (DefaultDevice d)"
    using lib by (cases "DefaultDevice d")
      (simp_all add: decode_mode_def Text_def document_def document_lookup reads_back_def L_def)
  show ?thesis
    using bounds devices ids rating mode persist count conv [of "Language d"] conv [of "DefaultDeviceId d"]
    unfolding decode_json_def document_def
    by (simp add: document_lookup document_keys Text_def value_bool_def Array_def Integer_def
        c_schemaVersion_def texts_def Let_def)
qed

lemma decode_prompt_sound: "decode_prompt lib j = Some p \<Longrightarrow> prompt_ok p"
  by (auto simp: decode_prompt_def prompt_ok_def default_prompt_def date_ok_def Option.bind_eq_Some_conv
      split: option.splits if_splits)

lemma decode_json_sound:
  "decode_json lib j = Some d \<Longrightarrow> IsPersistable d \<and> prompt_ok (RatingPrompt d)"
  by (auto simp: decode_json_def Option.bind_eq_Some_conv Let_def dest: decode_prompt_sound split: if_splits)

lemma Decode_sound: "Decode lib bytes = Some d \<Longrightarrow> IsPersistable d \<and> prompt_ok (RatingPrompt d)"
  by (auto simp: Decode_def Option.bind_eq_Some_conv dest: decode_json_sound)

lemma DecodePersisted_sound:
  "DecodePersisted lib bytes = Some (d, rewrite) \<Longrightarrow> IsPersistable d \<and> prompt_ok (RatingPrompt d)"
proof -
  assume "DecodePersisted lib bytes = Some (d, rewrite)"
  then obtain j where j: "ParseJson lib bytes = Some j"
    by (auto simp: DecodePersisted_def Option.bind_eq_Some_conv)
  then obtain ms where "ParseJson lib bytes = Some (JObject ms)"
    using \<open>DecodePersisted lib bytes = Some (d, rewrite)\<close> by (cases j) (auto simp: DecodePersisted_def)
  with \<open>DecodePersisted lib bytes = Some (d, rewrite)\<close> show ?thesis
    by (auto simp: DecodePersisted_def Option.bind_eq_Some_conv dest: Decode_sound split: if_splits)
qed

lemma ParseJson_document:
  "faithful_on lib d \<Longrightarrow> ParseJson lib (lib_dump lib (document lib d)) = Some (document lib d)"
  by (simp add: ParseJson_def faithful_on_def reads_back_def document_callback_ok)

lemma DecodePersisted_document:
  assumes "faithful_on lib d"
  shows "DecodePersisted lib (lib_dump lib (document lib d)) =
           map_option (\<lambda>e. (e, False)) (Decode lib (lib_dump lib (document lib d)))"
  by (simp add: DecodePersisted_def ParseJson_document [OF assms] map_conv_bind_option comp_def)
    (simp add: document_def document_lookup)

lemma Encode_iff:
  "Encode lib d = Some bytes \<longleftrightarrow> IsPersistable d \<and> length bytes \<le> c_maxSettingsFileBytes \<and>
     bytes = lib_dump lib (document lib d)"
  by (auto simp: Encode_def Let_def split: if_splits)

lemma decode_encoded:
  assumes "IsPersistable d" "prompt_ok (RatingPrompt d)" "faithful_on lib d"
  shows "Encode lib d = Some (lib_dump lib (document lib d))"
    and "Decode lib (lib_dump lib (document lib d)) = Some d"
    and "DecodePersisted lib (lib_dump lib (document lib d)) = Some (d, False)"
proof -
  show "Encode lib d = Some (lib_dump lib (document lib d))"
    using assms by (simp add: Encode_iff faithful_on_def)
  show *: "Decode lib (lib_dump lib (document lib d)) = Some d"
    using assms by (simp add: Decode_def ParseJson_document decode_document faithful_on_def)
  show "DecodePersisted lib (lib_dump lib (document lib d)) = Some (d, False)"
    by (simp add: DecodePersisted_document [OF assms(3)] *)
qed

text \<open>The encoder does not check the rating prompt; the decoder does.\<close>

lemma bad_prompt_rejected:
  assumes "\<not> prompt_ok (RatingPrompt d)" "faithful_on lib d"
  shows "Decode lib (lib_dump lib (document lib d)) = None"
proof -
  have "RatingPrompt d \<noteq> default_prompt"
    using assms(1) by (auto simp: prompt_ok_def default_prompt_def date_ok_def)
  then have "decode_prompt lib (document lib d) = None"
    using assms
    by (simp add: decode_prompt_def document_def document_lookup)
      (auto simp: encode_prompt_def Integer_sint Text_def prompt_ok_def faithful_on_def reads_back_def texts_def
        value_bool_def c_ratingPromptKeys_def)
  then have "decode_json lib (document lib d) \<noteq> Some e" for e
    by (auto simp: decode_json_def Option.bind_eq_Some_conv)
  then show ?thesis
    using assms(2) by (auto simp: Decode_def ParseJson_document not_Some_eq [symmetric] simp del: not_Some_eq)
qed

subsection \<open>Migration\<close>

lemma map_of_set_member:
  "map_of (set_member key v ms) k = (if k = key then Some v else map_of ms k)"
  by (induction ms) auto

lemma map_of_erase: "map_of (erase_member key ms) k = (if k = key then None else map_of ms k)"
  by (induction ms) (auto simp: erase_member_def)

lemmas object_simps = map_of_set_member map_of_erase

text \<open>The value of a flag after the migration: the flag itself where the file has it, the old combined flag where it
  has not, and otherwise the default.\<close>

definition flag_after :: "(string \<times> json) list \<Rightarrow> string \<Rightarrow> string \<Rightarrow> bool" where
  "flag_after ms flag combined \<longleftrightarrow>
     (case map_of ms flag of Some v \<Rightarrow> v = JBool True | None \<Rightarrow> map_of ms combined = Some (JBool True))"

definition members_of :: "json \<Rightarrow> (string \<times> json) list" where
  "members_of j = (case j of JObject ms \<Rightarrow> ms | _ \<Rightarrow> [])"

text \<open>A row of the old device table and the device it becomes.\<close>

definition device_migrated :: "json_lib \<Rightarrow> json \<Rightarrow> DeviceSettings \<Rightarrow> bool" where
  "device_migrated lib row e \<longleftrightarrow>
     Text lib row ''id'' [] = Some (dsId e) \<and> Text lib row ''name'' [] = Some (dsName e) \<and>
     Text lib row ''alias'' [] = Some (dsAlias e) \<and>
     dsConnectOnStartup e = flag_after (members_of row) ''connectOnStartup'' ''autoReconnect'' \<and>
     dsReconnectOnConnectionLoss e = flag_after (members_of row) ''reconnectOnConnectionLoss'' ''autoReconnect''"

text \<open>The fields that the migration does not concern are decoded from the old document itself.\<close>

definition others_kept :: "json_lib \<Rightarrow> json \<Rightarrow> SettingsData \<Rightarrow> bool" where
  "others_kept lib j d \<longleftrightarrow>
     value_bool j ''allowIncomingConnections'' False = Some (AllowIncomingConnections d) \<and>
     value_bool j ''startWithWindows'' False = Some (StartWithWindows d) \<and>
     value_bool j ''showNotifications'' True = Some (ShowNotifications d) \<and>
     value_bool j ''useSystemBackdropEffects'' True = Some (UseSystemBackdropEffects d) \<and>
     value_bool j ''privacyModeEnabled'' False = Some (PrivacyModeEnabled d) \<and>
     Text lib j ''language'' (L ''system'') = Some (Language d) \<and>
     decode_mode lib j = Some (DefaultDevice d) \<and>
     Text lib j ''defaultDeviceId'' [] = Some (DefaultDeviceId d) \<and>
     decode_bounds j = Some (SettingsWindowBounds d) \<and>
     Array j ''lastConnectedIds'' \<bind> traverse (decode_id lib) = Some (LastConnectedIds d) \<and>
     decode_prompt lib j = Some (RatingPrompt d)"

lemma traverse_iff: "traverse f xs = Some ys \<longleftrightarrow> list_all2 (\<lambda>x y. f x = Some y) xs ys"
proof (induction xs arbitrary: ys)
  case (Cons x xs)
  then show ?case by (cases ys) (auto simp: Option.bind_eq_Some_conv list_all2_Cons1)
qed auto

lemma split_flag_lookup:
  assumes "split_flag old first second ms = Some ms'" "first \<noteq> second" "old \<noteq> first" "old \<noteq> second"
  shows "map_of ms' key = (if key = old then None
     else if (key = first \<or> key = second) \<and> map_of ms key = None then map_of ms old else map_of ms key)"
  using assms
  by (auto simp: split_flag_def Let_def object_simps split: option.splits json.splits if_splits)

lemma split_flag_value:
  assumes "split_flag old first second ms = Some ms'" "first \<noteq> second" "old \<noteq> first" "old \<noteq> second"
    and "key = first \<or> key = second" "map_of ms'' key = map_of ms' key"
    and "value_bool (JObject ms'') key False = Some b"
  shows "b = flag_after ms key old"
  using split_flag_lookup [OF assms(1-4), of key] assms(3-7)
  by (auto simp: value_bool_def flag_after_def split: option.splits json.splits if_splits)

lemma migrate_device_decoded:
  assumes "migrate_device row = Some row'" "decode_device lib row' = Some e"
  shows "device_migrated lib row e"
proof -
  obtain ms ms' where ms: "row = JObject ms" "row' = JObject ms'"
      "split_flag ''autoReconnect'' ''connectOnStartup'' ''reconnectOnConnectionLoss'' ms = Some ms'"
    using assms(1) by (cases row) (auto simp: Option.bind_eq_Some_conv)
  note lookup = split_flag_lookup [OF ms(3)]
  have "value_bool row' ''connectOnStartup'' False = Some (dsConnectOnStartup e)"
      "value_bool row' ''reconnectOnConnectionLoss'' False = Some (dsReconnectOnConnectionLoss e)"
      "Text lib row' ''id'' [] = Some (dsId e)" "Text lib row' ''name'' [] = Some (dsName e)"
      "Text lib row' ''alias'' [] = Some (dsAlias e)"
    using assms(2) by (auto simp: decode_device_def Option.bind_eq_Some_conv)
  then show ?thesis
    using split_flag_value [OF ms(3), of "''connectOnStartup''" ms'] split_flag_value [OF ms(3), of "''reconnectOnConnectionLoss''" ms']
    by (simp add: device_migrated_def members_of_def ms Text_def lookup)
qed

lemma migrate_devices_rows:
  assumes "migrate_devices ms = Some ms'" "Array (JObject ms') ''devices'' = Some rows'"
  shows "\<exists>rows. Array (JObject ms) ''devices'' = Some rows \<and> traverse migrate_device rows = Some rows'"
  using assms
  by (auto simp: migrate_devices_def Array_def object_simps Option.bind_eq_Some_conv traverse_iff
      dest: list_all2_lengthD split: option.splits json.splits if_splits)

lemma migrate_devices_lookup:
  "migrate_devices ms = Some ms' \<Longrightarrow> key \<noteq> ''devices'' \<Longrightarrow> map_of ms' key = map_of ms key"
  by (auto simp: migrate_devices_def object_simps Option.bind_eq_Some_conv split: option.splits json.splits)

lemma decode_migrated:
  assumes "migrate ms = Some ms'" "decode_json lib (JObject ms') = Some d"
  shows "GlobalConnectOnStartup d = flag_after ms ''globalConnectOnStartup'' ''globalAutoReconnect'' \<and>
         GlobalReconnectOnConnectionLoss d = flag_after ms ''globalReconnectOnConnectionLoss'' ''globalAutoReconnect'' \<and>
         (\<exists>rows. Array (JObject ms) ''devices'' = Some rows \<and> list_all2 (device_migrated lib) rows (Devices d)) \<and>
         others_kept lib (JObject ms) d"
proof -
  obtain ms1 ms2 where split: "split_flag ''globalAutoReconnect'' ''globalConnectOnStartup''
        ''globalReconnectOnConnectionLoss'' ms = Some ms1" and devices: "migrate_devices ms1 = Some ms2"
      and ms': "ms' = set_member ''schemaVersion'' (JInteger c_schemaVersion)
        (erase_member ''lastNotifiedUpdateVersion'' (erase_member ''lastUpdateCheckUnixSeconds'' ms2))"
    using assms(1) by (auto simp: migrate_def Option.bind_eq_Some_conv)
  have same: "map_of ms' key = map_of ms1 key"
    if "key \<noteq> ''devices''" "key \<noteq> ''schemaVersion''" "key \<noteq> ''lastNotifiedUpdateVersion''"
      "key \<noteq> ''lastUpdateCheckUnixSeconds''" for key
    using that migrate_devices_lookup [OF devices] by (simp add: ms' object_simps)
  have rows2: "Array (JObject ms') ''devices'' = Array (JObject ms2) ''devices''"
    by (simp add: ms' Array_def object_simps)
  have rows1: "Array (JObject ms1) ''devices'' = Array (JObject ms) ''devices''"
    by (simp add: Array_def split_flag_lookup [OF split])
  have kept: "map_of ms1 key = map_of ms key"
    if "key \<noteq> ''globalAutoReconnect''" "key \<noteq> ''globalConnectOnStartup''" "key \<noteq> ''globalReconnectOnConnectionLoss''" for key
    using that by (simp add: split_flag_lookup [OF split])
  have flags: "value_bool (JObject ms') ''globalConnectOnStartup'' False = Some (GlobalConnectOnStartup d)"
      "value_bool (JObject ms') ''globalReconnectOnConnectionLoss'' False = Some (GlobalReconnectOnConnectionLoss d)"
    using assms(2) by (auto simp: decode_json_def Option.bind_eq_Some_conv Let_def split: if_splits)
  obtain rows' where rows': "Array (JObject ms') ''devices'' = Some rows'"
      "traverse (decode_device lib) rows' = Some (Devices d)"
    using assms(2) by (auto simp: decode_json_def Option.bind_eq_Some_conv Let_def split: if_splits)
  obtain rows where rows: "Array (JObject ms) ''devices'' = Some rows" "traverse migrate_device rows = Some rows'"
    using migrate_devices_rows [OF devices, of rows'] rows'(1) rows1 rows2 by auto
  have "list_all2 (device_migrated lib) rows (Devices d)"
    using rows(2) rows'(2) unfolding traverse_iff
    by (rule list_all2_trans [rotated]) (rule migrate_device_decoded)
  moreover have "others_kept lib (JObject ms') d"
    using assms(2) by (auto simp: decode_json_def others_kept_def Option.bind_eq_Some_conv Let_def split: if_splits)
  then have "others_kept lib (JObject ms) d"
    by (simp add: others_kept_def value_bool_def Text_def decode_mode_def decode_bounds_def Array_def decode_prompt_def same kept)
  moreover have "GlobalConnectOnStartup d = flag_after ms ''globalConnectOnStartup'' ''globalAutoReconnect''"
    by (rule split_flag_value [OF split _ _ _ _ same flags(1)]) simp_all
  moreover have "GlobalReconnectOnConnectionLoss d = flag_after ms ''globalReconnectOnConnectionLoss'' ''globalAutoReconnect''"
    by (rule split_flag_value [OF split _ _ _ _ same flags(2)]) simp_all
  ultimately show ?thesis using rows(1) by blast
qed

subsection \<open>A sample file\<close>

text \<open>A library that knows two documents: a current one and one of the unversioned format.\<close>

definition narrow :: "wstring \<Rightarrow> string" where "narrow s = map (\<lambda>w. char_of (unat w)) s"

definition text_lib :: json_lib where
  "text_lib = \<lparr>lib_parse = (\<lambda>_. None), lib_dump = (\<lambda>_. ''doc''), to_hstring = L, to_string = narrow\<rparr>"

definition sample_settings :: SettingsData where
  "sample_settings = default_settings\<lparr>PrivacyModeEnabled := True,
     SettingsWindowBounds := Some \<lparr>wbX = - 5, wbY = 7, wbWidth = 640, wbHeight = 480, wbDpi = 96\<rparr>,
     DefaultDevice := SpecificDevice, DefaultDeviceId := L ''a'',
     Devices := [\<lparr>dsId = L ''a'', dsName = L ''Phone'', dsAlias = [], dsConnectOnStartup = True,
       dsReconnectOnConnectionLoss = False\<rparr>],
     LastConnectedIds := [L ''a''],
     RatingPrompt := \<lparr>FirstLaunchDate = L ''2024-02-29'', UsageDays = 3, LastUsageDate = [], Asked = False\<rparr>\<rparr>"

definition sample_lib :: json_lib where
  "sample_lib = text_lib\<lparr>lib_parse := (\<lambda>_. Some (document text_lib sample_settings))\<rparr>"

lemma document_text_lib:
  "to_string lib = to_string lib' \<Longrightarrow> document lib d = document lib' d"
  by (simp add: document_def document_members_def encode_device_def [abs_def] encode_prompt_def)

lemma sample_persistable: "IsPersistable sample_settings"
  by (simp add: sample_settings_def default_settings_def IsPersistable_def limit_constants IsSupportedLanguage_def
      IsBoundedUtf16_def L_def is_high_def is_low_def bounds_persistable_def)

lemma sample_prompt: "prompt_ok (RatingPrompt sample_settings)"
  by (simp add: sample_settings_def prompt_ok_def date_ok_def L_def is_digit_def digit_of_def ymd_ok_def
      days_in_month_def is_leap_def Let_def nth_Cons')

lemma sample_faithful: "faithful_on sample_lib sample_settings"
proof -
  have "document sample_lib sample_settings = document text_lib sample_settings"
    by (rule document_text_lib) (simp add: sample_lib_def)
  moreover have "\<forall>s \<in> texts sample_settings. L (narrow s) = s"
    by (simp add: texts_def sample_settings_def default_settings_def default_prompt_def narrow_def L_def)
  ultimately show ?thesis
    by (simp add: faithful_on_def reads_back_def) (simp add: sample_lib_def text_lib_def c_maxSettingsFileBytes_def)
qed

text \<open>Persistable settings whose usage count is negative.\<close>

definition undated_settings :: SettingsData where
  "undated_settings = default_settings\<lparr>RatingPrompt := default_prompt\<lparr>UsageDays := - 1\<rparr>\<rparr>"

definition undated_lib :: json_lib where
  "undated_lib = text_lib\<lparr>lib_parse := (\<lambda>_. Some (document text_lib undated_settings))\<rparr>"

lemma undated_persistable: "IsPersistable undated_settings"
  by (simp add: undated_settings_def default_settings_def IsPersistable_def limit_constants IsSupportedLanguage_def
      IsBoundedUtf16_def)

lemma undated_prompt: "\<not> prompt_ok (RatingPrompt undated_settings)"
  by (simp add: undated_settings_def prompt_ok_def default_prompt_def)

lemma undated_faithful: "faithful_on undated_lib undated_settings"
proof -
  have "document undated_lib undated_settings = document text_lib undated_settings"
    by (rule document_text_lib) (simp add: undated_lib_def)
  moreover have "\<forall>s \<in> texts undated_settings. L (narrow s) = s"
    by (simp add: texts_def undated_settings_def default_settings_def default_prompt_def narrow_def L_def)
  ultimately show ?thesis
    by (simp add: faithful_on_def reads_back_def) (simp add: undated_lib_def text_lib_def c_maxSettingsFileBytes_def)
qed

subsection \<open>A sample file of the unversioned format\<close>

definition old_members :: "(string \<times> json) list" where
  "old_members =
     [(''devices'', JArray [JObject [(''alias'', JString ''Desk''), (''autoReconnect'', JBool True),
        (''connectOnStartup'', JBool False), (''id'', JString ''phone'')]]),
      (''globalAutoReconnect'', JBool True), (''globalConnectOnStartup'', JBool False),
      (''language'', JString ''de''), (''lastUpdateCheckUnixSeconds'', JInteger 123)]"

definition new_members :: "(string \<times> json) list" where
  "new_members =
     [(''devices'', JArray [JObject [(''alias'', JString ''Desk''), (''connectOnStartup'', JBool False),
        (''id'', JString ''phone''), (''reconnectOnConnectionLoss'', JBool True)]]),
      (''globalConnectOnStartup'', JBool False), (''globalReconnectOnConnectionLoss'', JBool True),
      (''language'', JString ''de''), (''schemaVersion'', JInteger 2)]"

definition migrated_settings :: SettingsData where
  "migrated_settings = default_settings\<lparr>GlobalReconnectOnConnectionLoss := True, Language := L ''de'',
     Devices := [\<lparr>dsId = L ''phone'', dsName = [], dsAlias = L ''Desk'', dsConnectOnStartup = False,
       dsReconnectOnConnectionLoss = True\<rparr>]\<rparr>"

definition old_lib :: json_lib where
  "old_lib = text_lib\<lparr>lib_parse := (\<lambda>s. if s = ''old'' then Some (JObject old_members)
       else if s = ''new'' then Some (JObject new_members)
       else Some (document text_lib migrated_settings)),
     lib_dump := (\<lambda>j. if j = JObject new_members then ''new'' else ''doc'')\<rparr>"

lemma migrate_old: "migrate old_members = Some new_members"
  by (simp add: migrate_def old_members_def new_members_def split_flag_def migrate_devices_def Let_def
      erase_member_def c_schemaVersion_def)

lemma migrated_persistable: "IsPersistable migrated_settings"
  by (simp add: migrated_settings_def default_settings_def IsPersistable_def limit_constants IsSupportedLanguage_def
      IsBoundedUtf16_def L_def is_high_def is_low_def)

lemma old_faithful: "faithful_on old_lib migrated_settings"
proof -
  have "document old_lib migrated_settings = document text_lib migrated_settings"
    by (rule document_text_lib) (simp add: old_lib_def)
  moreover have "document text_lib migrated_settings \<noteq> JObject new_members"
    by (simp add: document_def document_members_def new_members_def)
  moreover have "\<forall>s \<in> texts migrated_settings. L (narrow s) = s"
    by (simp add: texts_def migrated_settings_def default_settings_def default_prompt_def narrow_def L_def)
  ultimately show ?thesis
    by (simp add: faithful_on_def reads_back_def) (simp add: old_lib_def text_lib_def c_maxSettingsFileBytes_def)
qed

lemma old_parsed: "ParseJson old_lib ''old'' = Some (JObject old_members)"
  by (simp add: ParseJson_def old_lib_def old_members_def c_maxSettingsFileBytes_def)

lemma old_decoded: "DecodePersisted old_lib ''old'' = Some (migrated_settings, True)"
proof -
  have conv: "to_hstring old_lib = L" by (simp add: old_lib_def text_lib_def)
  have modes: "L ''lastConnected'' \<noteq> L ''specificDevice''" by (simp add: L_def)
  have row: "decode_device old_lib (JObject [(''alias'', JString ''Desk''), (''connectOnStartup'', JBool False),
        (''id'', JString ''phone''), (''reconnectOnConnectionLoss'', JBool True)]) =
      Some \<lparr>dsId = L ''phone'', dsName = [], dsAlias = L ''Desk'', dsConnectOnStartup = False,
        dsReconnectOnConnectionLoss = True\<rparr>"
    by (simp add: decode_device_def c_deviceKeys_def Text_def value_bool_def conv)
  have "decode_json old_lib (JObject new_members) =
      do { Require (IsPersistable migrated_settings); Some migrated_settings }"
    unfolding migrated_settings_def default_settings_def
    by (simp add: decode_json_def new_members_def c_topLevelKeys_def Integer_def c_schemaVersion_def
        value_bool_def Text_def decode_mode_def decode_bounds_def Array_def decode_prompt_def Let_def conv row modes
        c_maxPersistedDeviceCount_def)
  then have "decode_json old_lib (JObject new_members) = Some migrated_settings" by (simp add: migrated_persistable)
  moreover have "ParseJson old_lib (lib_dump old_lib (JObject new_members)) = Some (JObject new_members)"
    by (simp add: ParseJson_def old_lib_def c_maxSettingsFileBytes_def) (simp add: new_members_def)
  ultimately show ?thesis
    by (simp add: DecodePersisted_def old_parsed migrate_old Decode_def)
      (simp add: old_members_def c_legacyTopLevelKeys_def)
qed

subsection \<open>The claims\<close>

text \<open>C34: the encoder writes exactly the settings that may be persisted and whose document fits into a settings
  file. What it wrote is read back unchanged, by the strict and by the tolerant decoder and without a request to
  rewrite the file, if and only if the usage count of the rating prompt is not negative and its two dates are empty or
  calendar days; these the encoder does not check, and both decoders refuse the file otherwise. Assumed of the JSON
  library and the UTF-8 conversions: they give back this document and these texts.\<close>

theorem settings_roundtrip:
  assumes "reads_back lib d"
  shows "((\<exists>bytes. Encode lib d = Some bytes) \<longleftrightarrow>
            IsPersistable d \<and> length (lib_dump lib (document lib d)) \<le> c_maxSettingsFileBytes) \<and>
         (\<forall>bytes. Encode lib d = Some bytes \<longrightarrow>
            (if sint (UsageDays (RatingPrompt d)) \<ge> 0 \<and> date_ok (FirstLaunchDate (RatingPrompt d)) \<and>
                date_ok (LastUsageDate (RatingPrompt d))
             then Decode lib bytes = Some d \<and> DecodePersisted lib bytes = Some (d, False)
             else Decode lib bytes = None \<and> DecodePersisted lib bytes = None))"
proof (intro conjI allI impI)
  show "(\<exists>bytes. Encode lib d = Some bytes) \<longleftrightarrow>
      IsPersistable d \<and> length (lib_dump lib (document lib d)) \<le> c_maxSettingsFileBytes"
    by (simp add: Encode_iff)
next
  fix bytes assume "Encode lib d = Some bytes"
  then have wrote: "IsPersistable d" "faithful_on lib d" "bytes = lib_dump lib (document lib d)"
    using assms by (auto simp: Encode_iff faithful_on_def)
  show "if sint (UsageDays (RatingPrompt d)) \<ge> 0 \<and> date_ok (FirstLaunchDate (RatingPrompt d)) \<and>
      date_ok (LastUsageDate (RatingPrompt d))
    then Decode lib bytes = Some d \<and> DecodePersisted lib bytes = Some (d, False)
    else Decode lib bytes = None \<and> DecodePersisted lib bytes = None"
    using decode_encoded [OF wrote(1) _ wrote(2)] bad_prompt_rejected [OF _ wrote(2)]
    unfolding wrote(3) prompt_ok_def [symmetric] by (simp add: DecodePersisted_document [OF wrote(2)])
qed

theorem settings_roundtrip_witness:
  "(\<exists>bytes. Encode sample_lib sample_settings = Some bytes \<and> Decode sample_lib bytes = Some sample_settings \<and>
      DecodePersisted sample_lib bytes = Some (sample_settings, False)) \<and>
   (\<exists>bytes. Encode undated_lib undated_settings = Some bytes \<and> Decode undated_lib bytes = None)"
proof -
  have good: "reads_back sample_lib sample_settings" "reads_back undated_lib undated_settings"
    using sample_faithful undated_faithful by (simp_all add: faithful_on_def)
  have "\<exists>bytes. Encode sample_lib sample_settings = Some bytes" "\<exists>bytes. Encode undated_lib undated_settings = Some bytes"
    using settings_roundtrip [OF good(1)] settings_roundtrip [OF good(2)] sample_persistable undated_persistable
      sample_faithful undated_faithful by (simp_all add: faithful_on_def)
  then show ?thesis
    using settings_roundtrip [OF good(1)] settings_roundtrip [OF good(2)] sample_prompt undated_prompt
    unfolding prompt_ok_def by meson
qed

text \<open>Whatever the bytes are and whatever the library makes of them, decoded settings are within the
  persistence limits: at most 384 devices with distinct bounded identifiers, a supported language, a default
  device exactly in specific-device mode, and rating dates that are calendar days.\<close>

theorem decoded_settings_persistable:
  assumes "DecodePersisted lib bytes = Some (d, rewrite)"
  shows "length (Devices d) \<le> 384 \<and> distinct (map dsId (Devices d)) \<and>
         (\<forall>e \<in> set (Devices d). dsId e \<noteq> [] \<and> IsBoundedUtf16 (dsId e) 512) \<and>
         length (LastConnectedIds d) \<le> 384 \<and> distinct (LastConnectedIds d) \<and>
         IsSupportedLanguage (Language d) \<and>
         (DefaultDevice d = SpecificDevice \<longleftrightarrow> DefaultDeviceId d \<noteq> []) \<and>
         date_ok (FirstLaunchDate (RatingPrompt d)) \<and> sint (UsageDays (RatingPrompt d)) \<ge> 0"
  using DecodePersisted_sound [OF assms]
  by (auto simp: IsPersistable_def persistable_iff limit_constants prompt_ok_def split: if_splits)

theorem decoded_settings_persistable_witness:
  "IsSupportedLanguage (Language migrated_settings) \<and> length (Devices migrated_settings) \<le> 384"
  using decoded_settings_persistable [OF old_decoded] by simp

text \<open>C35: whenever a file without a schema version loads, its rewrite is requested; each reconnect flag, global or of a
  device, is the file's own where it has one, else the file's old combined flag, else off; the devices keep their order
  and their texts, and every other field is the one the current decoder reads in the old document. A file that is
  written for these settings decodes to them again and asks for no rewrite. Assumed: the JSON library gives back the
  migrated document and the new file's document, and the UTF-8 conversions the texts.\<close>

theorem legacy_settings_migrate:
  assumes "ParseJson lib bytes = Some (JObject ms)" "map_of ms ''schemaVersion'' = None"
    and "\<And>ms'. migrate ms = Some ms' \<Longrightarrow>
           lib_parse lib (lib_dump lib (JObject ms')) = Some (JObject ms')"
    and "DecodePersisted lib bytes = Some (d, rewrite)" "reads_back lib d"
  shows "rewrite \<and>
         GlobalConnectOnStartup d = flag_after ms ''globalConnectOnStartup'' ''globalAutoReconnect'' \<and>
         GlobalReconnectOnConnectionLoss d = flag_after ms ''globalReconnectOnConnectionLoss'' ''globalAutoReconnect'' \<and>
         (\<exists>rows. Array (JObject ms) ''devices'' = Some rows \<and> list_all2 (device_migrated lib) rows (Devices d)) \<and>
         others_kept lib (JObject ms) d \<and>
         (\<forall>bytes'. Encode lib d = Some bytes' \<longrightarrow> DecodePersisted lib bytes' = Some (d, False))"
proof -
  obtain ms' where ms': "migrate ms = Some ms'" "Decode lib (lib_dump lib (JObject ms')) = Some d" "rewrite"
    using assms(1,2,4) by (auto simp: DecodePersisted_def Option.bind_eq_Some_conv split: if_splits)
  then have "decode_json lib (JObject ms') = Some d"
    using assms(3) by (auto simp: Decode_def ParseJson_def Option.bind_eq_Some_conv split: if_splits)
  note decoded = decode_migrated [OF ms'(1) this]
  have "DecodePersisted lib bytes' = Some (d, False)" if "Encode lib d = Some bytes'" for bytes'
    using that DecodePersisted_sound [OF assms(4)] assms(5) decode_encoded(3) [of d lib]
    by (auto simp: Encode_iff faithful_on_def)
  with decoded ms'(3) show ?thesis by blast
qed

theorem legacy_settings_migrate_witness:
  "\<not> GlobalConnectOnStartup migrated_settings \<and> GlobalReconnectOnConnectionLoss migrated_settings \<and>
   (\<exists>bytes'. Encode old_lib migrated_settings = Some bytes' \<and>
      DecodePersisted old_lib bytes' = Some (migrated_settings, False)) \<and>
   (\<exists>row. list_all2 (device_migrated old_lib) [row] (Devices migrated_settings))"
proof -
  have "lib_parse old_lib (lib_dump old_lib (JObject new_members)) = Some (JObject new_members)"
    by (simp add: old_lib_def)
  then have lib: "migrate old_members = Some ms' \<Longrightarrow>
      lib_parse old_lib (lib_dump old_lib (JObject ms')) = Some (JObject ms')" for ms'
    by (simp add: migrate_old)
  have current: "map_of old_members ''schemaVersion'' = None" by (simp add: old_members_def)
  have "reads_back old_lib migrated_settings" using old_faithful by (simp add: faithful_on_def)
  note r = legacy_settings_migrate [OF old_parsed current lib old_decoded this]
  have "flag_after old_members ''globalConnectOnStartup'' ''globalAutoReconnect'' = False"
    "flag_after old_members ''globalReconnectOnConnectionLoss'' ''globalAutoReconnect'' = True"
    by (simp_all add: flag_after_def old_members_def)
  moreover have "\<exists>row. Array (JObject old_members) ''devices'' = Some [row]"
    by (simp add: Array_def old_members_def c_maxPersistedDeviceCount_def)
  moreover have "\<exists>bytes'. Encode old_lib migrated_settings = Some bytes'"
    using old_faithful migrated_persistable by (simp add: Encode_iff faithful_on_def)
  ultimately show ?thesis using r by auto
qed

end
