(* ===== verification/Settings_Mutations.thy ===== *)
theory Settings_Mutations
  imports Settings_Claims
begin

section \<open>Settings mutations\<close>

text \<open>
  The mutations of \<open>core/SettingsStore.cpp\<close>. Each public setter checks its arguments and hands a lambda to
  \<open>Commit\<close>; the lambda changes a private copy of the settings and returns whether it changed anything. Here a
  setter is its lambda, a function from the settings to the changed copy and that flag; \<open>op_admitted\<close> is the
  argument check of all setters, and \<open>settings_op\<close> names the calls. \<open>FindDevice\<close> gives a pointer to the first
  entry with an identifier; a change through the pointer is \<open>update_device\<close>.
\<close>

subsection \<open>Devices\<close>

definition FindDevice :: "SettingsData \<Rightarrow> wstring \<Rightarrow> DeviceSettings option" where
  "FindDevice data i = find (\<lambda>d. dsId d = i) (Devices data)"

fun update_device :: "wstring \<Rightarrow> (DeviceSettings \<Rightarrow> DeviceSettings) \<Rightarrow> DeviceSettings list \<Rightarrow> DeviceSettings list" where
  "update_device i f [] = []"
| "update_device i f (d # ds) = (if dsId d = i then f d # ds else d # update_device i f ds)"

definition new_device :: "SettingsData \<Rightarrow> wstring \<Rightarrow> wstring \<Rightarrow> wstring \<Rightarrow> DeviceSettings" where
  "new_device data i name alias =
     \<lparr>dsId = i, dsName = name, dsAlias = alias, dsConnectOnStartup = GlobalConnectOnStartup data,
      dsReconnectOnConnectionLoss = GlobalReconnectOnConnectionLoss data\<rparr>"

subsection \<open>The setters\<close>

definition SetGlobalConnectOnStartup :: "bool \<Rightarrow> SettingsData \<Rightarrow> SettingsData \<times> bool" where
  "SetGlobalConnectOnStartup enabled data =
     (data\<lparr>GlobalConnectOnStartup := enabled\<rparr>, GlobalConnectOnStartup data \<noteq> enabled)"

definition SetGlobalReconnectOnConnectionLoss :: "bool \<Rightarrow> SettingsData \<Rightarrow> SettingsData \<times> bool" where
  "SetGlobalReconnectOnConnectionLoss enabled data =
     (data\<lparr>GlobalReconnectOnConnectionLoss := enabled\<rparr>, GlobalReconnectOnConnectionLoss data \<noteq> enabled)"

definition SetAllowIncomingConnections :: "bool \<Rightarrow> SettingsData \<Rightarrow> SettingsData \<times> bool" where
  "SetAllowIncomingConnections enabled data =
     (data\<lparr>AllowIncomingConnections := enabled\<rparr>, AllowIncomingConnections data \<noteq> enabled)"

definition SetStartWithWindows :: "bool \<Rightarrow> SettingsData \<Rightarrow> SettingsData \<times> bool" where
  "SetStartWithWindows enabled data =
     (data\<lparr>StartWithWindows := enabled\<rparr>, StartWithWindows data \<noteq> enabled)"

definition SetShowNotifications :: "bool \<Rightarrow> SettingsData \<Rightarrow> SettingsData \<times> bool" where
  "SetShowNotifications enabled data =
     (data\<lparr>ShowNotifications := enabled\<rparr>, ShowNotifications data \<noteq> enabled)"

definition SetUseSystemBackdropEffects :: "bool \<Rightarrow> SettingsData \<Rightarrow> SettingsData \<times> bool" where
  "SetUseSystemBackdropEffects enabled data =
     (data\<lparr>UseSystemBackdropEffects := enabled\<rparr>, UseSystemBackdropEffects data \<noteq> enabled)"

definition SetLanguage :: "wstring \<Rightarrow> SettingsData \<Rightarrow> SettingsData \<times> bool" where
  "SetLanguage language data = (data\<lparr>Language := language\<rparr>, Language data \<noteq> language)"

definition SetPrivacyModeEnabled :: "bool \<Rightarrow> SettingsData \<Rightarrow> SettingsData \<times> bool" where
  "SetPrivacyModeEnabled enabled data =
     (data\<lparr>PrivacyModeEnabled := enabled\<rparr>, PrivacyModeEnabled data \<noteq> enabled)"

definition RecordRatingPromptFirstLaunch :: "wstring \<Rightarrow> SettingsData \<Rightarrow> SettingsData \<times> bool" where
  "RecordRatingPromptFirstLaunch today data =
     (if today = [] \<or> FirstLaunchDate (RatingPrompt data) \<noteq> [] then (data, False)
      else (data\<lparr>RatingPrompt := (RatingPrompt data)\<lparr>FirstLaunchDate := today\<rparr>\<rparr>, True))"

definition MarkRatingPromptAsked :: "SettingsData \<Rightarrow> SettingsData \<times> bool" where
  "MarkRatingPromptAsked data =
     (data\<lparr>RatingPrompt := (RatingPrompt data)\<lparr>Asked := True\<rparr>\<rparr>, \<not> Asked (RatingPrompt data))"

definition SetSettingsWindowBounds ::
  "PersistedWindowBounds option \<Rightarrow> SettingsData \<Rightarrow> SettingsData \<times> bool" where
  "SetSettingsWindowBounds bounds data =
     (data\<lparr>SettingsWindowBounds := bounds\<rparr>, SettingsWindowBounds data \<noteq> bounds)"

definition RememberDevice :: "wstring \<Rightarrow> wstring \<Rightarrow> SettingsData \<Rightarrow> SettingsData \<times> bool" where
  "RememberDevice deviceId deviceName data =
     (if FindDevice data deviceId \<noteq> None \<or> length (Devices data) = c_maxPersistedDeviceCount then (data, False)
      else (data\<lparr>Devices := Devices data @ [new_device data deviceId deviceName []]\<rparr>, True))"

definition SetDeviceConnectOnStartup :: "wstring \<Rightarrow> bool \<Rightarrow> SettingsData \<Rightarrow> SettingsData \<times> bool" where
  "SetDeviceConnectOnStartup deviceId enabled data =
     (case FindDevice data deviceId of
        None \<Rightarrow> (data, False)
      | Some device \<Rightarrow>
          (data\<lparr>Devices := update_device deviceId (\<lambda>d. d\<lparr>dsConnectOnStartup := enabled\<rparr>) (Devices data)\<rparr>,
           dsConnectOnStartup device \<noteq> enabled))"

definition SetDeviceReconnectOnConnectionLoss ::
  "wstring \<Rightarrow> bool \<Rightarrow> SettingsData \<Rightarrow> SettingsData \<times> bool" where
  "SetDeviceReconnectOnConnectionLoss deviceId enabled data =
     (case FindDevice data deviceId of
        None \<Rightarrow> (data, False)
      | Some device \<Rightarrow>
          (data\<lparr>Devices := update_device deviceId (\<lambda>d. d\<lparr>dsReconnectOnConnectionLoss := enabled\<rparr>) (Devices data)\<rparr>,
           dsReconnectOnConnectionLoss device \<noteq> enabled))"

text \<open>The third component is the \<open>DeviceExists\<close> of the result.\<close>

definition SetDeviceAlias ::
  "wstring \<Rightarrow> wstring \<Rightarrow> wstring option \<Rightarrow> SettingsData \<Rightarrow> SettingsData \<times> bool \<times> bool" where
  "SetDeviceAlias deviceId alias deviceName data =
     (case FindDevice data deviceId of
        None \<Rightarrow>
          if alias = [] \<or> length (Devices data) = c_maxPersistedDeviceCount then (data, False, False)
          else (data\<lparr>Devices := Devices data @
                   [new_device data deviceId (case deviceName of None \<Rightarrow> [] | Some n \<Rightarrow> n) alias]\<rparr>, True, True)
      | Some device \<Rightarrow>
          let shouldUpdateName = (case deviceName of None \<Rightarrow> False | Some n \<Rightarrow> n \<noteq> [] \<and> dsName device \<noteq> n);
              changed = (dsAlias device \<noteq> alias \<or> shouldUpdateName)
          in (data\<lparr>Devices := update_device deviceId
                (\<lambda>d. if shouldUpdateName then d\<lparr>dsAlias := alias, dsName := the deviceName\<rparr>
                     else d\<lparr>dsAlias := alias\<rparr>) (Devices data)\<rparr>, changed, True))"

definition SetDefaultDevice :: "wstring \<Rightarrow> SettingsData \<Rightarrow> SettingsData \<times> bool" where
  "SetDefaultDevice deviceId data =
     (data\<lparr>DefaultDevice := SpecificDevice, DefaultDeviceId := deviceId\<rparr>,
      DefaultDevice data \<noteq> SpecificDevice \<or> DefaultDeviceId data \<noteq> deviceId)"

definition ClearDefaultDevice :: "SettingsData \<Rightarrow> SettingsData \<times> bool" where
  "ClearDefaultDevice data =
     (data\<lparr>DefaultDevice := LastConnected, DefaultDeviceId := []\<rparr>,
      DefaultDevice data \<noteq> LastConnected \<or> DefaultDeviceId data \<noteq> [])"

definition ForgetDevice :: "wstring \<Rightarrow> SettingsData \<Rightarrow> SettingsData \<times> bool" where
  "ForgetDevice deviceId data =
     (let before = length (Devices data) + length (LastConnectedIds data);
          defaultWasRemoved = (DefaultDeviceId data = deviceId);
          data1 = data\<lparr>Devices := filter (\<lambda>d. dsId d \<noteq> deviceId) (Devices data),
            LastConnectedIds := filter (\<lambda>i. i \<noteq> deviceId) (LastConnectedIds data)\<rparr>;
          data2 = (if defaultWasRemoved
            then data1\<lparr>DefaultDevice := LastConnected, DefaultDeviceId := []\<rparr> else data1)
      in (data2, defaultWasRemoved \<or> before \<noteq> length (Devices data2) + length (LastConnectedIds data2)))"

text \<open>The three parts of \<open>RecordConnectedDevice\<close>: the device entry, the most recent identifiers and the usage
  day of the rating prompt.\<close>

definition record_device :: "wstring \<Rightarrow> wstring \<Rightarrow> SettingsData \<Rightarrow> SettingsData \<times> bool" where
  "record_device deviceId deviceName data =
     (case FindDevice data deviceId of
        None \<Rightarrow>
          if length (Devices data) < c_maxPersistedDeviceCount
          then (data\<lparr>Devices := Devices data @ [new_device data deviceId deviceName []]\<rparr>, True)
          else (data, False)
      | Some device \<Rightarrow>
          if deviceName \<noteq> [] \<and> dsName device \<noteq> deviceName
          then (data\<lparr>Devices := update_device deviceId (\<lambda>d. d\<lparr>dsName := deviceName\<rparr>) (Devices data)\<rparr>, True)
          else (data, False))"

definition record_recent :: "wstring \<Rightarrow> wstring list \<Rightarrow> wstring list" where
  "record_recent deviceId ids =
     (let ids1 = deviceId # filter (\<lambda>i. i \<noteq> deviceId) ids
      in if length ids1 > c_maxPersistedDeviceCount then butlast ids1 else ids1)"

definition record_usage :: "wstring \<Rightarrow> RatingPromptData \<Rightarrow> RatingPromptData \<times> bool" where
  "record_usage usageDay p =
     (if \<not> Asked p \<and> usageDay \<noteq> [] \<and> LastUsageDate p \<noteq> usageDay \<and> sint (UsageDays p) < 2147483647
      then (p\<lparr>LastUsageDate := usageDay, UsageDays := UsageDays p + 1\<rparr>, True)
      else (p, False))"

definition RecordConnectedDevice ::
  "wstring \<Rightarrow> wstring \<Rightarrow> wstring \<Rightarrow> SettingsData \<Rightarrow> SettingsData \<times> bool" where
  "RecordConnectedDevice deviceId deviceName usageDay data =
     (let (data1, changed1) = record_device deviceId deviceName data;
          ids = record_recent deviceId (LastConnectedIds data1);
          changed2 = (changed1 \<or> ids \<noteq> LastConnectedIds data1);
          (prompt, counted) = record_usage usageDay (RatingPrompt data1)
      in (data1\<lparr>LastConnectedIds := ids, RatingPrompt := prompt\<rparr>, changed2 \<or> counted))"

subsection \<open>Calls and their argument checks\<close>

datatype settings_op =
    OpGlobalConnectOnStartup bool
  | OpGlobalReconnectOnConnectionLoss bool
  | OpAllowIncomingConnections bool
  | OpStartWithWindows bool
  | OpShowNotifications bool
  | OpUseSystemBackdropEffects bool
  | OpLanguage wstring
  | OpPrivacyModeEnabled bool
  | OpFirstLaunch wstring
  | OpAsked
  | OpSettingsWindowBounds "PersistedWindowBounds option"
  | OpRememberDevice wstring wstring
  | OpDeviceConnectOnStartup wstring bool
  | OpDeviceReconnectOnConnectionLoss wstring bool
  | OpDeviceAlias wstring wstring "wstring option"
  | OpSetDefaultDevice wstring
  | OpClearDefaultDevice
  | OpForgetDevice wstring
  | OpRecordConnectedDevice wstring wstring wstring

definition id_admitted :: "wstring \<Rightarrow> bool" where
  "id_admitted i \<longleftrightarrow> i \<noteq> [] \<and> IsBoundedUtf16 i c_maxDeviceIdCharacters"

fun op_admitted :: "settings_op \<Rightarrow> bool" where
  "op_admitted (OpLanguage language) = IsSupportedLanguage language"
| "op_admitted (OpSettingsWindowBounds bounds) =
     (case bounds of None \<Rightarrow> True | Some b \<Rightarrow> bounds_persistable b)"
| "op_admitted (OpRememberDevice i name) =
     (id_admitted i \<and> IsBoundedUtf16 name c_maxDeviceNameCharacters)"
| "op_admitted (OpDeviceConnectOnStartup i enabled) = id_admitted i"
| "op_admitted (OpDeviceReconnectOnConnectionLoss i enabled) = id_admitted i"
| "op_admitted (OpDeviceAlias i alias name) =
     (id_admitted i \<and> IsBoundedUtf16 alias c_maxDeviceAliasCharacters \<and>
      (case name of None \<Rightarrow> True | Some n \<Rightarrow> IsBoundedUtf16 n c_maxDeviceNameCharacters))"
| "op_admitted (OpSetDefaultDevice i) = id_admitted i"
| "op_admitted (OpForgetDevice i) = id_admitted i"
| "op_admitted (OpRecordConnectedDevice i name day) =
     (id_admitted i \<and> IsBoundedUtf16 name c_maxDeviceNameCharacters)"
| "op_admitted _ = True"

fun op_mutation :: "settings_op \<Rightarrow> SettingsData \<Rightarrow> SettingsData \<times> bool" where
  "op_mutation (OpGlobalConnectOnStartup b) data = SetGlobalConnectOnStartup b data"
| "op_mutation (OpGlobalReconnectOnConnectionLoss b) data = SetGlobalReconnectOnConnectionLoss b data"
| "op_mutation (OpAllowIncomingConnections b) data = SetAllowIncomingConnections b data"
| "op_mutation (OpStartWithWindows b) data = SetStartWithWindows b data"
| "op_mutation (OpShowNotifications b) data = SetShowNotifications b data"
| "op_mutation (OpUseSystemBackdropEffects b) data = SetUseSystemBackdropEffects b data"
| "op_mutation (OpLanguage language) data = SetLanguage language data"
| "op_mutation (OpPrivacyModeEnabled b) data = SetPrivacyModeEnabled b data"
| "op_mutation (OpFirstLaunch today) data = RecordRatingPromptFirstLaunch today data"
| "op_mutation OpAsked data = MarkRatingPromptAsked data"
| "op_mutation (OpSettingsWindowBounds bounds) data = SetSettingsWindowBounds bounds data"
| "op_mutation (OpRememberDevice i name) data = RememberDevice i name data"
| "op_mutation (OpDeviceConnectOnStartup i b) data = SetDeviceConnectOnStartup i b data"
| "op_mutation (OpDeviceReconnectOnConnectionLoss i b) data = SetDeviceReconnectOnConnectionLoss i b data"
| "op_mutation (OpDeviceAlias i alias name) data =
     (case SetDeviceAlias i alias name data of (data', changed, exists) \<Rightarrow> (data', changed))"
| "op_mutation (OpSetDefaultDevice i) data = SetDefaultDevice i data"
| "op_mutation OpClearDefaultDevice data = ClearDefaultDevice data"
| "op_mutation (OpForgetDevice i) data = ForgetDevice i data"
| "op_mutation (OpRecordConnectedDevice i name day) data = RecordConnectedDevice i name day data"

lemmas setter_defs =
  SetGlobalConnectOnStartup_def SetGlobalReconnectOnConnectionLoss_def SetAllowIncomingConnections_def
  SetStartWithWindows_def SetShowNotifications_def SetUseSystemBackdropEffects_def SetLanguage_def
  SetPrivacyModeEnabled_def RecordRatingPromptFirstLaunch_def MarkRatingPromptAsked_def
  SetSettingsWindowBounds_def SetDefaultDevice_def ClearDefaultDevice_def

lemmas device_op_defs = RememberDevice_def SetDeviceConnectOnStartup_def
  SetDeviceReconnectOnConnectionLoss_def SetDeviceAlias_def record_device_def

subsection \<open>Facts\<close>

definition device_ok :: "DeviceSettings \<Rightarrow> bool" where
  "device_ok d \<longleftrightarrow> id_admitted (dsId d) \<and> IsBoundedUtf16 (dsName d) c_maxDeviceNameCharacters \<and>
     IsBoundedUtf16 (dsAlias d) c_maxDeviceAliasCharacters"

definition devices_ok :: "DeviceSettings list \<Rightarrow> bool" where
  "devices_ok ds \<longleftrightarrow> length ds \<le> c_maxPersistedDeviceCount \<and> (\<forall>d \<in> set ds. device_ok d) \<and> distinct (map dsId ds)"

definition recent_ok :: "wstring list \<Rightarrow> bool" where
  "recent_ok ids \<longleftrightarrow> length ids \<le> c_maxPersistedDeviceCount \<and> (\<forall>i \<in> set ids. id_admitted i) \<and> distinct ids"

lemma IsPersistable_iff:
  "IsPersistable data \<longleftrightarrow>
     devices_ok (Devices data) \<and> recent_ok (LastConnectedIds data) \<and> IsSupportedLanguage (Language data) \<and>
     IsBoundedUtf16 (DefaultDeviceId data) c_maxDeviceIdCharacters \<and>
     (DefaultDevice data = SpecificDevice \<longleftrightarrow> DefaultDeviceId data \<noteq> []) \<and>
     (case SettingsWindowBounds data of None \<Rightarrow> True | Some b \<Rightarrow> bounds_persistable b)"
  by (auto simp: IsPersistable_def persistable_iff devices_ok_def recent_ok_def device_ok_def id_admitted_def
      split: option.splits)

lemma IsBoundedUtf16_Nil [simp]: "IsBoundedUtf16 [] n"
  by (simp add: IsBoundedUtf16_def)

lemma FindDevice_None: "FindDevice data i = None \<longleftrightarrow> i \<notin> dsId ` set (Devices data)"
  by (auto simp: FindDevice_def find_None_iff)

lemma FindDevice_Some: "FindDevice data i = Some d \<Longrightarrow> d \<in> set (Devices data) \<and> dsId d = i"
  by (auto simp: FindDevice_def find_Some_iff)

lemma update_device_ids:
  assumes "\<And>d. dsId (f d) = dsId d"
  shows "map dsId (update_device i f ds) = map dsId ds"
  using assms by (induction ds) auto

lemma length_update_device [simp]: "length (update_device i f ds) = length ds"
  by (induction ds) auto

lemma set_update_device: "d \<in> set (update_device i f ds) \<Longrightarrow> d \<in> set ds \<or> (\<exists>e \<in> set ds. dsId e = i \<and> d = f e)"
  by (induction ds) (auto split: if_splits)

lemma update_device_eq_iff:
  "find (\<lambda>d. dsId d = i) ds = Some d \<Longrightarrow> update_device i f ds = ds \<longleftrightarrow> f d = d"
  by (induction ds) (auto split: if_splits)

lemma devices_ok_update:
  assumes "devices_ok ds" "\<And>d. dsId (f d) = dsId d" "\<And>d. device_ok d \<Longrightarrow> device_ok (f d)"
  shows "devices_ok (update_device i f ds)"
proof -
  have "device_ok d" if "d \<in> set (update_device i f ds)" for d
    using set_update_device [OF that] assms unfolding devices_ok_def by blast
  with assms show ?thesis unfolding devices_ok_def by (simp add: update_device_ids)
qed

lemma devices_ok_snoc:
  assumes "devices_ok (Devices data)" "FindDevice data (dsId d) = None" "device_ok d"
    "length (Devices data) \<noteq> c_maxPersistedDeviceCount"
  shows "devices_ok (Devices data @ [d])"
  using assms by (auto simp: devices_ok_def FindDevice_None)

lemma record_recent_ok: "recent_ok ids \<Longrightarrow> id_admitted i \<Longrightarrow> recent_ok (record_recent i ids)"
proof -
  assume ok: "recent_ok ids" and i: "id_admitted i"
  have "length (filter (\<lambda>j. j \<noteq> i) ids) \<le> c_maxPersistedDeviceCount"
    using ok by (metis length_filter_le recent_ok_def order_trans)
  with ok i show ?thesis
    by (auto simp: record_recent_def Let_def recent_ok_def distinct_butlast dest: in_set_butlastD)
qed

lemma devices_ok_filter: "devices_ok ds \<Longrightarrow> devices_ok (filter P ds)"
  by (auto simp: devices_ok_def distinct_map_filter intro: order_trans [OF length_filter_le])

lemma recent_ok_filter: "recent_ok ids \<Longrightarrow> recent_ok (filter P ids)"
  by (auto simp: recent_ok_def intro: order_trans [OF length_filter_le])

lemma filter_lengths_eq_iff:
  "length xs + length ys = length (filter P xs) + length (filter Q ys) \<longleftrightarrow> filter P xs = xs \<and> filter Q ys = ys"
  using length_filter_le [of P xs] length_filter_le [of Q ys] length_filter_less [of _ xs P] length_filter_less [of _ ys Q]
  by (metis add_le_less_mono add_less_le_mono filter_id_conv order_less_irrefl)

lemma record_device_persistable:
  "IsPersistable d \<Longrightarrow> id_admitted i \<Longrightarrow> IsBoundedUtf16 name c_maxDeviceNameCharacters \<Longrightarrow>
     IsPersistable (fst (record_device i name d))"
  by (auto simp: record_device_def IsPersistable_iff device_ok_def new_device_def split: option.splits
      intro!: devices_ok_snoc devices_ok_update)

lemma record_device_frame:
  "LastConnectedIds (fst (record_device i name d)) = LastConnectedIds d"
  "RatingPrompt (fst (record_device i name d)) = RatingPrompt d"
  by (auto simp: record_device_def split: option.splits)

lemma RecordConnectedDevice_fields:
  "fst (RecordConnectedDevice i name day d) =
     (fst (record_device i name d))\<lparr>LastConnectedIds := record_recent i (LastConnectedIds d),
       RatingPrompt := fst (record_usage day (RatingPrompt d))\<rparr>"
  by (simp add: RecordConnectedDevice_def Let_def case_prod_beta record_device_frame)

lemma mutation_keeps_persistable:
  assumes "IsPersistable d" "op_admitted op"
  shows "IsPersistable (fst (op_mutation op d))"
proof (cases op)
  case (OpForgetDevice i)
  then show ?thesis using assms
    by (auto simp: ForgetDevice_def Let_def IsPersistable_iff devices_ok_filter recent_ok_filter)
next
  case (OpRecordConnectedDevice i name day)
  with assms record_device_persistable [of d i name] show ?thesis
    by (simp add: RecordConnectedDevice_fields IsPersistable_iff record_recent_ok)
next
  case (OpDeviceAlias i nick name)
  then show ?thesis using assms
    by (auto simp: SetDeviceAlias_def Let_def IsPersistable_iff new_device_def device_ok_def
        split: option.splits intro!: devices_ok_snoc devices_ok_update)
qed (use assms in \<open>auto simp: setter_defs device_op_defs IsPersistable_iff id_admitted_def new_device_def device_ok_def
      split: option.splits intro!: devices_ok_snoc devices_ok_update\<close>)

lemma usage_days_succ:
  fixes w :: i32
  assumes "0 \<le> sint w" "sint w < 2147483647"
  shows "sint (w + 1) = sint w + 1"
  using assms by (simp add: sint_word_ariths(1) signed_take_bit_int_eq_self)

text \<open>The dates the callers pass: the first launch and a usage day, or none.\<close>

fun op_dates_ok :: "settings_op \<Rightarrow> bool" where
  "op_dates_ok (OpFirstLaunch today) = date_ok today"
| "op_dates_ok (OpRecordConnectedDevice i name day) = date_ok day"
| "op_dates_ok _ = True"

lemma mutation_keeps_prompt:
  assumes "prompt_ok (RatingPrompt d)" "op_dates_ok op"
  shows "prompt_ok (RatingPrompt (fst (op_mutation op d)))"
proof (cases op)
  case (OpRecordConnectedDevice i name day)
  then show ?thesis using assms
    by (auto simp: RecordConnectedDevice_fields record_usage_def prompt_ok_def usage_days_succ)
qed (use assms in \<open>auto simp: setter_defs device_op_defs ForgetDevice_def Let_def prompt_ok_def split: option.splits\<close>)

lemma mutation_bad_date:
  assumes "\<not> op_dates_ok op" "RatingPrompt (fst (op_mutation op d)) \<noteq> RatingPrompt d"
  shows "\<not> prompt_ok (RatingPrompt (fst (op_mutation op d)))"
proof (cases op)
  case (OpRecordConnectedDevice i name day)
  then show ?thesis using assms
    by (auto simp: RecordConnectedDevice_fields record_usage_def prompt_ok_def split: if_splits)
next
  case (OpFirstLaunch today)
  then show ?thesis using assms
    by (auto simp: RecordRatingPromptFirstLaunch_def prompt_ok_def split: if_splits)
qed (use assms in auto)

lemma SettingsData_update_iff:
  "d\<lparr>Devices := ds\<rparr> = (d :: SettingsData) \<longleftrightarrow> ds = Devices d"
  "d\<lparr>LastConnectedIds := ids\<rparr> = d \<longleftrightarrow> ids = LastConnectedIds d"
  "d\<lparr>LastConnectedIds := ids, RatingPrompt := p\<rparr> = d \<longleftrightarrow> ids = LastConnectedIds d \<and> p = RatingPrompt d"
  "d\<lparr>Devices := ds, LastConnectedIds := ids\<rparr> = d \<longleftrightarrow> ds = Devices d \<and> ids = LastConnectedIds d"
  by (cases d; auto)+

lemma device_change_reported:
  assumes "FindDevice d i = Some device"
  shows "d\<lparr>Devices := update_device i f (Devices d)\<rparr> \<noteq> d \<longleftrightarrow> f device \<noteq> device"
  using assms by (simp add: SettingsData_update_iff update_device_eq_iff FindDevice_def)

lemma DeviceSettings_update_iff:
  "e\<lparr>dsConnectOnStartup := b\<rparr> = (e :: DeviceSettings) \<longleftrightarrow> dsConnectOnStartup e = b"
  "e\<lparr>dsReconnectOnConnectionLoss := b\<rparr> = e \<longleftrightarrow> dsReconnectOnConnectionLoss e = b"
  "e\<lparr>dsName := n\<rparr> = e \<longleftrightarrow> dsName e = n"
  "e\<lparr>dsAlias := a\<rparr> = e \<longleftrightarrow> dsAlias e = a"
  "e\<lparr>dsAlias := a, dsName := n\<rparr> = e \<longleftrightarrow> dsName e = n \<and> dsAlias e = a"
  by (cases e; auto)+

lemma record_device_reports: "snd (record_device i name d) \<longleftrightarrow> fst (record_device i name d) \<noteq> d"
  by (auto simp: record_device_def SettingsData_update_iff update_device_eq_iff FindDevice_def
      DeviceSettings_update_iff split: option.splits)

lemma record_usage_reports: "snd (record_usage day p) \<longleftrightarrow> fst (record_usage day p) \<noteq> p"
  by (cases p) (auto simp: record_usage_def)

lemma ForgetDevice_reports:
  assumes "id_admitted i"
  shows "snd (ForgetDevice i d) \<longleftrightarrow> fst (ForgetDevice i d) \<noteq> d"
proof -
  define kept where "kept = filter (\<lambda>e. dsId e \<noteq> i) (Devices d)"
  define recent where "recent = filter (\<lambda>j. j \<noteq> i) (LastConnectedIds d)"
  have same: "length (Devices d) + length (LastConnectedIds d) = length kept + length recent \<longleftrightarrow>
      kept = Devices d \<and> recent = LastConnectedIds d"
    unfolding kept_def recent_def by (rule filter_lengths_eq_iff)
  show ?thesis
  proof (cases "DefaultDeviceId d = i")
    case True
    then have "DefaultDeviceId (fst (ForgetDevice i d)) \<noteq> DefaultDeviceId d" "snd (ForgetDevice i d)"
      using assms by (auto simp: ForgetDevice_def Let_def id_admitted_def)
    then show ?thesis by auto
  next
    case False
    then show ?thesis using same
      by (simp add: ForgetDevice_def Let_def SettingsData_update_iff kept_def [symmetric] recent_def [symmetric])
  qed
qed

lemma RecordConnectedDevice_reports:
  "snd (RecordConnectedDevice i name day d) \<longleftrightarrow> fst (RecordConnectedDevice i name day d) \<noteq> d"
proof -
  define data where "data = fst (record_device i name d)"
  define ids where "ids = record_recent i (LastConnectedIds d)"
  define p where "p = fst (record_usage day (RatingPrompt d))"
  have frame: "LastConnectedIds data = LastConnectedIds d" "RatingPrompt data = RatingPrompt d"
    by (simp_all add: data_def record_device_frame)
  have "data\<lparr>LastConnectedIds := ids, RatingPrompt := p\<rparr> = d \<longleftrightarrow>
      data = d \<and> ids = LastConnectedIds d \<and> p = RatingPrompt d"
    using frame by (cases data; cases d) auto
  moreover have "snd (RecordConnectedDevice i name day d) \<longleftrightarrow>
      data \<noteq> d \<or> ids \<noteq> LastConnectedIds d \<or> p \<noteq> RatingPrompt d"
    by (simp add: RecordConnectedDevice_def Let_def case_prod_beta record_device_frame record_device_reports
        record_usage_reports data_def ids_def p_def)
  ultimately show ?thesis
    by (simp add: RecordConnectedDevice_fields data_def ids_def p_def)
qed

lemma SetDeviceAlias_reports:
  "fst (snd (SetDeviceAlias i nick name d)) \<longleftrightarrow> fst (SetDeviceAlias i nick name d) \<noteq> d"
proof (cases "FindDevice d i")
  case None
  then show ?thesis by (simp add: SetDeviceAlias_def SettingsData_update_iff)
next
  case (Some e)
  show ?thesis
  proof (cases "\<exists>n. name = Some n \<and> n \<noteq> [] \<and> dsName e \<noteq> n")
    case True
    then obtain n where n: "name = Some n" "n \<noteq> []" "dsName e \<noteq> n" by blast
    show ?thesis using Some n
      by (simp add: SetDeviceAlias_def Let_def device_change_reported DeviceSettings_update_iff)
  next
    case False
    then have "(case name of None \<Rightarrow> False | Some n \<Rightarrow> n \<noteq> [] \<and> dsName e \<noteq> n) = False"
      by (auto split: option.splits)
    then show ?thesis using Some
      by (simp add: SetDeviceAlias_def Let_def device_change_reported DeviceSettings_update_iff)
  qed
qed

lemma simple_setters_report:
  "snd (SetDefaultDevice i d) \<longleftrightarrow> fst (SetDefaultDevice i d) \<noteq> d"
  "snd (ClearDefaultDevice d) \<longleftrightarrow> fst (ClearDefaultDevice d) \<noteq> d"
  "snd (MarkRatingPromptAsked d) \<longleftrightarrow> fst (MarkRatingPromptAsked d) \<noteq> d"
  "snd (RecordRatingPromptFirstLaunch today d) \<longleftrightarrow> fst (RecordRatingPromptFirstLaunch today d) \<noteq> d"
  "snd (SetLanguage language d) \<longleftrightarrow> fst (SetLanguage language d) \<noteq> d"
  "snd (SetSettingsWindowBounds bounds d) \<longleftrightarrow> fst (SetSettingsWindowBounds bounds d) \<noteq> d"
  by (cases d; cases "RatingPrompt d"; force simp: setter_defs)+

lemma flag_setters_report:
  "snd (SetGlobalConnectOnStartup b d) \<longleftrightarrow> fst (SetGlobalConnectOnStartup b d) \<noteq> d"
  "snd (SetGlobalReconnectOnConnectionLoss b d) \<longleftrightarrow> fst (SetGlobalReconnectOnConnectionLoss b d) \<noteq> d"
  "snd (SetAllowIncomingConnections b d) \<longleftrightarrow> fst (SetAllowIncomingConnections b d) \<noteq> d"
  "snd (SetStartWithWindows b d) \<longleftrightarrow> fst (SetStartWithWindows b d) \<noteq> d"
  "snd (SetShowNotifications b d) \<longleftrightarrow> fst (SetShowNotifications b d) \<noteq> d"
  "snd (SetUseSystemBackdropEffects b d) \<longleftrightarrow> fst (SetUseSystemBackdropEffects b d) \<noteq> d"
  "snd (SetPrivacyModeEnabled b d) \<longleftrightarrow> fst (SetPrivacyModeEnabled b d) \<noteq> d"
  by (cases d; force simp: setter_defs)+

lemma device_setters_report:
  "snd (RememberDevice i name d) \<longleftrightarrow> fst (RememberDevice i name d) \<noteq> d"
  "snd (SetDeviceConnectOnStartup i b d) \<longleftrightarrow> fst (SetDeviceConnectOnStartup i b d) \<noteq> d"
  "snd (SetDeviceReconnectOnConnectionLoss i b d) \<longleftrightarrow> fst (SetDeviceReconnectOnConnectionLoss i b d) \<noteq> d"
proof -
  show "snd (RememberDevice i name d) \<longleftrightarrow> fst (RememberDevice i name d) \<noteq> d"
    by (simp add: RememberDevice_def SettingsData_update_iff)
qed (cases "FindDevice d i"; simp add: device_op_defs device_change_reported DeviceSettings_update_iff)+

lemma mutation_reports:
  "op_admitted op \<Longrightarrow> snd (op_mutation op d) \<longleftrightarrow> fst (op_mutation op d) \<noteq> d"
  by (cases op) (simp_all add: case_prod_beta simple_setters_report flag_setters_report device_setters_report
      ForgetDevice_reports RecordConnectedDevice_reports SetDeviceAlias_reports)

lemma record_recent_take:
  assumes "length ids \<le> c_maxPersistedDeviceCount"
  shows "record_recent i ids = take c_maxPersistedDeviceCount (i # removeAll i ids)"
proof -
  have eq: "filter (\<lambda>j. j \<noteq> i) ids = removeAll i ids"
    by (metis (mono_tags, lifting) filter_cong removeAll_filter_not_eq)
  have "length (removeAll i ids) \<le> c_maxPersistedDeviceCount"
    using assms by (meson length_removeAll_less_eq order_trans)
  then have "length (removeAll i ids) = c_maxPersistedDeviceCount \<or> length (removeAll i ids) < c_maxPersistedDeviceCount"
    by linarith
  then show ?thesis
    by (auto simp: record_recent_def Let_def eq butlast_conv_take)
qed

lemma record_device_other:
  "j \<noteq> i \<Longrightarrow> FindDevice (fst (record_device i name d)) j = FindDevice d j"
proof -
  assume "j \<noteq> i"
  have upd: "find (\<lambda>e. dsId e = j) (update_device i (\<lambda>e. e\<lparr>dsName := name\<rparr>) ds) = find (\<lambda>e. dsId e = j) ds" for ds
    using \<open>j \<noteq> i\<close> by (induction ds) auto
  have app: "find (\<lambda>e. dsId e = j) (ds @ [new_device d i name []]) = find (\<lambda>e. dsId e = j) ds" for ds
    using \<open>j \<noteq> i\<close> by (induction ds) (auto simp: new_device_def)
  show ?thesis by (auto simp: record_device_def FindDevice_def upd app split: option.splits)
qed

text \<open>C36: a call that passes its argument check turns settings that may be persisted into settings that may be
  persisted, so the encoder accepts whatever the store commits; and it reports a change exactly when it made one, so
  no change is dropped and no unchanged revision is committed. The checks do not look at the dates of the rating
  prompt: if the prompt could be read back before the call, it can afterwards exactly when the date that was passed is
  empty or a calendar day (a call without a date always is) or the call left the prompt alone. Passing a calendar day
  is up to the callers.\<close>

theorem mutation_sound:
  assumes "IsPersistable d" "op_admitted op"
  shows "IsPersistable (fst (op_mutation op d)) \<and>
         (snd (op_mutation op d) \<longleftrightarrow> fst (op_mutation op d) \<noteq> d) \<and>
         (prompt_ok (RatingPrompt d) \<longrightarrow>
            (prompt_ok (RatingPrompt (fst (op_mutation op d))) \<longleftrightarrow>
               op_dates_ok op \<or> RatingPrompt (fst (op_mutation op d)) = RatingPrompt d))"
  using assms mutation_keeps_prompt [of d op] mutation_bad_date [of op d]
  by (auto simp: mutation_keeps_persistable mutation_reports)

theorem mutation_sound_witness:
  "IsPersistable (fst (op_mutation (OpRecordConnectedDevice (L ''b'') (L ''Tablet'') (L ''2026-01-31'')) sample_settings)) \<and>
   snd (op_mutation (OpRecordConnectedDevice (L ''b'') (L ''Tablet'') (L ''2026-01-31'')) sample_settings) \<and>
   IsPersistable (fst (op_mutation (OpFirstLaunch (L ''x'')) default_settings)) \<and>
   \<not> prompt_ok (RatingPrompt (fst (op_mutation (OpFirstLaunch (L ''x'')) default_settings)))"
proof -
  have adm: "op_admitted (OpRecordConnectedDevice (L ''b'') (L ''Tablet'') (L ''2026-01-31''))"
    by (simp add: id_admitted_def IsBoundedUtf16_def L_def is_high_def is_low_def limit_constants)
  have "fst (op_mutation (OpRecordConnectedDevice (L ''b'') (L ''Tablet'') (L ''2026-01-31'')) sample_settings) \<noteq> sample_settings"
  proof -
    have "hd (record_recent (L ''b'') (LastConnectedIds sample_settings)) = L ''b''"
      by (simp add: record_recent_def Let_def sample_settings_def limit_constants)
    then show ?thesis
      by (auto simp: RecordConnectedDevice_fields dest!: arg_cong [where f = "\<lambda>d. hd (LastConnectedIds d)"])
        (simp add: sample_settings_def L_def)
  qed
  note recorded = this mutation_sound [OF sample_persistable adm]
  have "IsPersistable default_settings"
    by (simp add: default_settings_def IsPersistable_def limit_constants IsSupportedLanguage_def IsBoundedUtf16_def)
  moreover have "op_admitted (OpFirstLaunch (L ''x''))" by simp
  moreover have "prompt_ok (RatingPrompt default_settings)" "\<not> op_dates_ok (OpFirstLaunch (L ''x''))"
    "RatingPrompt (fst (op_mutation (OpFirstLaunch (L ''x'')) default_settings)) \<noteq> RatingPrompt default_settings"
    by (simp_all add: prompt_ok_def default_settings_def default_prompt_def date_ok_def L_def
        RecordRatingPromptFirstLaunch_def)
  ultimately show ?thesis using recorded mutation_sound [of default_settings "OpFirstLaunch (L ''x'')"] by blast
qed

text \<open>Recording a connected device keeps the most recent identifiers in order: the new one first, then the
  others as they were without it, cut to 384. Entries of other devices are untouched; an unknown device gets an
  entry with the global defaults while there is room, and otherwise none.\<close>

theorem record_connected_recent:
  assumes "IsPersistable d"
  shows "LastConnectedIds (fst (RecordConnectedDevice i name day d)) = take 384 (i # removeAll i (LastConnectedIds d)) \<and>
         (\<forall>j. j \<noteq> i \<longrightarrow> FindDevice (fst (RecordConnectedDevice i name day d)) j = FindDevice d j) \<and>
         (FindDevice d i = None \<longrightarrow>
            FindDevice (fst (RecordConnectedDevice i name day d)) i =
              (if length (Devices d) < 384
               then Some \<lparr>dsId = i, dsName = name, dsAlias = [], dsConnectOnStartup = GlobalConnectOnStartup d,
                 dsReconnectOnConnectionLoss = GlobalReconnectOnConnectionLoss d\<rparr> else None))"
proof -
  have find_fields: "FindDevice (e\<lparr>LastConnectedIds := ids, RatingPrompt := p\<rparr>) j = FindDevice e j" for e ids p j
    by (simp add: FindDevice_def)
  have "find (\<lambda>e. dsId e = i) ds = None \<Longrightarrow> find (\<lambda>e. dsId e = i) (ds @ [e]) = (if dsId e = i then Some e else None)"
    for ds and e :: DeviceSettings by (induction ds) (auto split: if_splits)
  then have "FindDevice d i = None \<Longrightarrow> FindDevice (fst (record_device i name d)) i =
      (if length (Devices d) < 384 then Some (new_device d i name []) else None)"
    by (auto simp: record_device_def FindDevice_def new_device_def limit_constants)
  moreover have "length (LastConnectedIds d) \<le> 384"
    using assms by (simp add: IsPersistable_iff recent_ok_def limit_constants)
  ultimately show ?thesis
    using record_device_other [of _ i name d] record_recent_take [of "LastConnectedIds d" i]
    by (simp add: RecordConnectedDevice_fields find_fields limit_constants new_device_def)
qed

theorem record_connected_recent_witness:
  "LastConnectedIds (fst (RecordConnectedDevice (L ''b'') (L ''Tablet'') [] sample_settings)) = [L ''b'', L ''a'']"
  using record_connected_recent [OF sample_persistable, of "L ''b''" "L ''Tablet''" "[]"]
  by (simp add: sample_settings_def L_def)

end
