(* ===== verification/Settings_Store.thy ===== *)
theory Settings_Store
  imports Settings_Mutations
begin

section \<open>The settings store\<close>

text \<open>
  \<open>core/SettingsStore.cpp\<close>: the store that owns the settings, publishes every change to its subscribers and
  persists them from one background worker, with synchronous flushes and a bounded shutdown beside it.

  The store is shared by threads. A step is one critical section of the source (what runs between taking and
  releasing \<open>mutex\<close>, \<open>publicationMutex\<close> or a subscription's own mutex) or one call outside every lock
  (the file write, the read, a callback); a thread between two of its sections is a program counter with the
  local variables it carries. A wait on a condition variable is a counter whose step is enabled when the
  predicate holds. Times are milliseconds of the steady clock. \<open>sHistory\<close>, \<open>sFileRevision\<close>, \<open>sNotified\<close> and
  \<open>sDelivered\<close> record the past for the statements; no step reads them, except that the wakeup version is
  the number of notifications as a 64-bit word.
\<close>

subsection \<open>Persistence policy\<close>

definition c_debounceDelay :: int where "c_debounceDelay = 300"
definition c_maxRetryDelay :: int where "c_maxRetryDelay = 300000"

definition RetryDelay :: "u32 \<Rightarrow> int" where
  "RetryDelay failures =
     (let exponent = min (if failures = 0 then 0 else failures - 1) 10
      in min (1000 * 2 ^ unat exponent) c_maxRetryDelay)"

subsection \<open>The settings file\<close>

text \<open>What the system answers to one read: the open, then each \<open>ReadFile\<close> call with its success and its
  byte count, which never exceeds what was asked for.\<close>

definition MAXDWORD :: nat where "MAXDWORD = 4294967295"

function read_loop :: "(nat \<Rightarrow> bool \<times> nat) \<Rightarrow> nat \<Rightarrow> string \<Rightarrow> string \<Rightarrow> string option" where
  "read_loop answer k rest bytes =
     (if rest = [] then Some bytes
      else let (ok, count) = answer k; n = min count (min (length rest) MAXDWORD)
           in if \<not> ok \<or> n = 0 then None
              else read_loop answer (Suc k) (drop n rest) (bytes @ take n rest))"
  by pat_completeness auto
termination by (relation "measure (\<lambda>(answer, k, rest, bytes). length rest)") auto

record read_os =
  openSucceeds :: bool
  readAnswer :: "nat \<Rightarrow> bool \<times> nat"

text \<open>\<open>None\<close> is a thrown exception, \<open>Some None\<close> an absent file.\<close>

definition Read :: "read_os \<Rightarrow> string option \<Rightarrow> string option option" where
  "Read os file =
     (case file of
        None \<Rightarrow> Some None
      | Some content \<Rightarrow>
          if \<not> openSucceeds os then None
          else if length content > c_maxSettingsFileBytes then None
          else map_option Some (read_loop (readAnswer os) 0 content []))"

text \<open>The write goes to a temporary file that replaces the settings file in the last step.\<close>

record write_os =
  tmpOpens :: bool
  writeAnswer :: "nat \<Rightarrow> bool \<times> nat"
  flushSucceeds :: bool
  moveSucceeds :: bool

function write_loop :: "(nat \<Rightarrow> bool \<times> nat) \<Rightarrow> nat \<Rightarrow> string \<Rightarrow> string \<Rightarrow> string option" where
  "write_loop answer k rest temporary =
     (if rest = [] then Some temporary
      else let (ok, count) = answer k; n = min count (min (length rest) MAXDWORD)
           in if \<not> ok \<or> n = 0 then None
              else write_loop answer (Suc k) (drop n rest) (temporary @ take n rest))"
  by pat_completeness auto
termination by (relation "measure (\<lambda>(answer, k, rest, temporary). length rest)") auto

declare read_loop.simps [simp del] write_loop.simps [simp del]

definition WriteAtomically :: "write_os \<Rightarrow> string \<Rightarrow> string option \<Rightarrow> bool \<times> string option" where
  "WriteAtomically os bytes file =
     (if \<not> tmpOpens os then (False, file)
      else case write_loop (writeAnswer os) 0 bytes [] of
             None \<Rightarrow> (False, file)
           | Some temporary \<Rightarrow>
               if \<not> flushSucceeds os then (False, file)
               else if \<not> moveSucceeds os then (False, file)
               else (True, Some temporary))"

text \<open>\<open>Impl::Write\<close>: an exception of the codec is a failed write.\<close>

definition Write :: "json_lib \<Rightarrow> write_os \<Rightarrow> SettingsData \<Rightarrow> string option \<Rightarrow> bool \<times> string option" where
  "Write lib os snapshot file =
     (case Encode lib snapshot of
        None \<Rightarrow> (False, file)
      | Some utf8 \<Rightarrow> WriteAtomically os utf8 file)"

subsection \<open>State\<close>

record SettingsSnapshot =
  snData :: SettingsData
  snRevision :: u64
  snIsDirty :: bool

datatype SettingsMutationStatus = MutationRejected | MutationUnchanged | MutationApplied

record SubscriptionState =
  IsActive :: bool
  IsExecuting :: bool
  ExecutingThread :: "nat option"

record Publication =
  pubSnapshot :: SettingsSnapshot
  pubSubscriptions :: "nat list"

datatype SettingsShutdownMode = ShutdownFlush | DiscardStartupFailure

text \<open>The threads of the store: its worker and the callers of \<open>FlushNow\<close>. The counter of a write remembers
  whether the worker's loop or a flush with some attempts left makes it.\<close>

datatype actor = Worker | Caller nat

datatype write_for = Background | Attempt nat

datatype pc =
    PIdle
  | PLoop
  | PInspect u64 int
  | PWait u64 "int option"
  | PStart nat
  | PEnter nat
  | PWaiting nat
  | PWriting write_for SettingsData u64
  | PWritten write_for u64 bool
  | PReturn bool
  | PFinish
  | PDone

datatype loader = LoaderIdle | LoaderReading | LoaderRead "string option option" | LoaderDecoded SettingsData bool

datatype closer = CloserIdle | CloserWaiting | CloserFenced bool | CloserDone

record store =
  sData :: SettingsData
  sRevision :: u64
  sPersistedRevision :: u64
  sNextSubscriptionId :: u64
  sStates :: "SubscriptionState list"
  sSubscriptions :: "(u64 \<times> nat) list"
  sPendingPublications :: "Publication list"
  sPublishing :: bool
  sPublisherThread :: "nat option"
  sCurrent :: "(SettingsSnapshot \<times> nat list \<times> nat option) option"
  sDrains :: nat
  sTimerArmed :: bool
  sDue :: int
  sWriterActive :: bool
  sClosing :: bool
  sShutdownRequested :: bool
  sShutdownCoreComplete :: bool
  sShutdownResult :: bool
  sDiscardRequested :: bool
  sWorkerFinished :: bool
  sWorkerFlushResult :: bool
  sShutdownAttempts :: nat
  sStopRequested :: bool
  sLoadClaimed :: bool
  sLoadActive :: bool
  sPreservationFailed :: bool
  sFailures :: u32
  sPc :: "actor \<Rightarrow> pc"
  sLoader :: loader
  sCloser :: closer
  sNotifying :: nat
  sNotified :: nat
  sFile :: "string option"
  sFileRevision :: "u64 option"
  sHistory :: "u64 \<Rightarrow> SettingsData"
  sDelivered :: "(nat \<times> SettingsSnapshot) list"

text \<open>A constructed store whose worker has reported that it is ready, beside a file left by an earlier run.\<close>

definition new_store :: "string option \<Rightarrow> store" where
  "new_store file = \<lparr>sData = default_settings, sRevision = 0, sPersistedRevision = 0, sNextSubscriptionId = 0,
     sStates = [], sSubscriptions = [], sPendingPublications = [], sPublishing = False,
     sPublisherThread = None, sCurrent = None, sDrains = 0, sTimerArmed = False, sDue = 0,
     sWriterActive = False, sClosing = False, sShutdownRequested = False, sShutdownCoreComplete = False,
     sShutdownResult = False, sDiscardRequested = False, sWorkerFinished = False, sWorkerFlushResult = False,
     sShutdownAttempts = 3, sStopRequested = False, sLoadClaimed = False, sLoadActive = False,
     sPreservationFailed = False, sFailures = 0, sPc = (\<lambda>_. PIdle)(Worker := PLoop), sLoader = LoaderIdle,
     sCloser = CloserIdle, sNotifying = 0, sNotified = 0, sFile = file, sFileRevision = None,
     sHistory = (\<lambda>_. default_settings), sDelivered = []\<rparr>"

definition StoreSnapshot :: "store \<Rightarrow> SettingsSnapshot" where
  "StoreSnapshot s = \<lparr>snData = sData s, snRevision = sRevision s, snIsDirty = sRevision s \<noteq> sPersistedRevision s\<rparr>"

abbreviation goto :: "actor \<Rightarrow> pc \<Rightarrow> store \<Rightarrow> store" where
  "goto a p s \<equiv> s\<lparr>sPc := (sPc s)(a := p)\<rparr>"

subsection \<open>Wakeup\<close>

definition WakeupVersion :: "store \<Rightarrow> u64" where "WakeupVersion s = of_nat (sNotified s)"

text \<open>\<open>NotifyChanged\<close> is called after the lock is released: the section leaves a notification under way.\<close>

definition NotifyChanged :: "store \<Rightarrow> store" where "NotifyChanged s = s\<lparr>sNotifying := Suc (sNotifying s)\<rparr>"

definition Notify :: "store \<Rightarrow> store" where
  "Notify s = s\<lparr>sNotifying := sNotifying s - 1, sNotified := Suc (sNotified s)\<rparr>"

definition wait_over :: "store \<Rightarrow> u64 \<Rightarrow> int option \<Rightarrow> int \<Rightarrow> bool" where
  "wait_over s version deadline now \<longleftrightarrow>
     version \<noteq> WakeupVersion s \<or> (case deadline of None \<Rightarrow> False | Some d \<Rightarrow> d \<le> now)"

subsection \<open>Writing\<close>

definition CompleteWriteLocked :: "u64 \<Rightarrow> bool \<Rightarrow> int \<Rightarrow> store \<Rightarrow> store" where
  "CompleteWriteLocked capturedRevision succeeded now s0 =
     (let s = s0\<lparr>sWriterActive := False\<rparr>
      in if sShutdownRequested s then s
         else if succeeded
         then let s1 = s\<lparr>sPersistedRevision := max (sPersistedRevision s) capturedRevision, sFailures := 0\<rparr>
              in if sRevision s1 \<noteq> sPersistedRevision s1 \<and> \<not> sShutdownRequested s1 \<and> \<not> sClosing s1
                 then s1\<lparr>sTimerArmed := True, sDue := now + c_debounceDelay\<rparr> else s1
         else if \<not> sShutdownRequested s \<and> \<not> sClosing s
         then let failures = min (sFailures s + 1) 10
              in s\<lparr>sFailures := failures, sTimerArmed := True, sDue := now + RetryDelay failures\<rparr>
         else s)"

definition CompleteWrite :: "u64 \<Rightarrow> bool \<Rightarrow> int \<Rightarrow> store \<Rightarrow> store" where
  "CompleteWrite capturedRevision succeeded now s =
     NotifyChanged (CompleteWriteLocked capturedRevision succeeded now s)"

text \<open>The body of one attempt of \<open>FlushSynchronously\<close> once its wait is over.\<close>

definition flush_ready :: "store \<Rightarrow> bool" where
  "flush_ready s \<longleftrightarrow> sShutdownRequested s \<or> (\<not> sWriterActive s \<and> \<not> sLoadActive s)"

definition flush_section :: "actor \<Rightarrow> nat \<Rightarrow> store \<Rightarrow> store" where
  "flush_section a left s =
     (if sShutdownRequested s \<or> sPreservationFailed s then goto a (PReturn False) s
      else if sDiscardRequested s \<or> sRevision s = sPersistedRevision s then goto a (PReturn True) s
      else goto a (PWriting (Attempt left) (sData s) (sRevision s)) (s\<lparr>sWriterActive := True\<rparr>))"

definition flush_enter :: "actor \<Rightarrow> nat \<Rightarrow> store \<Rightarrow> store" where
  "flush_enter a left s0 =
     (let s = s0\<lparr>sTimerArmed := False\<rparr>
      in if flush_ready s then flush_section a left s else goto a (PWaiting left) s)"

text \<open>The worker's section: it leaves for a shutdown, starts the final flush, writes a revision that is due, or
  waits.\<close>

definition writable :: "store \<Rightarrow> bool" where
  "writable s \<longleftrightarrow> sTimerArmed s \<and> \<not> sLoadActive s \<and> \<not> sWriterActive s \<and> \<not> sDiscardRequested s \<and>
     sRevision s \<noteq> sPersistedRevision s"

definition worker_inspect :: "u64 \<Rightarrow> int \<Rightarrow> store \<Rightarrow> store" where
  "worker_inspect version now s =
     (if sShutdownRequested s then goto Worker PFinish s
      else if sClosing s
      then (if sDiscardRequested s then goto Worker (PReturn True) s
            else goto Worker (PStart (sShutdownAttempts s)) s)
      else if writable s
      then (if now < sDue s then goto Worker (PWait version (Some (sDue s))) s
            else goto Worker (PWriting Background (sData s) (sRevision s))
                   (s\<lparr>sWriterActive := True, sTimerArmed := False\<rparr>))
      else goto Worker (PWait version None) s)"

text \<open>One step of a thread. The reply carries what a step may read from outside the store: the clock, whether
  the apartment initialised, what the file system does.\<close>

record reply =
  clockNow :: int
  apartmentReady :: bool
  diskAnswers :: write_os

fun after_write :: "write_for \<Rightarrow> pc" where
  "after_write Background = PLoop"
| "after_write (Attempt left) = PEnter left"

definition storage_write :: "json_lib \<Rightarrow> actor \<Rightarrow> write_for \<Rightarrow> write_os \<Rightarrow> SettingsData \<Rightarrow> u64 \<Rightarrow> store \<Rightarrow> store" where
  "storage_write lib a w os snapshot capturedRevision s =
     (case Write lib os snapshot (sFile s) of
        (ok, file) \<Rightarrow> goto a (PWritten w capturedRevision ok)
          (s\<lparr>sFile := file, sFileRevision := (if ok then Some capturedRevision else sFileRevision s)\<rparr>))"

definition flush_return :: "actor \<Rightarrow> bool \<Rightarrow> store \<Rightarrow> store" where
  "flush_return a result s =
     (case a of
        Worker \<Rightarrow> goto Worker PFinish (s\<lparr>sWorkerFlushResult := result\<rparr>)
      | Caller t \<Rightarrow> goto (Caller t) PIdle s)"

fun thread_step :: "json_lib \<Rightarrow> actor \<Rightarrow> reply \<Rightarrow> pc \<Rightarrow> store \<Rightarrow> store" where
  "thread_step lib a r PIdle s = s"
| "thread_step lib a r PLoop s =
     (if sStopRequested s then goto a PFinish s else goto a (PInspect (WakeupVersion s) (clockNow r)) s)"
| "thread_step lib a r (PInspect version now) s = worker_inspect version now s"
| "thread_step lib a r (PWait version deadline) s =
     (if wait_over s version deadline (clockNow r) then goto a PLoop s else s)"
| "thread_step lib a r (PStart attempts) s =
     (if \<not> apartmentReady r then goto a (PReturn False) s else goto a (PEnter (max attempts 1)) s)"
| "thread_step lib a r (PEnter left) s =
     (if left = 0 then goto a (PReturn (sRevision s = sPersistedRevision s)) s else flush_enter a (left - 1) s)"
| "thread_step lib a r (PWaiting left) s = (if flush_ready s then flush_section a left s else s)"
| "thread_step lib a r (PWriting w snapshot capturedRevision) s =
     storage_write lib a w (diskAnswers r) snapshot capturedRevision s"
| "thread_step lib a r (PWritten w capturedRevision ok) s =
     goto a (after_write w) (CompleteWrite capturedRevision ok (clockNow r) s)"
| "thread_step lib a r (PReturn result) s = flush_return a result s"
| "thread_step lib a r PFinish s = goto a PDone (s\<lparr>sWorkerFinished := True\<rparr>)"
| "thread_step lib a r PDone s = s"

subsection \<open>Publications\<close>

definition TryBeginCallback :: "nat \<Rightarrow> SubscriptionState \<Rightarrow> bool \<times> SubscriptionState" where
  "TryBeginCallback self st =
     (if \<not> IsActive st then (False, st)
      else (True, st\<lparr>IsExecuting := True, ExecutingThread := Some self\<rparr>))"

definition Deactivate :: "SubscriptionState \<Rightarrow> SubscriptionState" where
  "Deactivate st = st\<lparr>IsActive := False\<rparr>"

definition CompleteCallback :: "SubscriptionState \<Rightarrow> SubscriptionState" where
  "CompleteCallback st = st\<lparr>IsExecuting := False, ExecutingThread := None\<rparr>"

definition update_state :: "nat \<Rightarrow> (SubscriptionState \<Rightarrow> SubscriptionState) \<Rightarrow> store \<Rightarrow> store" where
  "update_state i f s = s\<lparr>sStates := (sStates s)[i := f (sStates s ! i)]\<rparr>"

text \<open>A change queues its snapshot for the subscriptions of that moment, when there are any.\<close>

definition enqueue :: "SettingsSnapshot \<Rightarrow> store \<Rightarrow> store" where
  "enqueue snapshot s =
     (if sSubscriptions s = [] then s
      else s\<lparr>sPendingPublications := sPendingPublications s @
             [\<lparr>pubSnapshot = snapshot, pubSubscriptions = map snd (sSubscriptions s)\<rparr>]\<rparr>)"

text \<open>\<open>DrainPublications\<close>: a thread claims the queue unless another one drains it, takes a publication, calls
  the subscriptions that are still active one after the other, and gives the queue up when it is empty.\<close>

definition drain_begin :: "nat \<Rightarrow> store \<Rightarrow> store" where
  "drain_begin self s0 =
     (let s = s0\<lparr>sDrains := sDrains s0 - 1\<rparr>
      in if sPublishing s then s else s\<lparr>sPublishing := True, sPublisherThread := Some self\<rparr>)"

definition drain_next :: "store \<Rightarrow> store" where
  "drain_next s =
     (case sPendingPublications s of
        [] \<Rightarrow> s\<lparr>sPublishing := False, sPublisherThread := None, sCurrent := None\<rparr>
      | p # ps \<Rightarrow> s\<lparr>sPendingPublications := ps, sCurrent := Some (pubSnapshot p, pubSubscriptions p, None)\<rparr>)"

definition callback_begin :: "store \<Rightarrow> store" where
  "callback_begin s =
     (case sCurrent s of
        Some (snapshot, i # is, None) \<Rightarrow>
          (case TryBeginCallback (the (sPublisherThread s)) (sStates s ! i) of
             (False, st) \<Rightarrow> s\<lparr>sCurrent := Some (snapshot, is, None)\<rparr>
           | (True, st) \<Rightarrow> s\<lparr>sStates := (sStates s)[i := st], sCurrent := Some (snapshot, is, Some i),
               sDelivered := sDelivered s @ [(i, snapshot)]\<rparr>)
      | _ \<Rightarrow> s)"

definition callback_end :: "store \<Rightarrow> store" where
  "callback_end s =
     (case sCurrent s of
        Some (snapshot, is, Some i) \<Rightarrow>
          (update_state i CompleteCallback s)\<lparr>sCurrent := Some (snapshot, is, None)\<rparr>
      | _ \<Rightarrow> s)"

definition between_publications :: "store \<Rightarrow> bool" where
  "between_publications s \<longleftrightarrow> sPublishing s \<and> (case sCurrent s of None \<Rightarrow> True | Some (_, is, ex) \<Rightarrow> is = [] \<and> ex = None)"

text \<open>A subscription is known by the index of its state; the map holds the identifiers.\<close>

definition StoreSubscribe :: "store \<Rightarrow> store" where
  "StoreSubscribe s =
     (if sShutdownRequested s \<or> sClosing s then s
      else let identifier = sNextSubscriptionId s + 1;
               state = length (sStates s)
           in s\<lparr>sNextSubscriptionId := identifier,
                sStates := sStates s @ [\<lparr>IsActive = True, IsExecuting = False, ExecutingThread = None\<rparr>],
                sSubscriptions := (if identifier \<in> fst ` set (sSubscriptions s) then sSubscriptions s
                  else sSubscriptions s @ [(identifier, state)])\<rparr>)"

text \<open>\<open>Reset\<close>: the state is made inactive, then the thread waits for a callback running on another thread and
  erases the entry.\<close>

definition reset_ready :: "nat \<Rightarrow> SubscriptionState \<Rightarrow> bool" where
  "reset_ready self st \<longleftrightarrow> \<not> IsExecuting st \<or> ExecutingThread st = Some self"

definition reset_erase :: "u64 \<Rightarrow> store \<Rightarrow> store" where
  "reset_erase identifier s = s\<lparr>sSubscriptions := filter (\<lambda>e. fst e \<noteq> identifier) (sSubscriptions s)\<rparr>"

subsection \<open>Commit\<close>

definition c_maxRevision :: u64 where "c_maxRevision = 0xFFFFFFFFFFFFFFFF"

definition commit_blocked :: "store \<Rightarrow> bool" where
  "commit_blocked s \<longleftrightarrow> sLoadActive s \<and> \<not> sClosing s \<and> \<not> sShutdownRequested s"

definition Commit :: "(SettingsData \<Rightarrow> SettingsData \<times> bool) \<Rightarrow> int \<Rightarrow> store \<Rightarrow>
    (SettingsMutationStatus \<times> u64) \<times> store" where
  "Commit mutation now s =
     (if sClosing s \<or> sShutdownRequested s \<or> sPreservationFailed s then ((MutationRejected, sRevision s), s)
      else if sRevision s = c_maxRevision then ((MutationRejected, sRevision s), s)
      else let (candidate, changed) = mutation (sData s)
           in if \<not> changed then ((MutationUnchanged, sRevision s), s)
              else let committedRevision = sRevision s + 1;
                       snapshot = \<lparr>snData = candidate, snRevision = committedRevision,
                         snIsDirty = committedRevision \<noteq> sPersistedRevision s\<rparr>;
                       s1 = enqueue snapshot s
                   in ((MutationApplied, committedRevision),
                       NotifyChanged (s1\<lparr>sData := candidate, sRevision := committedRevision,
                         sTimerArmed := True, sDue := now + c_debounceDelay, sDrains := Suc (sDrains s1),
                         sHistory := (sHistory s1)(committedRevision := candidate)\<rparr>)))"

definition store_mutate :: "settings_op \<Rightarrow> int \<Rightarrow> store \<Rightarrow> (SettingsMutationStatus \<times> u64) \<times> store" where
  "store_mutate op now s =
     (if \<not> op_admitted op then ((MutationRejected, snRevision (StoreSnapshot s)), s)
      else Commit (op_mutation op) now s)"

subsection \<open>Load\<close>

definition CompleteLoadWithoutCommit :: "bool \<Rightarrow> store \<Rightarrow> store" where
  "CompleteLoadWithoutCommit originalPreserved s =
     NotifyChanged (s\<lparr>sLoadActive := False, sPreservationFailed := \<not> originalPreserved, sLoader := LoaderIdle\<rparr>)"

definition load_begin :: "store \<Rightarrow> store" where
  "load_begin s =
     (if sLoadClaimed s \<or> sClosing s \<or> sShutdownRequested s then s
      else let s1 = s\<lparr>sLoadClaimed := True\<rparr>
           in if sRevision s1 \<noteq> 0 then s1 else s1\<lparr>sLoadActive := True, sLoader := LoaderReading\<rparr>)"

definition load_read :: "read_os \<Rightarrow> store \<Rightarrow> store" where
  "load_read os s = (if sLoader s = LoaderReading then s\<lparr>sLoader := LoaderRead (Read os (sFile s))\<rparr> else s)"

text \<open>\<open>PreserveCorrupt\<close> moves an unreadable file away, or fails and leaves it.\<close>

definition load_failed :: "bool \<Rightarrow> store \<Rightarrow> store" where
  "load_failed preserved s =
     CompleteLoadWithoutCommit preserved (s\<lparr>sFile := (if preserved then None else sFile s)\<rparr>)"

definition load_decode :: "json_lib \<Rightarrow> bool \<Rightarrow> store \<Rightarrow> store" where
  "load_decode lib preserved s =
     (case sLoader s of
        LoaderRead None \<Rightarrow> load_failed preserved s
      | LoaderRead (Some None) \<Rightarrow> CompleteLoadWithoutCommit True s
      | LoaderRead (Some (Some bytes)) \<Rightarrow>
          (case DecodePersisted lib bytes of
             None \<Rightarrow> load_failed preserved s
           | Some (loaded, needsRewrite) \<Rightarrow> s\<lparr>sLoader := LoaderDecoded loaded needsRewrite\<rparr>)
      | _ \<Rightarrow> s)"

definition load_commit :: "int \<Rightarrow> store \<Rightarrow> store" where
  "load_commit now s =
     (case sLoader s of
        LoaderDecoded loaded needsRewrite \<Rightarrow>
          if sShutdownRequested s \<or> sRevision s \<noteq> 0 then s\<lparr>sLoadActive := False, sLoader := LoaderIdle\<rparr>
          else let s1 = (if \<not> sClosing s
                         then enqueue \<lparr>snData = loaded, snRevision = 1, snIsDirty = False\<rparr> s else s);
                   s2 = s1\<lparr>sData := loaded, sRevision := 1,
                     sPersistedRevision := (if needsRewrite then 0 else 1),
                     sHistory := (sHistory s1)(1 := loaded), sFileRevision := Some 1\<rparr>;
                   s3 = (if needsRewrite then s2\<lparr>sTimerArmed := True, sDue := now + c_debounceDelay\<rparr> else s2)
               in NotifyChanged (s3\<lparr>sLoadActive := False, sLoader := LoaderIdle, sDrains := Suc (sDrains s3)\<rparr>)
      | _ \<Rightarrow> s)"

subsection \<open>Shutdown\<close>

definition DeactivateSubscriptionsLocked :: "store \<Rightarrow> store" where
  "DeactivateSubscriptionsLocked s =
     s\<lparr>sStates := fold (\<lambda>e sts. sts[snd e := Deactivate (sts ! snd e)]) (sSubscriptions s) (sStates s)\<rparr>"

text \<open>The first caller closes admission and waits for the worker; a later caller finds the store closing.\<close>

definition shutdown_begin :: "SettingsShutdownMode \<Rightarrow> nat \<Rightarrow> store \<Rightarrow> store" where
  "shutdown_begin mode maximumAttempts s =
     (if sClosing s then s
      else NotifyChanged ((DeactivateSubscriptionsLocked
             (s\<lparr>sClosing := True, sTimerArmed := False, sShutdownAttempts := max maximumAttempts 1,
                sDiscardRequested := (mode = DiscardStartupFailure)\<rparr>))
             \<lparr>sSubscriptions := [], sCloser := CloserWaiting\<rparr>))"

definition shutdown_drained :: "store \<Rightarrow> bool" where
  "shutdown_drained s \<longleftrightarrow> sWorkerFinished s \<and> \<not> sWriterActive s \<and> \<not> sLoadActive s"

text \<open>The wait ends when the worker is done, or with the predicate still false at the deadline.\<close>

definition shutdown_fence :: "store \<Rightarrow> store" where
  "shutdown_fence s =
     (let result = (shutdown_drained s \<and> sWorkerFlushResult s)
      in NotifyChanged (s\<lparr>sShutdownRequested := True, sTimerArmed := False, sCloser := CloserFenced result\<rparr>))"

definition shutdown_complete :: "store \<Rightarrow> store" where
  "shutdown_complete s =
     (case sCloser s of
        CloserFenced result \<Rightarrow>
          s\<lparr>sStopRequested := True, sShutdownResult := result, sShutdownCoreComplete := True, sCloser := CloserDone\<rparr>
      | _ \<Rightarrow> s)"

definition WaitForPublicationDrain :: "nat \<Rightarrow> store \<Rightarrow> bool" where
  "WaitForPublicationDrain self s \<longleftrightarrow> (sPublishing s \<and> sPublisherThread s = Some self) \<or> \<not> sPublishing s"

text \<open>What \<open>Shutdown\<close> returns to its executor and to later callers once the core result is stored.\<close>

definition shutdown_result :: "nat \<Rightarrow> store \<Rightarrow> bool" where
  "shutdown_result self s \<longleftrightarrow> sShutdownResult s \<and> WaitForPublicationDrain self s"

subsection \<open>The store as a state machine\<close>

datatype store_event =
    StMutate settings_op int
  | StNotify
  | StThread actor reply
  | StFlushNow nat nat
  | StLoadBegin
  | StLoadRead read_os
  | StLoadDecode bool
  | StLoadCommit int
  | StDrainBegin nat
  | StDrainNext
  | StCallbackBegin
  | StCallbackEnd
  | StSubscribe
  | StResetBegin nat
  | StResetEnd nat nat u64
  | StShutdownBegin SettingsShutdownMode nat
  | StShutdownFence
  | StShutdownComplete

fun store_step :: "json_lib \<Rightarrow> store \<Rightarrow> store_event \<Rightarrow> store" where
  "store_step lib s (StMutate op now) = snd (store_mutate op now s)"
| "store_step lib s StNotify = Notify s"
| "store_step lib s (StThread a r) = thread_step lib a r (sPc s a) s"
| "store_step lib s (StFlushNow t attempts) = goto (Caller t) (PStart attempts) s"
| "store_step lib s StLoadBegin = load_begin s"
| "store_step lib s (StLoadRead os) = load_read os s"
| "store_step lib s (StLoadDecode preserved) = load_decode lib preserved s"
| "store_step lib s (StLoadCommit now) = load_commit now s"
| "store_step lib s (StDrainBegin t) = drain_begin t s"
| "store_step lib s StDrainNext = drain_next s"
| "store_step lib s StCallbackBegin = callback_begin s"
| "store_step lib s StCallbackEnd = callback_end s"
| "store_step lib s StSubscribe = StoreSubscribe s"
| "store_step lib s (StResetBegin i) = update_state i Deactivate s"
| "store_step lib s (StResetEnd t i identifier) = reset_erase identifier s"
| "store_step lib s (StShutdownBegin mode attempts) = shutdown_begin mode attempts s"
| "store_step lib s StShutdownFence = shutdown_fence s"
| "store_step lib s StShutdownComplete = shutdown_complete s"

text \<open>A commit waits for an active load; a notification was announced by a section; only a caller that is not
  flushing starts a flush; only a thread that changed something drains; the publisher takes a publication when
  it is done with the one before; dates passed by the application are calendar dates.\<close>

fun store_enabled :: "store \<Rightarrow> store_event \<Rightarrow> bool" where
  "store_enabled s (StMutate op now) = (\<not> commit_blocked s \<and> op_dates_ok op)"
| "store_enabled s StNotify = (sNotifying s > 0)"
| "store_enabled s (StFlushNow t attempts) = (sPc s (Caller t) = PIdle)"
| "store_enabled s (StDrainBegin t) = (sDrains s > 0)"
| "store_enabled s StDrainNext = between_publications s"
| "store_enabled s (StResetBegin i) = (i < length (sStates s))"
| "store_enabled s (StResetEnd t i identifier) =
     (i < length (sStates s) \<and> \<not> IsActive (sStates s ! i) \<and> reset_ready t (sStates s ! i))"
| "store_enabled s StShutdownFence = (sCloser s = CloserWaiting)"
| "store_enabled s _ = True"

definition store_start :: "store \<Rightarrow> bool" where
  "store_start s \<longleftrightarrow> (\<exists>file. s = new_store file)"

end
