(* ===== verification/Store_Invariant.thy ===== *)
theory Store_Invariant
  imports Settings_Store
begin

section \<open>Invariants of the settings store\<close>

text \<open>
  The file, the data and the write in flight (\<open>core_inv\<close>); wakeups, flushes and shutdown (\<open>flow_inv\<close>);
  publications (\<open>pub_inv\<close>). Each is a \<open>machine\<close> invariant of the store's steps.
\<close>

subsection \<open>Revisions and files\<close>

lemma unat_revision_succ: "r \<noteq> c_maxRevision \<Longrightarrow> unat (r + 1) = Suc (unat r)"
proof -
  assume "r \<noteq> c_maxRevision"
  then have "unat r \<noteq> unat c_maxRevision" by (metis word_unat_eq_iff)
  then have "unat r \<noteq> 18446744073709551615" by (simp add: c_maxRevision_def)
  moreover have "unat r < 18446744073709551616" using unsigned_less [of r] by simp
  ultimately show ?thesis by (simp add: unat_plus_if')
qed

lemma revision_less_succ: "r \<noteq> c_maxRevision \<Longrightarrow> r < r + 1"
  by (simp add: word_less_nat_alt unat_revision_succ)

lemma revision_le_succ: "r \<noteq> c_maxRevision \<Longrightarrow> q \<le> r + 1 \<longleftrightarrow> q \<le> r \<or> q = r + 1"
  by (auto simp: word_le_nat_alt word_unat_eq_iff unat_revision_succ)

lemma read_loop_all: "read_loop answer k rest bytes = Some result \<Longrightarrow> result = bytes @ rest"
proof (induction answer k rest bytes rule: read_loop.induct)
  case (1 answer k rest bytes)
  then show ?case
    by (subst (asm) read_loop.simps) (auto simp: Let_def split: if_splits prod.splits)
qed

lemma write_loop_all: "write_loop answer k rest temporary = Some result \<Longrightarrow> result = temporary @ rest"
proof (induction answer k rest temporary rule: write_loop.induct)
  case (1 answer k rest temporary)
  then show ?case
    by (subst (asm) write_loop.simps) (auto simp: Let_def split: if_splits prod.splits)
qed

lemma Read_content: "Read os file = Some (Some bytes) \<Longrightarrow> file = Some bytes"
  by (auto simp: Read_def split: option.splits if_splits dest: read_loop_all)

text \<open>A write either fails and leaves the file, or replaces all of it.\<close>

lemma WriteAtomically_cases:
  assumes "WriteAtomically os bytes file = (ok, file')"
  shows "\<not> ok \<and> file' = file \<or> ok \<and> file' = Some bytes"
proof (cases "write_loop (writeAnswer os) 0 bytes []")
  case (Some temporary)
  then show ?thesis
    using assms write_loop_all [OF Some] by (auto simp: WriteAtomically_def split: if_splits)
qed (use assms in \<open>auto simp: WriteAtomically_def split: if_splits\<close>)

lemma Write_cases:
  assumes "Write lib os d file = (ok, file')"
  shows "\<not> ok \<and> file' = file \<or> (\<exists>bytes. ok \<and> Encode lib d = Some bytes \<and> file' = Some bytes)"
  using assms by (auto simp: Write_def split: option.splits dest: WriteAtomically_cases)

subsection \<open>Data, file and the write in flight\<close>

definition storable :: "SettingsData \<Rightarrow> bool" where
  "storable d \<longleftrightarrow> IsPersistable d \<and> prompt_ok (RatingPrompt d)"

fun pc_writes :: "pc \<Rightarrow> bool" where
  "pc_writes (PWriting w d r) = True"
| "pc_writes (PWritten w r ok) = True"
| "pc_writes _ = False"

definition data_inv :: "store \<Rightarrow> bool" where
  "data_inv s \<longleftrightarrow> sData s = sHistory s (sRevision s) \<and> (\<forall>r \<le> sRevision s. storable (sHistory s r)) \<and>
     sPersistedRevision s \<le> sRevision s"

definition pc_ok :: "store \<Rightarrow> pc \<Rightarrow> bool" where
  "pc_ok s p \<longleftrightarrow>
     (\<forall>w d r. p = PWriting w d r \<longrightarrow> sWriterActive s \<and> d = sHistory s r \<and> 0 < r \<and> r \<le> sRevision s \<and>
        (\<forall>q. sFileRevision s = Some q \<longrightarrow> q \<le> r)) \<and>
     (\<forall>w r ok. p = PWritten w r ok \<longrightarrow> sWriterActive s \<and> 0 < r \<and> r \<le> sRevision s \<and>
        (ok \<longrightarrow> sFileRevision s = Some r)) \<and>
     (p = PEnter 0 \<longrightarrow> sRevision s \<noteq> 0)"

definition writer_inv :: "store \<Rightarrow> bool" where
  "writer_inv s \<longleftrightarrow> (\<forall>a. pc_ok s (sPc s a)) \<and>
     (\<forall>a b. pc_writes (sPc s a) \<longrightarrow> pc_writes (sPc s b) \<longrightarrow> a = b) \<and>
     (sWriterActive s \<longrightarrow> (\<exists>a. pc_writes (sPc s a)))"

definition load_inv :: "json_lib \<Rightarrow> store \<Rightarrow> bool" where
  "load_inv lib s \<longleftrightarrow> (sLoadActive s \<longleftrightarrow> sLoader s \<noteq> LoaderIdle) \<and>
     (sLoadActive s \<longrightarrow> sRevision s = 0 \<and> sLoadClaimed s \<and> \<not> sPreservationFailed s) \<and>
     (sPreservationFailed s \<longrightarrow> sRevision s = 0 \<and> sLoadClaimed s) \<and>
     (\<forall>bytes. sLoader s = LoaderRead (Some (Some bytes)) \<longrightarrow> sFile s = Some bytes) \<and>
     (\<forall>d rewrite. sLoader s = LoaderDecoded d rewrite \<longrightarrow>
        (\<exists>bytes. sFile s = Some bytes \<and> DecodePersisted lib bytes = Some (d, rewrite)))"

text \<open>The file holds revision \<open>q\<close>: it was encoded from it, or it is the file that was loaded as it.\<close>

definition holds_revision :: "json_lib \<Rightarrow> string \<Rightarrow> SettingsData \<Rightarrow> bool" where
  "holds_revision lib bytes d \<longleftrightarrow> Encode lib d = Some bytes \<or> (\<exists>rewrite. DecodePersisted lib bytes = Some (d, rewrite))"

definition file_inv :: "json_lib \<Rightarrow> store \<Rightarrow> bool" where
  "file_inv lib s \<longleftrightarrow> (sFileRevision s = None \<longrightarrow> sPersistedRevision s = 0) \<and>
     (\<forall>q. sFileRevision s = Some q \<longrightarrow> 0 < q \<and> q \<le> sRevision s \<and> sPersistedRevision s \<le> q \<and>
        (\<exists>bytes. sFile s = Some bytes \<and> holds_revision lib bytes (sHistory s q)))"

definition core_inv :: "json_lib \<Rightarrow> store \<Rightarrow> bool" where
  "core_inv lib s \<longleftrightarrow> data_inv s \<and> writer_inv s \<and> load_inv lib s \<and> file_inv lib s"

lemmas core_inv_defs = core_inv_def data_inv_def writer_inv_def pc_ok_def load_inv_def file_inv_def

text \<open>What the invariant looks at; a step that changes none of it keeps the invariant.\<close>

definition core_view where
  "core_view s = (sData s, sRevision s, sPersistedRevision s, sHistory s, sFile s, sFileRevision s,
     sWriterActive s, sPc s, sLoadActive s, sLoadClaimed s, sPreservationFailed s, sLoader s)"

lemma core_cong:
  assumes "core_view s = core_view t" "core_inv lib s"
  shows "core_inv lib t"
proof -
  have "data_inv s = data_inv t" "pc_ok s = pc_ok t" "load_inv lib s = load_inv lib t" "file_inv lib s = file_inv lib t"
    using assms(1) unfolding core_view_def prod.inject
    by (simp_all only: data_inv_def pc_ok_def [abs_def] load_inv_def file_inv_def)
  moreover from this(2) have "writer_inv s = writer_inv t"
    using assms(1) unfolding core_view_def prod.inject by (simp only: writer_inv_def)
  ultimately show ?thesis using assms(2) by (simp add: core_inv_def)
qed

lemma core_NotifyChanged [simp]: "core_inv lib (NotifyChanged s) = core_inv lib s"
  using core_cong [of s "NotifyChanged s" lib] core_cong [of "NotifyChanged s" s lib]
  by (auto simp: core_view_def NotifyChanged_def)

text \<open>One thread moves.\<close>

lemma writer_move:
  assumes "writer_inv s" "sPc t = (sPc s)(a := p)" "pc_ok t p"
    and "\<And>b. b \<noteq> a \<Longrightarrow> pc_ok s (sPc s b) \<Longrightarrow> pc_ok t (sPc s b)"
    and "\<And>b. pc_writes p \<Longrightarrow> pc_writes (sPc s b) \<Longrightarrow> b = a"
    and "sWriterActive t \<Longrightarrow> pc_writes p \<or> (\<exists>b. b \<noteq> a \<and> pc_writes (sPc s b))"
  shows "writer_inv t"
proof -
  have pcs: "sPc t b = (if b = a then p else sPc s b)" for b by (simp add: assms(2))
  have "\<forall>b. pc_ok s (sPc s b)" using assms(1) unfolding writer_inv_def by blast
  then have "pc_ok t (sPc t b)" for b using assms(3, 4) pcs by metis
  moreover have "b = c" if "pc_writes (sPc t b)" "pc_writes (sPc t c)" for b c
  proof -
    have "pc_writes (sPc s b) \<Longrightarrow> pc_writes (sPc s c) \<Longrightarrow> b = c"
      using assms(1) unfolding writer_inv_def by blast
    with that assms(5) [of b] assms(5) [of c] show ?thesis unfolding pcs by (metis (full_types))
  qed
  moreover have "\<exists>b. pc_writes (sPc t b)" if "sWriterActive t"
    using assms(6) [OF that] unfolding pcs by (metis (full_types))
  ultimately show ?thesis unfolding writer_inv_def by blast
qed

lemma pc_ok_other:
  "\<not> pc_writes p \<Longrightarrow> pc_ok s p \<Longrightarrow> sRevision t \<noteq> 0 \<or> sRevision t = sRevision s \<Longrightarrow> pc_ok t p"
  by (cases p) (auto simp: pc_ok_def)

lemma writing_alone: "writer_inv s \<Longrightarrow> pc_writes (sPc s a) \<Longrightarrow> pc_writes (sPc s b) \<Longrightarrow> b = a"
  unfolding writer_inv_def by blast

lemma not_writing: "writer_inv s \<Longrightarrow> \<not> sWriterActive s \<Longrightarrow> \<not> pc_writes (sPc s b)"
proof -
  assume "writer_inv s" "\<not> sWriterActive s"
  then have "pc_ok s (sPc s b)" unfolding writer_inv_def by blast
  with \<open>\<not> sWriterActive s\<close> show ?thesis by (cases "sPc s b") (auto simp: pc_ok_def)
qed

text \<open>A thread that neither was nor will be writing.\<close>

lemma core_goto:
  assumes "core_inv lib s" "\<not> pc_writes (sPc s a)" "\<not> pc_writes p" "p = PEnter 0 \<longrightarrow> sRevision s \<noteq> 0"
  shows "core_inv lib (goto a p s)"
proof -
  have w: "writer_inv s" using assms by (simp add: core_inv_def)
  have "pc_ok (goto a p s) q = pc_ok s q" for q by (simp add: pc_ok_def)
  moreover have "pc_ok s p" using assms by (cases p) (auto simp: pc_ok_def)
  moreover have "sWriterActive s \<Longrightarrow> \<exists>b. b \<noteq> a \<and> pc_writes (sPc s b)"
    using w assms(2) unfolding writer_inv_def by metis
  ultimately have "writer_inv (goto a p s)"
    using assms(3) by (intro writer_move [OF w, of _ a p]) simp_all
  with assms(1) show ?thesis by (simp add: core_inv_def data_inv_def load_inv_def file_inv_def)
qed

lemma core_goto_cong:
  assumes "core_inv lib s" "\<not> pc_writes (sPc s a)" "\<not> pc_writes p" "p = PEnter 0 \<longrightarrow> sRevision s \<noteq> 0"
    and "core_view t = core_view (goto a p s)"
  shows "core_inv lib t"
  by (rule core_cong [OF _ core_goto [OF assms(1-4)]]) (simp add: assms(5))

text \<open>A thread takes the write.\<close>

lemma core_capture:
  assumes "core_inv lib s" "\<not> sWriterActive s" "sRevision s \<noteq> sPersistedRevision s"
  shows "core_inv lib (goto a (PWriting w (sData s) (sRevision s)) (s\<lparr>sWriterActive := True\<rparr>))" (is "core_inv lib ?t")
proof -
  have inv: "data_inv s" "writer_inv s" "load_inv lib s" "file_inv lib s"
    using assms by (simp_all add: core_inv_def)
  note idle = not_writing [OF inv(2) assms(2)]
  have "0 < sRevision s"
    using assms inv(1) by (auto simp: data_inv_def word_neq_0_conv [symmetric])
  then have "pc_ok ?t (PWriting w (sData s) (sRevision s))"
    using inv by (auto simp: pc_ok_def data_inv_def file_inv_def)
  then have "writer_inv ?t"
    using idle by (intro writer_move [OF inv(2), of ?t a]) (auto intro: pc_ok_other)
  with inv show ?thesis by (simp add: core_inv_def data_inv_def load_inv_def file_inv_def)
qed

text \<open>The storage call of the one writer.\<close>

lemma core_storage_write:
  assumes "core_inv lib s" "sPc s a = PWriting w d r"
  shows "core_inv lib (storage_write lib a w os d r s)"
proof -
  obtain ok file' where wr: "Write lib os d (sFile s) = (ok, file')" by fastforce
  have inv: "data_inv s" "writer_inv s" "load_inv lib s" "file_inv lib s"
    using assms by (simp_all add: core_inv_def)
  have "pc_ok s (PWriting w d r)" using inv(2) assms(2) unfolding writer_inv_def by metis
  then have captured: "d = sHistory s r" "0 < r" "r \<le> sRevision s" "sWriterActive s"
    "\<And>q. sFileRevision s = Some q \<Longrightarrow> q \<le> r"
    by (simp_all add: pc_ok_def)
  have alone: "pc_writes (sPc s b) \<Longrightarrow> b = a" for b
    using writing_alone [OF inv(2), of a b] assms(2) by simp
  have load: "\<not> sLoadActive s" using inv(3) captured by (auto simp: load_inv_def)
  have persisted: "sPersistedRevision s \<le> r"
    using inv(4) captured by (cases "sFileRevision s") (auto simp: file_inv_def intro: order_trans)
  define t where "t = goto a (PWritten w r ok) (s\<lparr>sFile := file', sFileRevision := (if ok then Some r else sFileRevision s)\<rparr>)"
  have "pc_ok t (PWritten w r ok)" using captured by (simp add: pc_ok_def t_def)
  then have "writer_inv t"
    by (intro writer_move [OF inv(2), of t a]) (auto simp: t_def dest: alone intro: pc_ok_other)
  moreover have "file_inv lib t"
    using Write_cases [OF wr] inv(4) captured persisted
    by (auto simp: t_def file_inv_def holds_revision_def)
  moreover have "data_inv t" "load_inv lib t"
    using inv load by (auto simp: t_def data_inv_def load_inv_def)
  ultimately show ?thesis by (simp add: core_inv_def t_def storage_write_def wr)
qed

lemma CompleteWriteLocked_frame [simp]:
  "sData (CompleteWriteLocked r ok now s) = sData s"
  "sRevision (CompleteWriteLocked r ok now s) = sRevision s"
  "sHistory (CompleteWriteLocked r ok now s) = sHistory s"
  "sFile (CompleteWriteLocked r ok now s) = sFile s"
  "sFileRevision (CompleteWriteLocked r ok now s) = sFileRevision s"
  "sPc (CompleteWriteLocked r ok now s) = sPc s"
  "sLoadActive (CompleteWriteLocked r ok now s) = sLoadActive s"
  "sLoadClaimed (CompleteWriteLocked r ok now s) = sLoadClaimed s"
  "sPreservationFailed (CompleteWriteLocked r ok now s) = sPreservationFailed s"
  "sLoader (CompleteWriteLocked r ok now s) = sLoader s"
  "sWriterActive (CompleteWriteLocked r ok now s) = False"
  "sClosing (CompleteWriteLocked r ok now s) = sClosing s"
  "sShutdownRequested (CompleteWriteLocked r ok now s) = sShutdownRequested s"
  "sDiscardRequested (CompleteWriteLocked r ok now s) = sDiscardRequested s"
  "sStopRequested (CompleteWriteLocked r ok now s) = sStopRequested s"
  "sCloser (CompleteWriteLocked r ok now s) = sCloser s"
  "sWorkerFlushResult (CompleteWriteLocked r ok now s) = sWorkerFlushResult s"
  "sShutdownResult (CompleteWriteLocked r ok now s) = sShutdownResult s"
  "sNotifying (CompleteWriteLocked r ok now s) = sNotifying s"
  "sNotified (CompleteWriteLocked r ok now s) = sNotified s"
  by (simp_all add: CompleteWriteLocked_def Let_def)

lemma CompleteWriteLocked_persisted:
  "sPersistedRevision (CompleteWriteLocked r ok now s) =
     (if ok \<and> \<not> sShutdownRequested s then max (sPersistedRevision s) r else sPersistedRevision s)"
  by (simp add: CompleteWriteLocked_def Let_def)

lemma NotifyChanged_frame [simp]:
  "sData (NotifyChanged s) = sData s" "sRevision (NotifyChanged s) = sRevision s"
  "sPersistedRevision (NotifyChanged s) = sPersistedRevision s" "sHistory (NotifyChanged s) = sHistory s"
  "sFile (NotifyChanged s) = sFile s" "sFileRevision (NotifyChanged s) = sFileRevision s"
  "sWriterActive (NotifyChanged s) = sWriterActive s" "sPc (NotifyChanged s) = sPc s"
  "sLoadActive (NotifyChanged s) = sLoadActive s" "sLoadClaimed (NotifyChanged s) = sLoadClaimed s"
  "sPreservationFailed (NotifyChanged s) = sPreservationFailed s" "sLoader (NotifyChanged s) = sLoader s"
  "sTimerArmed (NotifyChanged s) = sTimerArmed s" "sDue (NotifyChanged s) = sDue s"
  "sClosing (NotifyChanged s) = sClosing s" "sShutdownRequested (NotifyChanged s) = sShutdownRequested s"
  "sDiscardRequested (NotifyChanged s) = sDiscardRequested s" "sStopRequested (NotifyChanged s) = sStopRequested s"
  "sCloser (NotifyChanged s) = sCloser s" "sWorkerFlushResult (NotifyChanged s) = sWorkerFlushResult s"
  "sShutdownResult (NotifyChanged s) = sShutdownResult s" "sNotifying (NotifyChanged s) = Suc (sNotifying s)"
  "sNotified (NotifyChanged s) = sNotified s"
  by (simp_all add: NotifyChanged_def)

lemma after_write_simps [simp]: "\<not> pc_writes (after_write w)"
  by (cases w) simp_all

lemma core_complete:
  assumes "core_inv lib s" "sPc s a = PWritten w r ok"
  shows "core_inv lib (goto a (after_write w) (CompleteWrite r ok now s))" (is "core_inv lib ?t")
proof -
  have inv: "data_inv s" "writer_inv s" "load_inv lib s" "file_inv lib s"
    using assms by (simp_all add: core_inv_def)
  have "pc_ok s (PWritten w r ok)" using inv(2) assms(2) unfolding writer_inv_def by metis
  then have captured: "0 < r" "r \<le> sRevision s" "sWriterActive s" "ok \<Longrightarrow> sFileRevision s = Some r"
    by (auto simp: pc_ok_def)
  have alone: "pc_writes (sPc s b) \<Longrightarrow> b = a" for b
    using writing_alone [OF inv(2), of a b] assms(2) by simp
  have "sRevision s \<noteq> 0" using captured by auto
  then have "pc_ok ?t (after_write w)" by (cases w) (simp_all add: pc_ok_def CompleteWrite_def)
  then have "writer_inv ?t"
    by (intro writer_move [OF inv(2), of ?t a]) (auto simp: CompleteWrite_def dest: alone intro: pc_ok_other)
  moreover have "data_inv ?t" "load_inv lib ?t"
    using inv captured
    by (auto simp: data_inv_def load_inv_def CompleteWrite_def CompleteWriteLocked_persisted)
  moreover have "file_inv lib ?t"
    using inv(4) captured
    by (auto simp: file_inv_def CompleteWrite_def CompleteWriteLocked_persisted)
  ultimately show ?thesis by (simp add: core_inv_def)
qed

lemma core_flush_section:
  assumes "core_inv lib s" "\<not> pc_writes (sPc s a)" "flush_ready s"
  shows "core_inv lib (flush_section a left s)"
proof -
  consider "sShutdownRequested s \<or> sPreservationFailed s \<or> sDiscardRequested s \<or> sRevision s = sPersistedRevision s"
    | "\<not> sShutdownRequested s" "\<not> sPreservationFailed s" "\<not> sDiscardRequested s" "sRevision s \<noteq> sPersistedRevision s"
    by blast
  then show ?thesis
  proof cases
    case 1
    with assms show ?thesis by (auto simp: flush_section_def intro!: core_goto)
  next
    case 2
    with assms(3) have "\<not> sWriterActive s" by (simp add: flush_ready_def)
    with 2 assms show ?thesis
      using core_capture [of lib s a "Attempt left"] by (simp add: flush_section_def)
  qed
qed

lemma core_timer:
  "core_inv lib s \<Longrightarrow> core_inv lib (s\<lparr>sTimerArmed := b\<rparr>)"
  "core_inv lib s \<Longrightarrow> core_inv lib (s\<lparr>sWorkerFlushResult := b\<rparr>)"
  "core_inv lib s \<Longrightarrow> core_inv lib (s\<lparr>sWorkerFinished := b\<rparr>)"
  by (erule core_cong [rotated], simp add: core_view_def)+

lemma core_thread_step:
  assumes "core_inv lib s" "sPc s a = p" "\<And>v now. p = PInspect v now \<Longrightarrow> a = Worker"
  shows "core_inv lib (thread_step lib a r p s)"
proof (cases p)
  case (PInspect v now)
  with assms have a: "a = Worker" "\<not> pc_writes (sPc s Worker)" by auto
  show ?thesis
  proof (cases "\<not> sShutdownRequested s \<and> \<not> sClosing s \<and> writable s \<and> \<not> now < sDue s")
    case True
    then have "\<not> sWriterActive s" "sRevision s \<noteq> sPersistedRevision s" by (simp_all add: writable_def)
    from core_timer(1) [OF core_capture [OF assms(1) this, of Worker Background], of False]
    have "core_inv lib (worker_inspect v now s)"
      by (rule core_cong [rotated]) (use True in \<open>simp add: worker_inspect_def core_view_def\<close>)
    with PInspect show ?thesis by simp
  next
    case False
    with a PInspect assms(1) show ?thesis
      by (auto simp: worker_inspect_def intro!: core_goto)
  qed
next
  case (PEnter left)
  have t: "core_inv lib (s\<lparr>sTimerArmed := False\<rparr>)" by (rule core_timer) (rule assms)
  have "pc_ok s (PEnter left)" using assms PEnter unfolding core_inv_def writer_inv_def by metis
  then show ?thesis
    using t PEnter assms core_goto [OF t, of a "PWaiting (left - 1)"] core_flush_section [OF t, of a "left - 1"]
    by (auto simp: flush_enter_def Let_def pc_ok_def intro!: core_goto)
next
  case (PWriting w d q)
  with core_storage_write [OF assms(1)] assms(2) show ?thesis by simp
next
  case (PWritten w q ok)
  with core_complete [OF assms(1)] assms(2) show ?thesis by simp
next
  case (PReturn result)
  with assms show ?thesis
    using core_goto_cong [OF assms(1), of Worker PFinish] core_goto [OF assms(1), of a PIdle]
    by (cases a) (simp_all add: flush_return_def core_view_def)
next
  case PFinish
  with assms show ?thesis
    using core_goto_cong [OF assms(1), of a PDone] by (simp add: core_view_def)
qed (use assms in \<open>auto intro!: core_goto core_flush_section\<close>)

lemma enqueue_frame [simp]:
  "sData (enqueue x s) = sData s" "sRevision (enqueue x s) = sRevision s"
  "sPersistedRevision (enqueue x s) = sPersistedRevision s" "sHistory (enqueue x s) = sHistory s"
  "sFile (enqueue x s) = sFile s" "sFileRevision (enqueue x s) = sFileRevision s"
  "sWriterActive (enqueue x s) = sWriterActive s" "sPc (enqueue x s) = sPc s"
  "sLoadActive (enqueue x s) = sLoadActive s" "sLoadClaimed (enqueue x s) = sLoadClaimed s"
  "sPreservationFailed (enqueue x s) = sPreservationFailed s" "sLoader (enqueue x s) = sLoader s"
  "sTimerArmed (enqueue x s) = sTimerArmed s" "sDue (enqueue x s) = sDue s"
  "sClosing (enqueue x s) = sClosing s" "sShutdownRequested (enqueue x s) = sShutdownRequested s"
  "sDiscardRequested (enqueue x s) = sDiscardRequested s" "sStopRequested (enqueue x s) = sStopRequested s"
  "sCloser (enqueue x s) = sCloser s" "sWorkerFlushResult (enqueue x s) = sWorkerFlushResult s"
  "sShutdownResult (enqueue x s) = sShutdownResult s" "sNotifying (enqueue x s) = sNotifying s"
  "sNotified (enqueue x s) = sNotified s"
  by (simp_all add: enqueue_def)

text \<open>A new revision of the data, by a commit or by the load.\<close>

lemma core_new_revision:
  assumes "core_inv lib s" "sRevision s \<noteq> c_maxRevision" "storable d"
    and t: "sData t = d" "sRevision t = sRevision s + 1" "sHistory t = (sHistory s)(sRevision s + 1 := d)"
      "sWriterActive t = sWriterActive s" "sPc t = sPc s" "sPersistedRevision t = sPersistedRevision s"
      "sFile t = sFile s" "sFileRevision t = sFileRevision s" "sLoader t = sLoader s"
      "sLoadActive t = sLoadActive s" "sLoadClaimed t = sLoadClaimed s" "sPreservationFailed t = sPreservationFailed s"
    and "\<not> sLoadActive s" "\<not> sPreservationFailed s"
  shows "core_inv lib t"
proof -
  have inv: "data_inv s" "writer_inv s" "load_inv lib s" "file_inv lib s"
    using assms(1) by (simp_all add: core_inv_def)
  have up: "sRevision s < sRevision s + 1" "\<And>q. q \<le> sRevision s \<Longrightarrow> q \<noteq> sRevision s + 1"
    "\<And>q. q \<le> sRevision s + 1 \<longleftrightarrow> q \<le> sRevision s \<or> q = sRevision s + 1" "sRevision s + 1 \<noteq> 0"
    using revision_less_succ [OF assms(2)] revision_le_succ [OF assms(2)] by auto
  have "data_inv t" using inv(1) assms(3) up by (auto simp: data_inv_def t)
  moreover have "pc_ok t p" if "pc_ok s p" for p
    using that up by (auto simp: pc_ok_def t)
  with inv(2) have "writer_inv t" by (auto simp: writer_inv_def t)
  moreover have "load_inv lib t" using inv(3) assms by (auto simp: load_inv_def t)
  moreover have "file_inv lib t" using inv(4) up by (auto simp: file_inv_def t)
  ultimately show ?thesis by (simp add: core_inv_def)
qed

lemma mutation_storable:
  "storable d \<Longrightarrow> op_admitted op \<Longrightarrow> op_dates_ok op \<Longrightarrow> storable (fst (op_mutation op d))"
  by (simp add: storable_def mutation_keeps_persistable mutation_keeps_prompt)

definition commits :: "settings_op \<Rightarrow> store \<Rightarrow> bool" where
  "commits op s \<longleftrightarrow> op_admitted op \<and> \<not> sClosing s \<and> \<not> sShutdownRequested s \<and> \<not> sPreservationFailed s \<and>
     sRevision s \<noteq> c_maxRevision \<and> snd (op_mutation op (sData s))"

lemma store_mutate_unchanged: "\<not> commits op s \<Longrightarrow> snd (store_mutate op now s) = s"
  unfolding commits_def by (auto simp: store_mutate_def Commit_def case_prod_beta Let_def)

lemma store_mutate_commits:
  assumes "commits op s"
  shows "store_mutate op now s =
    (let candidate = fst (op_mutation op (sData s)); r = sRevision s + 1;
         s1 = enqueue \<lparr>snData = candidate, snRevision = r, snIsDirty = r \<noteq> sPersistedRevision s\<rparr> s
     in ((MutationApplied, r),
         NotifyChanged (s1\<lparr>sData := candidate, sRevision := r, sTimerArmed := True, sDue := now + c_debounceDelay,
           sDrains := Suc (sDrains s1), sHistory := (sHistory s1)(r := candidate)\<rparr>)))"
  using assms unfolding commits_def store_mutate_def Commit_def case_prod_beta Let_def by simp

lemma core_mutate:
  assumes "core_inv lib s" "\<not> commit_blocked s" "op_dates_ok op"
  shows "core_inv lib (snd (store_mutate op now s))"
proof (cases "commits op s")
  case True
  then have adm: "op_admitted op" "sRevision s \<noteq> c_maxRevision" "\<not> sPreservationFailed s" "\<not> sLoadActive s"
    using assms(2) by (auto simp: commits_def commit_blocked_def)
  have "storable (sData s)" using assms(1) by (simp add: core_inv_def data_inv_def)
  with adm assms(3) have "storable (fst (op_mutation op (sData s)))" by (simp add: mutation_storable)
  from core_new_revision [OF assms(1) adm(2) this _ _ _ _ _ _ _ _ _ _ _ _ adm(4, 3)] True show ?thesis
    by (simp add: store_mutate_commits Let_def)
next
  case False
  with assms(1) show ?thesis by (simp add: store_mutate_unchanged)
qed

lemma core_load_idle:
  assumes "core_inv lib s" "sRevision s = 0 \<or> \<not> failed" "sLoadClaimed s"
    and "sData t = sData s" "sRevision t = sRevision s" "sPersistedRevision t = sPersistedRevision s"
      "sHistory t = sHistory s" "sFileRevision t = sFileRevision s" "sWriterActive t = sWriterActive s"
      "sPc t = sPc s" "sLoadClaimed t" "sLoader t = LoaderIdle" "\<not> sLoadActive t" "sPreservationFailed t = failed"
      "sFile t = sFile s \<or> sFileRevision s = None"
  shows "core_inv lib t"
proof -
  have "data_inv t" using assms by (simp add: core_inv_def data_inv_def)
  moreover have "pc_ok t = pc_ok s" using assms by (simp add: pc_ok_def fun_eq_iff)
  then have "writer_inv t" using assms by (simp add: core_inv_def writer_inv_def)
  moreover have "load_inv lib t" using assms by (auto simp: load_inv_def)
  moreover have "file_inv lib t" using assms by (auto simp: core_inv_def file_inv_def)
  ultimately show ?thesis by (simp add: core_inv_def)
qed

lemma no_file_revision: "core_inv lib s \<Longrightarrow> sRevision s = 0 \<Longrightarrow> sFileRevision s = None"
  by (cases "sFileRevision s") (auto simp: core_inv_def file_inv_def)

lemma core_load_begin: "core_inv lib s \<Longrightarrow> core_inv lib (load_begin s)"
proof -
  assume inv: "core_inv lib s"
  then have "\<not> sLoadClaimed s \<Longrightarrow> \<not> sPreservationFailed s" by (auto simp: core_inv_def load_inv_def)
  then show ?thesis
    using inv by (auto simp: load_begin_def Let_def core_inv_def data_inv_def writer_inv_def pc_ok_def load_inv_def file_inv_def)
qed

lemma core_load_read: "core_inv lib s \<Longrightarrow> core_inv lib (load_read os s)"
  by (auto simp: load_read_def core_inv_def data_inv_def writer_inv_def pc_ok_def load_inv_def file_inv_def
      dest: Read_content)

lemma load_active: "core_inv lib s \<Longrightarrow> sLoader s \<noteq> LoaderIdle \<Longrightarrow> sRevision s = 0 \<and> sLoadClaimed s"
  by (simp add: core_inv_def load_inv_def)

lemma core_load_failed:
  assumes "core_inv lib s" "sLoader s \<noteq> LoaderIdle"
  shows "core_inv lib (load_failed preserved s)"
proof -
  have zero: "sRevision s = 0" "sLoadClaimed s" using load_active [OF assms] by auto
  with no_file_revision [OF assms(1)] have none: "sFileRevision s = None" by simp
  show ?thesis
    by (rule core_load_idle [where s = s and failed = "\<not> preserved"])
      (use assms(1) zero none in \<open>simp_all add: load_failed_def CompleteLoadWithoutCommit_def\<close>)
qed

lemma core_load_decode: "core_inv lib s \<Longrightarrow> core_inv lib (load_decode lib preserved s)"
proof -
  assume inv: "core_inv lib s"
  have absent: "core_inv lib (CompleteLoadWithoutCommit True s)" if "sLoader s \<noteq> LoaderIdle"
    by (rule core_load_idle [where s = s and failed = False])
      (use inv that in \<open>auto simp: CompleteLoadWithoutCommit_def dest: load_active\<close>)
  have decoded: "core_inv lib (s\<lparr>sLoader := LoaderDecoded d rw\<rparr>)"
    if "sLoader s = LoaderRead (Some (Some bytes))" "DecodePersisted lib bytes = Some (d, rw)" for bytes d rw
    using inv that by (auto simp: core_inv_def data_inv_def writer_inv_def pc_ok_def load_inv_def file_inv_def)
  show ?thesis
    using inv absent decoded core_load_failed [OF inv, of preserved]
    by (auto simp: load_decode_def split: loader.splits option.splits)
qed

lemma load_commit_fields:
  assumes "sLoader s = LoaderDecoded d rw" "\<not> sShutdownRequested s" "sRevision s = 0"
  shows "sData (load_commit now s) = d" "sRevision (load_commit now s) = 1"
    "sPersistedRevision (load_commit now s) = (if rw then 0 else 1)"
    "sHistory (load_commit now s) = (sHistory s)(1 := d)" "sFileRevision (load_commit now s) = Some 1"
    "sFile (load_commit now s) = sFile s" "sPc (load_commit now s) = sPc s"
    "sWriterActive (load_commit now s) = sWriterActive s" "sLoader (load_commit now s) = LoaderIdle"
    "\<not> sLoadActive (load_commit now s)" "sLoadClaimed (load_commit now s) = sLoadClaimed s"
    "sPreservationFailed (load_commit now s) = sPreservationFailed s"
    "sClosing (load_commit now s) = sClosing s" "\<not> sShutdownRequested (load_commit now s)"
    "sCloser (load_commit now s) = sCloser s" "sDiscardRequested (load_commit now s) = sDiscardRequested s"
    "sStopRequested (load_commit now s) = sStopRequested s" "sWorkerFlushResult (load_commit now s) = sWorkerFlushResult s"
    "sShutdownResult (load_commit now s) = sShutdownResult s" "sNotifying (load_commit now s) = Suc (sNotifying s)"
    "sNotified (load_commit now s) = sNotified s"
    "sTimerArmed (load_commit now s) = (rw \<or> sTimerArmed s)"
  by (cases rw; cases "sClosing s"; use assms in \<open>simp add: load_commit_def Let_def\<close>)+

lemma word_le_one: "r \<le> 1 \<longleftrightarrow> r = 0 \<or> r = (1 :: u64)"
  by (simp add: word_le_nat_alt word_unat_eq_iff le_Suc_eq)

lemma writing_nonzero: "pc_ok s p \<Longrightarrow> pc_writes p \<Longrightarrow> sRevision s \<noteq> 0"
  by (cases p) (auto simp: pc_ok_def dest: order.strict_trans2)

lemma core_load_commit:
  assumes inv: "core_inv lib s"
  shows "core_inv lib (load_commit now s)"
proof (cases "sLoader s")
  case (LoaderDecoded d rw)
  have "load_inv lib s" using inv by (simp add: core_inv_def)
  then obtain bytes where bytes: "sFile s = Some bytes" "DecodePersisted lib bytes = Some (d, rw)"
    using LoaderDecoded unfolding load_inv_def by meson
  have d: "storable d" using DecodePersisted_sound [OF bytes(2)] by (simp add: storable_def)
  have zero: "sRevision s = 0" "sLoadClaimed s" using load_active [OF inv] LoaderDecoded by simp_all
  have ok: "\<not> sPreservationFailed s" using inv LoaderDecoded by (simp add: core_inv_def load_inv_def)
  show ?thesis
  proof (cases "sShutdownRequested s")
    case True
    with LoaderDecoded have "load_commit now s = s\<lparr>sLoadActive := False, sLoader := LoaderIdle\<rparr>"
      by (simp add: load_commit_def)
    then show ?thesis
      by (rule ssubst) (rule core_load_idle [where s = s and failed = False]; use inv zero ok in simp)
  next
    case False
    note t = load_commit_fields [OF LoaderDecoded False zero(1), of now]
    have w: "writer_inv s" using inv by (simp add: core_inv_def)
    then have quiet: "pc_ok s (sPc s a)" for a by (simp add: writer_inv_def)
    then have still: "\<not> pc_writes (sPc s a)" for a
      using zero(1) writing_nonzero by blast
    have "pc_ok (load_commit now s) (sPc s a)" for a
      by (rule pc_ok_other [OF still quiet]) (simp add: t)
    moreover have "sWriterActive s = False" using w still unfolding writer_inv_def by blast
    ultimately have "writer_inv (load_commit now s)"
      using still by (simp add: writer_inv_def t)
    moreover have "storable (sHistory s 0)" using inv zero by (simp add: core_inv_def data_inv_def)
    then have "data_inv (load_commit now s)" using d by (simp add: data_inv_def t word_le_one all_conj_distrib)
    moreover have "file_inv lib (load_commit now s)" using bytes by (auto simp: file_inv_def t holds_revision_def)
    moreover have "load_inv lib (load_commit now s)" using ok zero by (simp add: load_inv_def t)
    ultimately show ?thesis by (simp add: core_inv_def)
  qed
qed (use inv in \<open>simp_all add: load_commit_def\<close>)

lemma core_quiet:
  "core_inv lib s \<Longrightarrow> core_inv lib (drain_begin t s)"
  "core_inv lib s \<Longrightarrow> core_inv lib (drain_next s)"
  "core_inv lib s \<Longrightarrow> core_inv lib (callback_begin s)"
  "core_inv lib s \<Longrightarrow> core_inv lib (callback_end s)"
  "core_inv lib s \<Longrightarrow> core_inv lib (StoreSubscribe s)"
  "core_inv lib s \<Longrightarrow> core_inv lib (update_state i f s)"
  "core_inv lib s \<Longrightarrow> core_inv lib (reset_erase identifier s)"
  "core_inv lib s \<Longrightarrow> core_inv lib (shutdown_begin mode n s)"
  "core_inv lib s \<Longrightarrow> core_inv lib (shutdown_fence s)"
  "core_inv lib s \<Longrightarrow> core_inv lib (shutdown_complete s)"
  "core_inv lib s \<Longrightarrow> core_inv lib (Notify s)"
  by (erule core_cong [rotated]; simp add: core_view_def drain_begin_def drain_next_def callback_begin_def
      callback_end_def StoreSubscribe_def update_state_def reset_erase_def shutdown_begin_def shutdown_fence_def
      shutdown_complete_def DeactivateSubscriptionsLocked_def Notify_def Let_def
      split: list.split option.split prod.split bool.split closer.split)+

lemma core_step:
  assumes "core_inv lib s" "store_enabled s e" "\<And>a v now. sPc s a = PInspect v now \<Longrightarrow> a = Worker"
  shows "core_inv lib (store_step lib s e)"
proof (cases e)
  case (StMutate op now)
  with assms show ?thesis by (simp add: core_mutate)
next
  case (StThread a r)
  with assms show ?thesis by (simp add: core_thread_step)
next
  case (StFlushNow t n)
  with assms show ?thesis by (simp add: core_goto)
qed (simp_all add: assms(1) core_quiet core_load_begin core_load_read core_load_decode core_load_commit)

end
