(* ===== verification/Store_Flow.thy ===== *)
theory Store_Flow
  imports Store_Invariant
begin

section \<open>Wakeups, flushes and shutdown of the settings store\<close>

text \<open>
  Who may be where (\<open>roles_inv\<close>), what a flush result means (\<open>result_inv\<close>), why a change that is not yet on
  disk will be written (\<open>dirty_inv\<close>), and why the worker does not sleep through it (\<open>wake_inv\<close>). Together with
  \<open>core_inv\<close> they are one inductive invariant of the store.
\<close>

subsection \<open>What steps leave alone\<close>

definition flags where
  "flags s = (sClosing s, sShutdownRequested s, sDiscardRequested s, sStopRequested s, sCloser s, sShutdownResult s,
     sData s, sRevision s, sHistory s, sLoadActive s, sLoader s, sPreservationFailed s, sNotified s)"

lemma thread_flags:
  "flags (thread_step lib a r p s) = flags s"
  by (cases p) (simp_all add: flags_def worker_inspect_def flush_enter_def flush_section_def storage_write_def
      CompleteWrite_def flush_return_def Let_def case_prod_beta split: actor.split)

lemma thread_others:
  "b \<noteq> a \<Longrightarrow> (\<And>v now. p = PInspect v now \<Longrightarrow> a = Worker) \<Longrightarrow> sPc (thread_step lib a r p s) b = sPc s b"
  by (cases p; cases a) (auto simp: worker_inspect_def flush_enter_def flush_section_def storage_write_def
      CompleteWrite_def flush_return_def Let_def case_prod_beta)

lemma thread_notifying: "sNotifying (thread_step lib a r p s) \<ge> sNotifying s"
  by (cases p) (simp_all add: worker_inspect_def flush_enter_def flush_section_def storage_write_def
      CompleteWrite_def flush_return_def Let_def case_prod_beta split: actor.split)

text \<open>Steps of the application, the publisher and the subscriptions leave all threads where they are.\<close>

definition quiet_event :: "store_event \<Rightarrow> bool" where
  "quiet_event e \<longleftrightarrow> (case e of
     StDrainBegin t \<Rightarrow> True | StDrainNext \<Rightarrow> True | StCallbackBegin \<Rightarrow> True | StCallbackEnd \<Rightarrow> True
   | StSubscribe \<Rightarrow> True | StResetBegin i \<Rightarrow> True | StResetEnd t i n \<Rightarrow> True | _ \<Rightarrow> False)"

definition flow_view where
  "flow_view s = (flags s, sPc s, sWorkerFlushResult s, sPersistedRevision s, sTimerArmed s, sDue s, sWriterActive s,
     sNotifying s)"

lemma quiet_view:
  "flow_view (drain_begin t s) = flow_view s"
  "flow_view (drain_next s) = flow_view s"
  "flow_view (callback_begin s) = flow_view s"
  "flow_view (callback_end s) = flow_view s"
  "flow_view (StoreSubscribe s) = flow_view s"
  "flow_view (update_state i f s) = flow_view s"
  "flow_view (reset_erase identifier s) = flow_view s"
  by (simp_all add: flow_view_def flags_def drain_begin_def drain_next_def callback_begin_def callback_end_def
      StoreSubscribe_def update_state_def reset_erase_def Let_def
      split: list.split option.split prod.split bool.split)

lemma quiet_step: "quiet_event e \<Longrightarrow> flow_view (store_step lib s e) = flow_view s"
  by (cases e) (simp_all add: quiet_event_def quiet_view)

subsection \<open>Roles\<close>

fun loop_pc :: "pc \<Rightarrow> bool" where
  "loop_pc PLoop = True"
| "loop_pc (PInspect v now) = True"
| "loop_pc (PWait v deadline) = True"
| "loop_pc (PWriting w d r) = (w = Background)"
| "loop_pc (PWritten w r ok) = (w = Background)"
| "loop_pc _ = False"

fun caller_pc :: "pc \<Rightarrow> bool" where
  "caller_pc PIdle = True"
| "caller_pc (PStart n) = True"
| "caller_pc (PEnter n) = True"
| "caller_pc (PWaiting n) = True"
| "caller_pc (PReturn b) = True"
| "caller_pc (PWriting w d r) = (w \<noteq> Background)"
| "caller_pc (PWritten w r ok) = (w \<noteq> Background)"
| "caller_pc _ = False"

definition roles_inv :: "store \<Rightarrow> bool" where
  "roles_inv s \<longleftrightarrow> (\<forall>t. caller_pc (sPc s (Caller t))) \<and> sPc s Worker \<noteq> PIdle \<and>
     (loop_pc (sPc s Worker) \<or> sClosing s) \<and> (sShutdownRequested s \<longrightarrow> sClosing s) \<and>
     (sStopRequested s \<longrightarrow> sClosing s) \<and> (sDiscardRequested s \<longrightarrow> sClosing s) \<and>
     (sCloser s \<noteq> CloserIdle \<longrightarrow> sClosing s)"

lemma roles_caller: "roles_inv s \<Longrightarrow> caller_pc (sPc s (Caller t))"
  by (simp add: roles_inv_def)

lemma roles_inspect: "roles_inv s \<Longrightarrow> sPc s a = PInspect v now \<Longrightarrow> a = Worker"
  using roles_caller [of s] by (cases a) (auto, metis caller_pc.simps(9))

lemma after_write_roles [simp]:
  "caller_pc (after_write w) = (w \<noteq> Background)" "loop_pc (after_write w) = (w = Background)"
  "after_write w \<noteq> PIdle" "after_write w \<noteq> PReturn b" "after_write w \<noteq> PWaiting n" "after_write w \<noteq> PWait v d"
  "after_write w \<noteq> PInspect v now" "after_write w \<noteq> PFinish" "after_write w \<noteq> PDone"
  by (cases w; simp)+

lemma caller_stays:
  "caller_pc p \<Longrightarrow> sPc s (Caller t) = p \<Longrightarrow> caller_pc (sPc (thread_step lib (Caller t) r p s) (Caller t))"
  by (cases p) (auto simp: flush_enter_def flush_section_def storage_write_def CompleteWrite_def flush_return_def
      Let_def case_prod_beta)

lemma worker_stays:
  assumes "roles_inv s" "sPc s Worker = p"
  shows "sPc (thread_step lib Worker r p s) Worker \<noteq> PIdle \<and>
         (loop_pc (sPc (thread_step lib Worker r p s) Worker) \<or> sClosing s)"
  using assms
  by (cases p) (auto simp: roles_inv_def worker_inspect_def flush_enter_def flush_section_def storage_write_def
      CompleteWrite_def flush_return_def Let_def case_prod_beta)

lemma roles_thread:
  assumes "roles_inv s"
  shows "roles_inv (thread_step lib a r (sPc s a) s)"
proof -
  define t where "t = thread_step lib a r (sPc s a) s"
  have fl: "flags t = flags s" by (simp add: t_def thread_flags)
  have others: "b \<noteq> a \<Longrightarrow> sPc t b = sPc s b" for b
    using roles_inspect [OF assms] unfolding t_def by (intro thread_others)
  have "caller_pc (sPc t (Caller c))" for c
    using caller_stays [OF roles_caller [OF assms] refl] others [of "Caller c"] roles_caller [OF assms, of c]
    by (cases "a = Caller c") (auto simp: t_def)
  moreover have "sPc t Worker \<noteq> PIdle \<and> (loop_pc (sPc t Worker) \<or> sClosing s)"
    using worker_stays [OF assms refl] others [of Worker] assms
    by (cases "a = Worker") (auto simp: t_def roles_inv_def)
  ultimately show ?thesis
    using assms fl unfolding t_def [symmetric] by (simp add: roles_inv_def flags_def)
qed

text \<open>What the remaining steps leave alone.\<close>

definition stage where
  "stage s = (sPc s, sClosing s, sShutdownRequested s, sDiscardRequested s, sStopRequested s, sCloser s,
     sShutdownResult s, sWorkerFlushResult s, sWriterActive s, sNotified s)"

lemma stage_mutate: "stage (snd (store_mutate op now s)) = stage s"
  by (cases "commits op s") (simp_all add: store_mutate_commits store_mutate_unchanged stage_def Let_def)

lemma stage_load:
  "stage (load_begin s) = stage s" "stage (load_read os s) = stage s"
  "stage (load_decode lib preserved s) = stage s" "stage (load_commit now s) = stage s"
  by (simp_all add: stage_def load_begin_def load_read_def load_decode_def load_failed_def CompleteLoadWithoutCommit_def
      load_commit_def Let_def split: loader.split option.split prod.split)

lemma stage_quiet: "flow_view t = flow_view s \<Longrightarrow> stage t = stage s"
  by (simp add: flow_view_def flags_def stage_def)

lemma roles_cong: "stage t = stage s \<Longrightarrow> roles_inv t = roles_inv s"
  by (simp add: stage_def roles_inv_def)

lemma shutdown_begin_fields:
  assumes "\<not> sClosing s"
  shows "sClosing (shutdown_begin mode n s)" "sCloser (shutdown_begin mode n s) = CloserWaiting"
    "sPc (shutdown_begin mode n s) = sPc s" "sShutdownRequested (shutdown_begin mode n s) = sShutdownRequested s"
    "sDiscardRequested (shutdown_begin mode n s) = (mode = DiscardStartupFailure)"
    "sStopRequested (shutdown_begin mode n s) = sStopRequested s" "sRevision (shutdown_begin mode n s) = sRevision s"
    "sWorkerFlushResult (shutdown_begin mode n s) = sWorkerFlushResult s" "sData (shutdown_begin mode n s) = sData s"
    "sShutdownResult (shutdown_begin mode n s) = sShutdownResult s" "sNotified (shutdown_begin mode n s) = sNotified s"
    "sNotifying (shutdown_begin mode n s) = Suc (sNotifying s)"
  using assms by (simp_all add: shutdown_begin_def DeactivateSubscriptionsLocked_def)

lemma shutdown_begin_closed: "sClosing s \<Longrightarrow> shutdown_begin mode n s = s"
  by (simp add: shutdown_begin_def)

lemma roles_step:
  assumes "roles_inv s" "store_enabled s e"
  shows "roles_inv (store_step lib s e)"
proof (cases "quiet_event e")
  case True
  then show ?thesis using assms(1) roles_cong stage_quiet quiet_step by metis
next
  case quiet: False
  show ?thesis
  proof (cases e)
    case (StMutate op now)
    then show ?thesis using assms(1) roles_cong [OF stage_mutate] by simp
  next
    case (StThread a r)
    then show ?thesis using roles_thread [OF assms(1)] by simp
  next
    case (StFlushNow t n)
    then show ?thesis using assms by (simp add: roles_inv_def)
  next
    case (StShutdownBegin mode n)
    then show ?thesis using assms(1)
      by (cases "sClosing s") (auto simp: shutdown_begin_closed shutdown_begin_fields roles_inv_def)
  next
    case StShutdownFence
    then show ?thesis using assms by (auto simp: shutdown_fence_def roles_inv_def Let_def)
  next
    case StShutdownComplete
    then show ?thesis using assms by (auto simp: shutdown_complete_def roles_inv_def split: closer.split)
  next
    case StNotify
    then show ?thesis using assms by (simp add: Notify_def roles_inv_def)
  qed (use assms(1) quiet in \<open>simp_all add: roles_cong [OF stage_load(1)] roles_cong [OF stage_load(2)]
      roles_cong [OF stage_load(3)] roles_cong [OF stage_load(4)] quiet_event_def\<close>)
qed

subsection \<open>What a flush result means\<close>

definition settled :: "store \<Rightarrow> bool" where
  "settled s \<longleftrightarrow> sDiscardRequested s \<or> (sRevision s = sPersistedRevision s \<and> \<not> sLoadActive s)"

definition result_inv :: "store \<Rightarrow> bool" where
  "result_inv s \<longleftrightarrow> (sWorkerFlushResult s \<longrightarrow> sPc s Worker \<in> {PFinish, PDone}) \<and>
     (sWorkerFlushResult s \<or> sPc s Worker = PReturn True \<longrightarrow> sClosing s \<and> settled s) \<and>
     (sCloser s = CloserFenced True \<or> sShutdownResult s \<longrightarrow> sWorkerFlushResult s)"

lemma thread_persisted:
  "sPersistedRevision (thread_step lib a r p s) =
     (case p of PWritten w q ok \<Rightarrow> if ok \<and> \<not> sShutdownRequested s then max (sPersistedRevision s) q else sPersistedRevision s
      | _ \<Rightarrow> sPersistedRevision s)"
  by (cases p) (simp_all add: worker_inspect_def flush_enter_def flush_section_def storage_write_def
      CompleteWrite_def CompleteWriteLocked_persisted flush_return_def Let_def case_prod_beta split: actor.split)

lemma core_pc: "core_inv lib s \<Longrightarrow> pc_ok s (sPc s a)"
  by (simp add: core_inv_def writer_inv_def)

lemma settled_thread:
  assumes "core_inv lib s" "settled s"
  shows "settled (thread_step lib a r (sPc s a) s)"
proof -
  have "q \<le> sRevision s" if "sPc s a = PWritten w q ok" for w q ok
    using core_pc [OF assms(1), of a] that by (simp add: pc_ok_def)
  then have "sRevision s = sPersistedRevision s \<Longrightarrow>
      sPersistedRevision (thread_step lib a r (sPc s a) s) = sPersistedRevision s"
    unfolding thread_persisted by (auto simp: max_def split: pc.split)
  with assms(2) thread_flags [of lib a r "sPc s a" s] show ?thesis
    by (auto simp: settled_def flags_def)
qed

text \<open>The worker is about to return that its final flush succeeded.\<close>

lemma worker_returns_true:
  assumes "core_inv lib s" "roles_inv s" "sPc s Worker \<noteq> PReturn True"
    and "sPc (thread_step lib Worker r (sPc s Worker) s) Worker = PReturn True"
  shows "sClosing s \<and> settled s"
proof -
  have load: "sPc s Worker = PEnter 0 \<Longrightarrow> \<not> sLoadActive s"
    using core_pc [OF assms(1), of Worker] assms(1) by (auto simp: pc_ok_def core_inv_def load_inv_def)
  have closing: "\<not> loop_pc (sPc s Worker) \<Longrightarrow> sClosing s" using assms(2) by (auto simp: roles_inv_def)
  show ?thesis
    using assms(3, 4) load closing
    by (cases "sPc s Worker")
      (auto simp: worker_inspect_def flush_enter_def flush_section_def flush_ready_def storage_write_def
        CompleteWrite_def flush_return_def settled_def Let_def case_prod_beta split: if_splits)
qed

lemma thread_flush_result:
  "sWorkerFlushResult (thread_step lib a r p s) =
     (if a = Worker \<and> (\<exists>b. p = PReturn b) then p = PReturn True else sWorkerFlushResult s)"
  by (cases p; cases a) (auto simp: worker_inspect_def flush_enter_def flush_section_def storage_write_def
      CompleteWrite_def flush_return_def Let_def case_prod_beta)

lemma worker_end:
  "sPc s Worker \<in> {PFinish, PDone} \<Longrightarrow> sPc (thread_step lib Worker r (sPc s Worker) s) Worker \<in> {PFinish, PDone}"
  by auto

lemma result_thread:
  assumes "core_inv lib s" "roles_inv s" "result_inv s"
  shows "result_inv (thread_step lib a r (sPc s a) s)"
proof -
  define t where "t = thread_step lib a r (sPc s a) s"
  have fl: "sClosing t = sClosing s" "sCloser t = sCloser s" "sShutdownResult t = sShutdownResult s"
    using thread_flags [of lib a r "sPc s a" s] by (simp_all add: flags_def t_def)
  have settled: "settled s \<Longrightarrow> settled t" unfolding t_def by (rule settled_thread [OF assms(1)])
  show ?thesis
  proof (cases "a = Worker")
    case False
    then have "sPc t Worker = sPc s Worker"
      unfolding t_def by (intro thread_others) (auto dest: roles_inspect [OF assms(2)])
    moreover have "sWorkerFlushResult t = sWorkerFlushResult s"
      unfolding t_def thread_flush_result using False by simp
    ultimately show ?thesis using assms(3) fl settled unfolding t_def [symmetric] by (auto simp: result_inv_def)
  next
    case True
    have res: "sWorkerFlushResult t = (if \<exists>b. sPc s Worker = PReturn b then sPc s Worker = PReturn True else sWorkerFlushResult s)"
      unfolding t_def thread_flush_result using True by simp
    have next_pc: "sPc s Worker = PReturn b \<Longrightarrow> sPc t Worker = PFinish" for b
      using True by (simp add: t_def flush_return_def)
    have keep: "sWorkerFlushResult s \<Longrightarrow> sPc s Worker \<noteq> PReturn b" for b
      using assms(3) by (auto simp: result_inv_def)
    have ends: "sPc s Worker \<in> {PFinish, PDone} \<Longrightarrow> sPc t Worker \<in> {PFinish, PDone}"
      using worker_end [of s lib r] True by (simp add: t_def)
    have ret: "sPc t Worker = PReturn True \<Longrightarrow> sClosing s \<and> settled s"
      using worker_returns_true [OF assms(1, 2), of r] assms(3) True
      unfolding t_def result_inv_def by (cases "sPc s Worker = PReturn True") auto
    have flush: "sWorkerFlushResult t \<Longrightarrow> sClosing s \<and> settled s \<and> sPc t Worker \<in> {PFinish, PDone}"
      using assms(3) next_pc ends unfolding res result_inv_def by (auto split: if_splits)
    have up: "sWorkerFlushResult s \<Longrightarrow> sWorkerFlushResult t" using keep unfolding res by auto
    show ?thesis
      using assms(3) fl settled ret flush up unfolding t_def [symmetric] by (auto simp: result_inv_def)
  qed
qed

text \<open>Once the store closes and its data is settled, nothing unsettles it.\<close>

lemma settled_step:
  assumes "core_inv lib s" "store_enabled s e" "sClosing s" "settled s"
  shows "settled (store_step lib s e)"
proof (cases e)
  case (StMutate op now)
  with assms show ?thesis by (simp add: store_mutate_unchanged commits_def)
next
  case (StThread a r)
  with assms show ?thesis by (simp add: settled_thread)
next
  case (StLoadDecode preserved)
  have "\<not> sLoadActive s \<Longrightarrow> sLoader s = LoaderIdle" using assms(1) by (simp add: core_inv_def load_inv_def)
  with assms(4) StLoadDecode show ?thesis
    by (auto simp: settled_def load_decode_def load_failed_def CompleteLoadWithoutCommit_def
        split: loader.split option.split)
next
  case (StLoadCommit now)
  have "\<not> sLoadActive s \<Longrightarrow> sLoader s = LoaderIdle" using assms(1) by (simp add: core_inv_def load_inv_def)
  with assms(4) StLoadCommit show ?thesis
    by (auto simp: settled_def load_commit_def Let_def split: loader.split)
qed (use assms in \<open>auto simp: settled_def load_begin_def load_read_def drain_begin_def drain_next_def
    callback_begin_def callback_end_def StoreSubscribe_def update_state_def reset_erase_def shutdown_begin_def
    shutdown_fence_def shutdown_complete_def Notify_def Let_def
    split: list.split option.split prod.split bool.split closer.split\<close>)

lemma result_step:
  assumes "core_inv lib s" "roles_inv s" "result_inv s" "store_enabled s e"
  shows "result_inv (store_step lib s e)"
proof -
  define t where "t = store_step lib s e"
  have settled: "sClosing s \<Longrightarrow> settled s \<Longrightarrow> settled t"
    unfolding t_def by (rule settled_step [OF assms(1, 4)])
  have stage: "stage t = stage s \<Longrightarrow> result_inv t"
    using assms(3) settled by (auto simp: stage_def result_inv_def)
  show ?thesis
  proof (cases "quiet_event e")
    case True
    then show ?thesis using stage stage_quiet quiet_step unfolding t_def by metis
  next
    case quiet: False
    show ?thesis
    proof (cases e)
      case (StThread a r)
      then show ?thesis using result_thread [OF assms(1-3)] by simp
    next
      case (StFlushNow c n)
      then show ?thesis using assms(3) settled by (auto simp: result_inv_def settled_def)
    next
      case (StShutdownBegin mode n)
      show ?thesis
      proof (cases "sClosing s")
        case True
        with StShutdownBegin assms(3) show ?thesis by (simp add: shutdown_begin_closed)
      next
        case False
        with assms(2, 3) have "\<not> sWorkerFlushResult s" "sPc s Worker \<noteq> PReturn True" "sCloser s = CloserIdle" "\<not> sShutdownResult s"
          by (auto simp: roles_inv_def result_inv_def)
        with StShutdownBegin False show ?thesis by (simp add: result_inv_def shutdown_begin_fields)
      qed
    next
      case StShutdownFence
      then show ?thesis using assms(3) by (auto simp: shutdown_fence_def result_inv_def settled_def Let_def)
    next
      case StShutdownComplete
      then show ?thesis using assms(3)
        by (auto simp: shutdown_complete_def result_inv_def settled_def split: closer.split)
    next
      case StNotify
      then show ?thesis using assms(3) by (auto simp: Notify_def result_inv_def settled_def)
    qed (use stage quiet in \<open>simp_all add: t_def stage_mutate stage_load quiet_event_def\<close>)
  qed
qed

subsection \<open>A change is never forgotten\<close>

definition pending_write :: "store \<Rightarrow> bool" where
  "pending_write s \<longleftrightarrow> sTimerArmed s \<or> sWriterActive s \<or> (\<exists>t n. sPc s (Caller t) = PWaiting n)"

definition dirty_inv :: "store \<Rightarrow> bool" where
  "dirty_inv s \<longleftrightarrow> (\<not> sClosing s \<and> sRevision s \<noteq> sPersistedRevision s \<longrightarrow> pending_write s)"

lemma CompleteWriteLocked_dirty:
  "\<not> sClosing s \<Longrightarrow> \<not> sShutdownRequested s \<Longrightarrow>
   sRevision (CompleteWriteLocked r ok now s) \<noteq> sPersistedRevision (CompleteWriteLocked r ok now s) \<Longrightarrow>
   sTimerArmed (CompleteWriteLocked r ok now s)"
  by (auto simp: CompleteWriteLocked_def Let_def split: if_splits)

lemma flush_section_dirty:
  assumes "core_inv lib s" "\<not> sShutdownRequested s" "\<not> sDiscardRequested s" "sRevision s \<noteq> sPersistedRevision s"
  shows "sWriterActive (flush_section a n s)"
proof -
  have "sPersistedRevision s \<le> sRevision s" using assms(1) by (simp add: core_inv_def data_inv_def)
  then have "sRevision s \<noteq> 0" using assms(4) by auto
  then have "\<not> sPreservationFailed s" using assms(1) by (auto simp: core_inv_def load_inv_def)
  then show ?thesis using assms by (simp add: flush_section_def)
qed

lemma flush_enter_dirty:
  assumes "core_inv lib s" "\<not> sShutdownRequested s" "\<not> sDiscardRequested s" "sRevision s \<noteq> sPersistedRevision s"
  shows "sWriterActive (flush_enter (Caller t) n s) \<or> (\<exists>n'. sPc (flush_enter (Caller t) n s) (Caller t) = PWaiting n')"
  using flush_section_dirty [OF core_timer(1) [OF assms(1)], of False "Caller t" n] assms
  by (auto simp: flush_enter_def Let_def)

lemma dirty_thread:
  assumes "core_inv lib s" "roles_inv s" "dirty_inv s"
  shows "dirty_inv (thread_step lib a r (sPc s a) s)"
  unfolding dirty_inv_def
proof (intro impI, elim conjE)
  define p where "p = sPc s a"
  define t where "t = thread_step lib a r p s"
  assume "\<not> sClosing (thread_step lib a r (sPc s a) s)"
    "sRevision (thread_step lib a r (sPc s a) s) \<noteq> sPersistedRevision (thread_step lib a r (sPc s a) s)"
  then have open': "\<not> sClosing s" and dirty: "sRevision s \<noteq> sPersistedRevision t"
    using thread_flags [of lib a r p s] by (auto simp: flags_def t_def p_def)
  have quiet: "\<not> sShutdownRequested s" "\<not> sDiscardRequested s" "\<not> sStopRequested s" "loop_pc (sPc s Worker)"
    using assms(2) open' by (auto simp: roles_inv_def)
  have loop: "a = Worker \<Longrightarrow> loop_pc p" using quiet(4) by (simp add: p_def)
  have others: "b \<noteq> a \<Longrightarrow> sPc t b = sPc s b" for b
    unfolding t_def p_def by (intro thread_others) (auto dest: roles_inspect [OF assms(2)])
  have was: "sRevision s \<noteq> sPersistedRevision s \<Longrightarrow> pending_write s"
    using assms(3) open' by (simp add: dirty_inv_def)
  have same: "pending_write t" if "sPersistedRevision t = sPersistedRevision s" "sTimerArmed t = sTimerArmed s"
    "sWriterActive t = sWriterActive s" "\<And>n. p \<noteq> PWaiting n \<or> sPc t a = p"
  proof -
    have "sPc t (Caller c) = PWaiting n" if "sPc s (Caller c) = PWaiting n" for c n
      using that others [of "Caller c"] \<open>\<And>n. p \<noteq> PWaiting n \<or> sPc t a = p\<close>
      by (cases "Caller c = a") (auto simp: p_def)
    with was dirty that show ?thesis by (auto simp: pending_write_def)
  qed
  show "pending_write (thread_step lib a r (sPc s a) s)"
    unfolding p_def [symmetric] t_def [symmetric]
  proof (cases p)
    case (PInspect v now)
    have t: "t = worker_inspect v now s" by (simp add: t_def PInspect)
    show "pending_write t"
    proof (cases "writable s \<and> \<not> now < sDue s")
      case True
      then show ?thesis using quiet open' by (simp add: t worker_inspect_def pending_write_def)
    next
      case False
      show ?thesis
        by (rule same) (use False quiet open' PInspect in \<open>auto simp: t worker_inspect_def\<close>)
    qed
  next
    case (PEnter n)
    then obtain c where a: "a = Caller c" using loop by (cases a) auto
    have pers: "sPersistedRevision t = sPersistedRevision s"
      unfolding t_def thread_persisted PEnter by simp
    show "pending_write t"
    proof (cases "n = 0")
      case True
      then show ?thesis using pers PEnter by (intro same) (auto simp: t_def)
    next
      case False
      then have "t = flush_enter (Caller c) (n - 1) s" by (simp add: t_def PEnter a)
      with flush_enter_dirty [OF assms(1) quiet(1, 2), of c "n - 1"] dirty pers show ?thesis
        by (auto simp: pending_write_def)
    qed
  next
    case (PWaiting n)
    with flush_section_dirty [OF assms(1) quiet(1, 2), of a n] dirty same show "pending_write t"
      by (cases "flush_ready s") (auto simp: t_def pending_write_def p_def flush_section_def)
  next
    case (PWritten w q ok)
    with CompleteWriteLocked_dirty [OF open' quiet(1), of q ok "clockNow r"] dirty show "pending_write t"
      by (auto simp: t_def pending_write_def CompleteWrite_def)
  next
    case (PReturn b)
    then obtain c where "a = Caller c" using loop by (cases a) auto
    with PReturn same show "pending_write t" by (simp add: t_def flush_return_def)
  next
    case (PWriting w d q)
    with same show "pending_write t"
      by (simp add: t_def storage_write_def case_prod_beta)
  qed (use same quiet in \<open>auto simp: t_def\<close>)
qed

lemma dirty_load:
  assumes "core_inv lib s" "dirty_inv s"
  shows "dirty_inv (load_begin s)" "dirty_inv (load_read os s)" "dirty_inv (load_decode lib preserved s)"
    "dirty_inv (load_commit now s)"
proof -
  show "dirty_inv (load_begin s)" "dirty_inv (load_read os s)" "dirty_inv (load_decode lib preserved s)"
    using assms(2) by (auto simp: dirty_inv_def pending_write_def load_begin_def load_read_def load_decode_def
        load_failed_def CompleteLoadWithoutCommit_def Let_def split: loader.split option.split)
  show "dirty_inv (load_commit now s)"
  proof (cases "\<exists>d rw. sLoader s = LoaderDecoded d rw")
    case True
    then obtain d rw where l: "sLoader s = LoaderDecoded d rw" by blast
    have z: "sRevision s = 0" using load_active [OF assms(1)] l by simp
    show ?thesis
    proof (cases "sShutdownRequested s")
      case False
      then show ?thesis
        using load_commit_fields [OF l False z, of now] by (auto simp: dirty_inv_def pending_write_def)
    next
      case True
      then show ?thesis using l assms(2) by (simp add: load_commit_def dirty_inv_def pending_write_def)
    qed
  next
    case False
    then show ?thesis using assms(2) by (simp add: load_commit_def split: loader.split)
  qed
qed

lemma dirty_step:
  assumes "core_inv lib s" "roles_inv s" "dirty_inv s" "store_enabled s e"
  shows "dirty_inv (store_step lib s e)"
proof (cases "quiet_event e")
  case True
  then have "flow_view (store_step lib s e) = flow_view s" by (rule quiet_step)
  then show ?thesis using assms(3) by (simp add: flow_view_def flags_def dirty_inv_def pending_write_def)
next
  case quiet: False
  show ?thesis
  proof (cases e)
    case (StMutate op now)
    then show ?thesis using assms(3)
      by (cases "commits op s")
        (simp_all add: store_mutate_unchanged store_mutate_commits Let_def dirty_inv_def pending_write_def)
  next
    case (StThread a r)
    then show ?thesis using dirty_thread [OF assms(1-3)] by simp
  next
    case (StFlushNow c n)
    have "sPc s (Caller d) = PWaiting m \<Longrightarrow> sPc (store_step lib s e) (Caller d) = PWaiting m" for d m
      using StFlushNow assms(4) by auto
    moreover have "sTimerArmed (store_step lib s e) = sTimerArmed s" "sWriterActive (store_step lib s e) = sWriterActive s"
      using StFlushNow by simp_all
    ultimately have "pending_write s \<Longrightarrow> pending_write (store_step lib s e)"
      unfolding pending_write_def by metis
    then show ?thesis using assms(3) StFlushNow by (simp add: dirty_inv_def)
  next
    case (StShutdownBegin mode n)
    then show ?thesis using assms(3)
      by (cases "sClosing s") (simp_all add: shutdown_begin_closed dirty_inv_def shutdown_begin_fields)
  next
    case StShutdownFence
    then have "sClosing s" using assms(2, 4) by (auto simp: roles_inv_def)
    then show ?thesis using StShutdownFence by (simp add: dirty_inv_def shutdown_fence_def Let_def)
  next
    case StShutdownComplete
    then show ?thesis using assms(3)
      by (auto simp: dirty_inv_def pending_write_def shutdown_complete_def split: closer.split)
  next
    case StNotify
    then show ?thesis using assms(3) by (simp add: dirty_inv_def pending_write_def Notify_def)
  qed (use dirty_load [OF assms(1, 3)] quiet in \<open>simp_all add: quiet_event_def\<close>)
qed

subsection \<open>The worker does not sleep through it\<close>

text \<open>What the worker found when it decided to wait still holds, unless a notification is under way or the
  version has moved on.\<close>

definition nothing_due :: "store \<Rightarrow> int option \<Rightarrow> bool" where
  "nothing_due s deadline \<longleftrightarrow> \<not> sClosing s \<and> (writable s \<longrightarrow> deadline = Some (sDue s))"

definition captured :: "store \<Rightarrow> u64 \<Rightarrow> bool" where
  "captured s v \<longleftrightarrow> (\<exists>k \<le> sNotified s. v = of_nat k)"

definition asleep_ok :: "store \<Rightarrow> u64 \<Rightarrow> int option \<Rightarrow> bool" where
  "asleep_ok s v deadline \<longleftrightarrow>
     (\<exists>k \<le> sNotified s. v = of_nat k \<and> (k = sNotified s \<and> sNotifying s = 0 \<longrightarrow> nothing_due s deadline))"

definition wake_inv :: "store \<Rightarrow> bool" where
  "wake_inv s \<longleftrightarrow> (\<forall>v now. sPc s Worker = PInspect v now \<longrightarrow> captured s v) \<and>
     (\<forall>v deadline. sPc s Worker = PWait v deadline \<longrightarrow> asleep_ok s v deadline)"

lemma captured_mono: "captured s v \<Longrightarrow> sNotified s \<le> sNotified t \<Longrightarrow> captured t v"
  by (metis captured_def order_trans)

lemma asleep_mono:
  assumes "asleep_ok s v d" "sNotified s \<le> sNotified t"
    and due: "sNotified t = sNotified s \<Longrightarrow> sNotifying t = 0 \<Longrightarrow> sNotifying s = 0 \<and> (nothing_due s d \<longrightarrow> nothing_due t d)"
  shows "asleep_ok t v d"
proof -
  obtain k where k: "k \<le> sNotified s" "v = of_nat k" "k = sNotified s \<Longrightarrow> sNotifying s = 0 \<Longrightarrow> nothing_due s d"
    using assms(1) unfolding asleep_ok_def by (elim exE conjE) metis
  show ?thesis unfolding asleep_ok_def
  proof (intro exI [of _ k] conjI impI, goal_cases)
    case 1
    show ?case using k(1) assms(2) by (rule order_trans)
  next
    case 2
    show ?case by (rule k(2))
  next
    case 3
    then have "sNotified t = sNotified s" "sNotifying t = 0" "k = sNotified s"
      using k(1) assms(2) by linarith+
    with due k(3) show ?case by metis
  qed
qed

lemma wake_mono:
  assumes "wake_inv s" "sPc t Worker = sPc s Worker" "sNotified s \<le> sNotified t"
    and "\<And>deadline. sNotified t = sNotified s \<Longrightarrow> sNotifying t = 0 \<Longrightarrow> sNotifying s = 0 \<and>
           (nothing_due s deadline \<longrightarrow> nothing_due t deadline)"
  shows "wake_inv t"
  unfolding wake_inv_def assms(2)
proof (intro conjI allI impI)
  fix v now assume "sPc s Worker = PInspect v now"
  then show "captured t v" using assms(1) captured_mono [OF _ assms(3)] unfolding wake_inv_def by blast
next
  fix v d assume "sPc s Worker = PWait v d"
  then have "asleep_ok s v d" using assms(1) unfolding wake_inv_def by blast
  then show "asleep_ok t v d" by (rule asleep_mono [OF _ assms(3) assms(4)])
qed

lemma writable_thread:
  assumes "p \<noteq> PLoop" "\<And>w q ok. p \<noteq> PWritten w q ok"
  shows "writable (thread_step lib a r p s) \<Longrightarrow> writable s \<and> sDue (thread_step lib a r p s) = sDue s"
  using assms
  by (cases p) (auto simp: writable_def worker_inspect_def flush_enter_def flush_section_def storage_write_def
      flush_return_def Let_def case_prod_beta split: if_splits actor.splits)

lemma wake_thread:
  assumes "roles_inv s" "wake_inv s"
  shows "wake_inv (thread_step lib a r (sPc s a) s)"
proof -
  define p where "p = sPc s a"
  define t where "t = thread_step lib a r p s"
  have fl: "sNotified t = sNotified s" "sClosing t = sClosing s"
    using thread_flags [of lib a r p s] by (simp_all add: flags_def t_def)
  have mono: "sNotifying s \<le> sNotifying t" unfolding t_def by (rule thread_notifying)
  have others: "b \<noteq> a \<Longrightarrow> sPc t b = sPc s b" for b
    unfolding t_def p_def by (intro thread_others) (auto dest: roles_inspect [OF assms(1)])
  have same: "wake_inv t" if "sPc t Worker = sPc s Worker"
  proof (rule wake_mono [OF assms(2) that])
    fix d
    assume calm: "sNotifying t = 0"
    have "nothing_due s d \<Longrightarrow> nothing_due t d"
    proof (cases "p = PLoop \<or> (\<exists>w q ok. p = PWritten w q ok)")
      case True
      then show "nothing_due s d \<Longrightarrow> nothing_due t d"
        using calm by (auto simp: t_def nothing_due_def writable_def CompleteWrite_def split: if_splits)
    next
      case False
      then show "nothing_due s d \<Longrightarrow> nothing_due t d"
        using writable_thread [of p lib a r s] fl by (auto simp: t_def nothing_due_def)
    qed
    then show "sNotifying s = 0 \<and> (nothing_due s d \<longrightarrow> nothing_due t d)" using mono calm by simp
  qed (simp add: fl)
  have "wake_inv t"
  proof (cases "a = Worker")
    case False
    then show ?thesis using same others by simp
  next
    case True
    show ?thesis
    proof (cases p)
      case PLoop
      then show ?thesis using True by (auto simp: t_def wake_inv_def captured_def WakeupVersion_def)
    next
      case (PInspect v now)
      then have "captured s v" using assms(2) True by (simp add: wake_inv_def p_def)
      then obtain k where k: "k \<le> sNotified s" "v = of_nat k" by (auto simp: captured_def)
      have t: "t = worker_inspect v now s" by (simp add: t_def PInspect)
      have "sPc t Worker = PWait v d \<Longrightarrow> nothing_due t d" for d
        using assms(1)
        by (auto simp: t worker_inspect_def nothing_due_def writable_def roles_inv_def split: if_splits)
      moreover have "sPc t Worker = PWait v' d \<Longrightarrow> v' = v" "sPc t Worker \<noteq> PInspect v' n" for v' d n
        by (auto simp: t worker_inspect_def split: if_splits)
      ultimately show ?thesis using k unfolding wake_inv_def asleep_ok_def by (metis fl(1))
    next
      case (PWait v d)
      show ?thesis
      proof (cases "wait_over s v d (clockNow r)")
        case True
        then show ?thesis using \<open>a = Worker\<close> PWait by (simp add: t_def wake_inv_def)
      next
        case False
        then show ?thesis using PWait same by (simp add: t_def)
      qed
    qed (use True in \<open>auto simp: t_def wake_inv_def flush_enter_def flush_section_def storage_write_def
          CompleteWrite_def flush_return_def Let_def case_prod_beta p_def split: if_splits\<close>)
  qed
  then show ?thesis by (simp add: t_def p_def)
qed

text \<open>A step that announces a notification, or changes nothing the worker looked at, is safe.\<close>

lemma wake_notified: "wake_inv s \<Longrightarrow> sPc t Worker = sPc s Worker \<Longrightarrow> sNotified t = sNotified s \<Longrightarrow>
    sNotifying t > 0 \<Longrightarrow> wake_inv t"
  by (rule wake_mono [where s = s]) simp_all

lemma wake_same: "wake_inv s \<Longrightarrow> sPc t Worker = sPc s Worker \<Longrightarrow> sNotified t = sNotified s \<Longrightarrow>
    sNotifying t = sNotifying s \<Longrightarrow> (\<And>d. nothing_due s d \<Longrightarrow> nothing_due t d) \<Longrightarrow> wake_inv t"
  by (rule wake_mono [where s = s]) simp_all

lemma wake_load:
  assumes "core_inv lib s" "roles_inv s" "wake_inv s"
  shows "wake_inv (load_begin s)" "wake_inv (load_read os s)" "wake_inv (load_decode lib preserved s)"
    "wake_inv (load_commit now s)"
proof -
  show "wake_inv (load_begin s)" "wake_inv (load_read os s)"
    by (rule wake_same [OF assms(3)]; simp add: load_begin_def load_read_def nothing_due_def writable_def Let_def)+
  show "wake_inv (load_decode lib preserved s)"
  proof (cases "sNotifying (load_decode lib preserved s) = sNotifying s")
    case True
    then show ?thesis
      by (intro wake_same [OF assms(3)])
        (auto simp: load_decode_def load_failed_def CompleteLoadWithoutCommit_def nothing_due_def writable_def
          split: loader.splits option.splits)
  next
    case False
    then show ?thesis
      by (intro wake_notified [OF assms(3)])
        (auto simp: load_decode_def load_failed_def CompleteLoadWithoutCommit_def split: loader.splits option.splits)
  qed
  show "wake_inv (load_commit now s)"
  proof (cases "\<exists>d rw. sLoader s = LoaderDecoded d rw")
    case True
    then obtain d rw where l: "sLoader s = LoaderDecoded d rw" by blast
    have z: "sRevision s = 0" using load_active [OF assms(1)] l by simp
    show ?thesis
    proof (cases "sShutdownRequested s")
      case False
      show ?thesis
        by (rule wake_notified [OF assms(3)]) (simp_all add: load_commit_fields [OF l False z])
    next
      case True
      then have "sClosing s" using assms(2) by (simp add: roles_inv_def)
      with True show ?thesis
        by (intro wake_same [OF assms(3)]) (simp_all add: l load_commit_def nothing_due_def)
    qed
  next
    case False
    then show ?thesis using assms(3) by (simp add: load_commit_def split: loader.split)
  qed
qed

lemma wake_step:
  assumes "core_inv lib s" "roles_inv s" "wake_inv s" "store_enabled s e"
  shows "wake_inv (store_step lib s e)"
proof (cases "quiet_event e")
  case True
  then have "flow_view (store_step lib s e) = flow_view s" by (rule quiet_step)
  then show ?thesis
    by (intro wake_same [OF assms(3)]) (auto simp: flow_view_def flags_def nothing_due_def writable_def)
next
  case quiet: False
  show ?thesis
  proof (cases e)
    case (StMutate op now)
    show ?thesis
    proof (cases "commits op s")
      case True
      then show ?thesis using StMutate
        by (intro wake_notified [OF assms(3)]) (simp_all add: store_mutate_commits Let_def)
    qed (use assms(3) StMutate in \<open>simp add: store_mutate_unchanged\<close>)
  next
    case (StThread a r)
    then show ?thesis using wake_thread [OF assms(2, 3)] by simp
  next
    case (StFlushNow c n)
    then show ?thesis
      by (intro wake_same [OF assms(3)]) (simp_all add: nothing_due_def writable_def)
  next
    case (StShutdownBegin mode n)
    show ?thesis
    proof (cases "sClosing s")
      case False
      then show ?thesis using StShutdownBegin
        by (intro wake_notified [OF assms(3)]) (simp_all add: shutdown_begin_fields)
    qed (use assms(3) StShutdownBegin in \<open>simp add: shutdown_begin_closed\<close>)
  next
    case StShutdownFence
    then show ?thesis
      by (intro wake_notified [OF assms(3)]) (simp_all add: shutdown_fence_def Let_def)
  next
    case StShutdownComplete
    then show ?thesis
      by (intro wake_same [OF assms(3)])
        (auto simp: shutdown_complete_def nothing_due_def writable_def split: closer.split)
  next
    case StNotify
    then show ?thesis
      by (intro wake_mono [OF assms(3)]) (simp_all add: Notify_def)
  qed (use wake_load [OF assms(1-3)] quiet in \<open>simp_all add: quiet_event_def\<close>)
qed

subsection \<open>The invariant of the store\<close>

definition store_inv :: "json_lib \<Rightarrow> store \<Rightarrow> bool" where
  "store_inv lib s \<longleftrightarrow> core_inv lib s \<and> roles_inv s \<and> result_inv s \<and> dirty_inv s \<and> wake_inv s"

lemma default_storable: "storable default_settings"
  by (simp add: storable_def IsPersistable_iff default_settings_def default_prompt_def prompt_ok_def date_ok_def
      devices_ok_def recent_ok_def IsSupportedLanguage_def)

lemma new_store_inv: "store_inv lib (new_store file)"
  using default_storable
  by (auto simp: store_inv_def new_store_def core_inv_def data_inv_def writer_inv_def pc_ok_def load_inv_def
      file_inv_def roles_inv_def result_inv_def dirty_inv_def wake_inv_def)

lemma store_step_inv:
  assumes "store_inv lib s" "store_enabled s e"
  shows "store_inv lib (store_step lib s e)"
  using assms core_step [of lib s e] roles_inspect [of s] roles_step [of s e lib] result_step [of lib s e]
    dirty_step [of lib s e] wake_step [of lib s e]
  unfolding store_inv_def by blast

interpretation store_machine: machine store_start "store_step lib" store_enabled "store_inv lib" for lib
  by unfold_locales (auto simp: store_start_def new_store_inv store_step_inv)

end
