(* ===== verification/Store_Publications.thy ===== *)
theory Store_Publications
  imports Store_Flow
begin

section \<open>Publications of the settings store\<close>

text \<open>
  The queue of publications, the one being delivered and what has been delivered: revisions grow along all
  three, every snapshot shows the data of its revision, and a queued publication always has a thread that will
  deliver it (\<open>pub_inv\<close>). A subscription that was reset is never called again.
\<close>

subsection \<open>Order of revisions\<close>

abbreviation pubRevision :: "Publication \<Rightarrow> u64" where "pubRevision p \<equiv> snRevision (pubSnapshot p)"

definition showing :: "store \<Rightarrow> SettingsSnapshot \<Rightarrow> bool" where
  "showing s x \<longleftrightarrow> snRevision x \<le> sRevision s \<and> snData x = sHistory s (snRevision x)"

definition delivery_order :: "nat \<times> SettingsSnapshot \<Rightarrow> nat \<times> SettingsSnapshot \<Rightarrow> bool" where
  "delivery_order a b \<longleftrightarrow> snRevision (snd a) \<le> snRevision (snd b) \<and>
     (fst a = fst b \<longrightarrow> snRevision (snd a) < snRevision (snd b))"

definition queue_inv :: "store \<Rightarrow> bool" where
  "queue_inv s \<longleftrightarrow> sorted_wrt (<) (map pubRevision (sPendingPublications s)) \<and>
     (\<forall>p \<in> set (sPendingPublications s). showing s (pubSnapshot p) \<and> distinct (pubSubscriptions p))"

definition current_inv :: "store \<Rightarrow> bool" where
  "current_inv s \<longleftrightarrow>
     (\<forall>x is ex. sCurrent s = Some (x, is, ex) \<longrightarrow> showing s x \<and> distinct is \<and>
        (\<forall>p \<in> set (sPendingPublications s). snRevision x < pubRevision p) \<and>
        (\<forall>d \<in> set (sDelivered s). snRevision (snd d) \<le> snRevision x \<and> (snRevision (snd d) = snRevision x \<longrightarrow> fst d \<notin> set is)))"

definition delivered_inv :: "store \<Rightarrow> bool" where
  "delivered_inv s \<longleftrightarrow> sorted_wrt delivery_order (sDelivered s) \<and>
     (\<forall>d \<in> set (sDelivered s). showing s (snd d) \<and> (\<forall>p \<in> set (sPendingPublications s). snRevision (snd d) < pubRevision p))"

definition drain_inv :: "store \<Rightarrow> bool" where
  "drain_inv s \<longleftrightarrow> (sCurrent s \<noteq> None \<longrightarrow> sPublishing s) \<and>
     (sPendingPublications s \<noteq> [] \<longrightarrow> sPublishing s \<or> sDrains s > 0)"

definition entries_inv :: "store \<Rightarrow> bool" where
  "entries_inv s \<longleftrightarrow> distinct (map snd (sSubscriptions s)) \<and> (\<forall>e \<in> set (sSubscriptions s). snd e < length (sStates s))"

definition pub_inv :: "store \<Rightarrow> bool" where
  "pub_inv s \<longleftrightarrow> queue_inv s \<and> current_inv s \<and> delivered_inv s \<and> drain_inv s \<and> entries_inv s"

lemmas pub_defs = pub_inv_def queue_inv_def current_inv_def delivered_inv_def drain_inv_def entries_inv_def

definition pub_view where
  "pub_view s = (sRevision s, sHistory s, sPendingPublications s, sCurrent s, sDelivered s, sPublishing s,
     sDrains s, sSubscriptions s, length (sStates s))"

lemma pub_cong:
  assumes "pub_view t = pub_view s" "pub_inv s"
  shows "pub_inv t"
proof -
  have "showing t = showing s" using assms(1) by (simp add: pub_view_def showing_def fun_eq_iff)
  then have "queue_inv t = queue_inv s" "current_inv t = current_inv s" "delivered_inv t = delivered_inv s"
    "drain_inv t = drain_inv s" "entries_inv t = entries_inv s"
    using assms(1) unfolding pub_view_def prod.inject
    by (simp_all only: queue_inv_def current_inv_def delivered_inv_def drain_inv_def entries_inv_def)
  with assms(2) show ?thesis by (simp add: pub_inv_def)
qed

lemma thread_pub_view: "pub_view (thread_step lib a r p s) = pub_view s"
  by (cases p) (simp_all add: pub_view_def worker_inspect_def flush_enter_def flush_section_def storage_write_def
      CompleteWrite_def CompleteWriteLocked_def NotifyChanged_def flush_return_def Let_def case_prod_beta
      split: actor.split)

text \<open>A new revision is queued behind everything there is.\<close>

lemma pub_new_revision:
  assumes "pub_inv s" "sRevision s \<noteq> c_maxRevision"
    and x: "snRevision x = sRevision s + 1" "snData x = d"
    and t: "sRevision t = sRevision s + 1" "sHistory t = (sHistory s)(sRevision s + 1 := d)"
      "sPendingPublications t = sPendingPublications s @
         (if publish then [\<lparr>pubSnapshot = x, pubSubscriptions = map snd (sSubscriptions s)\<rparr>] else [])"
      "sCurrent t = sCurrent s" "sDelivered t = sDelivered s" "sPublishing t = sPublishing s"
      "sDrains t = Suc n" "sSubscriptions t = sSubscriptions s" "sStates t = sStates s"
  shows "pub_inv t"
proof -
  have up: "r < sRevision s + 1" "r \<noteq> sRevision s + 1" "r \<le> sRevision s + 1" if "r \<le> sRevision s" for r
    using revision_less_succ [OF assms(2)] that by auto
  have old: "showing s y \<Longrightarrow> showing t y" "showing s y \<Longrightarrow> snRevision y < sRevision s + 1" for y
    using up by (auto simp: showing_def t)
  have new: "showing t x" by (simp add: showing_def t x)
  have inv: "queue_inv s" "current_inv s" "delivered_inv s" "drain_inv s" "entries_inv s"
    using assms(1) by (simp_all add: pub_inv_def)
  have "queue_inv t"
    using inv(1, 5) old new by (auto simp: queue_inv_def entries_inv_def t x sorted_wrt_append)
  moreover have "current_inv t"
    unfolding current_inv_def t
  proof (intro allI impI)
    fix y "is" ex assume "sCurrent s = Some (y, is, ex)"
    with inv(2) have "showing s y" and cur: "distinct is" "\<forall>p \<in> set (sPendingPublications s). snRevision y < pubRevision p"
      "\<forall>d \<in> set (sDelivered s). snRevision (snd d) \<le> snRevision y \<and> (snRevision (snd d) = snRevision y \<longrightarrow> fst d \<notin> set is)"
      unfolding current_inv_def by blast+
    with old [of y] show "showing t y \<and> distinct is \<and>
        (\<forall>p \<in> set (sPendingPublications s @
         (if publish then [\<lparr>pubSnapshot = x, pubSubscriptions = map snd (sSubscriptions s)\<rparr>] else [])). snRevision y < pubRevision p) \<and>
        (\<forall>d \<in> set (sDelivered s). snRevision (snd d) \<le> snRevision y \<and> (snRevision (snd d) = snRevision y \<longrightarrow> fst d \<notin> set is))"
      by (auto simp: x)
  qed
  moreover have "delivered_inv t"
    using inv(3) old unfolding delivered_inv_def t by (auto simp: x)
  moreover have "drain_inv t" "entries_inv t" using inv(4, 5) by (auto simp: drain_inv_def entries_inv_def t)
  ultimately show ?thesis by (simp add: pub_inv_def)
qed

lemma pub_mutate: "pub_inv s \<Longrightarrow> pub_inv (snd (store_mutate op now s))"
proof (cases "commits op s")
  case True
  assume inv: "pub_inv s"
  have "sRevision s \<noteq> c_maxRevision" using True by (simp add: commits_def)
  then show ?thesis
    by (intro pub_new_revision [where s = s and d = "fst (op_mutation op (sData s))" and n = "sDrains s" and
          publish = "sSubscriptions s \<noteq> []" and
          x = "\<lparr>snData = fst (op_mutation op (sData s)), snRevision = sRevision s + 1,
            snIsDirty = sRevision s + 1 \<noteq> sPersistedRevision s\<rparr>", OF inv])
      (use True in \<open>simp_all add: store_mutate_commits Let_def enqueue_def NotifyChanged_def\<close>)
qed (simp add: store_mutate_unchanged)

lemma pub_load_commit:
  assumes "core_inv lib s" "pub_inv s"
  shows "pub_inv (load_commit now s)"
proof (cases "\<exists>d rw. sLoader s = LoaderDecoded d rw")
  case True
  then obtain d rw where l: "sLoader s = LoaderDecoded d rw" by blast
  have z: "sRevision s = 0" using load_active [OF assms(1)] l by simp
  show ?thesis
  proof (cases "sShutdownRequested s")
    case False
    have "sRevision s \<noteq> c_maxRevision" using z by (simp add: c_maxRevision_def)
    then show ?thesis
      by (intro pub_new_revision [where s = s and d = d and n = "sDrains s" and
            publish = "\<not> sClosing s \<and> sSubscriptions s \<noteq> []" and
            x = "\<lparr>snData = d, snRevision = 1, snIsDirty = False\<rparr>", OF assms(2)])
        (use l z False in \<open>simp_all add: load_commit_def Let_def enqueue_def NotifyChanged_def\<close>)
  next
    case True
    then show ?thesis
      by (intro pub_cong [OF _ assms(2)]) (simp add: l load_commit_def pub_view_def)
  qed
next
  case False
  then show ?thesis using assms(2) by (simp add: load_commit_def split: loader.split)
qed

lemma pub_load:
  assumes "pub_inv s"
  shows "pub_inv (load_begin s)" "pub_inv (load_read os s)" "pub_inv (load_decode lib preserved s)"
  by (intro pub_cong [OF _ assms]; simp add: pub_view_def load_begin_def load_read_def load_decode_def
      load_failed_def CompleteLoadWithoutCommit_def NotifyChanged_def Let_def split: loader.split option.split prod.split)+

subsection \<open>Delivery\<close>

lemma pub_drain_begin: "pub_inv s \<Longrightarrow> pub_inv (drain_begin t s)"
  by (auto simp: drain_begin_def Let_def pub_defs showing_def)

lemma pub_drain_next:
  assumes "pub_inv s" "between_publications s"
  shows "pub_inv (drain_next s)"
proof (cases "sPendingPublications s")
  case Nil
  with assms show ?thesis by (auto simp: drain_next_def pub_defs showing_def)
next
  case (Cons p ps)
  define t where "t = drain_next s"
  have t: "t = s\<lparr>sPendingPublications := ps, sCurrent := Some (pubSnapshot p, pubSubscriptions p, None)\<rparr>"
    by (simp add: t_def drain_next_def Cons)
  have show_eq: "showing t = showing s" by (simp add: t showing_def fun_eq_iff)
  have inv: "queue_inv s" "current_inv s" "delivered_inv s" "drain_inv s" "entries_inv s"
    using assms(1) by (simp_all add: pub_inv_def)
  have "queue_inv t" using inv(1) by (auto simp: queue_inv_def show_eq) (simp_all add: t Cons)
  moreover have "current_inv t"
    using inv(1, 3) unfolding current_inv_def show_eq
    by (auto simp: t queue_inv_def delivered_inv_def Cons)
  moreover have "delivered_inv t"
    using inv(3) unfolding delivered_inv_def show_eq by (auto simp: t Cons)
  moreover have "drain_inv t" "entries_inv t"
    using inv(4, 5) assms(2) by (auto simp: drain_inv_def entries_inv_def t between_publications_def)
  ultimately show ?thesis by (simp add: pub_inv_def t_def)
qed

lemma pub_callback_begin:
  assumes "pub_inv s"
  shows "pub_inv (callback_begin s)"
proof (cases "\<exists>x i is. sCurrent s = Some (x, i # is, None)")
  case False
  then have "callback_begin s = s"
    by (auto simp: callback_begin_def split: option.split prod.split list.split)
  with assms show ?thesis by simp
next
  case True
  then obtain x i "is" where cur: "sCurrent s = Some (x, i # is, None)" by blast
  have inv: "queue_inv s" "current_inv s" "delivered_inv s" "drain_inv s" "entries_inv s"
    using assms by (simp_all add: pub_inv_def)
  from inv(2) cur have c: "showing s x" "distinct (i # is)" "\<forall>p \<in> set (sPendingPublications s). snRevision x < pubRevision p"
    "\<forall>d \<in> set (sDelivered s). snRevision (snd d) \<le> snRevision x \<and>
      (snRevision (snd d) = snRevision x \<longrightarrow> fst d \<notin> set (i # is))"
    unfolding current_inv_def by blast+
  show ?thesis
  proof (cases "IsActive (sStates s ! i)")
    case False
    then have "callback_begin s = s\<lparr>sCurrent := Some (x, is, None)\<rparr>"
      by (simp add: callback_begin_def cur TryBeginCallback_def)
    with inv c cur show ?thesis
      by (auto simp: pub_inv_def queue_inv_def current_inv_def delivered_inv_def drain_inv_def entries_inv_def showing_def)
  next
    case True
    define st where "st = snd (TryBeginCallback (the (sPublisherThread s)) (sStates s ! i))"
    define t where "t = callback_begin s"
    have t: "t = s\<lparr>sStates := (sStates s)[i := st], sCurrent := Some (x, is, Some i),
        sDelivered := sDelivered s @ [(i, x)]\<rparr>"
      using True by (simp add: t_def callback_begin_def cur TryBeginCallback_def st_def)
    have show_eq: "showing t = showing s" by (simp add: t showing_def fun_eq_iff)
    have "queue_inv t" using inv(1) unfolding queue_inv_def show_eq by (simp add: t)
    moreover have "current_inv t"
      using c unfolding current_inv_def show_eq by (auto simp: t)
    moreover have "delivery_order d (i, x)" if "d \<in> set (sDelivered s)" for d
    proof -
      have "snRevision (snd d) \<le> snRevision x" "snRevision (snd d) = snRevision x \<longrightarrow> fst d \<noteq> i"
        using c(4) that by auto
      then show ?thesis by (auto simp: delivery_order_def order_less_le)
    qed
    then have "delivered_inv t"
      using inv(3) c(1, 3) unfolding delivered_inv_def show_eq by (auto simp: t sorted_wrt_append)
    moreover have "drain_inv t" "entries_inv t"
      using inv(4, 5) cur by (auto simp: drain_inv_def entries_inv_def t)
    ultimately show ?thesis by (simp add: pub_inv_def t_def)
  qed
qed

text \<open>Steps that leave the queue alone.\<close>

lemma pub_keep:
  assumes "pub_inv s" "entries_inv t"
    and "sRevision t = sRevision s" "sHistory t = sHistory s" "sPendingPublications t = sPendingPublications s"
      "sDelivered t = sDelivered s" "sPublishing t = sPublishing s" "sDrains t = sDrains s"
    and cur: "sCurrent t = map_option (\<lambda>(x, is, ex). (x, is, f ex)) (sCurrent s)"
  shows "pub_inv t"
proof -
  have show_eq: "showing t = showing s" using assms by (simp add: showing_def fun_eq_iff)
  have inv: "queue_inv s" "current_inv s" "delivered_inv s" "drain_inv s"
    using assms(1) by (simp_all add: pub_inv_def)
  have "queue_inv t" "delivered_inv t" using inv(1, 3) by (simp_all add: queue_inv_def delivered_inv_def show_eq assms(3-8))
  moreover have "drain_inv t" using inv(4) by (simp add: drain_inv_def assms(3-8) cur)
  moreover have "current_inv t"
    unfolding current_inv_def show_eq assms(3-8)
  proof (intro allI impI)
    fix x "is" ex assume "sCurrent t = Some (x, is, ex)"
    then obtain ex' where "sCurrent s = Some (x, is, ex')" by (auto simp: cur)
    with inv(2) show "showing s x \<and> distinct is \<and> (\<forall>p \<in> set (sPendingPublications s). snRevision x < pubRevision p) \<and>
        (\<forall>d \<in> set (sDelivered s). snRevision (snd d) \<le> snRevision x \<and> (snRevision (snd d) = snRevision x \<longrightarrow> fst d \<notin> set is))"
      unfolding current_inv_def by blast
  qed
  ultimately show ?thesis using assms(2) by (simp add: pub_inv_def)
qed

lemma pub_keep_current:
  assumes "pub_inv s" "entries_inv t"
    and "sRevision t = sRevision s" "sHistory t = sHistory s" "sPendingPublications t = sPendingPublications s"
      "sDelivered t = sDelivered s" "sPublishing t = sPublishing s" "sDrains t = sDrains s" "sCurrent t = sCurrent s"
  shows "pub_inv t"
  by (rule pub_keep [where f = "\<lambda>ex. ex", OF assms(1-8)]) (simp add: assms(9) option.map_ident_strong case_prod_beta)

lemma pub_entries: "pub_inv s \<Longrightarrow> entries_inv s" by (simp add: pub_inv_def)

lemma pub_callback_end:
  assumes "pub_inv s"
  shows "pub_inv (callback_end s)"
proof (cases "\<exists>x is i. sCurrent s = Some (x, is, Some i)")
  case True
  then obtain x "is" i where "sCurrent s = Some (x, is, Some i)" by blast
  then show ?thesis
    by (intro pub_keep [where f = "\<lambda>_. None", OF assms])
      (use pub_entries [OF assms] in \<open>simp_all add: callback_end_def update_state_def entries_inv_def\<close>)
next
  case False
  then have "callback_end s = s" by (auto simp: callback_end_def split: option.split)
  with assms show ?thesis by simp
qed

lemma length_deactivated: "length (fold (\<lambda>e sts. sts[snd e := f (sts ! snd e)]) es sts) = length sts"
  by (induction es arbitrary: sts) simp_all

lemma pub_subscribe:
  assumes "pub_inv s"
  shows "pub_inv (StoreSubscribe s)"
proof -
  have "entries_inv (StoreSubscribe s)"
    using pub_entries [OF assms] by (auto simp: StoreSubscribe_def Let_def entries_inv_def less_Suc_eq)
  then show ?thesis by (rule pub_keep_current [OF assms]) (simp_all add: StoreSubscribe_def Let_def)
qed

lemma pub_shutdown_begin:
  assumes "pub_inv s"
  shows "pub_inv (shutdown_begin mode n s)"
proof -
  have "entries_inv (shutdown_begin mode n s)"
    using pub_entries [OF assms] by (simp add: shutdown_begin_def DeactivateSubscriptionsLocked_def NotifyChanged_def entries_inv_def)
  then show ?thesis
    by (rule pub_keep_current [OF assms])
      (simp_all add: shutdown_begin_def DeactivateSubscriptionsLocked_def NotifyChanged_def)
qed

lemma pub_reset_erase:
  assumes "pub_inv s"
  shows "pub_inv (reset_erase identifier s)"
proof -
  have "entries_inv (reset_erase identifier s)"
    using pub_entries [OF assms] by (simp add: reset_erase_def entries_inv_def distinct_map_filter)
  then show ?thesis by (rule pub_keep_current [OF assms]) (simp_all add: reset_erase_def)
qed

lemma pub_step:
  assumes "core_inv lib s" "pub_inv s" "store_enabled s e"
  shows "pub_inv (store_step lib s e)"
proof (cases e)
  case (StThread a r)
  then show ?thesis using pub_cong [OF thread_pub_view assms(2)] by simp
next
  case StDrainNext
  then show ?thesis using assms pub_drain_next by simp
next
  case (StResetBegin i)
  show ?thesis by (rule pub_cong [OF _ assms(2)]) (simp add: StResetBegin pub_view_def update_state_def)
next
  case StNotify
  show ?thesis by (rule pub_cong [OF _ assms(2)]) (simp add: StNotify pub_view_def Notify_def)
next
  case (StFlushNow t n)
  show ?thesis by (rule pub_cong [OF _ assms(2)]) (simp add: StFlushNow pub_view_def)
next
  case StShutdownFence
  show ?thesis by (rule pub_cong [OF _ assms(2)])
    (simp add: StShutdownFence pub_view_def shutdown_fence_def NotifyChanged_def Let_def)
next
  case StShutdownComplete
  show ?thesis by (rule pub_cong [OF _ assms(2)])
    (simp add: StShutdownComplete pub_view_def shutdown_complete_def split: closer.split)
qed (use assms(2) pub_load_commit [OF assms(1, 2)] in \<open>simp_all add: pub_mutate pub_load pub_drain_begin
    pub_callback_begin pub_callback_end pub_subscribe pub_shutdown_begin pub_reset_erase\<close>)

lemma new_store_pub: "pub_inv (new_store file)"
  by (simp add: new_store_def pub_defs)

lemma store_core: "store_inv lib s \<Longrightarrow> core_inv lib s" by (simp add: store_inv_def)

interpretation publication_machine: machine store_start "store_step lib" store_enabled
    "\<lambda>s. store_inv lib s \<and> pub_inv s" for lib
proof unfold_locales
  show "store_start s \<Longrightarrow> store_inv lib s \<and> pub_inv s" for s
    using new_store_inv new_store_pub by (auto simp: store_start_def)
  show "store_inv lib s \<and> pub_inv s \<Longrightarrow> store_enabled s e \<Longrightarrow> store_inv lib (store_step lib s e) \<and> pub_inv (store_step lib s e)"
    for s e using store_step_inv pub_step store_core by blast
qed

end
