(* ===== verification/Store_Claims.thy ===== *)
theory Store_Claims
  imports Store_Publications
begin

section \<open>Properties of the settings store\<close>

text \<open>
  What the invariants of the store say of the program, and a run that shows the statements at work: a store
  starts beside a file of the unversioned format, publishes what it loaded, rewrites the file after the debounce
  delay and shuts down.
\<close>

subsection \<open>A run\<close>

definition good_disk :: write_os where
  "good_disk = \<lparr>tmpOpens = True, writeAnswer = (\<lambda>_. (True, 100)), flushSucceeds = True, moveSucceeds = True\<rparr>"

definition at :: "int \<Rightarrow> reply" where
  "at now = \<lparr>clockNow = now, apartmentReady = True, diskAnswers = good_disk\<rparr>"

definition load_run :: "store_event list" where
  "load_run = [StSubscribe, StLoadBegin, StLoadRead \<lparr>openSucceeds = True, readAnswer = (\<lambda>_. (True, 100))\<rparr>,
     StLoadDecode True, StLoadCommit 0, StNotify, StDrainBegin 7, StDrainNext, StCallbackBegin, StCallbackEnd,
     StDrainNext]"

definition wait_run :: "store_event list" where
  "wait_run = [StThread Worker (at 0), StThread Worker (at 0)]"

definition write_run :: "store_event list" where
  "write_run = [StThread Worker (at 300), StThread Worker (at 300), StThread Worker (at 300), StThread Worker (at 300),
     StThread Worker (at 310), StNotify]"

definition close_run :: "store_event list" where
  "close_run = [StShutdownBegin ShutdownFlush 3, StNotify, StThread Worker (at 320), StThread Worker (at 320),
     StThread Worker (at 320), StThread Worker (at 320), StThread Worker (at 320), StThread Worker (at 320),
     StShutdownFence, StShutdownComplete]"

abbreviation after :: "store \<Rightarrow> store_event list \<Rightarrow> store" where
  "after s es \<equiv> foldl (store_step old_lib) s es"

definition old_start :: store where "old_start = new_store (Some ''old'')"

definition loaded_store :: store where
  "loaded_store = old_start\<lparr>sData := migrated_settings, sRevision := 1, sNextSubscriptionId := 1,
     sStates := [\<lparr>IsActive = True, IsExecuting = False, ExecutingThread = None\<rparr>], sSubscriptions := [(1, 0)],
     sTimerArmed := True, sDue := 300, sLoadClaimed := True, sNotified := 1, sFileRevision := Some 1,
     sHistory := (\<lambda>_. default_settings)(1 := migrated_settings),
     sDelivered := [(0, \<lparr>snData = migrated_settings, snRevision = 1, snIsDirty = False\<rparr>)]\<rparr>"

lemma read_old: "Read \<lparr>openSucceeds = True, readAnswer = (\<lambda>_. (True, 100))\<rparr> (Some ''old'') = Some (Some ''old'')"
  by (simp add: Read_def c_maxSettingsFileBytes_def) (subst read_loop.simps; simp add: MAXDWORD_def read_loop.simps)

lemma write_doc: "Write old_lib good_disk migrated_settings file = (True, Some ''doc'')"
proof -
  have "Encode old_lib migrated_settings = Some ''doc''"
  proof -
    have "document old_lib migrated_settings \<noteq> JObject new_members"
      by (simp add: document_def document_members_def new_members_def)
    moreover have "IsPersistable migrated_settings" using DecodePersisted_sound [OF old_decoded] by simp
    ultimately show ?thesis by (simp add: Encode_def Require_def old_lib_def c_maxSettingsFileBytes_def)
  qed
  moreover have "write_loop (\<lambda>_. (True, 100)) 0 ''doc'' [] = Some ''doc''"
    by (subst write_loop.simps) (simp add: MAXDWORD_def write_loop.simps)
  ultimately show ?thesis by (simp add: Write_def WriteAtomically_def good_disk_def)
qed

lemma after_load: "after old_start load_run = loaded_store"
  by (simp add: load_run_def old_start_def loaded_store_def new_store_def StoreSubscribe_def load_begin_def load_read_def
      read_old load_decode_def old_decoded load_commit_def enqueue_def NotifyChanged_def c_debounceDelay_def Notify_def
      drain_begin_def drain_next_def callback_begin_def TryBeginCallback_def callback_end_def update_state_def
      CompleteCallback_def Let_def)

definition waiting_store :: store where
  "waiting_store = loaded_store\<lparr>sPc := (\<lambda>_. PIdle)(Worker := PWait 1 (Some 300))\<rparr>"

definition written_store :: store where
  "written_store = loaded_store\<lparr>sTimerArmed := False, sPersistedRevision := 1, sFile := Some ''doc'',
     sNotified := 2, sPc := (\<lambda>_. PIdle)(Worker := PLoop)\<rparr>"

definition closed_store :: store where
  "closed_store = written_store\<lparr>sStates := [\<lparr>IsActive = False, IsExecuting = False, ExecutingThread = None\<rparr>],
     sSubscriptions := [], sClosing := True, sShutdownRequested := True, sShutdownCoreComplete := True,
     sShutdownResult := True, sWorkerFinished := True, sWorkerFlushResult := True, sStopRequested := True,
     sPc := (\<lambda>_. PIdle)(Worker := PDone), sCloser := CloserDone, sNotifying := 1, sNotified := 3\<rparr>"

lemmas run_simps = loaded_store_def old_start_def new_store_def at_def worker_inspect_def WakeupVersion_def
  writable_def wait_over_def storage_write_def write_doc CompleteWrite_def CompleteWriteLocked_def NotifyChanged_def
  Notify_def flush_enter_def flush_section_def flush_ready_def flush_return_def

lemma after_wait: "after loaded_store wait_run = waiting_store"
  by (simp add: wait_run_def waiting_store_def run_simps)

lemma after_writing: "after waiting_store write_run = written_store"
  by (simp add: write_run_def waiting_store_def written_store_def run_simps Let_def)

lemma after_close: "after written_store close_run = closed_store"
  by (simp add: close_run_def written_store_def closed_store_def run_simps shutdown_begin_def
      DeactivateSubscriptionsLocked_def Deactivate_def shutdown_fence_def shutdown_drained_def shutdown_complete_def Let_def)

lemma load_admissible: "admissible (store_step old_lib) store_enabled old_start load_run"
  by (simp add: load_run_def old_start_def new_store_def StoreSubscribe_def load_begin_def load_read_def
      read_old load_decode_def old_decoded load_commit_def enqueue_def NotifyChanged_def c_debounceDelay_def Notify_def
      drain_begin_def drain_next_def callback_begin_def TryBeginCallback_def callback_end_def update_state_def
      CompleteCallback_def between_publications_def Let_def)

lemma wait_admissible: "admissible (store_step old_lib) store_enabled loaded_store wait_run"
  by (simp add: wait_run_def)

lemma write_admissible: "admissible (store_step old_lib) store_enabled waiting_store write_run"
  by (simp add: write_run_def waiting_store_def run_simps Let_def)

lemma close_admissible: "admissible (store_step old_lib) store_enabled written_store close_run"
  by (simp add: close_run_def written_store_def run_simps shutdown_begin_def
      DeactivateSubscriptionsLocked_def Deactivate_def shutdown_fence_def shutdown_drained_def shutdown_complete_def Let_def)

lemma run_reachable:
  "reachable store_start (store_step old_lib) store_enabled loaded_store"
  "reachable store_start (store_step old_lib) store_enabled waiting_store"
  "reachable store_start (store_step old_lib) store_enabled written_store"
  "reachable store_start (store_step old_lib) store_enabled closed_store"
proof -
  have "reachable store_start (store_step old_lib) store_enabled old_start"
    by (rule reach_start) (auto simp: store_start_def old_start_def)
  from reachable_run [OF this load_admissible]
  show 1: "reachable store_start (store_step old_lib) store_enabled loaded_store" by (simp only: after_load)
  from reachable_run [OF 1 wait_admissible]
  show 2: "reachable store_start (store_step old_lib) store_enabled waiting_store" by (simp only: after_wait)
  from reachable_run [OF 2 write_admissible]
  show 3: "reachable store_start (store_step old_lib) store_enabled written_store" by (simp only: after_writing)
  from reachable_run [OF 3 close_admissible]
  show "reachable store_start (store_step old_lib) store_enabled closed_store" by (simp only: after_close)
qed

subsection \<open>The file\<close>

lemma reachable_store:
  "reachable store_start (store_step lib) store_enabled s \<Longrightarrow> store_inv lib s \<and> pub_inv s"
  by (rule publication_machine.reachable_inv)

text \<open>What a file with a revision decodes to.\<close>

lemma holds_decoded:
  assumes "holds_revision lib bytes d" "storable d" "faithful_on lib d"
  shows "\<exists>rewrite. DecodePersisted lib bytes = Some (d, rewrite)"
  using assms decode_encoded [of d lib] by (auto simp: holds_revision_def storable_def)

lemma file_revision_forward:
  assumes "store_inv lib s" "sFileRevision s = Some q" "store_enabled s e"
  shows "\<exists>q' \<ge> q. sFileRevision (store_step lib s e) = Some q'"
proof -
  have inv: "core_inv lib s" "roles_inv s" using assms(1) by (simp_all add: store_inv_def)
  show ?thesis
  proof (cases e)
    case (StThread a r)
    have "q \<le> k" if "sPc s a = PWriting w d k" for w d k
      using core_pc [OF inv(1), of a] that assms(2) by (simp add: pc_ok_def)
    then show ?thesis using StThread assms(2)
      by (cases "sPc s a") (auto simp: worker_inspect_def flush_enter_def flush_section_def storage_write_def
          CompleteWrite_def flush_return_def Let_def split: prod.split actor.split)
  next
    case (StLoadCommit now)
    have "sLoader s = LoaderDecoded d rw \<Longrightarrow> False" for d rw
      using load_active [OF inv(1)] no_file_revision [OF inv(1)] assms(2) by simp
    with StLoadCommit assms(2) show ?thesis by (auto simp: load_commit_def split: loader.split)
  next
    case (StMutate op now)
    then show ?thesis using assms(2)
      by (cases "commits op s") (simp_all add: store_mutate_unchanged store_mutate_commits Let_def)
  qed (use assms(2) in \<open>auto simp: load_begin_def load_read_def load_decode_def load_failed_def CompleteLoadWithoutCommit_def
      drain_begin_def drain_next_def callback_begin_def callback_end_def StoreSubscribe_def update_state_def reset_erase_def
      shutdown_begin_def DeactivateSubscriptionsLocked_def shutdown_fence_def shutdown_complete_def Notify_def Let_def
      split: list.split option.split prod.split bool.split closer.split loader.split\<close>)
qed

text \<open>C17: the settings file always holds one complete committed revision, at least as new as the one the store
  counts as persisted, whatever thread was writing and wherever the process stops; no step of any thread puts an
  older revision in its place; and when the snapshot is not dirty the file decodes to exactly its settings.\<close>

theorem store_file_current:
  assumes "reachable store_start (store_step lib) store_enabled s"
  shows "(\<forall>q. sFileRevision s = Some q \<longrightarrow> sPersistedRevision s \<le> q \<and> q \<le> sRevision s \<and>
            (\<exists>bytes. sFile s = Some bytes \<and> (faithful_on lib (sHistory s q) \<longrightarrow>
               (\<exists>rewrite. DecodePersisted lib bytes = Some (sHistory s q, rewrite)))) \<and>
            (\<forall>e. store_enabled s e \<longrightarrow> (\<exists>q' \<ge> q. sFileRevision (store_step lib s e) = Some q'))) \<and>
         (\<not> snIsDirty (StoreSnapshot s) \<and> sRevision s \<noteq> 0 \<and> faithful_on lib (sData s) \<longrightarrow>
            (\<exists>bytes rewrite. sFile s = Some bytes \<and> DecodePersisted lib bytes = Some (snData (StoreSnapshot s), rewrite)))"
proof (intro conjI allI impI)
  have inv: "store_inv lib s" using reachable_store [OF assms] by simp
  then have core: "data_inv s" "file_inv lib s" by (simp_all add: store_inv_def core_inv_def)
  have decoded: "\<exists>bytes. sFile s = Some bytes \<and> (faithful_on lib (sHistory s q) \<longrightarrow>
      (\<exists>rewrite. DecodePersisted lib bytes = Some (sHistory s q, rewrite)))" if held: "sFileRevision s = Some q" for q
  proof -
    obtain bytes where "sFile s = Some bytes" "holds_revision lib bytes (sHistory s q)" "q \<le> sRevision s"
      using core(2) held unfolding file_inv_def by blast
    with core(1) holds_decoded show ?thesis by (auto simp: data_inv_def)
  qed
  {
    fix q assume q: "sFileRevision s = Some q"
    then show "sPersistedRevision s \<le> q" "q \<le> sRevision s" using core(2) by (simp_all add: file_inv_def)
    show "\<exists>bytes. sFile s = Some bytes \<and> (faithful_on lib (sHistory s q) \<longrightarrow>
        (\<exists>rewrite. DecodePersisted lib bytes = Some (sHistory s q, rewrite)))" by (rule decoded [OF q])
    show "\<exists>q' \<ge> q. sFileRevision (store_step lib s e) = Some q'" if "store_enabled s e" for e
      by (rule file_revision_forward [OF inv q that])
  }
  assume clean: "\<not> snIsDirty (StoreSnapshot s) \<and> sRevision s \<noteq> 0 \<and> faithful_on lib (sData s)"
  then have same: "sRevision s = sPersistedRevision s" by (simp add: StoreSnapshot_def)
  with clean core(2) obtain q where q: "sFileRevision s = Some q"
    by (cases "sFileRevision s") (auto simp: file_inv_def)
  moreover from core(2) q same have "q = sRevision s" by (auto simp: file_inv_def)
  ultimately show "\<exists>bytes rewrite. sFile s = Some bytes \<and> DecodePersisted lib bytes = Some (snData (StoreSnapshot s), rewrite)"
    using decoded [OF q] clean core(1) by (auto simp: data_inv_def StoreSnapshot_def)
qed

theorem store_file_current_witness:
  "\<exists>bytes rewrite. sFile written_store = Some bytes \<and> DecodePersisted old_lib bytes = Some (migrated_settings, rewrite)"
  using store_file_current [OF run_reachable(3)] old_faithful
  by (simp add: StoreSnapshot_def written_store_def loaded_store_def old_start_def new_store_def)

subsection \<open>Changes reach the file\<close>

lemma version_current:
  assumes "sNotified s < 2 ^ 64" "k \<le> sNotified s" "of_nat k = WakeupVersion s"
  shows "k = sNotified s"
proof -
  have "WakeupVersion s = of_nat k + of_nat (sNotified s - k)"
    unfolding WakeupVersion_def using assms(2) by (metis le_add_diff_inverse of_nat_add)
  then have "(of_nat k :: u64) + of_nat (sNotified s - k) = of_nat k" using assms(3) by metis
  moreover have "sNotified s - k < 2 ^ 64" using assms(1) by (rule le_less_trans [rotated]) simp
  ultimately have "sNotified s - k = 0" using word64_plus_of_nat_eq_iff by blast
  with assms(2) show ?thesis by simp
qed

lemma asleep_until_due:
  assumes "store_inv lib s" "sNotified s < 2 ^ 64" "sPc s Worker = PWait v d" "writable s"
  shows "v \<noteq> WakeupVersion s \<or> sNotifying s > 0 \<or> d = Some (sDue s)"
proof -
  from assms(1, 3) have "asleep_ok s v d" by (simp add: store_inv_def wake_inv_def)
  then obtain k where k: "k \<le> sNotified s" "v = of_nat k" "k = sNotified s \<and> sNotifying s = 0 \<longrightarrow> nothing_due s d"
    unfolding asleep_ok_def by (elim exE conjE) metis
  with version_current [OF assms(2) k(1)] assms(4) show ?thesis by (auto simp: nothing_due_def)
qed

text \<open>C18: a committed change is never forgotten. While the store is open and dirty, a write is in flight, or a
  flush is about to make one, or the timer is armed and the worker is running and does not sleep past it: a
  waiting worker has been notified since it looked, is about to be, or waits exactly until the write is due. A
  worker that looks when the write is due starts writing the current revision.\<close>

theorem store_change_is_written:
  assumes "reachable store_start (store_step lib) store_enabled s" "sNotified s < 2 ^ 64"
    and "\<not> sClosing s" "snIsDirty (StoreSnapshot s)"
  shows "((\<exists>a. pc_writes (sPc s a)) \<or>
          (\<exists>t n. sPc s (Caller t) = PWaiting n \<and> flush_ready s) \<or>
          (writable s \<and> loop_pc (sPc s Worker) \<and>
           (\<forall>v d. sPc s Worker = PWait v d \<longrightarrow> v \<noteq> WakeupVersion s \<or> sNotifying s > 0 \<or> d = Some (sDue s)))) \<and>
         (\<forall>v now r. writable s \<and> sPc s Worker = PInspect v now \<and> sDue s \<le> now \<longrightarrow>
            sPc (store_step lib s (StThread Worker r)) Worker = PWriting Background (sData s) (sRevision s))"
proof
  have inv: "store_inv lib s" using reachable_store [OF assms(1)] by simp
  have dirty: "sRevision s \<noteq> sPersistedRevision s" using assms(4) by (simp add: StoreSnapshot_def)
  have parts: "core_inv lib s" "roles_inv s" "dirty_inv s" using inv by (simp_all add: store_inv_def)
  have "sRevision s \<noteq> 0" using parts(1) dirty by (auto simp: core_inv_def data_inv_def)
  then have idle: "\<not> sLoadActive s" using parts(1) by (auto simp: core_inv_def load_inv_def)
  have running: "loop_pc (sPc s Worker)" "\<not> sDiscardRequested s" "\<not> sShutdownRequested s"
    using parts(2) assms(3) by (auto simp: roles_inv_def)
  have pending: "pending_write s" using parts(3) dirty assms(3) by (simp add: dirty_inv_def)
  show "(\<exists>a. pc_writes (sPc s a)) \<or> (\<exists>t n. sPc s (Caller t) = PWaiting n \<and> flush_ready s) \<or>
      (writable s \<and> loop_pc (sPc s Worker) \<and>
       (\<forall>v d. sPc s Worker = PWait v d \<longrightarrow> v \<noteq> WakeupVersion s \<or> sNotifying s > 0 \<or> d = Some (sDue s)))"
  proof (cases "sWriterActive s")
    case True
    then show ?thesis using parts(1) by (auto simp: core_inv_def writer_inv_def)
  next
    case False
    then have "flush_ready s" using idle by (simp add: flush_ready_def)
    moreover have "sTimerArmed s \<Longrightarrow> writable s" using False idle running dirty by (simp add: writable_def)
    ultimately show ?thesis
      using pending False asleep_until_due [OF inv assms(2)] running unfolding pending_write_def by blast
  qed
  show "\<forall>v now r. writable s \<and> sPc s Worker = PInspect v now \<and> sDue s \<le> now \<longrightarrow>
      sPc (store_step lib s (StThread Worker r)) Worker = PWriting Background (sData s) (sRevision s)"
    using running assms(3) by (auto simp: worker_inspect_def)
qed

theorem store_change_is_written_witness:
  "writable waiting_store \<and> sPc waiting_store Worker = PWait 1 (Some (sDue waiting_store))"
proof -
  have dirty: "\<not> sClosing waiting_store" "snIsDirty (StoreSnapshot waiting_store)" "sNotified waiting_store < 2 ^ 64"
    by (simp_all add: StoreSnapshot_def waiting_store_def loaded_store_def old_start_def new_store_def)
  have "\<not> (\<exists>a. pc_writes (sPc waiting_store a))" "\<not> (\<exists>t n. sPc waiting_store (Caller t) = PWaiting n)"
    by (auto simp: waiting_store_def split: if_splits)
  with store_change_is_written [OF run_reachable(2) dirty(3, 1, 2)] show ?thesis
    by (auto simp: waiting_store_def loaded_store_def old_start_def new_store_def WakeupVersion_def)
qed

subsection \<open>Failed writes\<close>

lemma RetryDelay_nat:
  assumes "n \<le> 10"
  shows "RetryDelay (of_nat n) = min (1000 * 2 ^ (n - 1)) 300000"
proof -
  have "n \<in> {0, 1, 2, 3, 4, 5, 6, 7, 8, 9, 10}" using assms by (simp only: insert_iff empty_iff) presburger
  then show ?thesis by (auto simp: RetryDelay_def c_maxRetryDelay_def Let_def)
qed

text \<open>A failed write loses nothing and is tried again. The settings, their revision and the persisted
  revision stay as they are, the timer is armed, and the delay doubles from one second with every failure in a
  row up to five minutes; the count of failures stops at ten.\<close>

theorem store_write_failure:
  assumes "\<not> sClosing s" "\<not> sShutdownRequested s" "sFailures s = of_nat n" "n \<le> 10"
  shows "StoreSnapshot (CompleteWriteLocked r False now s) = StoreSnapshot s \<and>
         sTimerArmed (CompleteWriteLocked r False now s) \<and>
         sDue (CompleteWriteLocked r False now s) = now + min (1000 * 2 ^ min n 9) 300000 \<and>
         sFailures (CompleteWriteLocked r False now s) = of_nat (min (Suc n) 10)"
proof -
  have "n \<in> {0, 1, 2, 3, 4, 5, 6, 7, 8, 9, 10}" using assms(4) by (simp only: insert_iff empty_iff) presburger
  then have "min (sFailures s + 1) 10 = of_nat (min (Suc n) 10)"
    by (elim insertE emptyE) (simp_all add: assms(3))
  moreover have "RetryDelay (of_nat (min (Suc n) 10)) = min (1000 * 2 ^ min n 9) 300000"
    using RetryDelay_nat [of "min (Suc n) 10"] by (cases "n \<le> 9") (simp_all add: min_def)
  ultimately show ?thesis using assms(1, 2)
    by (simp add: CompleteWriteLocked_def StoreSnapshot_def Let_def)
qed

theorem store_write_failure_witness:
  "sDue (CompleteWriteLocked 1 False 500 loaded_store) = 1500 \<and> sTimerArmed (CompleteWriteLocked 1 False 500 loaded_store)"
  using store_write_failure [of loaded_store 0 1 500]
  by (simp add: loaded_store_def old_start_def new_store_def)

subsection \<open>Publications\<close>

text \<open>C20: every subscriber sees the revisions in order, each at most once, with exactly the settings committed
  under that revision, however commits, the load and the publishing threads interleave; and as long as a
  publication is queued some thread is delivering or about to.\<close>

theorem store_publications_ordered:
  assumes "reachable store_start (store_step lib) store_enabled s"
  shows "sorted_wrt (<) (map (\<lambda>d. snRevision (snd d)) (filter (\<lambda>d. fst d = i) (sDelivered s))) \<and>
         (\<forall>d \<in> set (sDelivered s). snRevision (snd d) \<le> sRevision s \<and> snData (snd d) = sHistory s (snRevision (snd d))) \<and>
         (sPendingPublications s \<noteq> [] \<longrightarrow> sPublishing s \<or> sDrains s > 0)"
proof -
  have inv: "delivered_inv s" "drain_inv s" using reachable_store [OF assms] by (simp_all add: pub_inv_def)
  have "sorted_wrt delivery_order (filter (\<lambda>d. fst d = i) (sDelivered s))"
    using inv(1) by (simp add: delivered_inv_def sorted_wrt_filter)
  then have "sorted_wrt (\<lambda>a b. snRevision (snd a) < snRevision (snd b)) (filter (\<lambda>d. fst d = i) (sDelivered s))"
    by (rule sorted_wrt_mono_rel [rotated]) (auto simp: delivery_order_def)
  with inv show ?thesis
    by (auto simp: sorted_wrt_map delivered_inv_def drain_inv_def showing_def)
qed

theorem store_publications_ordered_witness:
  "map (\<lambda>d. snRevision (snd d)) (filter (\<lambda>d. fst d = 0) (sDelivered loaded_store)) = [1] \<and>
   snData (snd (hd (sDelivered loaded_store))) = sHistory loaded_store 1"
  using store_publications_ordered [OF run_reachable(1), of 0] by (simp add: loaded_store_def)

lemma thread_states:
  "sStates (thread_step lib a r p s) = sStates s" "sDelivered (thread_step lib a r p s) = sDelivered s"
  by (cases p; simp add: worker_inspect_def flush_enter_def flush_section_def storage_write_def
      CompleteWrite_def CompleteWriteLocked_def NotifyChanged_def flush_return_def Let_def case_prod_beta
      split: actor.split)+

definition retired :: "nat \<Rightarrow> nat \<Rightarrow> SubscriptionState list \<Rightarrow> bool" where
  "retired t i sts \<longleftrightarrow> i < length sts \<and> \<not> IsActive (sts ! i) \<and> reset_ready t (sts ! i)"

lemma retired_update:
  "retired t i sts \<Longrightarrow> (j = i \<Longrightarrow> \<not> IsActive st \<and> reset_ready t st) \<Longrightarrow> retired t i (sts[j := st])"
  by (cases "j = i") (auto simp: retired_def)

lemma retired_deactivate: "retired t i sts \<Longrightarrow> retired t i (sts[j := Deactivate (sts ! j)])"
  by (rule retired_update) (auto simp: retired_def Deactivate_def reset_ready_def)

lemma retired_deactivate_all:
  "retired t i sts \<Longrightarrow> retired t i (fold (\<lambda>e sts. sts[snd e := Deactivate (sts ! snd e)]) es sts)"
  by (induction es arbitrary: sts) (simp_all add: retired_deactivate)

lemma retired_step:
  assumes "retired t i (sStates s)"
  shows "retired t i (sStates (store_step lib s e)) \<and>
         filter (\<lambda>d. fst d = i) (sDelivered (store_step lib s e)) = filter (\<lambda>d. fst d = i) (sDelivered s)"
proof (cases e)
  case (StMutate op now)
  then show ?thesis using assms
    by (cases "commits op s") (simp_all add: store_mutate_unchanged store_mutate_commits Let_def enqueue_def NotifyChanged_def)
next
  case StCallbackBegin
  show ?thesis
  proof (cases "\<exists>x j js. sCurrent s = Some (x, j # js, None)")
    case True
    then obtain x j js where "sCurrent s = Some (x, j # js, None)" by blast
    then show ?thesis using StCallbackBegin assms
      by (cases "j = i"; cases "IsActive (sStates s ! j)")
        (auto simp: callback_begin_def TryBeginCallback_def retired_def)
  next
    case False
    then have "callback_begin s = s" by (auto simp: callback_begin_def split: option.split prod.split list.split)
    then show ?thesis using StCallbackBegin assms by simp
  qed
next
  case StCallbackEnd
  have "retired t i ((sStates s)[j := CompleteCallback (sStates s ! j)])" for j
    using assms by (intro retired_update) (auto simp: retired_def CompleteCallback_def reset_ready_def)
  then show ?thesis using StCallbackEnd assms
    by (auto simp: callback_end_def update_state_def split: option.split)
next
  case StSubscribe
  then show ?thesis using assms by (auto simp: StoreSubscribe_def Let_def retired_def nth_append)
qed (use assms in \<open>auto simp: thread_states load_begin_def load_read_def load_decode_def load_failed_def
    CompleteLoadWithoutCommit_def load_commit_def enqueue_def NotifyChanged_def drain_begin_def drain_next_def
    update_state_def reset_erase_def shutdown_begin_def DeactivateSubscriptionsLocked_def shutdown_fence_def
    shutdown_complete_def Notify_def Let_def retired_deactivate retired_deactivate_all
    split: list.split option.split prod.split closer.split loader.split\<close>)

lemma retired_run:
  "retired t i (sStates s) \<Longrightarrow> retired t i (sStates (foldl (store_step lib) s es)) \<and>
     filter (\<lambda>d. fst d = i) (sDelivered (foldl (store_step lib) s es)) = filter (\<lambda>d. fst d = i) (sDelivered s)"
proof (induction es arbitrary: s)
  case (Cons e es)
  from retired_step [OF Cons.prems, of lib e] Cons.IH [of "store_step lib s e"] show ?case by simp
qed simp

text \<open>Once \<open>Reset\<close> of a subscription has returned to a thread, its callback is never entered again, whatever
  the other threads do, and it is not running except on the very thread that reset it from inside the callback.\<close>

theorem store_reset_final:
  assumes "store_enabled s (StResetEnd t i identifier)"
  shows "filter (\<lambda>d. fst d = i) (sDelivered (foldl (store_step lib) s (StResetEnd t i identifier # es))) =
           filter (\<lambda>d. fst d = i) (sDelivered s) \<and>
         (IsExecuting (sStates (foldl (store_step lib) s (StResetEnd t i identifier # es)) ! i) \<longrightarrow>
            ExecutingThread (sStates (foldl (store_step lib) s (StResetEnd t i identifier # es)) ! i) = Some t)"
proof -
  have "retired t i (sStates s)" using assms by (simp add: retired_def)
  from retired_run [OF this, of lib "StResetEnd t i identifier # es"] show ?thesis
    by (auto simp: retired_def reset_ready_def)
qed

theorem store_reset_final_witness:
  "sDelivered (foldl (store_step old_lib) (store_step old_lib loaded_store (StResetBegin 0))
     [StResetEnd 3 0 1, StMutate (OpPrivacyModeEnabled True) 5, StDrainBegin 3, StDrainNext]) =
   sDelivered loaded_store"
proof -
  have "store_enabled (store_step old_lib loaded_store (StResetBegin 0)) (StResetEnd 3 0 1)"
    by (simp add: loaded_store_def update_state_def Deactivate_def reset_ready_def)
  from store_reset_final [OF this, of old_lib "[StMutate (OpPrivacyModeEnabled True) 5, StDrainBegin 3, StDrainNext]"]
  have "filter (\<lambda>d. fst d = 0) (sDelivered (foldl (store_step old_lib) (store_step old_lib loaded_store (StResetBegin 0))
     [StResetEnd 3 0 1, StMutate (OpPrivacyModeEnabled True) 5, StDrainBegin 3, StDrainNext])) =
     filter (\<lambda>d. fst d = 0) (sDelivered (store_step old_lib loaded_store (StResetBegin 0)))" by simp
  then show ?thesis
    by (simp add: loaded_store_def update_state_def old_start_def new_store_def store_mutate_def Commit_def
        SetPrivacyModeEnabled_def enqueue_def NotifyChanged_def drain_begin_def drain_next_def reset_erase_def
        Deactivate_def Let_def migrated_settings_def default_settings_def)
qed

subsection \<open>Shutdown\<close>

text \<open>C19: \<open>Shutdown\<close> tells the truth and is final. When it reports success and did not discard, the snapshot is on
  disk. From the moment admission is closed every mutation is rejected and changes nothing, and once the
  fence is up no step of any thread, late write or late load included, changes the snapshot.\<close>

theorem store_shutdown_sound:
  assumes "reachable store_start (store_step lib) store_enabled s"
  shows "(shutdown_result self s \<and> \<not> sDiscardRequested s \<longrightarrow> \<not> snIsDirty (StoreSnapshot s)) \<and>
         (sClosing s \<longrightarrow> store_mutate op now s = ((MutationRejected, sRevision s), s)) \<and>
         (sShutdownRequested s \<longrightarrow> sClosing s \<and> StoreSnapshot (store_step lib s e) = StoreSnapshot s)"
proof (intro conjI impI)
  have inv: "result_inv s" "roles_inv s" "core_inv lib s"
    using reachable_store [OF assms] by (simp_all add: store_inv_def)
  show "\<not> snIsDirty (StoreSnapshot s)" if "shutdown_result self s \<and> \<not> sDiscardRequested s"
    using inv(1) that by (auto simp: result_inv_def settled_def shutdown_result_def StoreSnapshot_def)
  show "store_mutate op now s = ((MutationRejected, sRevision s), s)" if "sClosing s"
    using that by (simp add: store_mutate_def Commit_def StoreSnapshot_def)
  assume fenced: "sShutdownRequested s"
  then show closing: "sClosing s" using inv(2) by (simp add: roles_inv_def)
  have thread: "StoreSnapshot (thread_step lib a r p s) = StoreSnapshot s" for a r p
    using thread_flags [of lib a r p s] fenced unfolding StoreSnapshot_def thread_persisted
    by (simp add: flags_def split: pc.split)
  show "StoreSnapshot (store_step lib s e) = StoreSnapshot s"
  proof (cases e)
    case (StMutate op now)
    then show ?thesis using closing by (simp add: store_mutate_unchanged commits_def)
  next
    case (StThread a r)
    then show ?thesis using thread by simp
  qed (use fenced in \<open>auto simp: StoreSnapshot_def load_begin_def load_read_def load_decode_def load_failed_def
      CompleteLoadWithoutCommit_def load_commit_def drain_begin_def drain_next_def callback_begin_def callback_end_def
      StoreSubscribe_def update_state_def reset_erase_def shutdown_begin_def DeactivateSubscriptionsLocked_def
      shutdown_fence_def shutdown_complete_def Notify_def Let_def
      split: list.split option.split prod.split bool.split closer.split loader.split\<close>)
qed

theorem store_shutdown_sound_witness:
  "\<not> snIsDirty (StoreSnapshot closed_store) \<and>
   store_mutate OpAsked 400 closed_store = ((MutationRejected, 1), closed_store)"
proof -
  have "shutdown_result 0 closed_store" "\<not> sDiscardRequested closed_store" "sClosing closed_store" "sRevision closed_store = 1"
    by (simp_all add: shutdown_result_def WaitForPublicationDrain_def closed_store_def written_store_def
        loaded_store_def old_start_def new_store_def)
  with store_shutdown_sound [OF run_reachable(4), of 0 OpAsked 400 StNotify] show ?thesis by simp
qed

end
