(* ===== verification/Request_Cache.thy ===== *)
theory Request_Cache
  imports Command_Pipe "HOL-Library.AList"
begin

section \<open>The request cache of the control server\<close>

text \<open>
  \<open>services/CommandLineControlServer.cpp\<close>, the part below the heading Request Deduplication. The client of
  the pipe retries a request under the same correlation identifier when it has lost the response; the
  cache makes the server run each request once and answer the retries with the recorded response.

  Records are shared by pointer, and a thread may hold a record that the map no longer knows, so they live
  on a heap: a pointer is a position of \<open>RecordHeap\<close>, never used again. \<open>Records\<close> is the unordered map in
  its iteration order, \<open>PendingDeliveries\<close> the second map; both have distinct keys. Counters of type
  \<open>std::size_t\<close> are naturals (the invariant keeps the byte count below the configured limit and the others
  below the number of clients). Times are nanoseconds of the steady clock; they are sampled before a lock is
  taken, so nothing is assumed about their order. The sizes of the two structures depend on the standard
  library and are options.
\<close>

subsection \<open>Options\<close>

record ServerOptions =
  PipeInstanceCount :: nat
  RequestTimeoutMs :: u32
  HandlerTimeoutMs :: u32
  ResponseTimeoutMs :: u32
  AcknowledgementTimeoutMs :: u32
  RetryDelayMs :: u32
  MaxRequestRecords :: nat
  MaxRequestCacheBytes :: nat
  RequestRecordLifetime :: int
  AcknowledgedRecordLifetime :: int
  RetryStartupFailures :: bool
  SizeofRequest :: nat
  SizeofResponse :: nat

definition DefaultOptions :: "nat \<Rightarrow> nat \<Rightarrow> ServerOptions" where
  "DefaultOptions sizeofRequest sizeofResponse =
     \<lparr>PipeInstanceCount = c_pipeInstanceCount, RequestTimeoutMs = 5000, HandlerTimeoutMs = 30000,
      ResponseTimeoutMs = 5000, AcknowledgementTimeoutMs = 1500, RetryDelayMs = 250,
      MaxRequestRecords = 64, MaxRequestCacheBytes = 1024 * 1024, RequestRecordLifetime = 90 * 1000,
      AcknowledgedRecordLifetime = 1 * 1000, RetryStartupFailures = True,
      SizeofRequest = sizeofRequest, SizeofResponse = sizeofResponse\<rparr>"

definition ClampOptions :: "ServerOptions \<Rightarrow> ServerOptions" where
  "ClampOptions q = q
     \<lparr>PipeInstanceCount := max 1 (min c_pipeInstanceCount (PipeInstanceCount q)),
      RequestTimeoutMs := max 1 (RequestTimeoutMs q),
      HandlerTimeoutMs := max 1 (HandlerTimeoutMs q),
      ResponseTimeoutMs := max 1 (ResponseTimeoutMs q),
      AcknowledgementTimeoutMs := max 1 (AcknowledgementTimeoutMs q),
      RetryDelayMs := max 1 (RetryDelayMs q),
      MaxRequestRecords := max 1 (MaxRequestRecords q),
      MaxRequestCacheBytes :=
        max (SizeofRequest q + SizeofResponse q + 2 * unat c_maxPayloadBytes) (MaxRequestCacheBytes q),
      RequestRecordLifetime := max 1 (RequestRecordLifetime q),
      AcknowledgedRecordLifetime := max 1 (AcknowledgedRecordLifetime q)\<rparr>"

subsection \<open>Records\<close>

record RequestRecord =
  RcRequest :: Request
  RcResponse :: Response
  CompletedAt :: int
  LastDeliveryCompletedAt :: int
  Bytes :: nat
  ActiveDeliveries :: nat
  IsComplete :: bool
  Acknowledged :: bool

definition NoId :: CorrelationId where "NoId = \<lparr>High = 0, Low = 0\<rparr>"

definition NewRequest :: Request where
  "NewRequest = \<lparr>Command = CmdUnknown, Target = TargetNone, Flags = CommandFlagNone, Payload = [],
     RequestId = NoId\<rparr>"

definition NewResponse :: Response where
  "NewResponse = \<lparr>Code = ExitSuccess, Body = [], ResponseId = NoId\<rparr>"

definition SameRequest :: "Request \<Rightarrow> Request \<Rightarrow> bool" where
  "SameRequest lhs rhs \<longleftrightarrow> Command lhs = Command rhs \<and> Target lhs = Target rhs \<and>
     Flags lhs = Flags rhs \<and> Payload lhs = Payload rhs"

definition RequestBytes :: "ServerOptions \<Rightarrow> Request \<Rightarrow> nat" where
  "RequestBytes q r = SizeofRequest q + length (Payload r) * 2"

definition ResponseBytes :: "ServerOptions \<Rightarrow> Response \<Rightarrow> nat" where
  "ResponseBytes q r = SizeofResponse q + length (Body r) * 2"

record cache =
  Records :: "(CorrelationId \<times> nat) list"
  RecordHeap :: "RequestRecord list"
  PendingDeliveries :: "(CorrelationId \<times> nat) list"
  RequestCacheBytes :: nat
  HasPruneTimer :: bool
  PruneTimer :: "int option"

definition new_cache :: cache where
  "new_cache = \<lparr>Records = [], RecordHeap = [], PendingDeliveries = [], RequestCacheBytes = 0,
     HasPruneTimer = False, PruneTimer = None\<rparr>"

definition record_at :: "cache \<Rightarrow> nat \<Rightarrow> RequestRecord" where
  "record_at c p = RecordHeap c ! p"

definition set_record :: "nat \<Rightarrow> RequestRecord \<Rightarrow> cache \<Rightarrow> cache" where
  "set_record p r c = c\<lparr>RecordHeap := (RecordHeap c)[p := r]\<rparr>"

definition pending_count :: "cache \<Rightarrow> CorrelationId \<Rightarrow> nat" where
  "pending_count c cid = (case map_of (PendingDeliveries c) cid of None \<Rightarrow> 0 | Some n \<Rightarrow> n)"

subsection \<open>Expiry\<close>

definition nanoseconds :: "int \<Rightarrow> int" where "nanoseconds milliseconds = 1000000 * milliseconds"

definition retention :: "ServerOptions \<Rightarrow> RequestRecord \<Rightarrow> int" where
  "retention q r =
     nanoseconds (if Acknowledged r then AcknowledgedRecordLifetime q else RequestRecordLifetime q)"

definition retainedSince :: "RequestRecord \<Rightarrow> int" where
  "retainedSince r = (if Acknowledged r then LastDeliveryCompletedAt r else CompletedAt r)"

definition in_use :: "cache \<Rightarrow> CorrelationId \<times> nat \<Rightarrow> bool" where
  "in_use c e \<longleftrightarrow> \<not> IsComplete (record_at c (snd e)) \<or> ActiveDeliveries (record_at c (snd e)) \<noteq> 0 \<or>
     pending_count c (fst e) \<noteq> 0"

definition kept :: "ServerOptions \<Rightarrow> int \<Rightarrow> cache \<Rightarrow> CorrelationId \<times> nat \<Rightarrow> bool" where
  "kept q now c e \<longleftrightarrow> in_use c e \<or>
     now - retainedSince (record_at c (snd e)) < retention q (record_at c (snd e))"

fun prune_loop ::
  "ServerOptions \<Rightarrow> int \<Rightarrow> cache \<Rightarrow> (CorrelationId \<times> nat) list \<Rightarrow> nat \<Rightarrow> (CorrelationId \<times> nat) list \<times> nat" where
  "prune_loop q now c [] bytes = ([], bytes)"
| "prune_loop q now c (e # es) bytes =
     (if kept q now c e then apfst (Cons e) (prune_loop q now c es bytes)
      else prune_loop q now c es (bytes - min bytes (Bytes (record_at c (snd e)))))"

definition PruneRequestRecords :: "ServerOptions \<Rightarrow> int \<Rightarrow> cache \<Rightarrow> cache" where
  "PruneRequestRecords q now c =
     (case prune_loop q now c (Records c) (RequestCacheBytes c) of
        (es, bytes) \<Rightarrow> c\<lparr>Records := es, RequestCacheBytes := bytes\<rparr>)"

text \<open>A relative due time is a negative number of 100-nanosecond units.\<close>

definition RelativeDelay :: "int \<Rightarrow> int" where
  "RelativeDelay delayMilliseconds = - (max 1 delayMilliseconds) * 10000"

fun earliest_expiry ::
  "ServerOptions \<Rightarrow> cache \<Rightarrow> (CorrelationId \<times> nat) list \<Rightarrow> int option \<Rightarrow> int option" where
  "earliest_expiry q c [] earliest = earliest"
| "earliest_expiry q c (e # es) earliest =
     (if in_use c e then earliest_expiry q c es earliest
      else let expires = retainedSince (record_at c (snd e)) + retention q (record_at c (snd e))
           in earliest_expiry q c es
                (case earliest of
                   None \<Rightarrow> Some expires
                 | Some t \<Rightarrow> if expires < t then Some expires else Some t))"

definition prune_delay :: "int \<Rightarrow> int \<Rightarrow> int" where
  "prune_delay earliest now =
     (let remaining = (if earliest > now then (earliest - now) div 1000000 else 1)
      in max 1 (min (2 ^ 32 - 2) remaining))"

definition ScheduleRequestPruneLocked :: "ServerOptions \<Rightarrow> int \<Rightarrow> cache \<Rightarrow> cache" where
  "ScheduleRequestPruneLocked q now c =
     (if \<not> HasPruneTimer c then c
      else case earliest_expiry q c (Records c) None of
          None \<Rightarrow> c\<lparr>PruneTimer := None\<rparr>
        | Some earliest \<Rightarrow> c\<lparr>PruneTimer := Some (RelativeDelay (prune_delay earliest now))\<rparr>)"

definition OnRequestPrune :: "ServerOptions \<Rightarrow> int \<Rightarrow> cache \<Rightarrow> cache" where
  "OnRequestPrune q now c =
     ScheduleRequestPruneLocked q now (PruneRequestRecords q now (c\<lparr>PruneTimer := None\<rparr>))"

subsection \<open>Deliveries\<close>

text \<open>A client counts as pending from the dispatch of its request until its handler has its response.\<close>

definition c_maxSize :: nat where "c_maxSize = 2 ^ 64 - 1"

definition set_pending :: "CorrelationId \<Rightarrow> nat \<Rightarrow> cache \<Rightarrow> cache" where
  "set_pending cid n c = c\<lparr>PendingDeliveries := AList.update cid n (PendingDeliveries c)\<rparr>"

definition BeginPendingDelivery :: "CorrelationId \<Rightarrow> cache \<Rightarrow> cache \<times> bool" where
  "BeginPendingDelivery cid c =
     (let pending = pending_count c cid
      in if pending = c_maxSize then (c, False) else (set_pending cid (pending + 1) c, True))"

definition CompletePendingDelivery :: "ServerOptions \<Rightarrow> CorrelationId \<Rightarrow> int \<Rightarrow> cache \<Rightarrow> cache" where
  "CompletePendingDelivery q cid now c =
     (case map_of (PendingDeliveries c) cid of
        None \<Rightarrow> c
      | Some n \<Rightarrow> ScheduleRequestPruneLocked q now
          (if n > 1 then set_pending cid (n - 1) c
           else c\<lparr>PendingDeliveries := AList.delete cid (PendingDeliveries c)\<rparr>))"

definition CompleteDelivery ::
  "ServerOptions \<Rightarrow> CorrelationId \<Rightarrow> nat \<Rightarrow> bool \<Rightarrow> int \<Rightarrow> cache \<Rightarrow> cache" where
  "CompleteDelivery q cid p acknowledged now c =
     (if map_of (Records c) cid \<noteq> Some p \<or> \<not> IsComplete (record_at c p) then c
      else let r = record_at c p;
               r' = r\<lparr>ActiveDeliveries := ActiveDeliveries r - 1,
                      Acknowledged := Acknowledged r \<or> acknowledged,
                      LastDeliveryCompletedAt := now\<rparr>
           in ScheduleRequestPruneLocked q now (PruneRequestRecords q now (set_record p r' c)))"

definition begin_delivery :: "nat \<Rightarrow> cache \<Rightarrow> cache" where
  "begin_delivery p c =
     set_record p ((record_at c p)\<lparr>ActiveDeliveries := ActiveDeliveries (record_at c p) + 1\<rparr>) c"

subsection \<open>Executing a request once\<close>

datatype execution =
    Uncached Response   \<comment> \<open>no record: the response goes straight to the client\<close>
  | Cached nat          \<comment> \<open>the record is complete and owns one more delivery\<close>
  | AwaitRecord nat     \<comment> \<open>another client's handler is running the request\<close>
  | RunHandler nat      \<comment> \<open>the record is new: this thread runs the handler\<close>
  | Threw               \<comment> \<open>an allocation failed\<close>

definition refuse :: "ExitCode \<Rightarrow> Request \<Rightarrow> execution" where
  "refuse code request = Uncached \<lparr>Code = code, Body = [], ResponseId = RequestId request\<rparr>"

text \<open>The loop that waits for a record: each round decides whether to go on waiting.\<close>

definition await_round ::
  "bool \<Rightarrow> u64 \<Rightarrow> u64 \<Rightarrow> Request \<Rightarrow> nat \<Rightarrow> cache \<Rightarrow> cache \<times> execution" where
  "await_round stopped tick deadline request p c =
     (if IsComplete (record_at c p) then (begin_delivery p c, Cached p)
      else if stopped then (c, refuse ExitUnavailable request)
      else if RemainingWait tick deadline = 0 then (c, refuse ExitBusy request)
      else (c, AwaitRecord p))"

definition reservedBytes :: "ServerOptions \<Rightarrow> Request \<Rightarrow> nat" where
  "reservedBytes q request = RequestBytes q request + SizeofResponse q + unat c_maxPayloadBytes"

definition lacksCapacity :: "ServerOptions \<Rightarrow> nat \<Rightarrow> cache \<Rightarrow> bool" where
  "lacksCapacity q reserved c \<longleftrightarrow> reserved > MaxRequestCacheBytes q \<or>
     length (Records c) \<ge> MaxRequestRecords q \<or>
     RequestCacheBytes c > MaxRequestCacheBytes q - reserved"

definition evictable :: "cache \<Rightarrow> CorrelationId \<times> nat \<Rightarrow> bool" where
  "evictable c e \<longleftrightarrow> \<not> (\<not> IsComplete (record_at c (snd e)) \<or> \<not> Acknowledged (record_at c (snd e)) \<or>
     ActiveDeliveries (record_at c (snd e)) \<noteq> 0 \<or> pending_count c (fst e) \<noteq> 0)"

fun eviction_candidate ::
  "cache \<Rightarrow> (CorrelationId \<times> nat) list \<Rightarrow> (CorrelationId \<times> nat) option \<Rightarrow> (CorrelationId \<times> nat) option" where
  "eviction_candidate c [] candidate = candidate"
| "eviction_candidate c (e # es) candidate =
     (if \<not> evictable c e then eviction_candidate c es candidate
      else eviction_candidate c es
        (case candidate of
           None \<Rightarrow> Some e
         | Some b \<Rightarrow>
             if LastDeliveryCompletedAt (record_at c (snd e)) < LastDeliveryCompletedAt (record_at c (snd b))
             then Some e else Some b))"

definition evict_record :: "CorrelationId \<times> nat \<Rightarrow> cache \<Rightarrow> cache" where
  "evict_record e c = c
     \<lparr>RequestCacheBytes := RequestCacheBytes c - min (RequestCacheBytes c) (Bytes (record_at c (snd e))),
      Records := AList.delete (fst e) (Records c)\<rparr>"

lemma eviction_candidate_in:
  "eviction_candidate c es cand = Some e \<Longrightarrow> e \<in> set es \<and> evictable c e \<or> cand = Some e"
  by (induction es arbitrary: cand)
    (auto split: if_splits option.splits)

lemma delete_shorter: "(a, b) \<in> set xs \<Longrightarrow> length (AList.delete a xs) < length xs"
  by (auto simp: AList.delete_eq intro!: length_filter_less)

text \<open>\<open>False\<close>: nothing more can be evicted and there is still no room.\<close>

function make_room :: "ServerOptions \<Rightarrow> nat \<Rightarrow> cache \<Rightarrow> cache \<times> bool" where
  "make_room q reserved c =
     (if \<not> lacksCapacity q reserved c then (c, True)
      else case eviction_candidate c (Records c) None of
          None \<Rightarrow> (c, False)
        | Some e \<Rightarrow> make_room q reserved (evict_record e c))"
  by pat_completeness auto
termination
  by (relation "measure (\<lambda>(q, n, c). length (Records c))")
    (auto simp: evict_record_def dest!: eviction_candidate_in intro: delete_shorter)

declare make_room.simps [simp del]

definition insert_record :: "ServerOptions \<Rightarrow> Request \<Rightarrow> cache \<Rightarrow> cache \<times> execution" where
  "insert_record q request c =
     (let p = length (RecordHeap c);
          r = \<lparr>RcRequest = request, RcResponse = NewResponse, CompletedAt = 0, LastDeliveryCompletedAt = 0,
               Bytes = reservedBytes q request, ActiveDeliveries = 0, IsComplete = False,
               Acknowledged = False\<rparr>
      in (c\<lparr>RecordHeap := RecordHeap c @ [r], Records := (RequestId request, p) # Records c,
            RequestCacheBytes := RequestCacheBytes c + reservedBytes q request\<rparr>, RunHandler p))"

text \<open>The first critical section of \<open>ExecuteOnce\<close>; \<open>allocated\<close> is false when creating the record throws.\<close>

definition ExecuteOnce ::
  "ServerOptions \<Rightarrow> bool \<Rightarrow> u64 \<Rightarrow> u64 \<Rightarrow> int \<Rightarrow> bool \<Rightarrow> Request \<Rightarrow> cache \<Rightarrow> cache \<times> execution" where
  "ExecuteOnce q stopped tick deadline now allocated request c0 =
     (let c = PruneRequestRecords q now c0
      in case map_of (Records c) (RequestId request) of
           Some p \<Rightarrow>
             if \<not> SameRequest (RcRequest (record_at c p)) request then (c, refuse ExitInvalidRequest request)
             else await_round stopped tick deadline request p c
         | None \<Rightarrow>
             (case make_room q (reservedBytes q request) c of
                (c', False) \<Rightarrow> (c', refuse ExitBusy request)
              | (c', True) \<Rightarrow> if allocated then insert_record q request c' else (c', Threw)))"

text \<open>What the handler answered: nothing when it threw. Without a handler the server is unavailable.\<close>

definition handler_response :: "bool \<Rightarrow> Response option \<Rightarrow> Request \<Rightarrow> Response" where
  "handler_response callable answer request =
     (let response =
            (if \<not> callable then \<lparr>Code = ExitUnavailable, Body = [], ResponseId = NoId\<rparr>
             else case answer of
                 Some r \<Rightarrow> r
               | None \<Rightarrow> NewResponse\<lparr>Code := ExitIndeterminate, Body := []\<rparr>);
          response = response\<lparr>ResponseId := RequestId request\<rparr>
      in if PayloadByteCount (Body response) = None \<or> \<not> IsKnownExitCode (exit_value (Code response))
         then response\<lparr>Code := ExitIndeterminate, Body := []\<rparr> else response)"

definition CompleteExecution :: "ServerOptions \<Rightarrow> nat \<Rightarrow> Response \<Rightarrow> int \<Rightarrow> cache \<Rightarrow> cache" where
  "CompleteExecution q p response completedAt c =
     (let r = (record_at c p)\<lparr>RcResponse := response, CompletedAt := completedAt, IsComplete := True,
                ActiveDeliveries := ActiveDeliveries (record_at c p) + 1\<rparr>;
          actualBytes = RequestBytes q (RcRequest r) + ResponseBytes q (RcResponse r);
          bytes = (if Bytes r > actualBytes then RequestCacheBytes c - (Bytes r - actualBytes)
                   else RequestCacheBytes c);
          c = (set_record p (r\<lparr>Bytes := actualBytes\<rparr>) c)\<lparr>RequestCacheBytes := bytes\<rparr>
      in ScheduleRequestPruneLocked q completedAt (PruneRequestRecords q completedAt c))"

subsection \<open>Stopping\<close>

fun drop_incomplete ::
  "(CorrelationId \<times> nat) list \<Rightarrow> cache \<Rightarrow> (CorrelationId \<times> nat) list \<times> cache" where
  "drop_incomplete [] c = ([], c)"
| "drop_incomplete (e # es) c =
     (let r = record_at c (snd e)
      in if \<not> IsComplete r
         then drop_incomplete es (c\<lparr>RequestCacheBytes := RequestCacheBytes c - min (RequestCacheBytes c) (Bytes r)\<rparr>)
         else apfst (Cons e) (drop_incomplete es (set_record (snd e) (r\<lparr>ActiveDeliveries := 0\<rparr>) c)))"

definition StopCache :: "ServerOptions \<Rightarrow> int \<Rightarrow> cache \<Rightarrow> cache" where
  "StopCache q pruneTime c =
     (case drop_incomplete (Records c) (c\<lparr>PendingDeliveries := []\<rparr>) of
        (es, c') \<Rightarrow> ScheduleRequestPruneLocked q pruneTime (c'\<lparr>Records := es\<rparr>))"

end
