(* ===== verification/Control_Server.thy ===== *)
theory Control_Server
  imports Request_Cache
begin

section \<open>The control server\<close>

text \<open>
  \<open>services/CommandLineControlServer.cpp\<close> above the cache: the pipe instances with their protocol state
  machine, the handler callbacks, and the life cycle of the server.

  The server has no thread of its own. Everything happens in callbacks of the system's thread pool and in the
  threads that call \<open>Start\<close>, \<open>RequestStop\<close> and \<open>Stop\<close>. A step is one critical section of one of them; a step
  under an instance's \<open>StateMutex\<close> includes the section of \<open>m_requestMutex\<close> nested in it (there is at most
  one: an instance never has a pending delivery and a record at once, \<open>slot_ok\<close>). The callbacks the system
  still owes an instance are its \<open>Outstanding\<close> list, the submitted or running handler callbacks are the list
  \<open>Handlers\<close>, each with a program counter; that at most one of them can touch an instance at a time is proved,
  not assumed. What the system answers inside a step is an argument of the step. \<open>m_running\<close>, an atomic, is
  read once per step.
\<close>

subsection \<open>Instances\<close>

datatype PipePhase =
    Disconnected | Connecting | ReadingRequestHeader | ReadingRequestPayload | RunningHandler
  | WritingResponseHeader | WritingResponsePayload | ReadingAcknowledgement

datatype buffer = NoBuffer | InHeader | InPayload | OutHeader | OutPayload | InAcknowledgement

text \<open>
  \<open>ConnectionSeen\<close>, \<open>RearmPassed\<close> and \<open>Recreating\<close> are callbacks that have released the instance's lock and
  will take it again.
\<close>

datatype callback =
    IoCompletion | AlreadyConnectedWork | ConnectionSeen | RearmTimer | RearmPassed | RecreateWork | Recreating

record PipeInstance =
  SlotIndex :: u64
  HasPipe :: bool
  HasIo :: bool
  Phase :: PipePhase
  Buffer :: buffer
  TotalBytes :: u32
  TransferredBytes :: u32
  Write :: bool
  TransferDeadline :: u64
  RequestDeadline :: u64
  ResponseDeadline :: u64
  RearmFailures :: u64
  RearmDelay :: u32
  RecreateRequired :: bool
  RecreateScheduled :: bool
  PendingDelivery :: bool
  SlotRequestHeader :: RequestHeader
  SlotResponseHeader :: ResponseHeader
  SlotAcknowledgement :: Acknowledgement
  SlotRequest :: Request
  SlotResponse :: Response
  AcknowledgementRecord :: "nat option"
  Outstanding :: "callback list"

definition NewRequestHeader :: RequestHeader where
  "NewRequestHeader = \<lparr>rqMagic = c_requestMagic, rqVersion = c_protocolVersion, rqCorrelationHigh = 0,
     rqCorrelationLow = 0, rqCommand = 0, rqTarget = 0, rqFlags = 0, rqPayloadBytes = 0\<rparr>"

definition NewResponseHeader :: ResponseHeader where
  "NewResponseHeader = \<lparr>rsMagic = c_responseMagic, rsVersion = c_protocolVersion, rsCorrelationHigh = 0,
     rsCorrelationLow = 0, rsExitCode = 0, rsPayloadBytes = 0\<rparr>"

definition NewAcknowledgement :: Acknowledgement where
  "NewAcknowledgement = \<lparr>akMagic = c_acknowledgementMagic, akVersion = c_protocolVersion,
     akCorrelationHigh = 0, akCorrelationLow = 0\<rparr>"

definition new_instance :: "u64 \<Rightarrow> bool \<Rightarrow> PipeInstance" where
  "new_instance index available =
     \<lparr>SlotIndex = index, HasPipe = available, HasIo = available, Phase = Disconnected, Buffer = NoBuffer,
      TotalBytes = 0, TransferredBytes = 0, Write = False, TransferDeadline = 0, RequestDeadline = 0,
      ResponseDeadline = 0, RearmFailures = 0, RearmDelay = 0, RecreateRequired = \<not> available,
      RecreateScheduled = False, PendingDelivery = False, SlotRequestHeader = NewRequestHeader,
      SlotResponseHeader = NewResponseHeader, SlotAcknowledgement = NewAcknowledgement,
      SlotRequest = NewRequest, SlotResponse = NewResponse, AcknowledgementRecord = None, Outstanding = []\<rparr>"

datatype connect_reply =
    ConnectStarted   \<comment> \<open>accepted, or \<open>ERROR_IO_PENDING\<close>\<close>
  | ConnectDone      \<comment> \<open>\<open>ERROR_PIPE_CONNECTED\<close>\<close>
  | ConnectNoData    \<comment> \<open>\<open>ERROR_NO_DATA\<close>\<close>
  | ConnectBroken    \<comment> \<open>\<open>ERROR_INVALID_HANDLE\<close> or \<open>ERROR_ACCESS_DENIED\<close>\<close>
  | ConnectFailed    \<comment> \<open>any other error\<close>

record answers =
  Tick :: u64
  CacheNow :: int
  TransferAccepted :: bool
  Connect :: connect_reply

definition ServerRetryDelay :: "u32 \<Rightarrow> u64 \<Rightarrow> u64 \<Rightarrow> u64 \<Rightarrow> u32" where
  "ServerRetryDelay initialDelay failures salt tick =
     (let maximumDelay = 30000 :: u64;
          shift = unat (min (if failures > 0 then failures - 1 else 0) 7);
          scaled = min maximumDelay (push_bit shift (ucast initialDelay));
          jitterRange = max 1 (scaled div 5);
          jitter = (tick XOR (salt * 0x9E3779B9)) mod jitterRange
      in ucast (min maximumDelay (scaled + jitter)))"

definition owe :: "callback \<Rightarrow> PipeInstance \<Rightarrow> PipeInstance" where
  "owe cb i = i\<lparr>Outstanding := cb # Outstanding i\<rparr>"

definition ScheduleRearmLocked :: "ServerOptions \<Rightarrow> bool \<Rightarrow> answers \<Rightarrow> PipeInstance \<Rightarrow> PipeInstance" where
  "ScheduleRearmLocked q running a i0 =
     (let i = i0\<lparr>Phase := Disconnected\<rparr>
      in if \<not> running then i
         else let failures = RearmFailures i + 1
              in owe RearmTimer (i\<lparr>RearmFailures := failures,
                   RearmDelay := ServerRetryDelay (RetryDelayMs q) failures (SlotIndex i) (Tick a)\<rparr>))"

definition ArmConnectionLocked :: "ServerOptions \<Rightarrow> bool \<Rightarrow> answers \<Rightarrow> PipeInstance \<Rightarrow> PipeInstance" where
  "ArmConnectionLocked q running a i0 =
     (if \<not> running then i0
      else if \<not> HasIo i0 \<or> \<not> HasPipe i0
      then ScheduleRearmLocked q running a (i0\<lparr>RecreateRequired := True\<rparr>)
      else let i = i0\<lparr>Phase := Connecting\<rparr>
           in if Connect a = ConnectStarted then owe IoCompletion i
              else if Connect a = ConnectDone then owe AlreadyConnectedWork i
              else let i = (if Connect a = ConnectNoData then i\<lparr>RearmFailures := 0\<rparr> else i);
                       i = (if Connect a = ConnectBroken \<or> RearmFailures i \<ge> 7
                            then i\<lparr>RecreateRequired := True\<rparr> else i)
                   in ScheduleRearmLocked q running a i)"

definition StartCurrentTransferLocked :: "bool \<Rightarrow> answers \<Rightarrow> PipeInstance \<Rightarrow> PipeInstance \<times> bool" where
  "StartCurrentTransferLocked running a i =
     (if \<not> running \<or> TransferredBytes i \<ge> TotalBytes i \<or> RemainingWait (Tick a) (TransferDeadline i) = 0
      then (i, False)
      else if TransferAccepted a then (owe IoCompletion i, True) else (i, False))"

definition StartTransferLocked ::
  "bool \<Rightarrow> answers \<Rightarrow> buffer \<Rightarrow> u32 \<Rightarrow> bool \<Rightarrow> u64 \<Rightarrow> PipeInstance \<Rightarrow> PipeInstance \<times> bool" where
  "StartTransferLocked running a buffer byteCount write_out deadline i =
     (if byteCount = 0 \<or> deadline = 0 then (i, False)
      else StartCurrentTransferLocked running a (i\<lparr>Buffer := buffer, TotalBytes := byteCount,
             TransferredBytes := 0, Write := write_out, TransferDeadline := deadline\<rparr>))"

subsection \<open>The protocol of an instance\<close>

text \<open>An instance together with the cache; the flag says that a handler callback was submitted.\<close>

type_synonym slot_state = "PipeInstance \<times> cache"

definition FinishClientLocked :: "ServerOptions \<Rightarrow> bool \<Rightarrow> answers \<Rightarrow> slot_state \<Rightarrow> slot_state" where
  "FinishClientLocked q running a st =
     (case st of (i0, c0) \<Rightarrow>
        let i = i0\<lparr>Phase := Disconnected\<rparr>;
            c = (if PendingDelivery i
                 then CompletePendingDelivery q (RequestId (SlotRequest i)) (CacheNow a) c0 else c0);
            i = i\<lparr>PendingDelivery := False\<rparr>;
            c = (case AcknowledgementRecord i of
                   None \<Rightarrow> c
                 | Some p \<Rightarrow> CompleteDelivery q (RequestId (SlotRequest i)) p False (CacheNow a) c);
            i = i\<lparr>AcknowledgementRecord := None\<rparr>
        in (if running then ArmConnectionLocked q running a i else i, c))"

text \<open>What follows a started transfer: nothing, or the end of the client when it could not be started.\<close>

definition transfer_or_finish ::
  "ServerOptions \<Rightarrow> bool \<Rightarrow> answers \<Rightarrow> PipeInstance \<times> bool \<Rightarrow> cache \<Rightarrow> slot_state" where
  "transfer_or_finish q running a r c =
     (if snd r then (fst r, c) else FinishClientLocked q running a (fst r, c))"

definition HandleConnectedInstanceLocked ::
  "ServerOptions \<Rightarrow> bool \<Rightarrow> bool \<Rightarrow> bool \<Rightarrow> answers \<Rightarrow> slot_state \<Rightarrow> slot_state" where
  "HandleConnectedInstanceLocked q running accepting trusted a st =
     (if \<not> running \<or> \<not> accepting then FinishClientLocked q running a st
      else if \<not> trusted then FinishClientLocked q running a st
      else case st of (i0, c) \<Rightarrow>
        let i = i0\<lparr>SlotRequest := NewRequest, SlotResponse := NewResponse, AcknowledgementRecord := None,
                  SlotRequestHeader := NewRequestHeader,
                  RequestDeadline := DeadlineAfter (Tick a) (RequestTimeoutMs q), RearmFailures := 0,
                  Phase := ReadingRequestHeader\<rparr>
        in transfer_or_finish q running a
             (StartTransferLocked running a InHeader 40 False (RequestDeadline i) i) c)"

definition DispatchRequestLocked ::
  "ServerOptions \<Rightarrow> bool \<Rightarrow> answers \<Rightarrow> bool \<Rightarrow> slot_state \<Rightarrow> slot_state \<times> bool" where
  "DispatchRequestLocked q running a allocated st =
     (case st of (i, c) \<Rightarrow>
        if \<not> IsRequestValid (SlotRequest i) then (FinishClientLocked q running a st, False)
        else if \<not> allocated then (FinishClientLocked q running a st, False)
        else (case BeginPendingDelivery (RequestId (SlotRequest i)) c of
            (c', False) \<Rightarrow> (FinishClientLocked q running a (i, c'), False)
          | (c', True) \<Rightarrow> ((i\<lparr>PendingDelivery := True, Phase := RunningHandler\<rparr>, c'), True)))"

definition read_acknowledgement :: "ServerOptions \<Rightarrow> bool \<Rightarrow> answers \<Rightarrow> slot_state \<Rightarrow> slot_state" where
  "read_acknowledgement q running a st =
     (case st of (i0, c) \<Rightarrow>
        let i = i0\<lparr>SlotAcknowledgement := NewAcknowledgement, Phase := ReadingAcknowledgement\<rparr>
        in transfer_or_finish q running a
             (StartTransferLocked running a InAcknowledgement 24 False
                (DeadlineAfter (Tick a) (AcknowledgementTimeoutMs q)) i) c)"

definition request_of_header :: "RequestHeader \<Rightarrow> Request" where
  "request_of_header h =
     \<lparr>Command = static_cast command_values command_value (rqCommand h),
      Target = static_cast target_values target_value (rqTarget h), Flags = rqFlags h,
      Payload = replicate (unat (rqPayloadBytes h) div 2) 0,
      RequestId = \<lparr>High = rqCorrelationHigh h, Low = rqCorrelationLow h\<rparr>\<rparr>"

definition header_received ::
  "ServerOptions \<Rightarrow> bool \<Rightarrow> answers \<Rightarrow> bool \<Rightarrow> slot_state \<Rightarrow> slot_state \<times> bool" where
  "header_received q running a allocated st =
     (case st of (i0, c) \<Rightarrow>
        let h = SlotRequestHeader i0
        in if \<not> IsRequestHeaderValid h then (FinishClientLocked q running a st, False)
           else if \<not> allocated
           then (FinishClientLocked q running a (i0\<lparr>SlotRequest := (request_of_header h)
                   \<lparr>Payload := Payload (SlotRequest i0)\<rparr>\<rparr>, c), False)
           else let i = i0\<lparr>SlotRequest := request_of_header h\<rparr>
                in if rqPayloadBytes h = 0 then DispatchRequestLocked q running a allocated (i, c)
                   else (transfer_or_finish q running a
                      (StartTransferLocked running a InPayload (rqPayloadBytes h) False (RequestDeadline i)
                         (i\<lparr>Phase := ReadingRequestPayload\<rparr>)) c, False))"

definition acknowledgement_received ::
  "ServerOptions \<Rightarrow> bool \<Rightarrow> answers \<Rightarrow> slot_state \<Rightarrow> slot_state" where
  "acknowledgement_received q running a st =
     (case st of (i, c) \<Rightarrow>
       (case AcknowledgementRecord i of
          None \<Rightarrow> FinishClientLocked q running a (i, c)
        | Some p \<Rightarrow>
            if IsAcknowledgementValid (SlotAcknowledgement i) (RequestId (SlotRequest i))
            then FinishClientLocked q running a (i\<lparr>AcknowledgementRecord := None\<rparr>,
                   CompleteDelivery q (RequestId (SlotRequest i)) p True (CacheNow a) c)
            else FinishClientLocked q running a (i, c)))"

definition HandleCompletedTransferLocked ::
  "ServerOptions \<Rightarrow> bool \<Rightarrow> answers \<Rightarrow> bool \<Rightarrow> slot_state \<Rightarrow> slot_state \<times> bool" where
  "HandleCompletedTransferLocked q running a allocated st =
     (case Phase (fst st) of
        ReadingRequestHeader \<Rightarrow> header_received q running a allocated st
      | ReadingRequestPayload \<Rightarrow> DispatchRequestLocked q running a allocated st
      | WritingResponseHeader \<Rightarrow>
          (if rsPayloadBytes (SlotResponseHeader (fst st)) \<noteq> 0
           then (transfer_or_finish q running a
                   (StartTransferLocked running a OutPayload (rsPayloadBytes (SlotResponseHeader (fst st)))
                      True (ResponseDeadline (fst st)) ((fst st)\<lparr>Phase := WritingResponsePayload\<rparr>)) (snd st),
                 False)
           else (read_acknowledgement q running a st, False))
      | WritingResponsePayload \<Rightarrow> (read_acknowledgement q running a st, False)
      | ReadingAcknowledgement \<Rightarrow> (acknowledgement_received q running a st, False)
      | _ \<Rightarrow> (FinishClientLocked q running a st, False))"

text \<open>What a completed transfer left in the buffer; the client chooses it.\<close>

datatype content = NoContent | RequestHeaderBytes RequestHeader | PayloadBytes wstring | AcknowledgementBytes Acknowledgement

fun receive :: "content \<Rightarrow> PipeInstance \<Rightarrow> PipeInstance" where
  "receive NoContent i = i"
| "receive (RequestHeaderBytes h) i = i\<lparr>SlotRequestHeader := h\<rparr>"
| "receive (PayloadBytes w) i = i\<lparr>SlotRequest := (SlotRequest i)\<lparr>Payload := w\<rparr>\<rparr>"
| "receive (AcknowledgementBytes k) i = i\<lparr>SlotAcknowledgement := k\<rparr>"

fun fits :: "content \<Rightarrow> PipeInstance \<Rightarrow> bool" where
  "fits NoContent i \<longleftrightarrow> Write i \<or> Phase i = Connecting \<or>
     Buffer i = NoBuffer \<or> Buffer i = OutHeader \<or> Buffer i = OutPayload"
| "fits (RequestHeaderBytes h) i \<longleftrightarrow> Buffer i = InHeader"
| "fits (PayloadBytes w) i \<longleftrightarrow> Buffer i = InPayload \<and> length w = length (Payload (SlotRequest i))"
| "fits (AcknowledgementBytes k) i \<longleftrightarrow> Buffer i = InAcknowledgement"

definition HandleIoCompletion ::
  "ServerOptions \<Rightarrow> bool \<Rightarrow> answers \<Rightarrow> bool \<Rightarrow> bool \<Rightarrow> u64 \<Rightarrow> content \<Rightarrow> slot_state \<Rightarrow> slot_state \<times> bool" where
  "HandleIoCompletion q running a allocated succeeded bytes content st =
     (case st of (i, c) \<Rightarrow>
        if \<not> running then (st, False)
        else if \<not> succeeded then (FinishClientLocked q running a st, False)
        else if Phase i = Connecting then ((owe ConnectionSeen i, c), False)
        else if RemainingWait (Tick a) (TransferDeadline i) = 0 then (FinishClientLocked q running a st, False)
        else if bytes = 0 \<or> bytes > ucast (TotalBytes i - TransferredBytes i)
        then (FinishClientLocked q running a st, False)
        else let i = i\<lparr>TransferredBytes := TransferredBytes i + ucast bytes\<rparr>
             in if TransferredBytes i < TotalBytes i
                then (transfer_or_finish q running a (StartCurrentTransferLocked running a i) c, False)
                else HandleCompletedTransferLocked q running a allocated (receive content i, c))"

subsection \<open>Recovery of an instance\<close>

definition OnRearmReady :: "bool \<Rightarrow> PipeInstance \<Rightarrow> PipeInstance" where
  "OnRearmReady running i =
     (if \<not> running then i
      else if RecreateRequired i
      then (if \<not> RecreateScheduled i then owe RecreateWork (i\<lparr>RecreateScheduled := True\<rparr>) else i)
      else owe RearmPassed i)"

text \<open>Recreation takes the old handles out of the instance and puts new ones in later.\<close>

definition recreate_fails :: "ServerOptions \<Rightarrow> bool \<Rightarrow> answers \<Rightarrow> PipeInstance \<Rightarrow> PipeInstance" where
  "recreate_fails q running a i0 =
     (let i = i0\<lparr>RecreateScheduled := False\<rparr>
      in if running then ScheduleRearmLocked q running a (i\<lparr>RecreateRequired := True\<rparr>) else i)"

definition RecreatePipeInstance :: "bool \<Rightarrow> PipeInstance \<Rightarrow> PipeInstance" where
  "RecreatePipeInstance running i =
     (if \<not> running \<or> \<not> RecreateRequired i then i\<lparr>RecreateScheduled := False\<rparr>
      else owe Recreating (i\<lparr>HasPipe := False, HasIo := False\<rparr>))"

definition recreate_succeeds :: "ServerOptions \<Rightarrow> bool \<Rightarrow> answers \<Rightarrow> PipeInstance \<Rightarrow> PipeInstance" where
  "recreate_succeeds q running a i =
     (if \<not> running then i\<lparr>RecreateScheduled := False\<rparr>
      else ArmConnectionLocked q running a (i\<lparr>HasPipe := True, HasIo := True, RecreateRequired := False,
             RecreateScheduled := False, RearmFailures := 0\<rparr>))"

subsection \<open>Handler callbacks\<close>

datatype handler_pc =
    HQueued | HExecuting | HWaiting nat u64 | HRunning nat u64 | HSettling | HResponding | HReleasing
  | HFailing | HAbandoning | HFinished

record handler =
  HSlot :: nat
  HPc :: handler_pc
  HRequest :: Request
  HPendingCorrelation :: CorrelationId
  HPending :: bool
  HResponse :: Response
  HExecution :: "nat option"
  HAcknowledgement :: "nat option"

definition new_handler :: "nat \<Rightarrow> handler" where
  "new_handler slot = \<lparr>HSlot = slot, HPc = HQueued, HRequest = NewRequest, HPendingCorrelation = NoId,
     HPending = False, HResponse = NewResponse, HExecution = None, HAcknowledgement = None\<rparr>"

text \<open>Its first section; \<open>copied\<close> is false when copying the request throws.\<close>

definition handler_begin :: "bool \<Rightarrow> bool \<Rightarrow> handler \<times> PipeInstance \<Rightarrow> handler \<times> PipeInstance" where
  "handler_begin running copied st =
     (case st of (h, i) \<Rightarrow>
        let canRun = (running \<and> Phase i = RunningHandler \<and> copied);
            request = (if canRun then SlotRequest i else NewRequest)
        in (h\<lparr>HRequest := request, HPendingCorrelation := RequestId (SlotRequest i),
              HPending := PendingDelivery i,
              HResponse := \<lparr>Code = ExitOperationFailed, Body = [], ResponseId = RequestId request\<rparr>,
              HPc := (if canRun then HExecuting else HSettling)\<rparr>,
            i\<lparr>PendingDelivery := False\<rparr>))"

text \<open>Where the callback goes on after a section of \<open>ExecuteOnce\<close>.\<close>

definition handler_continue :: "u64 \<Rightarrow> execution \<Rightarrow> handler \<Rightarrow> handler" where
  "handler_continue deadline e h =
     (case e of
        Uncached r \<Rightarrow> h\<lparr>HResponse := r, HPc := HSettling\<rparr>
      | Cached p \<Rightarrow> h\<lparr>HExecution := Some p, HAcknowledgement := Some p, HPc := HSettling\<rparr>
      | AwaitRecord p \<Rightarrow> h\<lparr>HPc := HWaiting p deadline\<rparr>
      | RunHandler p \<Rightarrow> h\<lparr>HPc := HRunning p deadline\<rparr>
      | Threw \<Rightarrow> h\<lparr>HPc := HFailing\<rparr>)"

definition handler_settle :: "ServerOptions \<Rightarrow> int \<Rightarrow> handler \<times> cache \<Rightarrow> handler \<times> cache" where
  "handler_settle q now st =
     (case st of (h, c) \<Rightarrow>
        (h\<lparr>HPending := False, HPc := (if HPc h = HFailing then HAbandoning else HResponding)\<rparr>,
         if HPending h then CompletePendingDelivery q (HPendingCorrelation h) now c else c))"

definition responseToSend :: "cache \<Rightarrow> handler \<Rightarrow> Response" where
  "responseToSend c h = (case HExecution h of Some p \<Rightarrow> RcResponse (record_at c p) | None \<Rightarrow> HResponse h)"

definition handler_respond ::
  "ServerOptions \<Rightarrow> bool \<Rightarrow> answers \<Rightarrow> bool \<Rightarrow> handler \<Rightarrow> slot_state \<Rightarrow> handler \<times> slot_state" where
  "handler_respond q running a copied h st =
     (case st of (i0, c) \<Rightarrow>
        if \<not> running \<or> Phase i0 \<noteq> RunningHandler then (h\<lparr>HPc := HReleasing\<rparr>, st)
        else if \<not> copied then (h\<lparr>HPc := HReleasing\<rparr>, FinishClientLocked q running a st)
        else let i = i0\<lparr>SlotResponse := responseToSend c h, AcknowledgementRecord := HAcknowledgement h\<rparr>;
                 h = h\<lparr>HAcknowledgement := None, HPc := HFinished\<rparr>
             in (case MakeResponseHeader (SlotResponse i) of
                  None \<Rightarrow> (h, FinishClientLocked q running a (i, c))
                | Some header \<Rightarrow>
                    let i = i\<lparr>SlotResponseHeader := header,
                              ResponseDeadline := DeadlineAfter (Tick a) (ResponseTimeoutMs q),
                              Phase := WritingResponseHeader\<rparr>
                    in (h, transfer_or_finish q running a
                             (StartTransferLocked running a OutHeader 32 True (ResponseDeadline i) i) c)))"

definition handler_release :: "ServerOptions \<Rightarrow> int \<Rightarrow> handler \<times> cache \<Rightarrow> handler \<times> cache" where
  "handler_release q now st =
     (case st of (h, c) \<Rightarrow>
        (h\<lparr>HAcknowledgement := None, HPc := HFinished\<rparr>,
         case HAcknowledgement h of
           None \<Rightarrow> c
         | Some p \<Rightarrow> CompleteDelivery q (RequestId (HRequest h)) p False now c))"

subsection \<open>The server\<close>

datatype stop_pc =
    StopIdle | StopWaiting nat | StopSignalling nat | StopDraining | StopCleaning | StopRetiring | StopEnding

text \<open>
  A stop source is its number, \<open>Signalled\<close> the sources whose stop was requested, \<open>Signals\<close> those that a
  \<open>RequestStop\<close> has read and will signal outside its lock. \<open>Executions\<close> and \<open>Replies\<close> record what happened:
  the calls of the handler with their records, and the responses that were handed to an instance.
\<close>

record server =
  DesiredRunning :: bool
  Starting :: bool
  Stopping :: bool
  StopRequested :: bool
  DeferredStopRequested :: bool
  Running :: bool
  Accepting :: bool
  Callable :: bool
  StartRetryFailures :: u64
  StartRetryTimer :: "u32 option"
  StopSource :: nat
  Signals :: "nat list"
  Signalled :: "nat list"
  StopPc :: stop_pc
  Slots :: "PipeInstance list"
  Handlers :: "handler list"
  Cache :: cache
  Executions :: "(nat \<times> Request) list"
  Replies :: "(Request \<times> Response \<times> nat option) list"

definition new_server :: server where
  "new_server = \<lparr>DesiredRunning = False, Starting = False, Stopping = False, StopRequested = False,
     DeferredStopRequested = False, Running = False, Accepting = False, Callable = False,
     StartRetryFailures = 0, StartRetryTimer = None, StopSource = 0, Signals = [], Signalled = [],
     StopPc = StopIdle, Slots = [], Handlers = [], Cache = new_cache, Executions = [], Replies = []\<rparr>"

subsection \<open>Life cycle\<close>

text \<open>\<open>created\<close>: how many of the three thread-pool objects exist or can be created.\<close>

definition EnsureControlCallbacksLocked :: "nat \<Rightarrow> server \<Rightarrow> server \<times> bool" where
  "EnsureControlCallbacksLocked created s =
     (s\<lparr>Cache := (Cache s)\<lparr>HasPruneTimer := HasPruneTimer (Cache s) \<or> created \<ge> 2\<rparr>\<rparr>, created \<ge> 3)"

definition start_ready :: "server \<Rightarrow> bool" where
  "start_ready s \<longleftrightarrow> \<not> Stopping s \<and> \<not> DeferredStopRequested s \<and> \<not> StopRequested s"

definition ServerStart :: "nat \<Rightarrow> bool \<Rightarrow> server \<Rightarrow> server" where
  "ServerStart created callable s =
     (if Running s \<or> DesiredRunning s then s
      else case EnsureControlCallbacksLocked created s of
          (s', False) \<Rightarrow> s'
        | (s', True) \<Rightarrow> s'\<lparr>Callable := callable, DesiredRunning := True\<rparr>)"

definition TryStart :: "server \<Rightarrow> server" where
  "TryStart s =
     (if \<not> DesiredRunning s \<or> Running s \<or> Starting s \<or> Stopping s then s else s\<lparr>Starting := True\<rparr>)"

definition ScheduleStartRetryLocked :: "ServerOptions \<Rightarrow> u64 \<Rightarrow> u64 \<Rightarrow> server \<Rightarrow> server" where
  "ScheduleStartRetryLocked q processId tick s =
     (if \<not> DesiredRunning s \<or> \<not> RetryStartupFailures q then s
      else s\<lparr>StartRetryTimer :=
             Some (ServerRetryDelay (RetryDelayMs q) (StartRetryFailures s) processId tick)\<rparr>)"

text \<open>The instances that could be created, armed in order; without any the start has failed.\<close>

definition arm_instances :: "ServerOptions \<Rightarrow> (bool \<times> answers) list \<Rightarrow> PipeInstance list" where
  "arm_instances q made =
     map (\<lambda>(k, available, a). ArmConnectionLocked q True a (new_instance (of_nat k) available))
       (zip [0..<length made] made)"

definition try_start_end ::
  "ServerOptions \<Rightarrow> bool \<Rightarrow> (bool \<times> answers) list \<Rightarrow> u64 \<Rightarrow> u64 \<Rightarrow> server \<Rightarrow> server" where
  "try_start_end q created made processId tick s =
     (let prepared = (created \<and> (\<exists>m \<in> set made. fst m))
      in if prepared \<and> (\<not> DesiredRunning s \<or> StopRequested s \<or> Stopping s) then s\<lparr>Starting := False\<rparr>
         else if \<not> prepared then
           let s = s\<lparr>Starting := False\<rparr>
           in if DesiredRunning s \<and> \<not> StopRequested s \<and> \<not> Stopping s
              then ScheduleStartRetryLocked q processId tick
                     (s\<lparr>StartRetryFailures := StartRetryFailures s + 1\<rparr>)
              else s
         else s\<lparr>StopSource := StopSource s + 1, Accepting := True, Running := True, Starting := False,
                StartRetryFailures := 0, StartRetryTimer := None, Slots := arm_instances q made\<rparr>)"

definition nothing_to_stop :: "server \<Rightarrow> bool" where
  "nothing_to_stop s \<longleftrightarrow> \<not> StopRequested s \<and> \<not> DesiredRunning s \<and> \<not> Running s \<and> \<not> Starting s"

definition RequestStopLocked :: "server \<Rightarrow> server" where
  "RequestStopLocked s = s\<lparr>DesiredRunning := False, Accepting := False, Running := False,
     StopRequested := True, StartRetryTimer := None\<rparr>"

definition RequestStop :: "server \<Rightarrow> server" where
  "RequestStop s =
     (if nothing_to_stop s then s
      else (RequestStopLocked s)\<lparr>Signals := StopSource s # Signals s\<rparr>)"

text \<open>\<open>Stop\<close> called by a handler only requests the stop and leaves the rest to a work item.\<close>

definition deferred_stop :: "server \<Rightarrow> server" where
  "deferred_stop s = (RequestStop s)\<lparr>DeferredStopRequested := True\<rparr>"

definition stop_begin :: "server \<Rightarrow> server" where
  "stop_begin s =
     (if Stopping s \<or> nothing_to_stop s then s
      else (RequestStopLocked s)\<lparr>Stopping := True, StopPc := StopWaiting (StopSource s)\<rparr>)"

definition cancellable :: "callback \<Rightarrow> bool" where
  "cancellable cb \<longleftrightarrow> cb = RearmTimer \<or> cb = RecreateWork \<or> cb = AlreadyConnectedWork"

text \<open>Timers and work items that have not started are cancelled; everything else is waited for.\<close>

definition drained :: "server \<Rightarrow> bool" where
  "drained s \<longleftrightarrow> (\<forall>h \<in> set (Handlers s). HPc h = HQueued \<or> HPc h = HFinished) \<and>
     (\<forall>i \<in> set (Slots s). \<forall>cb \<in> set (Outstanding i). cancellable cb)"

fun stop_step :: "ServerOptions \<Rightarrow> int \<Rightarrow> stop_pc \<Rightarrow> server \<Rightarrow> server" where
  "stop_step q now (StopWaiting src) s = s\<lparr>StopPc := StopSignalling src\<rparr>"
| "stop_step q now (StopSignalling src) s = s\<lparr>Signalled := src # Signalled s, StopPc := StopDraining\<rparr>"
| "stop_step q now StopDraining s = s\<lparr>Slots := [], Handlers := [], StopPc := StopCleaning\<rparr>"
| "stop_step q now StopCleaning s = s\<lparr>Cache := StopCache q now (Cache s), StopPc := StopRetiring\<rparr>"
| "stop_step q now StopRetiring s = s\<lparr>Callable := False, Starting := False, StopRequested := False,
     DeferredStopRequested := False, StopPc := StopEnding\<rparr>"
| "stop_step q now StopEnding s = s\<lparr>Stopping := False, StopPc := StopIdle\<rparr>"
| "stop_step q now StopIdle s = s"

fun stop_enabled :: "stop_pc \<Rightarrow> server \<Rightarrow> bool" where
  "stop_enabled (StopWaiting src) s = (\<not> Starting s)"
| "stop_enabled StopDraining s = drained s"
| "stop_enabled StopIdle s = False"
| "stop_enabled _ s = True"

subsection \<open>Steps\<close>

datatype event =
    EvStart nat bool
  | EvTryStart bool
  | EvTryStartEnd bool "(bool \<times> answers) list" u64 u64
  | EvRequestStop
  | EvSignal nat
  | EvStopBegin
  | EvStop int
  | EvPrune int
  | EvIo nat bool bool u64 content answers
  | EvConnected nat callback bool answers
  | EvRearm nat
  | EvRearmArm nat answers
  | EvRecreate nat bool answers
  | EvRecreated nat bool answers
  | EvBegin nat bool
  | EvExecute nat bool bool answers
  | EvWake nat answers
  | EvDeferredStop nat
  | EvReturn nat "Response option" int
  | EvSettle nat int
  | EvRespond nat bool answers
  | EvAbandon nat answers
  | EvRelease nat int

definition stop_token :: "server \<Rightarrow> bool" where
  "stop_token s \<longleftrightarrow> StopSource s \<in> set (Signalled s)"

definition answer_callback :: "callback \<Rightarrow> PipeInstance \<Rightarrow> PipeInstance" where
  "answer_callback cb i = i\<lparr>Outstanding := remove1 cb (Outstanding i)\<rparr>"

text \<open>A callback of instance \<open>k\<close> runs: the system no longer owes it.\<close>

definition on_slot :: "nat \<Rightarrow> callback \<Rightarrow> (PipeInstance \<Rightarrow> PipeInstance) \<Rightarrow> server \<Rightarrow> server" where
  "on_slot k cb f s = s\<lparr>Slots := (Slots s)[k := f (answer_callback cb (Slots s ! k))]\<rparr>"

definition put_slot :: "nat \<Rightarrow> slot_state \<Rightarrow> server \<Rightarrow> server" where
  "put_slot k st s = s\<lparr>Slots := (Slots s)[k := fst st], Cache := snd st\<rparr>"

definition on_slot_cache ::
  "nat \<Rightarrow> callback \<Rightarrow> (slot_state \<Rightarrow> slot_state \<times> bool) \<Rightarrow> server \<Rightarrow> server" where
  "on_slot_cache k cb f s =
     (case f (answer_callback cb (Slots s ! k), Cache s) of
        (st, submitted) \<Rightarrow>
          (put_slot k st s)\<lparr>Handlers := Handlers s @ (if submitted then [new_handler k] else [])\<rparr>)"

definition put_handler :: "nat \<Rightarrow> handler \<Rightarrow> server \<Rightarrow> server" where
  "put_handler n h s = s\<lparr>Handlers := (Handlers s)[n := h]\<rparr>"

definition handler_executes ::
  "nat \<Rightarrow> u64 \<Rightarrow> cache \<times> execution \<Rightarrow> server \<Rightarrow> server" where
  "handler_executes n deadline r s =
     (let h = Handlers s ! n;
          s = put_handler n (handler_continue deadline (snd r) h) (s\<lparr>Cache := fst r\<rparr>)
      in case snd r of
           RunHandler p \<Rightarrow> s\<lparr>Executions := Executions s @ [(p, HRequest h)]\<rparr>
         | _ \<Rightarrow> s)"

definition handler_returns :: "ServerOptions \<Rightarrow> nat \<Rightarrow> Response option \<Rightarrow> int \<Rightarrow> server \<Rightarrow> server" where
  "handler_returns q n answer completedAt s =
     (let h = Handlers s ! n
      in case HPc h of
           HRunning p deadline \<Rightarrow>
             put_handler n (handler_continue deadline (Cached p) h)
               (s\<lparr>Cache := CompleteExecution q p (handler_response (Callable s) answer (HRequest h))
                     completedAt (Cache s)\<rparr>)
         | _ \<Rightarrow> s)"

text \<open>The reply is recorded when the response has been copied to the instance.\<close>

definition handler_responds :: "ServerOptions \<Rightarrow> nat \<Rightarrow> bool \<Rightarrow> answers \<Rightarrow> server \<Rightarrow> server" where
  "handler_responds q n copied a s =
     (let h = Handlers s ! n; k = HSlot h; i = Slots s ! k
      in case handler_respond q (Running s) a copied h (i, Cache s) of
           (h', st) \<Rightarrow>
             (put_handler n h' (put_slot k st s))
               \<lparr>Replies := Replies s @
                  (if Running s \<and> Phase i = RunningHandler \<and> copied
                   then [(SlotRequest i, responseToSend (Cache s) h, HAcknowledgement h)] else [])\<rparr>)"

fun server_step :: "ServerOptions \<Rightarrow> server \<Rightarrow> event \<Rightarrow> server" where
  "server_step q s (EvStart created callable) = ServerStart created callable s"
| "server_step q s (EvTryStart timer) =
     TryStart (if timer then s\<lparr>StartRetryTimer := None\<rparr> else s)"
| "server_step q s (EvTryStartEnd created made processId tick) = try_start_end q created made processId tick s"
| "server_step q s EvRequestStop = RequestStop s"
| "server_step q s (EvSignal src) = s\<lparr>Signalled := src # Signalled s, Signals := remove1 src (Signals s)\<rparr>"
| "server_step q s EvStopBegin = stop_begin s"
| "server_step q s (EvStop now) = stop_step q now (StopPc s) s"
| "server_step q s (EvPrune now) = s\<lparr>Cache := OnRequestPrune q now (Cache s)\<rparr>"
| "server_step q s (EvIo k allocated succeeded bytes content a) =
     on_slot_cache k IoCompletion
       (HandleIoCompletion q (Running s) a allocated succeeded bytes content) s"
| "server_step q s (EvConnected k cb trusted a) =
     on_slot_cache k cb
       (\<lambda>st. (HandleConnectedInstanceLocked q (Running s) (Accepting s) trusted a st, False)) s"
| "server_step q s (EvRearm k) = on_slot k RearmTimer (OnRearmReady (Running s)) s"
| "server_step q s (EvRearmArm k a) = on_slot k RearmPassed (ArmConnectionLocked q (Running s) a) s"
| "server_step q s (EvRecreate k secured a) =
     on_slot k RecreateWork
       (\<lambda>i. if secured then RecreatePipeInstance (Running s) i else recreate_fails q (Running s) a i) s"
| "server_step q s (EvRecreated k created a) =
     on_slot k Recreating
       (if created then recreate_succeeds q (Running s) a else recreate_fails q (Running s) a) s"
| "server_step q s (EvBegin n copied) =
     (case handler_begin (Running s) copied (Handlers s ! n, Slots s ! HSlot (Handlers s ! n)) of
        (h, i) \<Rightarrow> (put_handler n h s)\<lparr>Slots := (Slots s)[HSlot h := i]\<rparr>)"
| "server_step q s (EvExecute n apartment allocated a) =
     (let h = Handlers s ! n; deadline = DeadlineAfter (Tick a) (HandlerTimeoutMs q)
      in if \<not> apartment then put_handler n (h\<lparr>HPc := HSettling\<rparr>) s
         else handler_executes n deadline
                (ExecuteOnce q (stop_token s) (Tick a) deadline (CacheNow a) allocated (HRequest h) (Cache s)) s)"
| "server_step q s (EvWake n a) =
     (case HPc (Handlers s ! n) of
        HWaiting p deadline \<Rightarrow>
          handler_executes n deadline
            (await_round (stop_token s) (Tick a) deadline (HRequest (Handlers s ! n)) p (Cache s)) s
      | _ \<Rightarrow> s)"
| "server_step q s (EvDeferredStop n) = deferred_stop s"
| "server_step q s (EvReturn n answer completedAt) = handler_returns q n answer completedAt s"
| "server_step q s (EvSettle n now) =
     (case handler_settle q now (Handlers s ! n, Cache s) of (h, c) \<Rightarrow> (put_handler n h s)\<lparr>Cache := c\<rparr>)"
| "server_step q s (EvRespond n copied a) = handler_responds q n copied a s"
| "server_step q s (EvAbandon n a) =
     (let h = Handlers s ! n
      in put_handler n (h\<lparr>HPc := HFinished\<rparr>)
           (put_slot (HSlot h) (FinishClientLocked q (Running s) a (Slots s ! HSlot h, Cache s)) s))"
| "server_step q s (EvRelease n now) =
     (case handler_release q now (Handlers s ! n, Cache s) of (h, c) \<Rightarrow> (put_handler n h s)\<lparr>Cache := c\<rparr>)"

subsection \<open>When steps can happen\<close>

definition owes :: "server \<Rightarrow> nat \<Rightarrow> callback \<Rightarrow> bool" where
  "owes s k cb \<longleftrightarrow> k < length (Slots s) \<and> cb \<in> set (Outstanding (Slots s ! k))"

definition at_pc :: "server \<Rightarrow> nat \<Rightarrow> handler_pc \<Rightarrow> bool" where
  "at_pc s n pc \<longleftrightarrow> n < length (Handlers s) \<and> HPc (Handlers s ! n) = pc"

fun is_waiting :: "handler_pc \<Rightarrow> bool" where
  "is_waiting (HWaiting p d) = True" | "is_waiting _ = False"

fun is_running :: "handler_pc \<Rightarrow> bool" where
  "is_running (HRunning p d) = True" | "is_running _ = False"

lemma is_pc_iff [simp]:
  "is_waiting pc \<longleftrightarrow> (\<exists>p d. pc = HWaiting p d)" "is_running pc \<longleftrightarrow> (\<exists>p d. pc = HRunning p d)"
  by (cases pc; simp)+

fun server_enabled :: "ServerOptions \<Rightarrow> server \<Rightarrow> event \<Rightarrow> bool" where
  "server_enabled q s (EvStart created callable) = start_ready s"
| "server_enabled q s (EvTryStart timer) = (\<not> timer \<or> StartRetryTimer s \<noteq> None)"
| "server_enabled q s (EvTryStartEnd created made processId tick) =
     (Starting s \<and> length made = PipeInstanceCount q)"
| "server_enabled q s (EvSignal src) = (src \<in> set (Signals s))"
| "server_enabled q s (EvStop now) = stop_enabled (StopPc s) s"
| "server_enabled q s (EvPrune now) = (PruneTimer (Cache s) \<noteq> None)"
| "server_enabled q s (EvIo k allocated succeeded bytes content a) =
     (owes s k IoCompletion \<and> fits content (Slots s ! k))"
| "server_enabled q s (EvConnected k cb trusted a) =
     (owes s k cb \<and> (cb = AlreadyConnectedWork \<or> cb = ConnectionSeen))"
| "server_enabled q s (EvRearm k) = owes s k RearmTimer"
| "server_enabled q s (EvRearmArm k a) = owes s k RearmPassed"
| "server_enabled q s (EvRecreate k secured a) = owes s k RecreateWork"
| "server_enabled q s (EvRecreated k created a) = owes s k Recreating"
| "server_enabled q s (EvBegin n copied) = at_pc s n HQueued"
| "server_enabled q s (EvExecute n apartment allocated a) = at_pc s n HExecuting"
| "server_enabled q s (EvWake n a) =
     (n < length (Handlers s) \<and> is_waiting (HPc (Handlers s ! n)))"
| "server_enabled q s (EvDeferredStop n) =
     (n < length (Handlers s) \<and> is_running (HPc (Handlers s ! n)))"
| "server_enabled q s (EvReturn n answer completedAt) =
     (n < length (Handlers s) \<and> is_running (HPc (Handlers s ! n)))"
| "server_enabled q s (EvSettle n now) = (at_pc s n HSettling \<or> at_pc s n HFailing)"
| "server_enabled q s (EvRespond n copied a) = at_pc s n HResponding"
| "server_enabled q s (EvAbandon n a) = at_pc s n HAbandoning"
| "server_enabled q s (EvRelease n now) = at_pc s n HReleasing"
| "server_enabled q s _ = True"

definition server_start :: "server \<Rightarrow> bool" where
  "server_start s \<longleftrightarrow> s = new_server"

end
