(* ===== verification/Cache_Laws.thy ===== *)
theory Cache_Laws
  imports Control_Server
begin

section \<open>Laws of the request cache\<close>

text \<open>
  What each operation of the cache does to the map, the records and the counters, and the invariant of the
  cache alone (\<open>cache_ok\<close>): the byte count is the sum over the records and within its limit, every complete
  record carries a response that can be sent, and the prune timer runs whenever a record could expire.
\<close>

subsection \<open>Frames\<close>

lemma set_record_sel [simp]:
  "Records (set_record p r c) = Records c" "PendingDeliveries (set_record p r c) = PendingDeliveries c"
  "RequestCacheBytes (set_record p r c) = RequestCacheBytes c"
  "HasPruneTimer (set_record p r c) = HasPruneTimer c" "PruneTimer (set_record p r c) = PruneTimer c"
  "length (RecordHeap (set_record p r c)) = length (RecordHeap c)"
  by (simp_all add: set_record_def)

lemma record_at_set_record [simp]:
  "p < length (RecordHeap c) \<Longrightarrow> record_at (set_record p r c) p' = (if p' = p then r else record_at c p')"
  by (simp add: record_at_def set_record_def)

lemma pending_count_set_record [simp]: "pending_count (set_record p r c) cid = pending_count c cid"
  by (simp add: pending_count_def)

text \<open>Two caches with the same records and counters agree on what is in use.\<close>

lemma record_at_cong: "RecordHeap c' = RecordHeap c \<Longrightarrow> record_at c' p = record_at c p"
  by (simp add: record_at_def)

lemma pending_count_cong: "PendingDeliveries c' = PendingDeliveries c \<Longrightarrow> pending_count c' cid = pending_count c cid"
  by (simp add: pending_count_def)

lemma in_use_cong:
  "RecordHeap c' = RecordHeap c \<Longrightarrow> PendingDeliveries c' = PendingDeliveries c \<Longrightarrow> in_use c' e = in_use c e"
  by (simp add: in_use_def record_at_def pending_count_def)

lemma kept_cong:
  "RecordHeap c' = RecordHeap c \<Longrightarrow> PendingDeliveries c' = PendingDeliveries c \<Longrightarrow> kept q now c' e = kept q now c e"
  by (simp add: kept_def in_use_def record_at_def pending_count_def)

lemma kept_in_use: "in_use c e \<Longrightarrow> kept q now c e"
  by (simp add: kept_def)

lemma Schedule_sel [simp]:
  "Records (ScheduleRequestPruneLocked q now c) = Records c"
  "RecordHeap (ScheduleRequestPruneLocked q now c) = RecordHeap c"
  "PendingDeliveries (ScheduleRequestPruneLocked q now c) = PendingDeliveries c"
  "RequestCacheBytes (ScheduleRequestPruneLocked q now c) = RequestCacheBytes c"
  "HasPruneTimer (ScheduleRequestPruneLocked q now c) = HasPruneTimer c"
  by (simp_all add: ScheduleRequestPruneLocked_def split: option.split)

lemma Schedule_views [simp]:
  "record_at (ScheduleRequestPruneLocked q now c) p = record_at c p"
  "pending_count (ScheduleRequestPruneLocked q now c) cid = pending_count c cid"
  "in_use (ScheduleRequestPruneLocked q now c) e = in_use c e"
  by (simp_all add: record_at_def pending_count_def in_use_def)

subsection \<open>Pruning\<close>

definition bytes_of :: "cache \<Rightarrow> (CorrelationId \<times> nat) list \<Rightarrow> nat" where
  "bytes_of c es = sum_list (map (\<lambda>e. Bytes (record_at c (snd e))) es)"

lemma bytes_of_simps [simp]:
  "bytes_of c [] = 0" "bytes_of c (e # es) = Bytes (record_at c (snd e)) + bytes_of c es"
  by (simp_all add: bytes_of_def)

lemma bytes_of_cong: "(\<And>p. p \<in> snd ` set es \<Longrightarrow> Bytes (record_at c' p) = Bytes (record_at c p)) \<Longrightarrow>
    bytes_of c' es = bytes_of c es"
  by (induction es) auto

lemma prune_loop_records: "fst (prune_loop q now c es b) = filter (kept q now c) es"
  by (induction es arbitrary: b) auto

lemma prune_loop_bytes:
  "snd (prune_loop q now c es (bytes_of c es + n)) = bytes_of c (filter (kept q now c) es) + n"
proof (induction es arbitrary: n)
  case (Cons e es)
  show ?case
    using Cons [of n] Cons [of "n + Bytes (record_at c (snd e))"] by (simp add: ac_simps)
qed simp

lemma Prune_sel [simp]:
  "Records (PruneRequestRecords q now c) = filter (kept q now c) (Records c)"
  "RecordHeap (PruneRequestRecords q now c) = RecordHeap c"
  "PendingDeliveries (PruneRequestRecords q now c) = PendingDeliveries c"
  "HasPruneTimer (PruneRequestRecords q now c) = HasPruneTimer c"
  "PruneTimer (PruneRequestRecords q now c) = PruneTimer c"
  by (simp_all add: PruneRequestRecords_def prune_loop_records case_prod_unfold)

lemma Prune_views [simp]:
  "record_at (PruneRequestRecords q now c) p = record_at c p"
  "pending_count (PruneRequestRecords q now c) cid = pending_count c cid"
  "in_use (PruneRequestRecords q now c) e = in_use c e"
  by (simp_all add: record_at_def pending_count_def in_use_def)

lemma Prune_bytes:
  "RequestCacheBytes c = bytes_of c (Records c) \<Longrightarrow>
     RequestCacheBytes (PruneRequestRecords q now c) = bytes_of c (filter (kept q now c) (Records c))"
  using prune_loop_bytes [of q now c "Records c" 0]
  by (simp add: PruneRequestRecords_def case_prod_unfold)

subsection \<open>The prune timer\<close>

lemma earliest_None_iff:
  "earliest_expiry q c es acc = None \<longleftrightarrow> acc = None \<and> (\<forall>e \<in> set es. in_use c e)"
  by (induction es arbitrary: acc) (auto simp: Let_def split: option.split)

definition timer_ok :: "cache \<Rightarrow> bool" where
  "timer_ok c \<longleftrightarrow> (HasPruneTimer c \<longrightarrow> (\<forall>e \<in> set (Records c). in_use c e \<or> PruneTimer c \<noteq> None))"

lemma Schedule_timer: "timer_ok (ScheduleRequestPruneLocked q now c)"
proof (cases "HasPruneTimer c")
  case True
  show ?thesis
  proof (cases "earliest_expiry q c (Records c) None")
    case None
    then show ?thesis by (auto simp: timer_ok_def earliest_None_iff)
  next
    case (Some t)
    then show ?thesis using True by (simp add: timer_ok_def ScheduleRequestPruneLocked_def)
  qed
qed (simp add: timer_ok_def)

lemma timer_ok_mono:
  assumes "timer_ok c" "PruneTimer c' = PruneTimer c" "HasPruneTimer c' = HasPruneTimer c"
    and "\<And>e. e \<in> set (Records c') \<Longrightarrow> \<not> in_use c' e \<Longrightarrow> e \<in> set (Records c) \<and> \<not> in_use c e"
  shows "timer_ok c'"
  using assms by (auto simp: timer_ok_def)

lemma Prune_timer: "timer_ok c \<Longrightarrow> timer_ok (PruneRequestRecords q now c)"
  by (rule timer_ok_mono) auto

subsection \<open>The invariant of the cache\<close>

definition record_ok :: "ServerOptions \<Rightarrow> RequestRecord \<Rightarrow> bool" where
  "record_ok q r \<longleftrightarrow> length (Payload (RcRequest r)) \<le> 32768 \<and>
     (if IsComplete r
      then Bytes r = RequestBytes q (RcRequest r) + ResponseBytes q (RcResponse r) \<and>
        ResponseId (RcResponse r) = RequestId (RcRequest r) \<and> length (Body (RcResponse r)) \<le> 32768
      else Bytes r = reservedBytes q (RcRequest r))"

definition map_ok :: "cache \<Rightarrow> bool" where
  "map_ok c \<longleftrightarrow> distinct (map fst (Records c)) \<and>
     (\<forall>(cid, p) \<in> set (Records c). p < length (RecordHeap c) \<and> RequestId (RcRequest (record_at c p)) = cid \<and>
        (\<forall>p' < length (RecordHeap c). RequestId (RcRequest (record_at c p')) = cid \<longrightarrow> p' \<le> p))"

definition size_ok :: "ServerOptions \<Rightarrow> cache \<Rightarrow> bool" where
  "size_ok q c \<longleftrightarrow> RequestCacheBytes c = bytes_of c (Records c) \<and>
     RequestCacheBytes c \<le> MaxRequestCacheBytes q \<and> length (Records c) \<le> MaxRequestRecords q"

definition cache_ok :: "ServerOptions \<Rightarrow> cache \<Rightarrow> bool" where
  "cache_ok q c \<longleftrightarrow> map_ok c \<and> size_ok q c \<and> timer_ok c \<and>
     (\<forall>r \<in> set (RecordHeap c). record_ok q r) \<and> distinct (map fst (PendingDeliveries c))"

lemma new_cache_ok: "cache_ok q new_cache"
  by (simp add: cache_ok_def map_ok_def size_ok_def timer_ok_def new_cache_def)

lemma map_okD:
  assumes "map_ok c" "(cid, p) \<in> set (Records c)"
  shows "p < length (RecordHeap c)" "RequestId (RcRequest (record_at c p)) = cid"
    and "p' < length (RecordHeap c) \<Longrightarrow> RequestId (RcRequest (record_at c p')) = cid \<Longrightarrow> p' \<le> p"
  using assms by (auto simp: map_ok_def)

lemma map_ok_lookup: "map_ok c \<Longrightarrow> map_of (Records c) cid = Some p \<longleftrightarrow> (cid, p) \<in> set (Records c)"
  by (simp add: map_ok_def)

lemma map_ok_unique:
  assumes "map_ok c" "(cid, p) \<in> set (Records c)" "(cid', p) \<in> set (Records c)"
  shows "cid' = cid"
  using map_okD(2) [OF assms(1)] assms by metis

lemma map_ok_subset:
  assumes "map_ok c" "RecordHeap c' = RecordHeap c" "Records c' = filter P (Records c)"
  shows "map_ok c'"
  using assms by (auto simp: map_ok_def record_at_def distinct_map_filter)

lemma bytes_of_filter_le: "bytes_of c (filter P es) \<le> bytes_of c es"
  by (induction es) auto


lemma Schedule_map [simp]: "map_ok (ScheduleRequestPruneLocked q now c) = map_ok c"
  by (simp add: map_ok_def)

lemma Schedule_size [simp]: "size_ok q (ScheduleRequestPruneLocked q' now c) = size_ok q c"
  by (simp add: size_ok_def bytes_of_def)

text \<open>Scheduling at the end of an operation restores the only part of the invariant the operation broke.\<close>

definition counted :: "ServerOptions \<Rightarrow> cache \<Rightarrow> bool" where
  "counted q c \<longleftrightarrow> map_ok c \<and> size_ok q c \<and> (\<forall>r \<in> set (RecordHeap c). record_ok q r) \<and>
     distinct (map fst (PendingDeliveries c))"

lemma cache_ok_counted: "cache_ok q c \<longleftrightarrow> counted q c \<and> timer_ok c"
  by (auto simp: cache_ok_def counted_def)

lemma Schedule_ok: "counted q c \<Longrightarrow> cache_ok q (ScheduleRequestPruneLocked q now c)"
  by (simp add: cache_ok_def counted_def Schedule_timer)

lemma Prune_counted:
  assumes "counted q c"
  shows "counted q (PruneRequestRecords q now c)"
proof -
  have "map_ok (PruneRequestRecords q now c)"
    using assms by (auto simp: counted_def intro: map_ok_subset)
  moreover have "size_ok q (PruneRequestRecords q now c)"
    using assms Prune_bytes [of c q now] bytes_of_filter_le [of c "kept q now c" "Records c"]
      length_filter_le [of "kept q now c" "Records c"]
    by (auto simp: counted_def size_ok_def bytes_of_def simp del: length_filter_le)
  ultimately show ?thesis
    using assms by (simp add: counted_def)
qed

lemma OnRequestPrune_ok:
  assumes "cache_ok q c"
  shows "cache_ok q (OnRequestPrune q now c)"
proof -
  have "counted q (c\<lparr>PruneTimer := None\<rparr>)"
    using assms by (simp add: cache_ok_counted counted_def map_ok_def size_ok_def bytes_of_def record_at_def)
  then show ?thesis
    by (simp add: OnRequestPrune_def Schedule_ok Prune_counted)
qed

subsection \<open>Deliveries\<close>

lemma pending_count_set_pending [simp]:
  "pending_count (set_pending cid n c) cid' = (if cid' = cid then n else pending_count c cid')"
  by (simp add: pending_count_def set_pending_def update_conv')

lemma set_pending_sel [simp]:
  "Records (set_pending cid n c) = Records c" "RecordHeap (set_pending cid n c) = RecordHeap c"
  "RequestCacheBytes (set_pending cid n c) = RequestCacheBytes c"
  "HasPruneTimer (set_pending cid n c) = HasPruneTimer c" "PruneTimer (set_pending cid n c) = PruneTimer c"
  "record_at (set_pending cid n c) p = record_at c p"
  by (simp_all add: set_pending_def record_at_def)

lemma counted_frame:
  assumes "counted q c" "Records c' = Records c" "RecordHeap c' = RecordHeap c"
    and "RequestCacheBytes c' = RequestCacheBytes c" "distinct (map fst (PendingDeliveries c'))"
  shows "counted q c'"
proof -
  have "map_ok c' = map_ok c"
    by (simp add: map_ok_def record_at_def assms(2,3))
  moreover have "size_ok q c' = size_ok q c"
    by (simp add: size_ok_def bytes_of_def record_at_def assms(2-4))
  ultimately show ?thesis
    using assms(1,5) by (simp add: counted_def assms(3))
qed

lemma BeginPending_ok:
  assumes "cache_ok q c" "BeginPendingDelivery cid c = (c', b)"
  shows "cache_ok q c'"
proof (cases b)
  case True
  then have c': "c' = set_pending cid (pending_count c cid + 1) c"
    using assms(2) by (auto simp: BeginPendingDelivery_def Let_def split: if_splits)
  have "counted q c'"
    unfolding c' by (rule counted_frame [of q c]) (use assms(1) in \<open>auto simp: cache_ok_counted set_pending_def counted_def distinct_update\<close>)
  moreover have "timer_ok c'"
    unfolding c' by (rule timer_ok_mono [of c]) (use assms(1) in \<open>auto simp: cache_ok_def in_use_def split: if_splits\<close>)
  ultimately show ?thesis by (simp add: cache_ok_counted)
next
  case False
  then show ?thesis using assms by (auto simp: BeginPendingDelivery_def Let_def split: if_splits)
qed

lemma BeginPending_views:
  assumes "BeginPendingDelivery cid c = (c', b)"
  shows "Records c' = Records c" "RecordHeap c' = RecordHeap c" "HasPruneTimer c' = HasPruneTimer c"
    and "pending_count c' cid' = pending_count c cid' + of_bool (b \<and> cid' = cid)"
  using assms by (auto simp: BeginPendingDelivery_def Let_def split: if_splits)

lemma CompletePending_sel [simp]:
  "Records (CompletePendingDelivery q cid now c) = Records c"
  "RecordHeap (CompletePendingDelivery q cid now c) = RecordHeap c"
  "RequestCacheBytes (CompletePendingDelivery q cid now c) = RequestCacheBytes c"
  "HasPruneTimer (CompletePendingDelivery q cid now c) = HasPruneTimer c"
  "record_at (CompletePendingDelivery q cid now c) p = record_at c p"
  by (simp_all add: CompletePendingDelivery_def record_at_def split: option.split)

lemma pending_count_delete:
  "pending_count (c\<lparr>PendingDeliveries := AList.delete cid (PendingDeliveries c)\<rparr>) cid' =
     (if cid' = cid then 0 else pending_count c cid')"
  by (simp add: pending_count_def delete_conv')

lemma CompletePending_count:
  "pending_count (CompletePendingDelivery q cid now c) cid' =
     (if cid' = cid then pending_count c cid - 1 else pending_count c cid')"
  by (cases "map_of (PendingDeliveries c) cid")
    (auto simp: CompletePendingDelivery_def pending_count_delete, auto simp: pending_count_def)

lemma CompletePending_ok:
  assumes "cache_ok q c"
  shows "cache_ok q (CompletePendingDelivery q cid now c)"
proof (cases "map_of (PendingDeliveries c) cid")
  case (Some n)
  have "counted q (if n > 1 then set_pending cid (n - 1) c
      else c\<lparr>PendingDeliveries := AList.delete cid (PendingDeliveries c)\<rparr>)"
    by (rule counted_frame [of q c])
      (use assms in \<open>auto simp: cache_ok_counted set_pending_def counted_def distinct_update distinct_delete\<close>)
  then show ?thesis
    using Some by (simp add: CompletePendingDelivery_def Schedule_ok)
qed (simp add: CompletePendingDelivery_def assms)

text \<open>A changed record keeps what the map and the byte count depend on.\<close>

lemma counted_set_record:
  assumes "counted q c" "p < length (RecordHeap c)" "record_ok q r"
    and "RequestId (RcRequest r) = RequestId (RcRequest (record_at c p))"
    and "Bytes r = Bytes (record_at c p)"
  shows "counted q (set_record p r c)"
proof -
  have same: "RequestId (RcRequest (record_at (set_record p r c) p')) = RequestId (RcRequest (record_at c p'))"
      "Bytes (record_at (set_record p r c) p') = Bytes (record_at c p')" for p'
    using assms by simp_all
  have "map_ok (set_record p r c) = map_ok c"
    by (simp only: map_ok_def same set_record_sel)
  moreover have "size_ok q (set_record p r c) = size_ok q c"
    by (simp only: size_ok_def bytes_of_def same set_record_sel)
  moreover have "\<forall>r' \<in> set (RecordHeap (set_record p r c)). record_ok q r'"
    using assms(1,3) set_update_subset_insert [of "RecordHeap c" p r]
    by (auto simp: counted_def set_record_def)
  ultimately show ?thesis
    using assms(1) by (simp add: counted_def)
qed

lemma record_ok_at: "counted q c \<Longrightarrow> p < length (RecordHeap c) \<Longrightarrow> record_ok q (record_at c p)"
  by (simp add: counted_def record_at_def)

lemma record_ok_deliveries [simp]:
  "record_ok q (r\<lparr>ActiveDeliveries := n\<rparr>) = record_ok q r"
  "record_ok q (r\<lparr>Acknowledged := b\<rparr>) = record_ok q r"
  "record_ok q (r\<lparr>LastDeliveryCompletedAt := t\<rparr>) = record_ok q r"
  by (simp_all add: record_ok_def)

text \<open>The record a completed delivery leaves.\<close>

definition delivered :: "bool \<Rightarrow> int \<Rightarrow> RequestRecord \<Rightarrow> RequestRecord" where
  "delivered acknowledged now r = r\<lparr>ActiveDeliveries := ActiveDeliveries r - 1,
     Acknowledged := Acknowledged r \<or> acknowledged, LastDeliveryCompletedAt := now\<rparr>"

lemma CompleteDelivery_eq:
  assumes "map_of (Records c) cid = Some p" "IsComplete (record_at c p)"
  shows "CompleteDelivery q cid p k now c = ScheduleRequestPruneLocked q now
     (PruneRequestRecords q now (set_record p (delivered k now (record_at c p)) c))"
  using assms by (simp add: CompleteDelivery_def delivered_def Let_def)

lemma CompleteDelivery_ok:
  assumes "cache_ok q c"
  shows "cache_ok q (CompleteDelivery q cid p k now c)"
proof (cases "map_of (Records c) cid = Some p \<and> IsComplete (record_at c p)")
  case True
  then have "(cid, p) \<in> set (Records c)" by (simp add: map_of_SomeD)
  then have "p < length (RecordHeap c)" using assms by (auto simp: cache_ok_def map_ok_def)
  moreover have "counted q c" using assms by (simp add: cache_ok_counted)
  ultimately have "counted q (set_record p (delivered k now (record_at c p)) c)"
    using record_ok_at [of q c p] by (intro counted_set_record) (auto simp: delivered_def record_ok_def)
  then show ?thesis
    using True by (simp add: CompleteDelivery_eq Schedule_ok Prune_counted)
qed (use assms in \<open>auto simp: CompleteDelivery_def\<close>)

lemma begin_delivery_ok:
  assumes "cache_ok q c" "p < length (RecordHeap c)"
  shows "cache_ok q (begin_delivery p c)"
proof -
  have "counted q (begin_delivery p c)"
    unfolding begin_delivery_def using assms record_ok_at [of q c p]
    by (intro counted_set_record) (auto simp: cache_ok_counted)
  moreover have "timer_ok (begin_delivery p c)"
    unfolding begin_delivery_def
    by (rule timer_ok_mono [of c])
      (use assms in \<open>auto simp: cache_ok_def in_use_def split: if_splits\<close>)
  ultimately show ?thesis by (simp add: cache_ok_counted)
qed

subsection \<open>Eviction and insertion\<close>

lemma bytes_of_delete:
  "distinct (map fst es) \<Longrightarrow> e \<in> set es \<Longrightarrow>
     bytes_of c (AList.delete (fst e) es) + Bytes (record_at c (snd e)) = bytes_of c es"
proof (induction es)
  case (Cons e' es)
  have "AList.delete (fst e') es = es"
    using Cons.prems by (auto simp: AList.delete_eq filter_id_conv rev_image_eqI)
  moreover have "fst e \<noteq> fst e'" if "e \<in> set es"
    using Cons.prems(1) that by (auto simp: rev_image_eqI)
  ultimately show ?case
    using Cons by (auto simp: AList.delete_eq ac_simps)
qed simp

lemma evictable_unused: "evictable c e \<Longrightarrow> \<not> in_use c e \<and> Acknowledged (record_at c (snd e))"
  by (auto simp: evictable_def in_use_def)

lemma evict_sel [simp]:
  "Records (evict_record e c) = filter (\<lambda>e'. fst e \<noteq> fst e') (Records c)"
  "RecordHeap (evict_record e c) = RecordHeap c"
  "PendingDeliveries (evict_record e c) = PendingDeliveries c"
  "HasPruneTimer (evict_record e c) = HasPruneTimer c" "PruneTimer (evict_record e c) = PruneTimer c"
  "record_at (evict_record e c) p = record_at c p"
  "pending_count (evict_record e c) cid = pending_count c cid"
  "in_use (evict_record e c) e' = in_use c e'"
  "evictable (evict_record e c) e' = evictable c e'"
  by (auto simp: evict_record_def record_at_def pending_count_def in_use_def evictable_def
      AList.delete_eq case_prod_unfold)

lemma evict_ok:
  assumes "cache_ok q c" "e \<in> set (Records c)"
  shows "cache_ok q (evict_record e c)"
proof -
  have "map_ok (evict_record e c)"
    by (rule map_ok_subset [of c]) (use assms(1) in \<open>auto simp: cache_ok_def\<close>)
  moreover have "RequestCacheBytes (evict_record e c) = bytes_of c (AList.delete (fst e) (Records c))"
    using assms bytes_of_delete [of "Records c" e c]
    by (simp add: cache_ok_def map_ok_def size_ok_def evict_record_def)
  then have "size_ok q (evict_record e c)"
    using assms(1) bytes_of_delete [of "Records c" e c] assms(2)
      length_filter_le [of "\<lambda>e'. fst e \<noteq> fst e'" "Records c"]
    by (auto simp: size_ok_def cache_ok_def map_ok_def bytes_of_def AList.delete_eq case_prod_unfold
        simp del: length_filter_le)
  moreover have "timer_ok (evict_record e c)"
    by (rule timer_ok_mono [of c]) (use assms in \<open>auto simp: cache_ok_def\<close>)
  ultimately show ?thesis
    using assms(1) by (simp add: cache_ok_def)
qed

text \<open>Making room only drops entries that nothing uses and whose client has acknowledged the response.\<close>

definition trimmed :: "(CorrelationId \<times> nat \<Rightarrow> bool) \<Rightarrow> cache \<Rightarrow> cache \<Rightarrow> bool" where
  "trimmed P c c' \<longleftrightarrow> RecordHeap c' = RecordHeap c \<and> PendingDeliveries c' = PendingDeliveries c \<and>
     HasPruneTimer c' = HasPruneTimer c \<and> set (Records c') \<subseteq> set (Records c) \<and>
     (\<forall>e \<in> set (Records c). P e \<longrightarrow> e \<in> set (Records c'))"

lemma trimmed_refl [simp]: "trimmed P c c"
  by (simp add: trimmed_def)

lemma trimmed_trans: "trimmed P c c' \<Longrightarrow> trimmed P c' c'' \<Longrightarrow> trimmed P c c''"
  by (auto simp: trimmed_def)

lemma trimmed_mono: "trimmed P c c' \<Longrightarrow> (\<And>e. Q e \<Longrightarrow> P e) \<Longrightarrow> trimmed Q c c'"
  by (auto simp: trimmed_def)

lemma trimmed_views:
  assumes "trimmed P c c'"
  shows "record_at c' p = record_at c p" "pending_count c' cid = pending_count c cid"
    "in_use c' e = in_use c e" "length (RecordHeap c') = length (RecordHeap c)"
  using assms by (auto simp: trimmed_def record_at_def pending_count_def in_use_def)

lemma Prune_trimmed: "trimmed (kept q now c) c (PruneRequestRecords q now c)"
  by (simp add: trimmed_def)

lemma make_room_laws:
  assumes "cache_ok q c"
  shows "cache_ok q (fst (make_room q n c)) \<and> trimmed (\<lambda>e. \<not> evictable c e) c (fst (make_room q n c)) \<and>
     (snd (make_room q n c) \<longrightarrow> \<not> lacksCapacity q n (fst (make_room q n c)))"
  using assms
proof (induction q n c rule: make_room.induct)
  case (1 q n c)
  show ?case
  proof (cases "lacksCapacity q n c")
    case True
    show ?thesis
    proof (cases "eviction_candidate c (Records c) None")
      case None
      then show ?thesis using True 1(2) by (simp add: make_room.simps [of q n c])
    next
      case (Some e)
      then have e: "e \<in> set (Records c)" "evictable c e"
        using eviction_candidate_in [of c "Records c" None e] by auto
      have step: "trimmed (\<lambda>e. \<not> evictable c e) c (evict_record e c)"
      proof -
        have "e' = e" if "e' \<in> set (Records c)" "fst e' = fst e" for e'
          using 1(2) that e(1) by (cases e; cases e') (auto simp: cache_ok_def map_ok_def dest: eq_key_imp_eq_value)
        then show ?thesis using e(2) by (auto simp: trimmed_def)
      qed
      have "evictable (evict_record e c) = evictable c" by (rule ext) simp
      then show ?thesis
        using 1(1) [OF _ Some evict_ok [OF 1(2) e(1)]] True Some
        by (auto simp: make_room.simps [of q n c] intro: trimmed_trans [OF step])
    qed
  qed (use 1(2) in \<open>simp add: make_room.simps [of q n c]\<close>)
qed

lemma request_bytes_le: "length (Payload r) \<le> 32768 \<Longrightarrow> RequestBytes q r \<le> SizeofRequest q + 65536"
  by (simp add: RequestBytes_def)

lemma insert_ok:
  assumes ok: "cache_ok q c" and room: "\<not> lacksCapacity q (reservedBytes q request) c"
    and fresh: "map_of (Records c) (RequestId request) = None"
    and small: "length (Payload request) \<le> 32768"
  shows "cache_ok q (fst (insert_record q request c))"
proof -
  let ?c = "fst (insert_record q request c)" and ?p = "length (RecordHeap c)"
  have at: "record_at ?c p = record_at c p" if "p < ?p" for p
    using that by (simp add: insert_record_def Let_def record_at_def nth_append)
  have new: "RcRequest (record_at ?c ?p) = request" "Bytes (record_at ?c ?p) = reservedBytes q request"
      "\<not> IsComplete (record_at ?c ?p)" "record_ok q (record_at ?c ?p)"
    using small by (simp_all add: insert_record_def Let_def record_at_def record_ok_def)
  have old: "p < ?p" if "(cid, p) \<in> set (Records c)" for cid p
    using ok that by (auto simp: cache_ok_def map_ok_def)
  have sel: "Records ?c = (RequestId request, ?p) # Records c" "length (RecordHeap ?c) = Suc ?p"
      "RequestCacheBytes ?c = RequestCacheBytes c + reservedBytes q request"
      "PendingDeliveries ?c = PendingDeliveries c" "HasPruneTimer ?c = HasPruneTimer c"
      "PruneTimer ?c = PruneTimer c"
    by (simp_all add: insert_record_def Let_def)
  have ids: "RequestId request \<notin> fst ` set (Records c)"
    using fresh by (simp add: map_of_eq_None_iff)
  have map: "map_ok ?c"
    unfolding map_ok_def sel
  proof (intro conjI ballI)
    show "distinct (map fst ((RequestId request, ?p) # Records c))"
      using ok ids by (simp add: cache_ok_def map_ok_def)
  next
    fix e assume "e \<in> set ((RequestId request, ?p) # Records c)"
    then consider "e = (RequestId request, ?p)" | "e \<in> set (Records c)" by auto
    then show "case e of (cid, p) \<Rightarrow> p < Suc ?p \<and> RequestId (RcRequest (record_at ?c p)) = cid \<and>
        (\<forall>p' < Suc ?p. RequestId (RcRequest (record_at ?c p')) = cid \<longrightarrow> p' \<le> p)"
    proof cases
      case 1
      then show ?thesis using new(1) by auto
    next
      case 2
      obtain cid p where e: "e = (cid, p)" by force
      have "cid \<noteq> RequestId request" using ids 2 e by force
      moreover have "p < ?p" using old 2 e by auto
      moreover have "RequestId (RcRequest (record_at c p)) = cid"
        and "\<And>p'. p' < ?p \<Longrightarrow> RequestId (RcRequest (record_at c p')) = cid \<Longrightarrow> p' \<le> p"
        using ok 2 map_okD [of c cid p] unfolding e cache_ok_def by blast+
      ultimately show ?thesis
        using new(1) unfolding e by (auto simp: at less_Suc_eq)
    qed
  qed
  have bytes: "bytes_of ?c (Records c) = bytes_of c (Records c)"
    using old by (intro bytes_of_cong) (auto simp: at)
  have size: "size_ok q ?c"
    using ok room new(2) bytes by (auto simp: size_ok_def cache_ok_def sel lacksCapacity_def)
  have "pending_count ?c cid = pending_count c cid" for cid
    by (simp add: pending_count_def sel)
  then have "in_use ?c e = in_use c e" if "e \<in> set (Records c)" for e
    using old [of "fst e" "snd e"] that at [of "snd e"] by (simp add: in_use_def)
  moreover have "in_use ?c (RequestId request, ?p)"
    using new(3) by (simp add: in_use_def)
  ultimately have "timer_ok ?c"
    by (intro timer_ok_mono [of c ?c]) (use ok in \<open>auto simp: cache_ok_def sel\<close>)
  moreover have "\<forall>r \<in> set (RecordHeap ?c). record_ok q r"
    using ok new(4) by (simp add: cache_ok_def insert_record_def Let_def record_at_def)
  ultimately show ?thesis
    using ok map size by (simp add: cache_ok_def sel)
qed

subsection \<open>Execution\<close>

lemma handler_response_ok:
  "ResponseId (handler_response callable answer request) = RequestId request"
  "length (Body (handler_response callable answer request)) \<le> 32768"
  by (auto simp: handler_response_def Let_def PayloadByteCount_eq split: if_splits)

text \<open>The record the end of an execution leaves.\<close>

definition completed :: "ServerOptions \<Rightarrow> Response \<Rightarrow> int \<Rightarrow> RequestRecord \<Rightarrow> RequestRecord" where
  "completed q response now r = r\<lparr>RcResponse := response, CompletedAt := now, IsComplete := True,
     ActiveDeliveries := ActiveDeliveries r + 1,
     Bytes := RequestBytes q (RcRequest r) + ResponseBytes q response\<rparr>"

definition executed :: "ServerOptions \<Rightarrow> nat \<Rightarrow> Response \<Rightarrow> int \<Rightarrow> cache \<Rightarrow> cache" where
  "executed q p response now c =
     (set_record p (completed q response now (record_at c p)) c)
       \<lparr>RequestCacheBytes := RequestCacheBytes c -
          (Bytes (record_at c p) - Bytes (completed q response now (record_at c p)))\<rparr>"

lemma CompleteExecution_eq:
  "CompleteExecution q p response now c =
     ScheduleRequestPruneLocked q now (PruneRequestRecords q now (executed q p response now c))"
  by (simp add: CompleteExecution_def executed_def completed_def Let_def)

lemma executed_sel [simp]:
  "Records (executed q p response now c) = Records c"
  "PendingDeliveries (executed q p response now c) = PendingDeliveries c"
  "HasPruneTimer (executed q p response now c) = HasPruneTimer c"
  "length (RecordHeap (executed q p response now c)) = length (RecordHeap c)"
  "pending_count (executed q p response now c) cid = pending_count c cid"
  by (simp_all add: executed_def pending_count_def)

lemma record_at_executed:
  "p < length (RecordHeap c) \<Longrightarrow> record_at (executed q p response now c) p' =
     (if p' = p then completed q response now (record_at c p) else record_at c p')"
  by (simp add: executed_def record_at_def set_record_def)

lemma bytes_of_change:
  assumes "distinct (map fst es)" "(cid, p) \<in> set es"
    and "\<And>cid' p'. (cid', p') \<in> set es \<Longrightarrow> cid' \<noteq> cid \<Longrightarrow> Bytes (record_at c' p') = Bytes (record_at c p')"
  shows "bytes_of c' es + Bytes (record_at c p) = bytes_of c es + Bytes (record_at c' p)"
proof -
  have "bytes_of c' (AList.delete cid es) = bytes_of c (AList.delete cid es)"
    using assms(3) by (intro bytes_of_cong) (auto simp: AList.delete_eq)
  then show ?thesis
    using bytes_of_delete [OF assms(1,2), of c] bytes_of_delete [OF assms(1,2), of c'] by simp
qed

lemma executed_counted:
  assumes ok: "cache_ok q c" and e: "(cid, p) \<in> set (Records c)" and run: "\<not> IsComplete (record_at c p)"
    and r: "ResponseId response = cid" "length (Body response) \<le> 32768"
  shows "counted q (executed q p response now c)"
proof -
  let ?c = "executed q p response now c"
  have m: "map_ok c" "p < length (RecordHeap c)" "RequestId (RcRequest (record_at c p)) = cid"
    using ok e map_okD [of c cid p] by (auto simp: cache_ok_def)
  note at = record_at_executed [OF m(2), of q response now]
  have rec: "record_ok q (record_at c p)"
    using ok m(2) by (simp add: cache_ok_def record_at_def)
  have small: "Bytes (record_at ?c p) \<le> Bytes (record_at c p)"
    using rec run r(2) by (simp add: at completed_def record_ok_def ResponseBytes_def reservedBytes_def
        c_maxPayloadBytes_def)
  have "RequestId (RcRequest (record_at ?c p')) = RequestId (RcRequest (record_at c p'))" for p'
    by (simp add: at completed_def)
  then have map: "map_ok ?c"
    using m(1) by (simp add: map_ok_def)
  have "bytes_of ?c (Records c) + Bytes (record_at c p) = bytes_of c (Records c) + Bytes (record_at ?c p)"
  proof (rule bytes_of_change)
    fix cid' p' assume "(cid', p') \<in> set (Records c)" "cid' \<noteq> cid"
    then have "p' \<noteq> p" using map_ok_unique [OF m(1) e] by auto
    then show "Bytes (record_at ?c p') = Bytes (record_at c p')" by (simp add: at)
  qed (use m(1) e in \<open>auto simp: map_ok_def\<close>)
  moreover have "RequestCacheBytes ?c = RequestCacheBytes c - (Bytes (record_at c p) - Bytes (record_at ?c p))"
    by (simp add: executed_def at [unfolded executed_def] at)
  ultimately have size: "size_ok q ?c"
    using ok small by (auto simp: cache_ok_def size_ok_def)
  have "record_ok q (completed q response now (record_at c p))"
    using rec r m(3) by (simp add: record_ok_def completed_def)
  then have "\<forall>r \<in> set (RecordHeap ?c). record_ok q r"
    using ok set_update_subset_insert [of "RecordHeap c" p] by (auto simp: cache_ok_def executed_def set_record_def)
  then show ?thesis
    using ok map size by (simp add: counted_def cache_ok_def)
qed

lemma CompleteExecution_ok:
  assumes "cache_ok q c" "(cid, p) \<in> set (Records c)" "\<not> IsComplete (record_at c p)"
    and "ResponseId response = cid" "length (Body response) \<le> 32768"
  shows "cache_ok q (CompleteExecution q p response now c)"
  using executed_counted [OF assms] by (simp add: CompleteExecution_eq Schedule_ok Prune_counted)

lemma ExecuteOnce_ok:
  assumes ok: "cache_ok q c" and small: "length (Payload request) \<le> 32768"
  shows "cache_ok q (fst (ExecuteOnce q stopped tick deadline now allocated request c))"
proof -
  let ?c = "PruneRequestRecords q now c" and ?n = "reservedBytes q request"
  have c: "cache_ok q ?c"
    using ok by (simp add: cache_ok_counted Prune_counted Prune_timer)
  show ?thesis
  proof (cases "map_of (Records ?c) (RequestId request)")
    case (Some p)
    then have "p < length (RecordHeap ?c)"
      using c map_okD(1) [of ?c "RequestId request" p] by (auto simp: cache_ok_def dest: map_of_SomeD)
    then show ?thesis
      using c Some by (auto simp: ExecuteOnce_def Let_def await_round_def begin_delivery_ok simp del: Prune_sel)
  next
    case None
    note room = make_room_laws [OF c, of ?n]
    have "map_of (Records (fst (make_room q ?n ?c))) (RequestId request) = None"
      using None room by (auto simp: map_of_eq_None_iff trimmed_def)
    then have "snd (make_room q ?n ?c) \<Longrightarrow> cache_ok q (fst (insert_record q request (fst (make_room q ?n ?c))))"
      using room small by (intro insert_ok) auto
    then show ?thesis
      using None room by (auto simp: ExecuteOnce_def Let_def split: prod.splits bool.splits simp del: Prune_sel)
  qed
qed

subsection \<open>Stopping\<close>

lemma drop_incomplete_none:
  assumes "\<forall>e \<in> set es. IsComplete (record_at c (snd e)) \<and> snd e < length (RecordHeap c)"
  shows "fst (drop_incomplete es c) = es \<and> RequestCacheBytes (snd (drop_incomplete es c)) = RequestCacheBytes c \<and>
     PendingDeliveries (snd (drop_incomplete es c)) = PendingDeliveries c \<and>
     HasPruneTimer (snd (drop_incomplete es c)) = HasPruneTimer c \<and>
     length (RecordHeap (snd (drop_incomplete es c))) = length (RecordHeap c) \<and>
     (\<forall>p. record_at (snd (drop_incomplete es c)) p =
        (if p \<in> snd ` set es then (record_at c p)\<lparr>ActiveDeliveries := 0\<rparr> else record_at c p))"
  using assms
proof (induction es arbitrary: c)
  case (Cons e es)
  show ?case
    using Cons.prems Cons.IH [of "set_record (snd e) ((record_at c (snd e))\<lparr>ActiveDeliveries := 0\<rparr>) c"]
    by (auto simp: Let_def)
qed simp

lemma StopCache_laws:
  assumes ok: "cache_ok q c" and complete: "\<forall>e \<in> set (Records c). IsComplete (record_at c (snd e))"
  shows "cache_ok q (StopCache q now c)" "Records (StopCache q now c) = Records c"
    "PendingDeliveries (StopCache q now c) = []"
    "HasPruneTimer (StopCache q now c) = HasPruneTimer c"
    "length (RecordHeap (StopCache q now c)) = length (RecordHeap c)"
    "record_at (StopCache q now c) p =
       (if p \<in> snd ` set (Records c) then (record_at c p)\<lparr>ActiveDeliveries := 0\<rparr> else record_at c p)"
proof -
  let ?c = "snd (drop_incomplete (Records c) (c\<lparr>PendingDeliveries := []\<rparr>))"
  have at0: "record_at (c\<lparr>PendingDeliveries := []\<rparr>) p = record_at c p" for p
    by (simp add: record_at_def)
  have "\<forall>e \<in> set (Records c). IsComplete (record_at (c\<lparr>PendingDeliveries := []\<rparr>) (snd e)) \<and>
      snd e < length (RecordHeap (c\<lparr>PendingDeliveries := []\<rparr>))"
    using ok complete by (auto simp: at0 cache_ok_def map_ok_def)
  note laws = drop_incomplete_none [OF this]
  let ?d = "?c\<lparr>Records := Records c\<rparr>"
  have eq: "StopCache q now c = ScheduleRequestPruneLocked q now ?d"
    using laws by (auto simp: StopCache_def case_prod_unfold)
  have at: "record_at ?d p =
      (if p \<in> snd ` set (Records c) then (record_at c p)\<lparr>ActiveDeliveries := 0\<rparr> else record_at c p)" for p
    using laws by (simp add: record_at_def)
  have heap: "length (RecordHeap ?d) = length (RecordHeap c)"
    using laws by simp
  have same: "RequestId (RcRequest (record_at ?d p)) = RequestId (RcRequest (record_at c p))"
      "Bytes (record_at ?d p) = Bytes (record_at c p)" "record_ok q (record_at ?d p) = record_ok q (record_at c p)" for p
    by (simp_all add: at)
  have "map_ok ?d = map_ok c" "size_ok q ?d = size_ok q c"
    using laws by (simp_all add: map_ok_def size_ok_def bytes_of_def same heap del: record_at_set_record)
  moreover have "\<forall>r \<in> set (RecordHeap ?d). record_ok q r"
    using ok heap same(3) unfolding cache_ok_def by (auto simp: all_set_conv_all_nth record_at_def)
  ultimately have "counted q ?d"
    using ok laws by (simp add: cache_ok_def counted_def)
  then show "cache_ok q (StopCache q now c)" by (simp add: eq Schedule_ok)
  show "Records (StopCache q now c) = Records c" by (simp add: eq)
  show "PendingDeliveries (StopCache q now c) = []" "HasPruneTimer (StopCache q now c) = HasPruneTimer c"
    "length (RecordHeap (StopCache q now c)) = length (RecordHeap c)"
    using laws by (simp_all add: eq)
  show "record_at (StopCache q now c) p =
       (if p \<in> snd ` set (Records c) then (record_at c p)\<lparr>ActiveDeliveries := 0\<rparr> else record_at c p)"
    using at by (simp add: eq)
qed

end
