(* ===== verification/Server_Flow.thy ===== *)
theory Server_Flow
  imports Cache_Laws
begin

section \<open>Deliveries and the cache\<close>

text \<open>
  Every client that is between the dispatch of its request and the end of its delivery is counted in the
  cache: by its correlation identifier while its handler has no response yet, and by its record while the
  response is being delivered. \<open>deliveries\<close> states the two counts for given numbers of clients, \<open>evolves\<close> what
  every operation leaves of the records: a complete record never changes, and an entry that is still in use
  stays in the map.
\<close>

subsection \<open>Counting\<close>

definition claims :: "('a \<Rightarrow> 'b option) \<Rightarrow> 'a list \<Rightarrow> 'b \<Rightarrow> nat" where
  "claims f xs x = length (filter (\<lambda>y. f y = Some x) xs)"

lemma claims_simps [simp]:
  "claims f [] x = 0" "claims f (y # ys) x = of_bool (f y = Some x) + claims f ys x"
  "claims f (ys @ zs) x = claims f ys x + claims f zs x"
  by (simp_all add: claims_def)

lemma claims_update:
  "k < length xs \<Longrightarrow> claims f (xs[k := y]) x + of_bool (f (xs ! k) = Some x) =
     claims f xs x + of_bool (f y = Some x)"
proof (induction xs arbitrary: k)
  case (Cons z zs)
  then show ?case by (cases k) auto
qed simp

lemma claims_update_same: "k < length xs \<Longrightarrow> f y = f (xs ! k) \<Longrightarrow> claims f (xs[k := y]) = claims f xs"
  using claims_update [of k xs f y] by (intro ext) (metis add_right_cancel)

lemma claims_update_new:
  assumes "k < length xs" "f (xs ! k) = None" "f y = Some x"
  shows "claims f (xs[k := y]) = (claims f xs)(x := claims f xs x + 1)"
  using claims_update [OF assms(1), of f y] assms(2,3) by (auto simp: fun_eq_iff)

lemma claims_update_drop:
  assumes "k < length xs" "f (xs ! k) = Some x" "f y = None"
  shows "claims f (xs[k := y]) = (claims f xs)(x := claims f xs x - 1)"
proof
  fix z
  show "claims f (xs[k := y]) z = ((claims f xs)(x := claims f xs x - 1)) z"
    using claims_update [OF assms(1), of f y z] assms(2,3) by (cases "z = x") auto
qed

lemma claims_pos: "y \<in> set xs \<Longrightarrow> f y = Some x \<Longrightarrow> claims f xs x > 0"
  by (auto simp: claims_def filter_empty_conv)

lemma claims_zero: "claims f xs x = 0 \<longleftrightarrow> (\<forall>y \<in> set xs. f y \<noteq> Some x)"
  by (auto simp: claims_def filter_empty_conv)

lemma claims_one:
  assumes "claims f xs x \<le> 1" "k < length xs" "f (xs ! k) = Some x" "j < length xs" "j \<noteq> k"
  shows "f (xs ! j) \<noteq> Some x"
proof
  assume "f (xs ! j) = Some x"
  then have "{j, k} \<subseteq> {m. m < length xs \<and> f (xs ! m) = Some x}"
    using assms by auto
  then have "card {j, k} \<le> claims f xs x"
    unfolding claims_def length_filter_conv_card by (intro card_mono) auto
  then show False using assms by simp
qed

subsection \<open>What operations leave of the records\<close>

definition mapped :: "cache \<Rightarrow> nat \<Rightarrow> bool" where
  "mapped c p \<longleftrightarrow> p \<in> snd ` set (Records c)"

lemma mappedI: "(cid, p) \<in> set (Records c) \<Longrightarrow> mapped c p"
  unfolding mapped_def by force

definition evolves :: "nat set \<Rightarrow> cache \<Rightarrow> cache \<Rightarrow> bool" where
  "evolves X c c' \<longleftrightarrow> length (RecordHeap c) \<le> length (RecordHeap c') \<and>
     HasPruneTimer c' = HasPruneTimer c \<and>
     (\<forall>p < length (RecordHeap c). RcRequest (record_at c' p) = RcRequest (record_at c p) \<and>
        (IsComplete (record_at c p) \<longrightarrow> IsComplete (record_at c' p) \<and>
           RcResponse (record_at c' p) = RcResponse (record_at c p)) \<and>
        (p \<notin> X \<longrightarrow> IsComplete (record_at c' p) = IsComplete (record_at c p))) \<and>
     (\<forall>e \<in> set (Records c). in_use c' e \<longrightarrow> e \<in> set (Records c')) \<and>
     (\<forall>e \<in> set (Records c'). snd e < length (RecordHeap c) \<longrightarrow> e \<in> set (Records c))"

lemma evolvesD:
  assumes "evolves X c c'" "p < length (RecordHeap c)"
  shows "p < length (RecordHeap c')" "RcRequest (record_at c' p) = RcRequest (record_at c p)"
    and "IsComplete (record_at c p) \<Longrightarrow> IsComplete (record_at c' p)"
    and "IsComplete (record_at c p) \<Longrightarrow> RcResponse (record_at c' p) = RcResponse (record_at c p)"
    and "p \<notin> X \<Longrightarrow> IsComplete (record_at c' p) = IsComplete (record_at c p)"
  using assms unfolding evolves_def by auto

lemma evolves_entries:
  assumes "evolves X c c'"
  shows "e \<in> set (Records c) \<Longrightarrow> in_use c' e \<Longrightarrow> e \<in> set (Records c')"
    and "e \<in> set (Records c') \<Longrightarrow> snd e < length (RecordHeap c) \<Longrightarrow> e \<in> set (Records c)"
    and "HasPruneTimer c' = HasPruneTimer c"
  using assms by (simp_all add: evolves_def)

lemma evolves_refl [simp]: "evolves X c c"
  by (simp add: evolves_def)

lemma evolves_Schedule [simp]: "evolves X c (ScheduleRequestPruneLocked q now c') = evolves X c c'"
  by (simp add: evolves_def)

lemma evolves_Prune:
  assumes "evolves X c c'"
  shows "evolves X c (PruneRequestRecords q now c')"
  using assms by (auto simp: evolves_def intro: kept_in_use)

lemma evolves_trimmed:
  assumes "evolves X c c'" "trimmed P c' c''" "\<And>e. in_use c' e \<Longrightarrow> P e"
  shows "evolves X c c''"
proof -
  note v = trimmed_views [OF assms(2)]
  show ?thesis
    using assms unfolding evolves_def v by (auto simp: trimmed_def)
qed

lemma evolves_set_record:
  assumes "p < length (RecordHeap c)" "RcRequest r = RcRequest (record_at c p)"
    and "IsComplete (record_at c p) \<Longrightarrow> IsComplete r \<and> RcResponse r = RcResponse (record_at c p)"
    and "p \<notin> X \<Longrightarrow> IsComplete r = IsComplete (record_at c p)"
  shows "evolves X c (set_record p r c)"
  using assms by (auto simp: evolves_def)

lemma evolves_BeginPending:
  "BeginPendingDelivery cid c = (c', b) \<Longrightarrow> evolves X c c'"
  by (auto simp: BeginPendingDelivery_def Let_def evolves_def split: if_splits)

lemma evolves_CompletePending: "evolves X c (CompletePendingDelivery q cid now c)"
  by (auto simp: evolves_def)

lemma evolves_CompleteDelivery:
  assumes "map_ok c"
  shows "evolves X c (CompleteDelivery q cid p k now c)"
proof (cases "map_of (Records c) cid = Some p \<and> IsComplete (record_at c p)")
  case True
  then have "p < length (RecordHeap c)"
    using assms map_okD(1) [of c cid p] by (auto dest: map_of_SomeD)
  then have "evolves X c (set_record p (delivered k now (record_at c p)) c)"
    by (intro evolves_set_record) (simp_all add: delivered_def)
  then show ?thesis
    using True by (simp add: CompleteDelivery_eq evolves_Prune)
qed (auto simp: CompleteDelivery_def)

lemma evolves_CompleteExecution:
  assumes "p < length (RecordHeap c)" "\<not> IsComplete (record_at c p)"
  shows "evolves {p} c (CompleteExecution q p response now c)"
proof -
  have "evolves {p} c (executed q p response now c)"
    using assms(2) by (auto simp: evolves_def record_at_executed [OF assms(1)] completed_def)
  then show ?thesis by (simp add: CompleteExecution_eq evolves_Prune)
qed

lemma evolves_insert:
  assumes "evolves X c c'" "map_ok c" "RecordHeap c' = RecordHeap c"
  shows "evolves X c (fst (insert_record q request c'))"
proof -
  let ?c = "fst (insert_record q request c')"
  have at: "record_at ?c p = record_at c' p" if "p < length (RecordHeap c)" for p
    using that assms(3) by (simp add: insert_record_def Let_def record_at_def nth_append)
  have pc: "pending_count ?c cid = pending_count c' cid" for cid
    by (simp add: pending_count_def insert_record_def Let_def)
  have "in_use ?c e = in_use c' e" if "e \<in> set (Records c)" for e
    using that assms(2) by (auto simp: in_use_def at pc map_ok_def)
  moreover have "Records ?c = (RequestId request, length (RecordHeap c)) # Records c'"
      "length (RecordHeap ?c) = Suc (length (RecordHeap c))" "HasPruneTimer ?c = HasPruneTimer c'"
    using assms(3) by (simp_all add: insert_record_def Let_def)
  ultimately show ?thesis
    using assms(1) by (auto simp: evolves_def at)
qed

lemma evolves_begin:
  assumes ev: "evolves X c c'" and "map_ok c" and e: "(cid, p) \<in> set (Records c')" "p < length (RecordHeap c)"
    and "IsComplete (record_at c' p)"
  shows "evolves X c (begin_delivery p c')"
proof -
  have p: "p < length (RecordHeap c')" using ev e(2) by (auto simp: evolves_def)
  have "(cid', p) \<in> set (Records c')" if "(cid', p) \<in> set (Records c)" for cid'
    using map_ok_unique [OF assms(2) that, of cid] ev e by (auto simp: evolves_def)
  then show ?thesis
    using ev p assms(5) by (auto simp: evolves_def begin_delivery_def in_use_def)
qed

subsection \<open>The two counts\<close>

definition deliveries :: "cache \<Rightarrow> (CorrelationId \<Rightarrow> nat) \<Rightarrow> (nat \<Rightarrow> nat) \<Rightarrow> bool" where
  "deliveries c P H \<longleftrightarrow> (\<forall>cid. pending_count c cid = P cid) \<and>
     (\<forall>p. H p \<noteq> 0 \<longrightarrow> mapped c p \<and> IsComplete (record_at c p)) \<and>
     (\<forall>p. mapped c p \<longrightarrow> ActiveDeliveries (record_at c p) = H p)"

lemma deliveries_pending: "deliveries c P H \<Longrightarrow> pending_count c cid = P cid"
  by (simp add: deliveries_def)

lemma deliveries_held: "deliveries c P H \<Longrightarrow> H p \<noteq> 0 \<Longrightarrow> mapped c p \<and> IsComplete (record_at c p)"
  by (simp add: deliveries_def)

lemma mapped_Schedule [simp]: "mapped (ScheduleRequestPruneLocked q now c) p = mapped c p"
  by (simp add: mapped_def)

lemma deliveries_Schedule [simp]: "deliveries (ScheduleRequestPruneLocked q now c) P H = deliveries c P H"
  by (simp add: deliveries_def)

lemma deliveries_trimmed:
  assumes d: "deliveries c P H" and t: "trimmed Q c c'" and keep: "\<And>e. in_use c e \<Longrightarrow> Q e"
  shows "deliveries c' P H"
  unfolding deliveries_def trimmed_views [OF t]
proof (intro conjI allI impI)
  show "pending_count c cid = P cid" for cid using d by (simp add: deliveries_def)
next
  fix p assume "H p \<noteq> 0"
  then have p: "mapped c p" "IsComplete (record_at c p)" "ActiveDeliveries (record_at c p) \<noteq> 0"
    using d by (auto simp: deliveries_def)
  then show "IsComplete (record_at c p)" by simp
  obtain cid where "(cid, p) \<in> set (Records c)" using p(1) by (auto simp: mapped_def)
  moreover have "Q (cid, p)" using p(3) by (intro keep) (simp add: in_use_def)
  ultimately show "mapped c' p" using t by (force simp: trimmed_def mapped_def)
next
  fix p assume "mapped c' p"
  then have "mapped c p" using t by (force simp: trimmed_def mapped_def)
  then show "ActiveDeliveries (record_at c p) = H p" using d by (simp add: deliveries_def)
qed

lemma deliveries_Prune: "deliveries c P H \<Longrightarrow> deliveries (PruneRequestRecords q now c) P H"
  by (rule deliveries_trimmed [OF _ Prune_trimmed]) (auto intro: kept_in_use)

lemma deliveries_OnRequestPrune:
  assumes "deliveries c P H"
  shows "deliveries (OnRequestPrune q now c) P H"
proof -
  have "deliveries (c\<lparr>PruneTimer := None\<rparr>) P H"
    using assms by (simp add: deliveries_def mapped_def record_at_def pending_count_def)
  then show ?thesis by (simp add: OnRequestPrune_def deliveries_Prune)
qed

lemma deliveries_BeginPending:
  assumes "deliveries c P H" "BeginPendingDelivery cid c = (c', True)"
  shows "deliveries c' (P(cid := P cid + 1)) H"
  using assms BeginPending_views [OF assms(2)]
  by (auto simp: deliveries_def mapped_def record_at_def)

lemma deliveries_CompletePending:
  assumes "deliveries c P H"
  shows "deliveries (CompletePendingDelivery q cid now c) (P(cid := P cid - 1)) H"
  using assms by (auto simp: deliveries_def mapped_def CompletePending_count)

lemma deliveries_CompleteDelivery:
  assumes d: "deliveries c P H" and m: "map_ok c" and H: "H p \<noteq> 0"
    and cid: "RequestId (RcRequest (record_at c p)) = cid"
  shows "deliveries (CompleteDelivery q cid p k now c) P (H(p := H p - 1))"
proof -
  have p: "mapped c p" "IsComplete (record_at c p)"
    using deliveries_held [OF d H] by auto
  then obtain cid' where "(cid', p) \<in> set (Records c)" by (auto simp: mapped_def)
  then have e: "(cid, p) \<in> set (Records c)" "p < length (RecordHeap c)"
    using map_okD [OF m] cid by auto
  then have "map_of (Records c) cid = Some p" using map_ok_lookup [OF m] by simp
  note eq = CompleteDelivery_eq [OF this p(2)]
  have "deliveries (set_record p (delivered k now (record_at c p)) c) P (H(p := H p - 1))"
    using d e(2) p by (auto simp: deliveries_def mapped_def delivered_def)
  then show ?thesis by (simp add: eq deliveries_Prune)
qed

lemma deliveries_begin:
  assumes "deliveries c P H" "mapped c p" "p < length (RecordHeap c)" "IsComplete (record_at c p)"
  shows "deliveries (begin_delivery p c) P (H(p := H p + 1))"
  using assms by (auto simp: deliveries_def mapped_def begin_delivery_def)

lemma deliveries_CompleteExecution:
  assumes d: "deliveries c P H" and p: "mapped c p" "p < length (RecordHeap c)" "\<not> IsComplete (record_at c p)"
  shows "deliveries (CompleteExecution q p response now c) P (H(p := H p + 1))"
proof -
  have "deliveries (executed q p response now c) P (H(p := H p + 1))"
    using d p by (auto simp: deliveries_def mapped_def record_at_executed [OF p(2)] completed_def)
  then show ?thesis by (simp add: CompleteExecution_eq deliveries_Prune)
qed

lemma deliveries_insert:
  assumes d: "deliveries c P H" and m: "map_ok c"
  shows "deliveries (fst (insert_record q request c)) P H"
proof -
  let ?c = "fst (insert_record q request c)" and ?p = "length (RecordHeap c)"
  have at: "record_at ?c p = record_at c p" if "p < ?p" for p
    using that by (simp add: insert_record_def Let_def record_at_def nth_append)
  have new: "ActiveDeliveries (record_at ?c ?p) = 0"
    by (simp add: insert_record_def Let_def record_at_def)
  have mp: "mapped ?c p \<longleftrightarrow> p = ?p \<or> mapped c p" for p
    by (auto simp: mapped_def insert_record_def Let_def)
  have old: "p < ?p" if "mapped c p" for p
    using that m by (auto simp: mapped_def map_ok_def)
  have "H ?p = 0"
    using d old [of ?p] by (auto simp: deliveries_def)
  moreover have "pending_count ?c cid = pending_count c cid" for cid
    by (simp add: pending_count_def insert_record_def Let_def)
  ultimately show ?thesis
    using d new old at by (auto simp: deliveries_def mp)
qed

subsection \<open>What a section of an execution hands to its thread\<close>

definition matches :: "cache \<Rightarrow> nat \<Rightarrow> Request \<Rightarrow> bool" where
  "matches c p request \<longleftrightarrow> p < length (RecordHeap c) \<and> SameRequest (RcRequest (record_at c p)) request \<and>
     RequestId (RcRequest (record_at c p)) = RequestId request"

lemma evolves_matches: "evolves X c c' \<Longrightarrow> matches c p request \<Longrightarrow> matches c' p request"
  unfolding matches_def using evolvesD by fastforce

definition open_record :: "cache \<Rightarrow> nat \<Rightarrow> bool" where
  "open_record c p \<longleftrightarrow> mapped c p \<and> \<not> IsComplete (record_at c p)"

lemma evolves_open:
  assumes "evolves X c c'" "p < length (RecordHeap c)" "p \<notin> X"
  shows "open_record c' p = open_record c p"
proof (cases "IsComplete (record_at c p)")
  case False
  then have inc: "\<not> IsComplete (record_at c' p)" using evolvesD(5) [OF assms] by simp
  have "mapped c' p = mapped c p"
  proof
    assume "mapped c' p"
    then obtain cid where "(cid, p) \<in> set (Records c')" by (auto simp: mapped_def)
    then show "mapped c p"
      using evolves_entries(2) [OF assms(1), of "(cid, p)"] assms(2) by (auto intro: mappedI)
  next
    assume "mapped c p"
    then obtain cid where "(cid, p) \<in> set (Records c)" by (auto simp: mapped_def)
    moreover have "in_use c' (cid, p)" using inc by (simp add: in_use_def)
    ultimately show "mapped c' p"
      using evolves_entries(1) [OF assms(1)] by (blast intro: mappedI)
  qed
  then show ?thesis using False inc by (simp add: open_record_def)
qed (use evolvesD(3) [OF assms(1,2)] in \<open>simp add: open_record_def\<close>)

lemma mapped_less: "map_ok c \<Longrightarrow> mapped c p \<Longrightarrow> p < length (RecordHeap c)"
  by (auto simp: mapped_def map_ok_def)

fun outcome_ok ::
  "cache \<Rightarrow> (CorrelationId \<Rightarrow> nat) \<Rightarrow> (nat \<Rightarrow> nat) \<Rightarrow> Request \<Rightarrow> execution \<Rightarrow> bool" where
  "outcome_ok c P H request (Uncached r) \<longleftrightarrow>
     deliveries c P H \<and> ResponseId r = RequestId request \<and> Body r = []"
| "outcome_ok c P H request (Cached p) \<longleftrightarrow>
     deliveries c P (H(p := H p + 1)) \<and> matches c p request \<and> IsComplete (record_at c p)"
| "outcome_ok c P H request (AwaitRecord p) \<longleftrightarrow> deliveries c P H \<and> matches c p request \<and> mapped c p"
| "outcome_ok c P H request (RunHandler p) \<longleftrightarrow>
     deliveries c P H \<and> matches c p request \<and> open_record c p \<and> RcRequest (record_at c p) = request"
| "outcome_ok c P H request Threw \<longleftrightarrow> deliveries c P H"

lemma await_round_laws:
  assumes ok: "cache_ok q c" and d: "deliveries c P H" and m: "matches c p request" "mapped c p"
    and r: "await_round stopped tick deadline request p c = (c', e)"
  shows "cache_ok q c'" "evolves {} c c'" "outcome_ok c' P H request e"
    and "length (RecordHeap c') = length (RecordHeap c)" "\<nexists>p'. e = RunHandler p'"
proof -
  have p: "p < length (RecordHeap c)" using m by (simp add: matches_def)
  obtain cid where e: "(cid, p) \<in> set (Records c)" using m(2) by (auto simp: mapped_def)
  have map: "map_ok c" using ok by (simp add: cache_ok_def)
  have b: "cache_ok q (begin_delivery p c)" "matches (begin_delivery p c) p request"
      "IsComplete (record_at (begin_delivery p c) p) = IsComplete (record_at c p)"
    using m(1) p ok by (simp_all add: begin_delivery_ok matches_def) (simp_all add: begin_delivery_def)
  have "IsComplete (record_at c p) \<Longrightarrow> evolves {} c (begin_delivery p c)"
    by (rule evolves_begin [OF evolves_refl map e p])
  then show "cache_ok q c'" "evolves {} c c'" "outcome_ok c' P H request e"
    "length (RecordHeap c') = length (RecordHeap c)" "\<nexists>p'. e = RunHandler p'"
    using r ok b d m p deliveries_begin [OF d m(2) p]
    by (auto simp: await_round_def refuse_def split: if_splits) (simp add: begin_delivery_def)
qed

lemma insert_outcome:
  "outcome_ok (fst (insert_record q request c)) P H request (snd (insert_record q request c)) =
     deliveries (fst (insert_record q request c)) P H"
  by (auto simp: insert_record_def Let_def matches_def open_record_def mapped_def record_at_def SameRequest_def)

lemma ExecuteOnce_laws:
  assumes ok: "cache_ok q c" and d: "deliveries c P H" and small: "length (Payload request) \<le> 32768"
    and r: "ExecuteOnce q stopped tick deadline now allocated request c = (c', e)"
  shows "cache_ok q c'" "evolves {} c c'" "outcome_ok c' P H request e"
    and "(\<exists>rec. e = RunHandler (length (RecordHeap c)) \<and> RecordHeap c' = RecordHeap c @ [rec] \<and>
           RcRequest rec = request) \<or>
         ((\<nexists>p. e = RunHandler p) \<and> length (RecordHeap c') = length (RecordHeap c))"
proof -
  show "cache_ok q c'" using ExecuteOnce_ok [OF ok small] r by (metis fst_conv)
  let ?c = "PruneRequestRecords q now c" and ?n = "reservedBytes q request"
  have c: "cache_ok q ?c" "deliveries ?c P H" "evolves {} c ?c" "RecordHeap ?c = RecordHeap c"
    using ok d by (simp_all add: cache_ok_counted Prune_counted Prune_timer deliveries_Prune evolves_Prune)
  have all: "evolves {} c c' \<and> outcome_ok c' P H request e \<and>
      ((\<exists>rec. e = RunHandler (length (RecordHeap c)) \<and> RecordHeap c' = RecordHeap c @ [rec] \<and>
          RcRequest rec = request) \<or>
       ((\<nexists>p. e = RunHandler p) \<and> length (RecordHeap c') = length (RecordHeap c)))"
  proof (cases "map_of (Records ?c) (RequestId request)")
    case (Some p)
    then have e: "(RequestId request, p) \<in> set (Records ?c)" by (rule map_of_SomeD)
    then have p: "p < length (RecordHeap ?c)" "RequestId (RcRequest (record_at ?c p)) = RequestId request"
      using c(1) map_okD [of ?c "RequestId request" p] by (auto simp: cache_ok_def simp del: Prune_sel)
    show ?thesis
    proof (cases "SameRequest (RcRequest (record_at ?c p)) request")
      case True
      then have m: "matches ?c p request" "mapped ?c p"
        using p e by (auto simp: matches_def mapped_def simp del: Prune_sel intro: rev_image_eqI)
      have r': "await_round stopped tick deadline request p ?c = (c', e)"
        using r Some True by (simp add: ExecuteOnce_def Let_def del: Prune_sel)
      note laws = await_round_laws [OF c(1,2) m r']
      have "evolves {} c c'"
      proof (cases "IsComplete (record_at ?c p)")
        case True
        then have "c' = begin_delivery p ?c" using r' by (simp add: await_round_def)
        then show ?thesis
          using True p(1) e evolves_begin [OF c(3), of "RequestId request" p] ok
          by (simp add: cache_ok_def c(4) del: Prune_sel(1) Prune_views)
      next
        case False
        then have "c' = ?c" using r' by (auto simp: await_round_def split: if_splits)
        then show ?thesis using c(3) by simp
      qed
      then show ?thesis using laws(3-5) c(4) by simp
    next
      case False
      then have "c' = ?c" "e = refuse ExitInvalidRequest request"
        using r Some by (simp_all add: ExecuteOnce_def Let_def del: Prune_sel)
      then show ?thesis using c by (simp add: refuse_def)
    qed
  next
    case None
    obtain c1 room where r1: "make_room q ?n ?c = (c1, room)" by force
    have t: "cache_ok q c1" "trimmed (\<lambda>e. \<not> evictable ?c e) ?c c1"
      using make_room_laws [OF c(1), of ?n] r1 by auto
    have unused: "in_use ?c e \<Longrightarrow> \<not> evictable ?c e" for e using evictable_unused by blast
    have c1: "deliveries c1 P H" "evolves {} c c1" "RecordHeap c1 = RecordHeap c"
      using deliveries_trimmed [OF c(2) t(2) unused] evolves_trimmed [OF c(3) t(2) unused] t(2) c(4)
      by (auto simp: trimmed_def)
    show ?thesis
    proof (cases "room \<and> allocated")
      case True
      then have i: "insert_record q request c1 = (c', e)"
        using r None r1 by (simp add: ExecuteOnce_def Let_def del: Prune_sel)
      have map: "map_ok c1" using t(1) by (simp add: cache_ok_def)
      have "outcome_ok c' P H request e"
        using insert_outcome [of q request c1 P H] deliveries_insert [OF c1(1) map, of q request] i by simp
      moreover have "evolves {} c c'"
        using evolves_insert [OF c1(2) _ c1(3), of q request] ok i by (simp add: cache_ok_def)
      ultimately show ?thesis
        using i c1(3) by (auto simp: insert_record_def Let_def)
    next
      case False
      then have "c' = c1" "e = refuse ExitBusy request \<or> e = Threw"
        using r None r1 by (auto simp: ExecuteOnce_def Let_def simp del: Prune_sel split: bool.splits)
      then show ?thesis using c1 by (auto simp: refuse_def)
    qed
  qed
  then show "evolves {} c c'" "outcome_ok c' P H request e"
    "(\<exists>rec. e = RunHandler (length (RecordHeap c)) \<and> RecordHeap c' = RecordHeap c @ [rec] \<and>
          RcRequest rec = request) \<or>
       ((\<nexists>p. e = RunHandler p) \<and> length (RecordHeap c') = length (RecordHeap c))"
    by simp_all
qed

end
