(* ===== verification/Server_Slots.thy ===== *)
theory Server_Slots
  imports Server_Flow
begin

section \<open>The instances of the control server\<close>

text \<open>
  What every callback of a pipe instance keeps: the shape of the instance (\<open>slot_ok\<close>: which callback may be
  owed in which phase, when a delivery or a record is attached) and its share of the cache's counts
  (\<open>slot_share\<close>, relative to the counts of everybody else).
\<close>

subsection \<open>Shares of a count\<close>

definition plus_claim :: "('b \<Rightarrow> nat) \<Rightarrow> 'b option \<Rightarrow> 'b \<Rightarrow> nat" where
  "plus_claim B c = (case c of None \<Rightarrow> B | Some x \<Rightarrow> B(x := B x + 1))"

lemma plus_claim_simps [simp]: "plus_claim B None = B" "plus_claim B (Some x) = B(x := B x + 1)"
  by (simp_all add: plus_claim_def)

lemma plus_claim_commute: "plus_claim (plus_claim B c) d = plus_claim (plus_claim B d) c"
  by (cases c; cases d) (auto simp: fun_eq_iff)

lemma plus_claim_add: "(\<lambda>x. plus_claim B c x + R x) = plus_claim (\<lambda>x. B x + R x) c"
  "(\<lambda>x. R x + plus_claim B c x) = plus_claim (\<lambda>x. R x + B x) c"
  by (cases c; auto simp: fun_eq_iff)+

definition others :: "('a \<Rightarrow> 'b option) \<Rightarrow> 'a list \<Rightarrow> nat \<Rightarrow> 'b \<Rightarrow> nat" where
  "others f xs k = claims f (take k xs @ drop (Suc k) xs)"

lemma claims_others: "k < length xs \<Longrightarrow> claims f (xs[k := y]) = plus_claim (others f xs k) (f y)"
  by (cases "f y") (auto simp: fun_eq_iff others_def upd_conv_take_nth_drop)

lemma claims_nth: "k < length xs \<Longrightarrow> claims f xs = plus_claim (others f xs k) (f (xs ! k))"
  using claims_others [of k xs f "xs ! k"] by simp

subsection \<open>Shape\<close>

definition delivering :: "PipePhase \<Rightarrow> bool" where
  "delivering ph \<longleftrightarrow> ph = WritingResponseHeader \<or> ph = WritingResponsePayload \<or> ph = ReadingAcknowledgement"

fun owed_in :: "callback \<Rightarrow> PipeInstance \<Rightarrow> bool" where
  "owed_in IoCompletion i \<longleftrightarrow> Phase i \<noteq> Disconnected \<and> Phase i \<noteq> RunningHandler \<and>
     (delivering (Phase i) \<longrightarrow> Buffer i \<noteq> InPayload \<and> Buffer i \<noteq> InHeader) \<and>
     (Phase i = ReadingRequestHeader \<or> Phase i = ReadingRequestPayload \<longrightarrow> \<not> Write i)"
| "owed_in AlreadyConnectedWork i \<longleftrightarrow> Phase i = Connecting"
| "owed_in ConnectionSeen i \<longleftrightarrow> Phase i = Connecting"
| "owed_in RearmTimer i \<longleftrightarrow> Phase i = Disconnected \<and> \<not> RecreateScheduled i"
| "owed_in RearmPassed i \<longleftrightarrow> Phase i = Disconnected \<and> \<not> RecreateScheduled i"
| "owed_in RecreateWork i \<longleftrightarrow> Phase i = Disconnected \<and> RecreateScheduled i \<and> RecreateRequired i"
| "owed_in Recreating i \<longleftrightarrow> Phase i = Disconnected \<and> RecreateScheduled i \<and> RecreateRequired i"

definition slot_ok :: "PipeInstance \<Rightarrow> bool" where
  "slot_ok i \<longleftrightarrow> (\<forall>cb \<in> set (Outstanding i). owed_in cb i) \<and>
     (RecreateScheduled i \<longrightarrow> Phase i = Disconnected) \<and>
     (AcknowledgementRecord i \<noteq> None \<longrightarrow> delivering (Phase i)) \<and>
     (PendingDelivery i \<longrightarrow> Phase i = RunningHandler) \<and>
     (Phase i = RunningHandler \<longrightarrow> IsRequestValid (SlotRequest i))"

text \<open>An instance at rest inside a callback: nothing is owed to it.\<close>

definition slot_free :: "PipeInstance \<Rightarrow> bool" where
  "slot_free i \<longleftrightarrow> Outstanding i = [] \<and> \<not> RecreateScheduled i"

definition slot_clear :: "PipeInstance \<Rightarrow> bool" where
  "slot_clear i \<longleftrightarrow> AcknowledgementRecord i = None \<and> \<not> PendingDelivery i"

text \<open>After a callback: one callback is owed if the server runs, none otherwise.\<close>

definition slot_after :: "bool \<Rightarrow> PipeInstance \<Rightarrow> bool" where
  "slot_after running i \<longleftrightarrow> slot_ok i \<and> length (Outstanding i) = of_bool running"

lemma owe_sel [simp]:
  "Outstanding (owe cb i) = cb # Outstanding i" "Phase (owe cb i) = Phase i" "Buffer (owe cb i) = Buffer i"
  "Write (owe cb i) = Write i" "RecreateScheduled (owe cb i) = RecreateScheduled i"
  "RecreateRequired (owe cb i) = RecreateRequired i" "AcknowledgementRecord (owe cb i) = AcknowledgementRecord i"
  "PendingDelivery (owe cb i) = PendingDelivery i" "SlotRequest (owe cb i) = SlotRequest i"
  "SlotResponse (owe cb i) = SlotResponse i"
  by (simp_all add: owe_def)

text \<open>What the recovery of an instance does not touch.\<close>

definition same_client :: "PipeInstance \<Rightarrow> PipeInstance \<Rightarrow> bool" where
  "same_client i i' \<longleftrightarrow> AcknowledgementRecord i' = AcknowledgementRecord i \<and>
     PendingDelivery i' = PendingDelivery i \<and> SlotRequest i' = SlotRequest i \<and> SlotResponse i' = SlotResponse i"

lemma same_client_refl [simp]: "same_client i i"
  by (simp add: same_client_def)

lemma same_client_clear: "same_client i i' \<Longrightarrow> slot_clear i' = slot_clear i"
  by (simp add: same_client_def slot_clear_def)

lemma ScheduleRearm_law:
  assumes "slot_free i" "slot_clear i"
  shows "slot_after running (ScheduleRearmLocked q running a i)" "same_client i (ScheduleRearmLocked q running a i)"
  using assms by (auto simp: ScheduleRearmLocked_def Let_def slot_after_def slot_ok_def slot_free_def
      slot_clear_def same_client_def)

text \<open>An instance whose pipe refused to listen.\<close>

definition refused :: "answers \<Rightarrow> PipeInstance \<Rightarrow> PipeInstance" where
  "refused a i =
     (let j = i\<lparr>Phase := Connecting\<rparr>;
          j = (if Connect a = ConnectNoData then j\<lparr>RearmFailures := 0\<rparr> else j)
      in if Connect a = ConnectBroken \<or> RearmFailures j \<ge> 7 then j\<lparr>RecreateRequired := True\<rparr> else j)"

lemma ArmConnection_cases:
  "ArmConnectionLocked q running a i =
     (if \<not> running then i
      else if \<not> HasIo i \<or> \<not> HasPipe i then ScheduleRearmLocked q running a (i\<lparr>RecreateRequired := True\<rparr>)
      else if Connect a = ConnectStarted then owe IoCompletion (i\<lparr>Phase := Connecting\<rparr>)
      else if Connect a = ConnectDone then owe AlreadyConnectedWork (i\<lparr>Phase := Connecting\<rparr>)
      else ScheduleRearmLocked q running a (refused a i))"
  by (simp add: ArmConnectionLocked_def refused_def Let_def)

lemma ArmConnection_law:
  assumes i: "slot_free i" "slot_clear i" "Phase i \<noteq> RunningHandler"
  shows "slot_after running (ArmConnectionLocked q running a i) \<and> same_client i (ArmConnectionLocked q running a i)"
proof -
  have up: "slot_free (i\<lparr>RecreateRequired := True\<rparr>)" "slot_clear (i\<lparr>RecreateRequired := True\<rparr>)"
    "same_client i j = same_client (i\<lparr>RecreateRequired := True\<rparr>) j" for j
    using i by (simp_all add: slot_free_def slot_clear_def same_client_def)
  have no: "slot_free (refused a i)" "slot_clear (refused a i)" "same_client i j = same_client (refused a i) j" for j
    using i by (simp_all add: refused_def Let_def slot_free_def slot_clear_def same_client_def)
  have listen: "slot_after True (owe cb (i\<lparr>Phase := Connecting\<rparr>))"
    if "cb = IoCompletion \<or> cb = AlreadyConnectedWork" for cb
    using that i by (auto simp: slot_after_def slot_ok_def slot_free_def slot_clear_def delivering_def)
  have client: "same_client i (owe cb (i\<lparr>Phase := Connecting\<rparr>))" for cb
    by (simp add: same_client_def)
  have stop: "\<not> running \<Longrightarrow> slot_after running i"
    using i by (simp add: slot_after_def slot_ok_def slot_free_def slot_clear_def)
  have broken: "slot_after True (ScheduleRearmLocked q True a (i\<lparr>RecreateRequired := True\<rparr>))"
    "same_client i (ScheduleRearmLocked q True a (i\<lparr>RecreateRequired := True\<rparr>))"
    using ScheduleRearm_law [OF up(1,2), where running = True and q = q and a = a] up(3) by simp_all
  have failed: "slot_after True (ScheduleRearmLocked q True a (refused a i))"
    "same_client i (ScheduleRearmLocked q True a (refused a i))"
    using ScheduleRearm_law [OF no(1,2), where running = True and q = q and a = a] no(3) by simp_all
  show ?thesis
    using broken failed listen client stop by (cases running) (simp_all add: ArmConnection_cases)
qed

subsection \<open>The cache side of an instance\<close>

definition slot_pending :: "PipeInstance \<Rightarrow> CorrelationId option" where
  "slot_pending i = (if PendingDelivery i then Some (RequestId (SlotRequest i)) else None)"

text \<open>A record attached to an instance is the execution of its request, and the response is the recorded one.\<close>

definition slot_matches :: "cache \<Rightarrow> PipeInstance \<Rightarrow> bool" where
  "slot_matches c i \<longleftrightarrow> (\<forall>p. AcknowledgementRecord i = Some p \<longrightarrow>
     matches c p (SlotRequest i) \<and> IsComplete (record_at c p) \<and> RcResponse (record_at c p) = SlotResponse i)"

definition slot_share ::
  "ServerOptions \<Rightarrow> (CorrelationId \<Rightarrow> nat) \<Rightarrow> (nat \<Rightarrow> nat) \<Rightarrow> slot_state \<Rightarrow> bool" where
  "slot_share q P H st \<longleftrightarrow> cache_ok q (snd st) \<and> slot_matches (snd st) (fst st) \<and>
     deliveries (snd st) (plus_claim P (slot_pending (fst st)))
       (plus_claim H (AcknowledgementRecord (fst st)))"

text \<open>A change of the cache that completes no record and adds none.\<close>

definition settles :: "cache \<Rightarrow> cache \<Rightarrow> bool" where
  "settles c c' \<longleftrightarrow> evolves {} c c' \<and> length (RecordHeap c') = length (RecordHeap c)"

lemma settles_refl [simp]: "settles c c"
  by (simp add: settles_def)

lemma settles_views:
  assumes "settles c c'" "p < length (RecordHeap c)"
  shows "RcRequest (record_at c' p) = RcRequest (record_at c p)"
    "IsComplete (record_at c' p) = IsComplete (record_at c p)"
    "IsComplete (record_at c p) \<Longrightarrow> RcResponse (record_at c' p) = RcResponse (record_at c p)"
  using assms evolvesD [of "{}" c c' p] by (auto simp: settles_def)

lemma settles_open:
  assumes "settles c c'" "map_ok c" "map_ok c'"
  shows "open_record c' p = open_record c p"
proof (cases "p < length (RecordHeap c)")
  case False
  then show ?thesis
    using assms mapped_less [of c p] mapped_less [of c' p] by (auto simp: open_record_def settles_def)
qed (use assms evolves_open [of "{}" c c' p] in \<open>simp add: settles_def\<close>)

lemma slot_matches_evolves:
  assumes "evolves X c c'" "slot_matches c i"
  shows "slot_matches c' i"
  unfolding slot_matches_def
proof (intro allI impI)
  fix p assume "AcknowledgementRecord i = Some p"
  then have p: "matches c p (SlotRequest i)" "IsComplete (record_at c p)" "RcResponse (record_at c p) = SlotResponse i"
    using assms(2) by (auto simp: slot_matches_def)
  then show "matches c' p (SlotRequest i) \<and> IsComplete (record_at c' p) \<and> RcResponse (record_at c' p) = SlotResponse i"
    using evolves_matches [OF assms(1) p(1)] evolvesD(3,4) [OF assms(1), of p] by (auto simp: matches_def)
qed

lemma slot_share_same:
  "same_client i i' \<Longrightarrow> slot_share q P H (i', c) = slot_share q P H (i, c)"
  by (simp add: slot_share_def same_client_def slot_pending_def slot_matches_def)

text \<open>Letting go of the pending delivery or of the record.\<close>

lemma release_pending:
  assumes "slot_share q P H (i, c)" "PendingDelivery i"
  shows "slot_share q P H (i\<lparr>PendingDelivery := False\<rparr>, CompletePendingDelivery q (RequestId (SlotRequest i)) now c)"
    "settles c (CompletePendingDelivery q (RequestId (SlotRequest i)) now c)"
proof -
  let ?c = "CompletePendingDelivery q (RequestId (SlotRequest i)) now c"
  have "deliveries c (P(RequestId (SlotRequest i) := P (RequestId (SlotRequest i)) + 1))
      (plus_claim H (AcknowledgementRecord i))"
    using assms by (simp add: slot_share_def slot_pending_def)
  from deliveries_CompletePending [OF this, of q "RequestId (SlotRequest i)" now]
  have "deliveries ?c P (plus_claim H (AcknowledgementRecord i))" by simp
  moreover show "settles c ?c" by (simp add: settles_def evolves_CompletePending)
  then have "slot_matches ?c i"
    using assms slot_matches_evolves [of "{}" c ?c i] by (simp add: settles_def slot_share_def)
  ultimately show "slot_share q P H (i\<lparr>PendingDelivery := False\<rparr>, ?c)"
    using assms by (simp add: slot_share_def slot_pending_def CompletePending_ok slot_matches_def)
qed

lemma CompleteDelivery_heap [simp]:
  "length (RecordHeap (CompleteDelivery q cid p k now c)) = length (RecordHeap c)"
  by (simp add: CompleteDelivery_def Let_def)

lemma release_record:
  assumes s: "slot_share q P H (i, c)" and p: "AcknowledgementRecord i = Some p"
  shows "slot_share q P H (i\<lparr>AcknowledgementRecord := None\<rparr>, CompleteDelivery q (RequestId (SlotRequest i)) p k now c)"
    "settles c (CompleteDelivery q (RequestId (SlotRequest i)) p k now c)"
proof -
  let ?c = "CompleteDelivery q (RequestId (SlotRequest i)) p k now c"
  have c: "cache_ok q c" "map_ok c" using s by (simp_all add: slot_share_def cache_ok_def)
  have "deliveries c (plus_claim P (slot_pending i)) (H(p := H p + 1))"
    using s p by (simp add: slot_share_def)
  from deliveries_CompleteDelivery [OF this c(2), of p "RequestId (SlotRequest i)" q k now]
  have "deliveries ?c (plus_claim P (slot_pending i)) H"
    using s p by (simp add: slot_share_def slot_matches_def matches_def)
  then show "slot_share q P H (i\<lparr>AcknowledgementRecord := None\<rparr>, ?c)"
    using c by (simp add: slot_share_def slot_pending_def CompleteDelivery_ok slot_matches_def split: if_splits)
  show "settles c ?c" by (simp add: settles_def evolves_CompleteDelivery [OF c(2)])
qed

subsection \<open>The protocol\<close>

text \<open>What a callback of an instance leaves, from the state \<open>st\<close> in which nothing is owed.\<close>

definition slot_goes ::
  "ServerOptions \<Rightarrow> (CorrelationId \<Rightarrow> nat) \<Rightarrow> (nat \<Rightarrow> nat) \<Rightarrow> bool \<Rightarrow> cache \<Rightarrow> slot_state \<Rightarrow> bool" where
  "slot_goes q P H running c st' \<longleftrightarrow> slot_after running (fst st') \<and> slot_share q P H st' \<and> settles c (snd st')"

text \<open>At most one of the two is attached, so an instance touches the cache once.\<close>

definition slot_single :: "PipeInstance \<Rightarrow> bool" where
  "slot_single i \<longleftrightarrow> \<not> PendingDelivery i \<or> AcknowledgementRecord i = None"

lemma slot_ok_single: "slot_ok i \<Longrightarrow> slot_single i"
  by (auto simp: slot_ok_def slot_single_def delivering_def)

lemma FinishClient_eq:
  "FinishClientLocked q running a (i, c) =
     (if running
      then ArmConnectionLocked q running a (i\<lparr>Phase := Disconnected, PendingDelivery := False, AcknowledgementRecord := None\<rparr>)
      else i\<lparr>Phase := Disconnected, PendingDelivery := False, AcknowledgementRecord := None\<rparr>,
      let c = (if PendingDelivery i then CompletePendingDelivery q (RequestId (SlotRequest i)) (CacheNow a) c else c)
      in case AcknowledgementRecord i of None \<Rightarrow> c
         | Some p \<Rightarrow> CompleteDelivery q (RequestId (SlotRequest i)) p False (CacheNow a) c)"
  by (simp add: FinishClientLocked_def Let_def split: option.split)

lemma FinishClient_law:
  assumes share: "slot_share q P H (i, c)" and free: "slot_free i" and single: "slot_single i"
  shows "slot_goes q P H running c (FinishClientLocked q running a (i, c))"
proof -
  let ?i = "i\<lparr>Phase := Disconnected, PendingDelivery := False, AcknowledgementRecord := None\<rparr>"
  define c' where "c' = snd (FinishClientLocked q running a (i, c))"
  have share': "slot_share q P H (?i, c') \<and> settles c c'"
  proof -
    consider "slot_clear i" | "PendingDelivery i" "AcknowledgementRecord i = None"
      | p where "\<not> PendingDelivery i" "AcknowledgementRecord i = Some p"
      using single by (cases "AcknowledgementRecord i") (auto simp: slot_single_def slot_clear_def)
    then show ?thesis
    proof cases
      case 1
      then have "same_client i ?i" "c' = c"
        by (simp_all add: same_client_def slot_clear_def c'_def FinishClient_eq)
      then show ?thesis using share slot_share_same by simp
    next
      case 2
      then have "same_client (i\<lparr>PendingDelivery := False\<rparr>) ?i"
        "c' = CompletePendingDelivery q (RequestId (SlotRequest i)) (CacheNow a) c"
        by (simp_all add: same_client_def c'_def FinishClient_eq)
      then show ?thesis using release_pending [OF share 2(1)] slot_share_same by metis
    next
      case 3
      then have "same_client (i\<lparr>AcknowledgementRecord := None\<rparr>) ?i"
        "c' = CompleteDelivery q (RequestId (SlotRequest i)) p False (CacheNow a) c"
        by (simp_all add: same_client_def c'_def FinishClient_eq)
      then show ?thesis using release_record [OF share 3(2)] slot_share_same by metis
    qed
  qed
  have i': "slot_free ?i" "slot_clear ?i" "Phase ?i \<noteq> RunningHandler"
    using free by (simp_all add: slot_free_def slot_clear_def)
  note arm = ArmConnection_law [OF i', of running q a]
  have fst: "fst (FinishClientLocked q running a (i, c)) = ArmConnectionLocked q running a ?i"
    by (simp add: FinishClient_eq ArmConnectionLocked_def [of q False])
  show ?thesis
    using share' arm slot_share_same [of ?i "ArmConnectionLocked q running a ?i"]
    by (cases "FinishClientLocked q running a (i, c)") (use fst in \<open>simp add: slot_goes_def c'_def\<close>)
qed

lemma slot_goes_owe:
  assumes "running" "slot_ok (owe IoCompletion i)" "slot_free i" "slot_share q P H (owe IoCompletion i, c)"
  shows "slot_goes q P H running c (owe IoCompletion i, c)"
  using assms by (simp add: slot_goes_def slot_after_def slot_free_def)

lemma transfer_law:
  assumes share: "slot_share q P H (i, c)" and free: "slot_free i" and single: "slot_single i"
    and ok: "\<And>j. j = i\<lparr>Buffer := buffer, TotalBytes := n, TransferredBytes := 0, Write := w, TransferDeadline := d\<rparr> \<Longrightarrow>
       slot_ok (owe IoCompletion j)"
  shows "slot_goes q P H running c
     (transfer_or_finish q running a (StartTransferLocked running a buffer n w d i) c)"
proof -
  let ?j = "i\<lparr>Buffer := buffer, TotalBytes := n, TransferredBytes := 0, Write := w, TransferDeadline := d\<rparr>"
  have j: "same_client i ?j" "slot_free ?j" "slot_single ?j"
    using free single by (simp_all add: same_client_def slot_free_def slot_single_def)
  have sj: "slot_share q P H (?j, c)" using share slot_share_same [OF j(1)] by simp
  have so: "slot_share q P H (owe IoCompletion ?j, c)"
    using share slot_share_same [of i "owe IoCompletion ?j"] by (simp add: same_client_def)
  have "StartTransferLocked running a buffer n w d i = (i, False) \<or>
      StartTransferLocked running a buffer n w d i = (?j, False) \<or>
      running \<and> StartTransferLocked running a buffer n w d i = (owe IoCompletion ?j, True)"
    by (auto simp: StartTransferLocked_def StartCurrentTransferLocked_def)
  then show ?thesis
    using FinishClient_law [OF share free single] FinishClient_law [OF sj j(2,3)]
      slot_goes_owe [OF _ ok [OF refl] j(2) so]
    by (auto simp: transfer_or_finish_def)
qed

lemma current_transfer_law:
  assumes share: "slot_share q P H (i, c)" and free: "slot_free i" and ok: "slot_ok (owe IoCompletion i)"
    and single: "slot_single i"
  shows "slot_goes q P H running c (transfer_or_finish q running a (StartCurrentTransferLocked running a i) c)"
proof -
  have "StartCurrentTransferLocked running a i = (i, False) \<or>
      running \<and> StartCurrentTransferLocked running a i = (owe IoCompletion i, True)"
    by (auto simp: StartCurrentTransferLocked_def)
  moreover have "slot_share q P H (owe IoCompletion i, c)"
    using share slot_share_same [of i "owe IoCompletion i"] by (simp add: same_client_def)
  ultimately show ?thesis
    using FinishClient_law [OF share free single] slot_goes_owe [OF _ ok free]
    by (auto simp: transfer_or_finish_def)
qed

text \<open>Connected, read, dispatched.\<close>

lemma slot_share_clear:
  assumes "slot_share q P H (i, c)" "slot_clear i" "slot_clear j"
  shows "slot_share q P H (j, c)"
  using assms by (simp add: slot_share_def slot_clear_def slot_pending_def slot_matches_def)

lemma slot_clear_single: "slot_clear i \<Longrightarrow> slot_single i"
  by (simp add: slot_clear_def slot_single_def)

lemma HandleConnected_law:
  assumes share: "slot_share q P H (i, c)" and free: "slot_free i" and clear: "slot_clear i"
  shows "slot_goes q P H running c (HandleConnectedInstanceLocked q running accepting trusted a (i, c))"
proof -
  let ?j = "i\<lparr>SlotRequest := NewRequest, SlotResponse := NewResponse, AcknowledgementRecord := None,
                  SlotRequestHeader := NewRequestHeader,
                  RequestDeadline := DeadlineAfter (Tick a) (RequestTimeoutMs q), RearmFailures := 0,
                  Phase := ReadingRequestHeader\<rparr>"
  have j: "slot_share q P H (?j, c)" "slot_free ?j" "slot_clear ?j"
    using free clear slot_share_clear [OF share clear] by (simp_all add: slot_free_def slot_clear_def)
  have "slot_goes q P H running c (transfer_or_finish q running a
             (StartTransferLocked running a InHeader 40 False (DeadlineAfter (Tick a) (RequestTimeoutMs q)) ?j) c)"
    by (rule transfer_law [OF j(1,2) slot_clear_single [OF j(3)]])
      (use free clear in \<open>auto simp: slot_ok_def slot_free_def slot_clear_def delivering_def\<close>)
  then show ?thesis
    using FinishClient_law [OF share free slot_clear_single [OF clear]]
    by (cases "running \<and> accepting \<and> trusted") (auto simp: HandleConnectedInstanceLocked_def Let_def)
qed

text \<open>
  A submitted handler callback takes the place of the owed callback: the instance waits for it in the phase
  \<open>RunningHandler\<close> with its delivery pending.
\<close>

definition slot_dispatched :: "PipeInstance \<Rightarrow> bool" where
  "slot_dispatched i \<longleftrightarrow> slot_ok i \<and> slot_free i \<and> Phase i = RunningHandler \<and> PendingDelivery i"

definition slot_moves ::
  "ServerOptions \<Rightarrow> (CorrelationId \<Rightarrow> nat) \<Rightarrow> (nat \<Rightarrow> nat) \<Rightarrow> bool \<Rightarrow> cache \<Rightarrow> slot_state \<times> bool \<Rightarrow> bool" where
  "slot_moves q P H running c r \<longleftrightarrow>
     (if snd r then slot_dispatched (fst (fst r)) \<and> slot_share q P H (fst r) \<and> settles c (snd (fst r))
      else slot_goes q P H running c (fst r))"

lemma slot_moves_False [simp]: "slot_moves q P H running c (st, False) = slot_goes q P H running c st"
  by (simp add: slot_moves_def)

lemma Dispatch_law:
  assumes share: "slot_share q P H (i, c)" and free: "slot_free i" and clear: "slot_clear i"
  shows "slot_moves q P H running c (DispatchRequestLocked q running a allocated (i, c))"
proof -
  note fin = FinishClient_law [OF share free slot_clear_single [OF clear], of running a]
  obtain c' b where r: "BeginPendingDelivery (RequestId (SlotRequest i)) c = (c', b)" by force
  have "slot_moves q P H running c ((i\<lparr>PendingDelivery := True, Phase := RunningHandler\<rparr>, c'), True)"
    if b and v: "IsRequestValid (SlotRequest i)"
  proof -
    have r': "BeginPendingDelivery (RequestId (SlotRequest i)) c = (c', True)" using r \<open>b\<close> by simp
    have d: "deliveries c P H" and ok: "cache_ok q c"
      using share clear by (simp_all add: slot_share_def slot_clear_def slot_pending_def)
    show ?thesis
      using deliveries_BeginPending [OF d r'] BeginPending_ok [OF ok r'] evolves_BeginPending [OF r', of "{}"]
        BeginPending_views(2) [OF r'] free clear v
      by (simp add: slot_moves_def slot_dispatched_def slot_share_def slot_clear_def slot_free_def slot_ok_def
          slot_pending_def slot_matches_def settles_def delivering_def)
  qed
  moreover have "\<not> b \<Longrightarrow> c' = c"
    using r by (auto simp: BeginPendingDelivery_def Let_def split: if_splits)
  ultimately show ?thesis
    using fin r by (cases b) (auto simp: DispatchRequestLocked_def)
qed

lemma header_received_law:
  assumes share: "slot_share q P H (i, c)" and free: "slot_free i" and clear: "slot_clear i"
  shows "slot_moves q P H running c (header_received q running a allocated (i, c))"
proof -
  note fin = FinishClient_law [OF _ _ slot_clear_single]
  have req: "slot_share q P H (i\<lparr>SlotRequest := r\<rparr>, c)" "slot_free (i\<lparr>SlotRequest := r\<rparr>)"
    "slot_clear (i\<lparr>SlotRequest := r\<rparr>)" for r
    using free clear slot_share_clear [OF share clear] by (simp_all add: slot_free_def slot_clear_def)
  let ?j = "(i\<lparr>SlotRequest := request_of_header (SlotRequestHeader i)\<rparr>)\<lparr>Phase := ReadingRequestPayload\<rparr>"
  have j: "slot_share q P H (?j, c)" "slot_free ?j" "slot_clear ?j"
    using free clear slot_share_clear [OF share clear] by (simp_all add: slot_free_def slot_clear_def)
  have "slot_goes q P H running c (transfer_or_finish q running a
      (StartTransferLocked running a InPayload n False d ?j) c)" for n d
    by (rule transfer_law [OF j(1,2) slot_clear_single [OF j(3)]])
      (use free clear in \<open>auto simp: slot_ok_def slot_free_def slot_clear_def delivering_def\<close>)
  then show ?thesis
    using fin [OF share free clear] fin [OF req] Dispatch_law [OF req]
    by (simp add: header_received_def Let_def)
qed

lemma read_acknowledgement_law:
  assumes share: "slot_share q P H (i, c)" and free: "slot_free i" and "\<not> PendingDelivery i"
  shows "slot_goes q P H running c (read_acknowledgement q running a (i, c))"
proof -
  let ?j = "i\<lparr>SlotAcknowledgement := NewAcknowledgement, Phase := ReadingAcknowledgement\<rparr>"
  have j: "slot_share q P H (?j, c)" "slot_free ?j" "slot_single ?j"
    using assms slot_share_same [of i ?j] by (simp_all add: slot_free_def slot_single_def same_client_def)
  have "slot_goes q P H running c (transfer_or_finish q running a
      (StartTransferLocked running a InAcknowledgement 24 False d ?j) c)" for d
    by (rule transfer_law [OF j]) (use assms in \<open>auto simp: slot_ok_def slot_free_def delivering_def\<close>)
  then show ?thesis by (simp add: read_acknowledgement_def Let_def)
qed

lemma response_payload_law:
  assumes share: "slot_share q P H (i, c)" and free: "slot_free i" and "\<not> PendingDelivery i"
  shows "slot_goes q P H running c (transfer_or_finish q running a
     (StartTransferLocked running a OutPayload n True d (i\<lparr>Phase := WritingResponsePayload\<rparr>)) c)"
proof -
  let ?j = "i\<lparr>Phase := WritingResponsePayload\<rparr>"
  have j: "slot_share q P H (?j, c)" "slot_free ?j" "slot_single ?j"
    using assms slot_share_same [of i ?j] by (simp_all add: slot_free_def slot_single_def same_client_def)
  show ?thesis
    by (rule transfer_law [OF j]) (use assms in \<open>auto simp: slot_ok_def slot_free_def delivering_def\<close>)
qed

lemma settles_goes:
  "settles c c' \<Longrightarrow> slot_goes q P H running c' (i, c') \<Longrightarrow> slot_goes q P H running c (i, c')"
  by (simp add: slot_goes_def)

lemma FinishClient_clear_cache:
  "slot_clear i \<Longrightarrow> snd (FinishClientLocked q running a (i, c)) = c"
  by (simp add: FinishClient_eq slot_clear_def)

lemma acknowledgement_received_law:
  assumes share: "slot_share q P H (i, c)" and free: "slot_free i" and pending: "\<not> PendingDelivery i"
  shows "slot_goes q P H running c (acknowledgement_received q running a (i, c))"
proof -
  have single: "slot_single i" using pending by (simp add: slot_single_def)
  note fin = FinishClient_law [OF share free single, of running a]
  have "slot_goes q P H running c (FinishClientLocked q running a (i\<lparr>AcknowledgementRecord := None\<rparr>,
      CompleteDelivery q (RequestId (SlotRequest i)) p True (CacheNow a) c))"
    if p: "AcknowledgementRecord i = Some p" for p
  proof -
    let ?i = "i\<lparr>AcknowledgementRecord := None\<rparr>" and ?c = "CompleteDelivery q (RequestId (SlotRequest i)) p True (CacheNow a) c"
    have i: "slot_free ?i" "slot_clear ?i" using free pending by (simp_all add: slot_free_def slot_clear_def)
    have r: "slot_share q P H (?i, ?c)" "settles c ?c"
      using release_record [OF share p, of True "CacheNow a"] by simp_all
    have "slot_goes q P H running ?c (FinishClientLocked q running a (?i, ?c))"
      by (rule FinishClient_law [OF r(1) i(1) slot_clear_single [OF i(2)]])
    then show ?thesis
      using r(2) FinishClient_clear_cache [OF i(2), of q running a ?c] by (simp add: slot_goes_def)
  qed
  then show ?thesis
    using fin by (simp add: acknowledgement_received_def split: option.split)
qed

lemma slot_ok_clear: "slot_ok i \<Longrightarrow> \<not> delivering (Phase i) \<Longrightarrow> Phase i \<noteq> RunningHandler \<Longrightarrow> slot_clear i"
  by (auto simp: slot_ok_def slot_clear_def)

lemma HandleCompletedTransfer_law:
  assumes share: "slot_share q P H (i, c)" and free: "slot_free i" and shape: "slot_ok i"
    and phase: "Phase i \<noteq> RunningHandler"
  shows "slot_moves q P H running c (HandleCompletedTransferLocked q running a allocated (i, c))"
proof -
  have pending: "\<not> PendingDelivery i" using shape phase by (auto simp: slot_ok_def)
  have clear: "\<not> delivering (Phase i) \<Longrightarrow> slot_clear i" using slot_ok_clear [OF shape] phase by simp
  show ?thesis
    using header_received_law [OF share free clear] Dispatch_law [OF share free clear]
      read_acknowledgement_law [OF share free pending] response_payload_law [OF share free pending]
      acknowledgement_received_law [OF share free pending]
      FinishClient_law [OF share free slot_ok_single [OF shape]]
    by (cases "Phase i") (simp_all add: HandleCompletedTransferLocked_def delivering_def)
qed

lemma receive_sel [simp]:
  "Phase (receive x i) = Phase i" "Outstanding (receive x i) = Outstanding i"
  "RecreateScheduled (receive x i) = RecreateScheduled i" "PendingDelivery (receive x i) = PendingDelivery i"
  "AcknowledgementRecord (receive x i) = AcknowledgementRecord i" "SlotResponse (receive x i) = SlotResponse i"
  by (cases x; simp)+

lemma receive_same:
  "fits x i \<Longrightarrow> Buffer i \<noteq> InPayload \<Longrightarrow> same_client i (receive x i)"
  by (cases x) (auto simp: same_client_def)

lemma HandleIoCompletion_law:
  assumes share: "slot_share q P H (i, c)" and free: "slot_free i" and shape: "slot_ok i"
    and owed: "owed_in IoCompletion i" and fits: "fits content i" and running: "running"
  shows "slot_moves q P H running c (HandleIoCompletion q running a allocated succeeded bytes content (i, c))"
proof -
  note fin = FinishClient_law [OF share free slot_ok_single [OF shape], of running a]
  have phase: "Phase i \<noteq> RunningHandler" using owed by simp
  have seen: "slot_goes q P H running c (owe ConnectionSeen i, c)" if "Phase i = Connecting"
    using that running shape free share slot_share_same [of i "owe ConnectionSeen i"]
    by (auto simp: slot_goes_def slot_after_def slot_ok_def slot_free_def same_client_def)
  let ?i = "i\<lparr>TransferredBytes := TransferredBytes i + ucast bytes\<rparr>"
  have i: "slot_free ?i" "slot_ok ?i" "same_client i ?i" "owed_in IoCompletion ?i" "fits content ?i"
    using free shape owed fits by (cases content; simp add: slot_free_def slot_ok_def same_client_def)+
  have si: "slot_share q P H (?i, c)" using share slot_share_same [OF i(3)] by simp
  have more: "slot_goes q P H running c (transfer_or_finish q running a (StartCurrentTransferLocked running a ?i) c)"
    by (rule current_transfer_law [OF si i(1) _ slot_ok_single [OF i(2)]])
      (use i(1,2,4) in \<open>auto simp: slot_ok_def slot_free_def\<close>)
  let ?r = "receive content ?i"
  have r: "slot_free ?r" "slot_ok ?r" "Phase ?r \<noteq> RunningHandler"
    using i(1,2) phase by (auto simp: slot_free_def slot_ok_def)
  have "slot_share q P H (?r, c)"
  proof (cases "delivering (Phase i)")
    case True
    then have "same_client ?i ?r" using i(4,5) by (intro receive_same) auto
    then show ?thesis using si slot_share_same by simp
  next
    case False
    then have "slot_clear ?i" using slot_ok_clear [OF i(2)] phase by simp
    then show ?thesis by (rule slot_share_clear [OF si]) (use \<open>slot_clear ?i\<close> in \<open>simp add: slot_clear_def\<close>)
  qed
  note completed = HandleCompletedTransfer_law [OF this r, of running a allocated]
  show ?thesis
    using fin seen more completed running
    by (simp add: HandleIoCompletion_def Let_def del: fits.simps)
qed

subsection \<open>Recovery\<close>

lemma OnRearm_law:
  assumes "slot_ok i" "Outstanding i = []" "owed_in RearmTimer i"
  shows "slot_after running (OnRearmReady running i) \<and> same_client i (OnRearmReady running i)"
  using assms by (auto simp: OnRearmReady_def slot_after_def slot_ok_def same_client_def delivering_def)

lemma Recreate_law:
  assumes "slot_ok i" "Outstanding i = []" "owed_in RecreateWork i"
  shows "slot_after running (RecreatePipeInstance running i) \<and> same_client i (RecreatePipeInstance running i)"
  using assms by (auto simp: RecreatePipeInstance_def slot_after_def slot_ok_def same_client_def delivering_def)

lemma recreate_fails_law:
  assumes "slot_ok i" "Outstanding i = []" "Phase i = Disconnected"
  shows "slot_after running (recreate_fails q running a i) \<and> same_client i (recreate_fails q running a i)"
proof -
  let ?i = "i\<lparr>RecreateScheduled := False\<rparr>" and ?j = "i\<lparr>RecreateScheduled := False, RecreateRequired := True\<rparr>"
  have clear: "slot_clear i" using assms slot_ok_clear [OF assms(1)] by (simp add: delivering_def)
  then have j: "slot_free ?j" "slot_clear ?j" "same_client i ?j" and i: "slot_after False ?i" "same_client i ?i"
    using assms by (simp_all add: slot_free_def slot_clear_def same_client_def slot_after_def slot_ok_def)
  show ?thesis
    using ScheduleRearm_law [OF j(1,2), where running = running and q = q and a = a] i j(3)
    by (cases running) (auto simp: recreate_fails_def Let_def same_client_def)
qed

lemma recreate_succeeds_law:
  assumes "slot_ok i" "Outstanding i = []" "Phase i = Disconnected"
  shows "slot_after running (recreate_succeeds q running a i) \<and> same_client i (recreate_succeeds q running a i)"
proof -
  let ?i = "i\<lparr>RecreateScheduled := False\<rparr>"
  let ?j = "i\<lparr>HasPipe := True, HasIo := True, RecreateRequired := False, RecreateScheduled := False, RearmFailures := 0\<rparr>"
  have clear: "slot_clear i" using assms slot_ok_clear [OF assms(1)] by (simp add: delivering_def)
  then have j: "slot_free ?j" "slot_clear ?j" "Phase ?j \<noteq> RunningHandler" "same_client i ?j"
    and i: "slot_after False ?i" "same_client i ?i"
    using assms by (simp_all add: slot_free_def slot_clear_def same_client_def slot_after_def slot_ok_def)
  show ?thesis
    using ArmConnection_law [OF j(1-3), of running q a] i j(4)
    by (cases running) (auto simp: recreate_succeeds_def same_client_def)
qed

end
