(* ===== verification/Server_Invariant.thy ===== *)
theory Server_Invariant
  imports Server_Slots
begin

section \<open>The invariant of the control server\<close>

text \<open>
  \<open>flow\<close> ties the clients in flight to the cache, \<open>link\<close> the handler callbacks to their instances, \<open>life\<close>
  the life cycle to both, and \<open>log_ok\<close> the recorded executions and replies to the records. Together they are an
  inductive invariant of the server's steps.
\<close>

subsection \<open>Clients in flight\<close>

fun asking :: "handler_pc \<Rightarrow> bool" where
  "asking HExecuting = True" | "asking (HWaiting p d) = True" | "asking (HRunning p d) = True"
| "asking _ = False"

fun running_pc :: "handler_pc \<Rightarrow> nat option" where
  "running_pc (HRunning p d) = Some p" | "running_pc _ = None"

fun waiting_pc :: "handler_pc \<Rightarrow> nat option" where
  "waiting_pc (HWaiting p d) = Some p" | "waiting_pc _ = None"

definition running_of :: "handler \<Rightarrow> nat option" where "running_of h = running_pc (HPc h)"
definition waiting_of :: "handler \<Rightarrow> nat option" where "waiting_of h = waiting_pc (HPc h)"

definition handler_pending :: "handler \<Rightarrow> CorrelationId option" where
  "handler_pending h = (if HPending h then Some (HPendingCorrelation h) else None)"

definition pend :: "PipeInstance list \<Rightarrow> handler list \<Rightarrow> CorrelationId \<Rightarrow> nat" where
  "pend sls hs cid = claims slot_pending sls cid + claims handler_pending hs cid"

definition held :: "PipeInstance list \<Rightarrow> handler list \<Rightarrow> nat \<Rightarrow> nat" where
  "held sls hs p = claims AcknowledgementRecord sls p + claims HAcknowledgement hs p"

definition handler_ok :: "cache \<Rightarrow> handler \<Rightarrow> bool" where
  "handler_ok c h \<longleftrightarrow>
     (asking (HPc h) \<longrightarrow> HPending h \<and> HPendingCorrelation h = RequestId (HRequest h) \<and> HExecution h = None \<and>
        HAcknowledgement h = None \<and> length (Payload (HRequest h)) \<le> 32768) \<and>
     (\<forall>p. waiting_of h = Some p \<longrightarrow> matches c p (HRequest h) \<and> mapped c p) \<and>
     (\<forall>p. running_of h = Some p \<longrightarrow> p < length (RecordHeap c) \<and> RcRequest (record_at c p) = HRequest h) \<and>
     (\<forall>p. HAcknowledgement h = Some p \<longrightarrow> HExecution h = Some p \<and> matches c p (HRequest h) \<and>
        IsComplete (record_at c p)) \<and>
     (HPc h = HQueued \<or> HPc h = HSettling \<or> HPc h = HResponding \<longrightarrow> HExecution h = HAcknowledgement h) \<and>
     (HPending h \<longrightarrow> asking (HPc h) \<or> HPc h = HSettling \<or> HPc h = HFailing) \<and>
     (HAcknowledgement h \<noteq> None \<longrightarrow> HPc h = HSettling \<or> HPc h = HResponding \<or> HPc h = HReleasing) \<and>
     (HExecution h = None \<longrightarrow> Body (HResponse h) = [] \<and> ResponseId (HResponse h) = RequestId (HRequest h))"

definition flow :: "ServerOptions \<Rightarrow> PipeInstance list \<Rightarrow> handler list \<Rightarrow> cache \<Rightarrow> bool" where
  "flow q sls hs c \<longleftrightarrow> cache_ok q c \<and> deliveries c (pend sls hs) (held sls hs) \<and>
     (\<forall>p. claims running_of hs p = of_bool (open_record c p)) \<and>
     (\<forall>h \<in> set hs. handler_ok c h) \<and> (\<forall>i \<in> set sls. slot_matches c i)"

lemma handler_ok_evolves:
  assumes h: "handler_ok c h" and ev: "evolves X c c'" and m: "map_ok c"
    and kept: "\<And>p. waiting_of h = Some p \<Longrightarrow> pending_count c' (RequestId (HRequest h)) \<noteq> 0"
  shows "handler_ok c' h"
proof -
  have "matches c' p (HRequest h) \<and> mapped c' p" if w: "waiting_of h = Some p" for p
  proof -
    have p: "matches c p (HRequest h)" "mapped c p" using h w by (auto simp: handler_ok_def)
    then obtain cid where e: "(cid, p) \<in> set (Records c)" by (auto simp: mapped_def)
    then have "cid = RequestId (HRequest h)" using map_okD(2) [OF m e] p(1) by (simp add: matches_def)
    then have "in_use c' (cid, p)" using kept [OF w] by (simp add: in_use_def)
    then have "(cid, p) \<in> set (Records c')" using ev e by (auto simp: evolves_def)
    then show ?thesis using evolves_matches [OF ev p(1)] by (auto simp: mapped_def intro: rev_image_eqI)
  qed
  moreover have "p < length (RecordHeap c') \<and> RcRequest (record_at c' p) = HRequest h"
    if "running_of h = Some p" for p
    using h that evolvesD(1,2) [OF ev, of p] by (auto simp: handler_ok_def)
  moreover have "matches c' p (HRequest h) \<and> IsComplete (record_at c' p)"
    if "HAcknowledgement h = Some p" for p
    using h that evolvesD(3) [OF ev, of p] evolves_matches [OF ev, of p "HRequest h"]
    by (auto simp: handler_ok_def matches_def)
  ultimately show ?thesis using h unfolding handler_ok_def by blast
qed

lemma flow_change:
  assumes f: "flow q sls hs c" and ev: "evolves X c c'" and ok: "cache_ok q c'"
    and d: "deliveries c' (pend sls' hs') (held sls' hs')"
    and r: "\<And>p. claims running_of hs' p = of_bool (open_record c' p)"
    and h: "\<And>h. h \<in> set hs' \<Longrightarrow> h \<in> set hs \<or> handler_ok c' h"
    and i: "\<And>i. i \<in> set sls' \<Longrightarrow> i \<in> set sls \<or> slot_matches c' i"
  shows "flow q sls' hs' c'"
proof -
  have m: "map_ok c" using f by (simp add: flow_def cache_ok_def)
  have "handler_ok c' x" if x: "x \<in> set hs'" for x
  proof (cases "x \<in> set hs")
    case True
    then have hx: "handler_ok c x" using f by (simp add: flow_def)
    show ?thesis
    proof (rule handler_ok_evolves [OF hx ev m])
      fix p assume "waiting_of x = Some p"
      then have "asking (HPc x)" by (cases "HPc x") (auto simp: waiting_of_def)
      then have "handler_pending x = Some (RequestId (HRequest x))"
        using hx by (simp add: handler_ok_def handler_pending_def)
      then show "pending_count c' (RequestId (HRequest x)) \<noteq> 0"
        using claims_pos [OF x, of handler_pending] deliveries_pending [OF d] by (simp add: pend_def)
    qed
  qed (use h x in auto)
  moreover have "slot_matches c' x" if "x \<in> set sls'" for x
    using i [OF that] f slot_matches_evolves [OF ev, of x] by (auto simp: flow_def)
  ultimately show ?thesis
    using ok d r by (simp add: flow_def)
qed

text \<open>A change of the cache alone.\<close>

lemma flow_cache:
  assumes f: "flow q sls hs c" and s: "settles c c'" and ok: "cache_ok q c'"
    and d: "deliveries c' (pend sls hs) (held sls hs)"
  shows "flow q sls hs c'"
proof (rule flow_change [OF f _ ok d])
  have "open_record c' p = open_record c p" for p
    using f ok settles_open [OF s] by (simp add: flow_def cache_ok_def)
  then show "claims running_of hs p = of_bool (open_record c' p)" for p
    using f by (simp add: flow_def)
  show "evolves {} c c'" using s by (simp add: settles_def)
qed auto

subsection \<open>One instance\<close>

definition slot_base :: "PipeInstance list \<Rightarrow> handler list \<Rightarrow> nat \<Rightarrow> CorrelationId \<Rightarrow> nat" where
  "slot_base sls hs k cid = others slot_pending sls k cid + claims handler_pending hs cid"

definition slot_holds :: "PipeInstance list \<Rightarrow> handler list \<Rightarrow> nat \<Rightarrow> nat \<Rightarrow> nat" where
  "slot_holds sls hs k p = others AcknowledgementRecord sls k p + claims HAcknowledgement hs p"

lemma pend_slot: "k < length sls \<Longrightarrow> pend (sls[k := i]) hs = plus_claim (slot_base sls hs k) (slot_pending i)"
  unfolding pend_def slot_base_def by (simp add: claims_others plus_claim_add)

lemma held_slot: "k < length sls \<Longrightarrow> held (sls[k := i]) hs = plus_claim (slot_holds sls hs k) (AcknowledgementRecord i)"
  unfolding held_def slot_holds_def by (simp add: claims_others plus_claim_add)

lemma flow_share:
  assumes "flow q sls hs c" "k < length sls"
  shows "slot_share q (slot_base sls hs k) (slot_holds sls hs k) (sls ! k, c)"
  using assms pend_slot [OF assms(2), of "sls ! k" hs] held_slot [OF assms(2), of "sls ! k" hs]
  by (simp add: flow_def slot_share_def)

lemma flow_slot:
  assumes f: "flow q sls hs c" and k: "k < length sls"
    and sh: "slot_share q (slot_base sls hs k) (slot_holds sls hs k) (i, c')" and s: "settles c c'"
  shows "flow q (sls[k := i]) hs c'"
proof (rule flow_change [OF f])
  have ok: "cache_ok q c'" using sh by (simp add: slot_share_def)
  then show "cache_ok q c'" .
  show "evolves {} c c'" using s by (simp add: settles_def)
  show "deliveries c' (pend (sls[k := i]) hs) (held (sls[k := i]) hs)"
    using sh by (simp add: slot_share_def pend_slot [OF k] held_slot [OF k])
  have "open_record c' p = open_record c p" for p
    using f ok settles_open [OF s] by (simp add: flow_def cache_ok_def)
  then show "claims running_of hs p = of_bool (open_record c' p)" for p
    using f by (simp add: flow_def)
  show "j \<in> set (sls[k := i]) \<Longrightarrow> j \<in> set sls \<or> slot_matches c' j" for j
    using sh set_update_subset_insert [of sls k i] by (auto simp: slot_share_def)
qed auto

text \<open>A new handler callback has no share of its own.\<close>

lemma flow_submit:
  assumes "flow q sls hs c"
  shows "flow q sls (hs @ [new_handler k]) c"
proof (rule flow_change [OF assms evolves_refl])
  show "cache_ok q c" "deliveries c (pend sls (hs @ [new_handler k])) (held sls (hs @ [new_handler k]))"
    "claims running_of (hs @ [new_handler k]) p = of_bool (open_record c p)" for p
    using assms by (simp_all add: flow_def pend_def [abs_def] held_def [abs_def] new_handler_def handler_pending_def running_of_def)
  show "h \<in> set (hs @ [new_handler k]) \<Longrightarrow> h \<in> set hs \<or> handler_ok c h" for h
    by (auto simp: handler_ok_def new_handler_def waiting_of_def running_of_def NewResponse_def NewRequest_def)
qed auto

subsection \<open>One handler callback\<close>

definition handler_base :: "PipeInstance list \<Rightarrow> handler list \<Rightarrow> nat \<Rightarrow> CorrelationId \<Rightarrow> nat" where
  "handler_base sls hs n cid = claims slot_pending sls cid + others handler_pending hs n cid"

definition handler_holds :: "PipeInstance list \<Rightarrow> handler list \<Rightarrow> nat \<Rightarrow> nat \<Rightarrow> nat" where
  "handler_holds sls hs n p = claims AcknowledgementRecord sls p + others HAcknowledgement hs n p"

lemma pend_handler:
  "n < length hs \<Longrightarrow> pend sls (hs[n := h]) = plus_claim (handler_base sls hs n) (handler_pending h)"
  unfolding pend_def handler_base_def by (simp add: claims_others plus_claim_add)

lemma held_handler:
  "n < length hs \<Longrightarrow> held sls (hs[n := h]) = plus_claim (handler_holds sls hs n) (HAcknowledgement h)"
  unfolding held_def handler_holds_def by (simp add: claims_others plus_claim_add)

lemma flow_handler_deliveries:
  assumes "flow q sls hs c" "n < length hs"
  shows "deliveries c (plus_claim (handler_base sls hs n) (handler_pending (hs ! n)))
     (plus_claim (handler_holds sls hs n) (HAcknowledgement (hs ! n)))"
  using assms pend_handler [OF assms(2), of sls "hs ! n"] held_handler [OF assms(2), of sls "hs ! n"]
  by (simp add: flow_def)

lemma flow_handler:
  assumes f: "flow q sls hs c" and n: "n < length hs" and ev: "evolves X c c'" and ok: "cache_ok q c'"
    and d: "deliveries c' (plus_claim (handler_base sls hs n) (handler_pending h))
       (plus_claim (handler_holds sls hs n) (HAcknowledgement h))"
    and r: "\<And>p. claims running_of (hs[n := h]) p = of_bool (open_record c' p)"
    and h: "handler_ok c' h"
  shows "flow q sls (hs[n := h]) c'"
proof (rule flow_change [OF f ev ok])
  show "deliveries c' (pend sls (hs[n := h])) (held sls (hs[n := h]))"
    using d by (simp add: pend_handler [OF n] held_handler [OF n])
  show "x \<in> set (hs[n := h]) \<Longrightarrow> x \<in> set hs \<or> handler_ok c' x" for x
    using h set_update_subset_insert [of hs n h] by auto
qed (use r in auto)

text \<open>When the callback does not start or end an execution, the open records are as before.\<close>

lemma flow_handler_settles:
  assumes f: "flow q sls hs c" and n: "n < length hs" and s: "settles c c'" and ok: "cache_ok q c'"
    and d: "deliveries c' (plus_claim (handler_base sls hs n) (handler_pending h))
       (plus_claim (handler_holds sls hs n) (HAcknowledgement h))"
    and same: "running_of h = running_of (hs ! n)" and h: "handler_ok c' h"
  shows "flow q sls (hs[n := h]) c'"
proof (rule flow_handler [OF f n _ ok d _ h])
  show "evolves {} c c'" using s by (simp add: settles_def)
  have "open_record c' p = open_record c p" for p
    using f ok settles_open [OF s] by (simp add: flow_def cache_ok_def)
  then show "claims running_of (hs[n := h]) p = of_bool (open_record c' p)" for p
    using f claims_update_same [OF n, of running_of h] same by (simp add: flow_def)
qed

subsection \<open>Instances and their handler callbacks\<close>

definition active :: "handler_pc \<Rightarrow> bool" where
  "active pc \<longleftrightarrow> pc \<noteq> HReleasing \<and> pc \<noteq> HFinished"

definition active_slot :: "handler \<Rightarrow> nat option" where
  "active_slot h = (if active (HPc h) then Some (HSlot h) else None)"

text \<open>An active callback has its instance to itself and works on the request the instance has read.\<close>

definition linked :: "handler \<Rightarrow> PipeInstance \<Rightarrow> bool" where
  "linked h i \<longleftrightarrow> Phase i = RunningHandler \<and> (PendingDelivery i \<longleftrightarrow> HPc h = HQueued) \<and>
     (asking (HPc h) \<or> HExecution h \<noteq> None \<longrightarrow> HRequest h = SlotRequest i) \<and>
     (HPc h \<noteq> HQueued \<longrightarrow> HPendingCorrelation h = RequestId (SlotRequest i))"

definition link :: "PipeInstance list \<Rightarrow> handler list \<Rightarrow> bool" where
  "link sls hs \<longleftrightarrow> (\<forall>i \<in> set sls. slot_ok i) \<and>
     (\<forall>h \<in> set hs. HSlot h < length sls \<and> (active (HPc h) \<longrightarrow> linked h (sls ! HSlot h))) \<and>
     (\<forall>k < length sls. claims active_slot hs k + length (Outstanding (sls ! k)) \<le> 1)"

text \<open>While the server runs, every instance has a callback to come or a handler at work.\<close>

definition alive :: "PipeInstance list \<Rightarrow> handler list \<Rightarrow> bool" where
  "alive sls hs \<longleftrightarrow> (\<forall>k < length sls. claims active_slot hs k + length (Outstanding (sls ! k)) = 1)"

lemma link_slot:
  assumes l: "link sls hs" and k: "claims active_slot hs k = 0" "k < length sls" and i: "slot_after b i"
  shows "link (sls[k := i]) hs"
proof -
  have "HSlot h \<noteq> k" if "h \<in> set hs" "active (HPc h)" for h
    using k(1) that by (auto simp: claims_zero active_slot_def)
  then show ?thesis
    using l k i set_update_subset_insert [of sls k i]
    by (auto simp: link_def nth_list_update slot_after_def)
qed

lemma alive_slot:
  assumes "alive sls hs" "claims active_slot hs k = 0" "k < length sls" "slot_after True i"
  shows "alive (sls[k := i]) hs"
  using assms by (auto simp: alive_def nth_list_update slot_after_def)

lemma link_submit:
  assumes l: "link sls hs" and k: "claims active_slot hs k = 0" "k < length sls" and i: "slot_dispatched i"
  shows "link (sls[k := i]) (hs @ [new_handler k])"
proof -
  have other: "HSlot h \<noteq> k" if "h \<in> set hs" "active (HPc h)" for h
    using k(1) that by (auto simp: claims_zero active_slot_def)
  have new: "active_slot (new_handler k) = Some k" "linked (new_handler k) i" "HSlot (new_handler k) = k"
    using i by (simp_all add: new_handler_def active_slot_def active_def linked_def slot_dispatched_def)
  have "slot_ok i" "Outstanding i = []" using i by (simp_all add: slot_dispatched_def slot_free_def)
  then show ?thesis
    using l k new other set_update_subset_insert [of sls k i]
    by (auto simp: link_def nth_list_update)
qed

lemma alive_submit:
  assumes "alive sls hs" "claims active_slot hs k = 0" "k < length sls" "slot_dispatched i"
  shows "alive (sls[k := i]) (hs @ [new_handler k])"
proof -
  have "active_slot (new_handler k) = Some k"
    by (simp add: new_handler_def active_slot_def active_def)
  moreover have "Outstanding i = []" using assms by (simp add: slot_dispatched_def slot_free_def)
  ultimately show ?thesis
    using assms by (auto simp: alive_def nth_list_update)
qed

text \<open>A handler callback moves on; its instance may change with it.\<close>

lemma link_handler:
  assumes l: "link sls hs" and n: "n < length hs" and act: "active (HPc (hs ! n))"
    and slot: "HSlot h = HSlot (hs ! n)" and i: "slot_ok i" "length (Outstanding i) + of_bool (active (HPc h)) \<le> 1"
    and li: "active (HPc h) \<Longrightarrow> linked h i"
  shows "link (sls[HSlot h := i]) (hs[n := h])"
proof -
  let ?k = "HSlot h"
  have k: "?k < length sls" using l n slot by (auto simp: link_def)
  have me: "active_slot (hs ! n) = Some ?k" using act slot by (simp add: active_slot_def)
  have one: "claims active_slot hs ?k \<le> 1"
    using l k by (auto simp: link_def)
  have other: "HSlot (hs ! m) \<noteq> ?k" if "m < length hs" "m \<noteq> n" "active (HPc (hs ! m))" for m
    using claims_one [OF one n me that(1,2)] that(3) by (simp add: active_slot_def)
  have linked: "HSlot x < length sls \<and> (active (HPc x) \<longrightarrow> linked x (sls[?k := i] ! HSlot x))"
    if x: "x \<in> set (hs[n := h])" for x
  proof -
    obtain m where m: "m < length hs" "x = hs[n := h] ! m" using x by (auto simp: in_set_conv_nth)
    show ?thesis
    proof (cases "m = n")
      case True
      then show ?thesis using m n k li by simp
    next
      case False
      then have "x \<in> set hs" "x = hs ! m" using m by auto
      then show ?thesis using l other [of m] m(1) False by (auto simp: link_def)
    qed
  qed
  have count: "claims active_slot (hs[n := h]) j + of_bool (j = ?k) = claims active_slot hs j + of_bool (j = ?k \<and> active (HPc h))" for j
    using claims_update [OF n, of active_slot h j] me by (auto simp: active_slot_def)
  have "claims active_slot (hs[n := h]) j + length (Outstanding (sls[?k := i] ! j)) \<le> 1" if "j < length sls" for j
  proof (cases "j = ?k")
    case True
    then show ?thesis using count [of j] one i(2) k by (auto split: if_splits)
  next
    case False
    then show ?thesis using count [of j] l that by (auto simp: link_def)
  qed
  then show ?thesis
    using l linked i(1) set_update_subset_insert [of sls ?k i] by (auto simp: link_def)
qed

lemma alive_handler:
  assumes a: "alive sls hs" and n: "n < length hs" and act: "active (HPc (hs ! n))"
    and slot: "HSlot h = HSlot (hs ! n)" and k: "HSlot h < length sls"
    and i: "length (Outstanding i) + of_bool (active (HPc h)) = 1"
  shows "alive (sls[HSlot h := i]) (hs[n := h])"
proof -
  let ?k = "HSlot h"
  have me: "active_slot (hs ! n) = Some ?k" using act slot by (simp add: active_slot_def)
  have "claims active_slot hs ?k \<le> 1"
    using a k unfolding alive_def by (metis le_add1)
  moreover have "claims active_slot hs ?k > 0" using claims_pos [of "hs ! n" hs active_slot] n me by simp
  ultimately have one: "claims active_slot hs ?k = 1" by simp
  have count: "claims active_slot (hs[n := h]) j + of_bool (j = ?k) = claims active_slot hs j + of_bool (j = ?k \<and> active (HPc h))" for j
    using claims_update [OF n, of active_slot h j] me by (auto simp: active_slot_def)
  have "claims active_slot (hs[n := h]) j + length (Outstanding (sls[?k := i] ! j)) = 1" if "j < length sls" for j
  proof (cases "j = ?k")
    case True
    then show ?thesis using count [of j] one i k by (auto split: if_splits)
  next
    case False
    then show ?thesis using count [of j] a that by (auto simp: alive_def)
  qed
  then show ?thesis by (simp add: alive_def)
qed

text \<open>Active callbacks find nothing owed to their instance.\<close>

lemma link_active:
  assumes "link sls hs" "n < length hs" "active (HPc (hs ! n))"
  shows "HSlot (hs ! n) < length sls" "Outstanding (sls ! HSlot (hs ! n)) = []"
    "linked (hs ! n) (sls ! HSlot (hs ! n))" "slot_ok (sls ! HSlot (hs ! n))"
proof -
  have h: "hs ! n \<in> set hs" using assms(2) by simp
  then show k: "HSlot (hs ! n) < length sls" and "linked (hs ! n) (sls ! HSlot (hs ! n))"
    using assms(1,3) by (auto simp: link_def)
  have "claims active_slot hs (HSlot (hs ! n)) > 0"
    using claims_pos [OF h, of active_slot] assms(3) by (simp add: active_slot_def)
  moreover have "claims active_slot hs (HSlot (hs ! n)) + length (Outstanding (sls ! HSlot (hs ! n))) \<le> 1"
    using assms(1) k by (simp add: link_def)
  ultimately show "Outstanding (sls ! HSlot (hs ! n)) = []"
    by (cases "Outstanding (sls ! HSlot (hs ! n))") simp_all
  show "slot_ok (sls ! HSlot (hs ! n))" using assms(1) k by (simp add: link_def)
qed

text \<open>A callback that is owed finds no handler at work on its instance.\<close>

lemma link_owed:
  assumes "link sls hs" "k < length sls" "cb \<in> set (Outstanding (sls ! k))"
  shows "claims active_slot hs k = 0" "Outstanding (sls ! k) = [cb]" "owed_in cb (sls ! k)" "slot_ok (sls ! k)"
proof -
  have le: "claims active_slot hs k + length (Outstanding (sls ! k)) \<le> 1" and ok: "slot_ok (sls ! k)"
    using assms by (auto simp: link_def)
  then show "claims active_slot hs k = 0" "Outstanding (sls ! k) = [cb]"
    using assms(3) by (cases "Outstanding (sls ! k)"; auto)+
  show "slot_ok (sls ! k)" by (fact ok)
  then show "owed_in cb (sls ! k)" using assms(3) by (simp add: slot_ok_def)
qed

subsection \<open>The sections of a handler callback\<close>

lemma valid_small: "IsRequestValid r \<Longrightarrow> length (Payload r) \<le> 32768"
  by (auto simp: IsRequestValid_def c_maxPayloadBytes_def split: if_splits)

lemma flow_begin:
  assumes f: "flow q sls hs c" and l: "link sls hs" and n: "n < length hs" and pc: "HPc (hs ! n) = HQueued"
    and r: "handler_begin running copied (hs ! n, sls ! HSlot (hs ! n)) = (h, i)"
  shows "flow q (sls[HSlot (hs ! n) := i]) (hs[n := h]) c"
proof -
  let ?h = "hs ! n" let ?k = "HSlot ?h" let ?i = "sls ! ?k"
  have act: "active (HPc ?h)" using pc by (simp add: active_def)
  note la = link_active [OF l n act]
  have old: "handler_ok c ?h" using f n by (simp add: flow_def)
  have pd: "PendingDelivery ?i" "Phase ?i = RunningHandler" using la(3) pc by (simp_all add: linked_def)
  have idle: "HExecution ?h = None" "HAcknowledgement ?h = None" "handler_pending ?h = None"
    using old pc by (auto simp: handler_ok_def handler_pending_def)
  have i: "i = ?i\<lparr>PendingDelivery := False\<rparr>" using r by (simp add: handler_begin_def Let_def)
  have h: "HExecution h = None" "HAcknowledgement h = None" "running_of h = running_of ?h"
    "handler_pending h = Some (RequestId (SlotRequest ?i))"
    using r idle pc pd
    by (auto simp: handler_begin_def Let_def handler_pending_def running_of_def split: if_splits)
  have ok: "handler_ok c h"
    using r idle pd la(4) valid_small [of "SlotRequest ?i"]
    by (auto simp: handler_begin_def Let_def handler_ok_def waiting_of_def running_of_def slot_ok_def split: if_splits)
  have "slot_matches c ?i" using f la(1) by (simp add: flow_def)
  then have "slot_matches c i" by (simp add: i slot_matches_def)
  moreover have "pend (sls[?k := i]) (hs[n := h]) = pend sls hs"
  proof
    fix cid
    show "pend (sls[?k := i]) (hs[n := h]) cid = pend sls hs cid"
      using claims_update [OF la(1), of slot_pending i cid] claims_update [OF n, of handler_pending h cid] idle(3) h(4) pd
      by (simp add: pend_def i slot_pending_def)
  qed
  moreover have "held (sls[?k := i]) (hs[n := h]) = held sls hs"
    using claims_update_same [OF la(1), of AcknowledgementRecord i] claims_update_same [OF n, of HAcknowledgement h] idle(2) h(2)
    by (simp add: held_def [abs_def] i)
  moreover have "claims running_of (hs[n := h]) p = of_bool (open_record c p)" for p
    using f claims_update_same [OF n, of running_of h] h(3) by (simp add: flow_def)
  ultimately show ?thesis
    using f ok set_update_subset_insert [of sls ?k i] set_update_subset_insert [of hs n h]
    by (intro flow_change [OF f evolves_refl]) (auto simp: flow_def)
qed

lemma handler_continue_sel [simp]:
  "HSlot (handler_continue d e h) = HSlot h" "HRequest (handler_continue d e h) = HRequest h"
  "HPending (handler_continue d e h) = HPending h"
  "HPendingCorrelation (handler_continue d e h) = HPendingCorrelation h"
  "handler_pending (handler_continue d e h) = handler_pending h"
  "running_of (handler_continue d e h) = (case e of RunHandler p \<Rightarrow> Some p | _ \<Rightarrow> None)"
  "waiting_of (handler_continue d e h) = (case e of AwaitRecord p \<Rightarrow> Some p | _ \<Rightarrow> None)"
  "HExecution (handler_continue d e h) = (case e of Cached p \<Rightarrow> Some p | _ \<Rightarrow> HExecution h)"
  "HAcknowledgement (handler_continue d e h) = (case e of Cached p \<Rightarrow> Some p | _ \<Rightarrow> HAcknowledgement h)"
  by (cases e; simp add: handler_continue_def handler_pending_def running_of_def waiting_of_def)+

lemma flow_execution:
  assumes f: "flow q sls hs c" and n: "n < length hs" and ask: "asking (HPc (hs ! n))" and nr: "running_of (hs ! n) = None"
    and ev: "evolves {} c c'" and ok: "cache_ok q c'"
    and out: "outcome_ok c' (plus_claim (handler_base sls hs n) (handler_pending (hs ! n)))
       (handler_holds sls hs n) (HRequest (hs ! n)) e"
    and len: "(e = RunHandler (length (RecordHeap c)) \<and> length (RecordHeap c') = Suc (length (RecordHeap c))) \<or>
      ((\<nexists>p. e = RunHandler p) \<and> length (RecordHeap c') = length (RecordHeap c))"
  shows "flow q sls (hs[n := handler_continue d e (hs ! n)]) c'"
proof (rule flow_handler [OF f n ev ok])
  let ?h = "hs ! n"
  have old: "handler_ok c ?h" using f n by (simp add: flow_def)
  then have a: "HPending ?h" "HPendingCorrelation ?h = RequestId (HRequest ?h)" "HExecution ?h = None"
    "HAcknowledgement ?h = None" "length (Payload (HRequest ?h)) \<le> 32768"
    using ask by (auto simp: handler_ok_def)
  have resp: "Body (HResponse ?h) = []" "ResponseId (HResponse ?h) = RequestId (HRequest ?h)"
    using old a(3) by (auto simp: handler_ok_def)
  show "deliveries c' (plus_claim (handler_base sls hs n) (handler_pending (handler_continue d e ?h)))
     (plus_claim (handler_holds sls hs n) (HAcknowledgement (handler_continue d e ?h)))"
    using out a(4) by (cases e) simp_all
  show "handler_ok c' (handler_continue d e ?h)"
    using out a resp unfolding handler_ok_def
    by (cases e) (auto simp: handler_continue_def waiting_of_def running_of_def open_record_def matches_def)
  fix p
  have map: "map_ok c" "map_ok c'" using f ok by (simp_all add: flow_def cache_ok_def)
  have old_open: "claims running_of hs p = of_bool (open_record c p)" using f by (simp add: flow_def)
  have count: "claims running_of (hs[n := handler_continue d e ?h]) p =
      claims running_of hs p + of_bool (running_of (handler_continue d e ?h) = Some p)"
    using claims_update [OF n, of running_of "handler_continue d e ?h" p] nr by simp
  show "claims running_of (hs[n := handler_continue d e ?h]) p = of_bool (open_record c' p)"
  proof (cases "p < length (RecordHeap c)")
    case True
    then have "open_record c' p = open_record c p" by (intro evolves_open [OF ev]) auto
    moreover have "running_of (handler_continue d e ?h) \<noteq> Some p" using len True by (cases e) auto
    ultimately show ?thesis using count old_open by simp
  next
    case False
    then have "\<not> open_record c p" using mapped_less [OF map(1)] by (auto simp: open_record_def)
    moreover have "open_record c' p \<longleftrightarrow> running_of (handler_continue d e ?h) = Some p"
      using len out False mapped_less [OF map(2), of p]
      by (cases e) (auto simp: open_record_def less_Suc_eq)
    ultimately show ?thesis using count old_open by simp
  qed
qed

lemma handler_response_small:
  "ResponseId (handler_response callable answer request) = RequestId request \<and>
   length (Body (handler_response callable answer request)) \<le> 32768"
  using handler_response_ok by blast

lemma flow_return:
  assumes f: "flow q sls hs c" and n: "n < length hs" and pc: "HPc (hs ! n) = HRunning p d"
    and r: "ResponseId response = RequestId (HRequest (hs ! n))" "length (Body response) \<le> 32768"
  shows "flow q sls (hs[n := handler_continue d (Cached p) (hs ! n)]) (CompleteExecution q p response now c)"
proof -
  let ?h = "hs ! n" and ?c = "CompleteExecution q p response now c"
  have old: "handler_ok c ?h" using f n by (simp add: flow_def)
  have run: "running_of ?h = Some p" using pc by (simp add: running_of_def)
  then have a: "HPending ?h" "HPendingCorrelation ?h = RequestId (HRequest ?h)" "HExecution ?h = None"
    "HAcknowledgement ?h = None" "p < length (RecordHeap c)" "RcRequest (record_at c p) = HRequest ?h"
    using old pc by (auto simp: handler_ok_def)
  have "claims running_of hs p > 0" using claims_pos [of ?h hs running_of] n run by simp
  then have op: "open_record c p" using f by (simp add: flow_def)
  then have mp: "mapped c p" "\<not> IsComplete (record_at c p)" by (simp_all add: open_record_def)
  have c: "cache_ok q c" "map_ok c" using f by (simp_all add: flow_def cache_ok_def)
  obtain cid where "(cid, p) \<in> set (Records c)" using mp(1) by (auto simp: mapped_def)
  then have e: "(RequestId (HRequest ?h), p) \<in> set (Records c)"
    using map_okD(2) [OF c(2), of cid p] a(6) by simp
  have ev: "evolves {p} c ?c" by (rule evolves_CompleteExecution [OF a(5) mp(2)])
  have ok: "cache_ok q ?c" by (rule CompleteExecution_ok [OF c(1) e mp(2) r])
  have finished: "IsComplete (record_at ?c p)" "RcRequest (record_at ?c p) = HRequest ?h"
    using evolvesD(2) [OF ev a(5)] a(6) by (simp_all add: CompleteExecution_eq record_at_executed [OF a(5)] completed_def)
  show ?thesis
  proof (rule flow_handler [OF f n ev ok])
    have "deliveries c (plus_claim (handler_base sls hs n) (handler_pending ?h)) (handler_holds sls hs n)"
      using flow_handler_deliveries [OF f n] a(4) by simp
    from deliveries_CompleteExecution [OF this mp(1) a(5) mp(2), of q response now]
    show "deliveries ?c (plus_claim (handler_base sls hs n) (handler_pending (handler_continue d (Cached p) ?h)))
       (plus_claim (handler_holds sls hs n) (HAcknowledgement (handler_continue d (Cached p) ?h)))"
      by simp
    show "handler_ok ?c (handler_continue d (Cached p) ?h)"
      using a finished evolvesD(1) [OF ev a(5)] unfolding handler_ok_def
      by (auto simp: handler_continue_def waiting_of_def running_of_def matches_def SameRequest_def)
    fix p'
    have "claims running_of (hs[n := handler_continue d (Cached p) ?h]) p' + of_bool (p' = p) = claims running_of hs p'"
      using claims_update [OF n, of running_of "handler_continue d (Cached p) ?h" p'] run by auto
    moreover have "claims running_of hs p' = of_bool (open_record c p')" using f by (simp add: flow_def)
    moreover have "open_record ?c p' = open_record c p'" if "p' \<noteq> p"
    proof (cases "p' < length (RecordHeap c)")
      case True
      then show ?thesis using that by (intro evolves_open [OF ev]) auto
    next
      case False
      have "length (RecordHeap ?c) = length (RecordHeap c)" by (simp add: CompleteExecution_eq)
      then show ?thesis
        using False mapped_less [OF c(2), of p'] mapped_less [of ?c p'] ok by (auto simp: open_record_def cache_ok_def)
    qed
    moreover have "\<not> open_record ?c p" using finished(1) by (simp add: open_record_def)
    ultimately show "claims running_of (hs[n := handler_continue d (Cached p) ?h]) p' = of_bool (open_record ?c p')"
      using op by (cases "p' = p") auto
  qed
qed

lemma flow_settle:
  assumes f: "flow q sls hs c" and n: "n < length hs" and pc: "HPc (hs ! n) = HSettling \<or> HPc (hs ! n) = HFailing"
    and r: "handler_settle q now (hs ! n, c) = (h, c')"
  shows "flow q sls (hs[n := h]) c'"
proof -
  let ?h = "hs ! n"
  have old: "handler_ok c ?h" using f n by (simp add: flow_def)
  have c: "cache_ok q c" using f by (simp add: flow_def)
  have h: "h = ?h\<lparr>HPending := False, HPc := (if HPc ?h = HFailing then HAbandoning else HResponding)\<rparr>"
    and c': "c' = (if HPending ?h then CompletePendingDelivery q (HPendingCorrelation ?h) now c else c)"
    using r by (simp_all add: handler_settle_def)
  have s: "settles c c'" by (simp add: c' settles_def evolves_CompletePending)
  have ok: "cache_ok q c'" using c by (simp add: c' CompletePending_ok)
  let ?H = "plus_claim (handler_holds sls hs n) (HAcknowledgement ?h)"
  have base: "deliveries c (plus_claim (handler_base sls hs n) (handler_pending ?h)) ?H"
    by (rule flow_handler_deliveries [OF f n])
  have "deliveries c' (handler_base sls hs n) ?H"
  proof (cases "HPending ?h")
    case True
    then have "deliveries c ((handler_base sls hs n)
        (HPendingCorrelation ?h := handler_base sls hs n (HPendingCorrelation ?h) + 1)) ?H"
      using base by (simp add: handler_pending_def)
    from deliveries_CompletePending [OF this, of q "HPendingCorrelation ?h" now]
    show ?thesis using True by (simp add: c')
  next
    case False
    then show ?thesis using base by (simp add: c' handler_pending_def)
  qed
  then have d: "deliveries c' (plus_claim (handler_base sls hs n) (handler_pending h))
      (plus_claim (handler_holds sls hs n) (HAcknowledgement h))"
    by (simp add: h handler_pending_def)
  have run: "running_of h = running_of ?h" using pc by (auto simp: h running_of_def)
  have idle: "handler_ok c h"
    using old pc unfolding handler_ok_def by (auto simp: h waiting_of_def running_of_def)
  have "waiting_of h = None" by (simp add: h waiting_of_def)
  then have "handler_ok c' h"
    by (intro handler_ok_evolves [OF idle, of "{}"]) (use s c in \<open>simp_all add: settles_def cache_ok_def\<close>)
  then show ?thesis by (rule flow_handler_settles [OF f n s ok d run])
qed

lemma flow_release:
  assumes f: "flow q sls hs c" and n: "n < length hs" and pc: "HPc (hs ! n) = HReleasing"
    and r: "handler_release q now (hs ! n, c) = (h, c')"
  shows "flow q sls (hs[n := h]) c'"
proof -
  let ?h = "hs ! n"
  have old: "handler_ok c ?h" using f n by (simp add: flow_def)
  have c: "cache_ok q c" "map_ok c" using f by (simp_all add: flow_def cache_ok_def)
  have h: "h = ?h\<lparr>HAcknowledgement := None, HPc := HFinished\<rparr>"
    and c': "c' = (case HAcknowledgement ?h of None \<Rightarrow> c
       | Some p \<Rightarrow> CompleteDelivery q (RequestId (HRequest ?h)) p False now c)"
    using r by (simp_all add: handler_release_def)
  have s: "settles c c'" by (simp add: c' settles_def evolves_CompleteDelivery [OF c(2)] split: option.split)
  have ok: "cache_ok q c'" using c(1) by (simp add: c' CompleteDelivery_ok split: option.split)
  have d: "deliveries c' (plus_claim (handler_base sls hs n) (handler_pending h))
      (plus_claim (handler_holds sls hs n) (HAcknowledgement h))"
  proof (cases "HAcknowledgement ?h")
    case None
    then show ?thesis
      using flow_handler_deliveries [OF f n] by (simp add: h c' handler_pending_def split: if_splits)
  next
    case (Some p)
    then have m: "RequestId (RcRequest (record_at c p)) = RequestId (HRequest ?h)"
      using old by (auto simp: handler_ok_def matches_def)
    have "deliveries c (plus_claim (handler_base sls hs n) (handler_pending ?h))
        ((handler_holds sls hs n)(p := handler_holds sls hs n p + 1))"
      using flow_handler_deliveries [OF f n] Some by simp
    from deliveries_CompleteDelivery [OF this c(2) _ m, of q False now]
    show ?thesis using Some by (simp add: h c' handler_pending_def split: if_splits)
  qed
  have run: "running_of h = running_of ?h" using pc by (simp add: h running_of_def)
  have idle: "handler_ok c h" using old pc unfolding handler_ok_def by (auto simp: h waiting_of_def running_of_def)
  have "handler_ok c' h"
    by (rule handler_ok_evolves [OF idle, of "{}"]) (use s c in \<open>simp_all add: settles_def h waiting_of_def\<close>)
  then show ?thesis by (rule flow_handler_settles [OF f n s ok d run])
qed

text \<open>A step of the callback that only moves its program counter.\<close>

lemma flow_move:
  assumes f: "flow q sls hs c" and n: "n < length hs"
    and same: "running_of h = running_of (hs ! n)" "handler_pending h = handler_pending (hs ! n)"
      "HAcknowledgement h = HAcknowledgement (hs ! n)"
    and h: "handler_ok c h"
  shows "flow q sls (hs[n := h]) c"
  by (rule flow_handler_settles [OF f n settles_refl _ _ same(1) h])
    (use f flow_handler_deliveries [OF f n] same in \<open>simp_all add: flow_def\<close>)

subsection \<open>The end of a handler callback\<close>

lemma linked_free:
  assumes "link sls hs" "n < length hs" "active (HPc (hs ! n))" "HPc (hs ! n) \<noteq> HQueued"
  shows "slot_free (sls ! HSlot (hs ! n))" "slot_clear (sls ! HSlot (hs ! n))"
    "slot_after False (sls ! HSlot (hs ! n))" "Phase (sls ! HSlot (hs ! n)) = RunningHandler"
proof -
  note la = link_active [OF assms(1-3)]
  show ph: "Phase (sls ! HSlot (hs ! n)) = RunningHandler" using la(3) by (simp add: linked_def)
  have "\<not> PendingDelivery (sls ! HSlot (hs ! n))" using la(3) assms(4) by (simp add: linked_def)
  then show "slot_clear (sls ! HSlot (hs ! n))" using la(4) ph by (auto simp: slot_ok_def slot_clear_def delivering_def)
  show "slot_free (sls ! HSlot (hs ! n))" using la(2,4) ph by (auto simp: slot_ok_def slot_free_def)
  show "slot_after False (sls ! HSlot (hs ! n))" using la(2,4) by (simp add: slot_after_def)
qed

text \<open>The record moves from the callback to its instance.\<close>

lemma flow_hand_over:
  assumes f: "flow q sls hs c" and l: "link sls hs" and n: "n < length hs" and pc: "HPc (hs ! n) = HResponding"
  shows "flow q
     (sls[HSlot (hs ! n) := (sls ! HSlot (hs ! n))\<lparr>SlotResponse := responseToSend c (hs ! n),
            AcknowledgementRecord := HAcknowledgement (hs ! n)\<rparr>])
     (hs[n := (hs ! n)\<lparr>HAcknowledgement := None, HPc := HFinished\<rparr>]) c"
proof -
  let ?h = "hs ! n" let ?k = "HSlot ?h" let ?i = "sls ! ?k"
  let ?h' = "?h\<lparr>HAcknowledgement := None, HPc := HFinished\<rparr>"
  let ?i' = "?i\<lparr>SlotResponse := responseToSend c ?h, AcknowledgementRecord := HAcknowledgement ?h\<rparr>"
  have act: "active (HPc ?h)" "HPc ?h \<noteq> HQueued" using pc by (simp_all add: active_def)
  note la = link_active [OF l n act(1)] and free = linked_free [OF l n act]
  have old: "handler_ok c ?h" using f n by (simp add: flow_def)
  have clear: "AcknowledgementRecord ?i = None" "\<not> PendingDelivery ?i" using free(2) by (simp_all add: slot_clear_def)
  have ok: "handler_ok c ?h'" using old pc unfolding handler_ok_def by (auto simp: waiting_of_def running_of_def)
  have "slot_matches c ?i'"
    using old pc la(3) unfolding handler_ok_def
    by (auto simp: slot_matches_def responseToSend_def linked_def)
  moreover have "pend (sls[?k := ?i']) (hs[n := ?h']) = pend sls hs"
    using claims_update_same [OF la(1), of slot_pending ?i'] claims_update_same [OF n, of handler_pending ?h']
    by (simp add: pend_def [abs_def] slot_pending_def handler_pending_def)
  moreover have "held (sls[?k := ?i']) (hs[n := ?h']) = held sls hs"
  proof
    fix p
    show "held (sls[?k := ?i']) (hs[n := ?h']) p = held sls hs p"
      using claims_update [OF la(1), of AcknowledgementRecord ?i' p] claims_update [OF n, of HAcknowledgement ?h' p] clear
      by (simp add: held_def)
  qed
  moreover have "claims running_of (hs[n := ?h']) p = of_bool (open_record c p)" for p
    using f claims_update_same [OF n, of running_of ?h'] pc by (simp add: flow_def running_of_def)
  ultimately show ?thesis
    using f ok set_update_subset_insert [of sls ?k ?i'] set_update_subset_insert [of hs n ?h']
    by (intro flow_change [OF f evolves_refl]) (auto simp: flow_def)
qed

lemma flow_goes:
  assumes f: "flow q sls hs c" and k: "k < length sls"
    and g: "slot_goes q (slot_base sls hs k) (slot_holds sls hs k) running c (i, c')"
  shows "flow q (sls[k := i]) hs c'"
  using flow_slot [OF f k, of i c'] g by (simp add: slot_goes_def)

lemma respond_law:
  assumes f: "flow q sls hs c" and l: "link sls hs" and n: "n < length hs" and pc: "HPc (hs ! n) = HResponding"
    and r: "handler_respond q running a copied (hs ! n) (sls ! HSlot (hs ! n), c) = (h, (i, c'))"
  shows "flow q (sls[HSlot h := i]) (hs[n := h]) c'" "HSlot h = HSlot (hs ! n)" "\<not> active (HPc h)"
    "slot_after running i" "settles c c'"
proof -
  let ?h = "hs ! n" let ?k = "HSlot ?h" let ?i = "sls ! ?k"
  have act: "active (HPc ?h)" "HPc ?h \<noteq> HQueued" using pc by (simp_all add: active_def)
  note la = link_active [OF l n act(1)] and free = linked_free [OF l n act]
  have old: "handler_ok c ?h" using f n by (simp add: flow_def)
  let ?rel = "?h\<lparr>HPc := HReleasing\<rparr>" and ?fin = "?h\<lparr>HAcknowledgement := None, HPc := HFinished\<rparr>"
  have "handler_ok c ?rel" using old pc unfolding handler_ok_def by (auto simp: waiting_of_def running_of_def)
  then have rel: "flow q sls (hs[n := ?rel]) c"
    by (intro flow_move [OF f n]) (simp_all add: running_of_def pc handler_pending_def)
  have all: "flow q (sls[?k := i]) (hs[n := h]) c' \<and> HSlot h = ?k \<and> \<not> active (HPc h) \<and> slot_after running i \<and> settles c c'"
  proof -
    consider "\<not> running" | "running" "\<not> copied" | "running" "copied" by blast
    then show ?thesis
    proof cases
      case 1
      then have "h = ?rel" "i = ?i" "c' = c" using r by (auto simp: handler_respond_def)
      then show ?thesis using rel free(3) 1 by (simp add: active_def)
    next
      case 2
      have g: "slot_goes q (slot_base sls (hs[n := ?rel]) ?k) (slot_holds sls (hs[n := ?rel]) ?k) running c
          (FinishClientLocked q running a (?i, c))"
        by (rule FinishClient_law [OF flow_share [OF rel la(1)] free(1) slot_clear_single [OF free(2)]])
      have "h = ?rel" "FinishClientLocked q running a (?i, c) = (i, c')"
        using r 2 free(4) by (auto simp: handler_respond_def)
      then show ?thesis using g flow_goes [OF rel la(1), of running i c'] by (simp add: active_def slot_goes_def)
    next
      case 3
      let ?j = "?i\<lparr>SlotResponse := responseToSend c ?h, AcknowledgementRecord := HAcknowledgement ?h\<rparr>"
      let ?sls = "sls[?k := ?j]" and ?hs = "hs[n := ?fin]"
      have ho: "flow q ?sls ?hs c" by (rule flow_hand_over [OF f l n pc])
      have k: "?k < length ?sls" using la(1) by simp
      have share: "slot_share q (slot_base ?sls ?hs ?k) (slot_holds ?sls ?hs ?k) (?j, c)"
        using flow_share [OF ho k] la(1) by simp
      have j: "slot_free ?j" "slot_single ?j" "\<not> PendingDelivery ?j"
        using free(1,2) by (simp_all add: slot_free_def slot_single_def slot_clear_def)
      have fin: "slot_goes q (slot_base ?sls ?hs ?k) (slot_holds ?sls ?hs ?k) running c
          (FinishClientLocked q running a (?j, c))"
        by (rule FinishClient_law [OF share j(1,2)])
      have send: "slot_goes q (slot_base ?sls ?hs ?k) (slot_holds ?sls ?hs ?k) running c
          (transfer_or_finish q running a (StartTransferLocked running a OutHeader 32 True d
             (?j\<lparr>SlotResponseHeader := header, ResponseDeadline := d, Phase := WritingResponseHeader\<rparr>)) c)" for header d
      proof -
        let ?m = "?j\<lparr>SlotResponseHeader := header, ResponseDeadline := d, Phase := WritingResponseHeader\<rparr>"
        have m: "same_client ?j ?m" "slot_free ?m" "slot_single ?m"
          using j by (simp_all add: same_client_def slot_free_def slot_single_def)
        have sm: "slot_share q (slot_base ?sls ?hs ?k) (slot_holds ?sls ?hs ?k) (?m, c)"
          using share slot_share_same [OF m(1)] by simp
        show ?thesis
          by (rule transfer_law [OF sm m(2,3)]) (use j in \<open>auto simp: slot_ok_def slot_free_def delivering_def\<close>)
      qed
      have "h = ?fin \<and> slot_goes q (slot_base ?sls ?hs ?k) (slot_holds ?sls ?hs ?k) running c (i, c')"
      proof (cases "MakeResponseHeader (responseToSend c ?h)")
        case None
        then show ?thesis using r 3 free(4) fin by (auto simp: handler_respond_def Let_def)
      next
        case (Some header)
        then show ?thesis
          using r 3 free(4) send [of "DeadlineAfter (Tick a) (ResponseTimeoutMs q)" header]
          by (auto simp: handler_respond_def Let_def)
      qed
      then show ?thesis
        using flow_goes [OF ho k, of running i c'] by (simp add: active_def slot_goes_def)
    qed
  qed
  then show "flow q (sls[HSlot h := i]) (hs[n := h]) c'" "HSlot h = HSlot (hs ! n)" "\<not> active (HPc h)"
    "slot_after running i" "settles c c'" by auto
qed

lemma abandon_law:
  assumes f: "flow q sls hs c" and l: "link sls hs" and n: "n < length hs" and pc: "HPc (hs ! n) = HAbandoning"
    and r: "FinishClientLocked q running a (sls ! HSlot (hs ! n), c) = (i, c')"
  shows "flow q (sls[HSlot (hs ! n) := i]) (hs[n := (hs ! n)\<lparr>HPc := HFinished\<rparr>]) c'" "slot_after running i" "settles c c'"
proof -
  let ?h = "hs ! n" let ?k = "HSlot ?h" let ?fin = "?h\<lparr>HPc := HFinished\<rparr>"
  have act: "active (HPc ?h)" "HPc ?h \<noteq> HQueued" using pc by (simp_all add: active_def)
  note la = link_active [OF l n act(1)] and free = linked_free [OF l n act]
  have old: "handler_ok c ?h" using f n by (simp add: flow_def)
  have "handler_ok c ?fin" using old pc unfolding handler_ok_def by (auto simp: waiting_of_def running_of_def)
  then have fin: "flow q sls (hs[n := ?fin]) c"
    by (intro flow_move [OF f n]) (simp_all add: running_of_def pc handler_pending_def)
  have "slot_goes q (slot_base sls (hs[n := ?fin]) ?k) (slot_holds sls (hs[n := ?fin]) ?k) running c (i, c')"
    using FinishClient_law [OF flow_share [OF fin la(1)] free(1) slot_clear_single [OF free(2)], of running a] r by simp
  then show "flow q (sls[?k := i]) (hs[n := ?fin]) c'" "slot_after running i" "settles c c'"
    using flow_goes [OF fin la(1), of running i c'] by (simp_all add: slot_goes_def)
qed

end
