(* ===== verification/Server_Machine.thy ===== *)
theory Server_Machine
  imports Server_Invariant
begin

section \<open>Every step of the control server keeps its invariant\<close>

text \<open>
  The last parts of the invariant (the life cycle, the log of executions and replies), its preservation by every step, one
  lemma per kind of step, and the interpretation \<open>control_server\<close>.
\<close>

subsection \<open>Life cycle\<close>

definition stop_busy :: "stop_pc \<Rightarrow> bool" where
  "stop_busy pc \<longleftrightarrow> pc \<noteq> StopIdle \<and> pc \<noteq> StopEnding"

definition stop_drained :: "stop_pc \<Rightarrow> bool" where
  "stop_drained pc \<longleftrightarrow> pc = StopCleaning \<or> pc = StopRetiring \<or> pc = StopEnding"

fun stop_source :: "stop_pc \<Rightarrow> nat" where
  "stop_source (StopWaiting src) = src" | "stop_source (StopSignalling src) = src" | "stop_source _ = 0"

fun stop_waits :: "stop_pc \<Rightarrow> bool" where
  "stop_waits (StopWaiting src) = True" | "stop_waits StopIdle = True" | "stop_waits _ = False"

definition life :: "server \<Rightarrow> bool" where
  "life s \<longleftrightarrow> (Running s \<longrightarrow> DesiredRunning s) \<and> Accepting s = Running s \<and>
     (DesiredRunning s \<longrightarrow> \<not> StopRequested s \<and> \<not> Stopping s) \<and>
     (Starting s \<longrightarrow> \<not> Running s \<and> Slots s = [] \<and> stop_waits (StopPc s)) \<and>
     (Slots s \<noteq> [] \<longrightarrow> Running s \<or> StopRequested s) \<and> (Slots s = [] \<longrightarrow> Handlers s = []) \<and>
     (Stopping s \<longleftrightarrow> StopPc s \<noteq> StopIdle) \<and> (stop_busy (StopPc s) \<longrightarrow> StopRequested s) \<and>
     (stop_drained (StopPc s) \<longrightarrow> Slots s = []) \<and> stop_source (StopPc s) \<le> StopSource s \<and>
     (\<forall>src \<in> set (Signals s) \<union> set (Signalled s). src \<le> StopSource s \<and> (Running s \<longrightarrow> src \<noteq> StopSource s)) \<and>
     (DesiredRunning s \<or> Slots s \<noteq> [] \<or> Records (Cache s) \<noteq> [] \<longrightarrow> HasPruneTimer (Cache s))"

text \<open>What a step of a callback leaves alone.\<close>

definition same_life :: "server \<Rightarrow> server \<Rightarrow> bool" where
  "same_life s s' \<longleftrightarrow> DesiredRunning s' = DesiredRunning s \<and> Starting s' = Starting s \<and>
     Stopping s' = Stopping s \<and> StopRequested s' = StopRequested s \<and> Running s' = Running s \<and>
     Accepting s' = Accepting s \<and> StopSource s' = StopSource s \<and> Signals s' = Signals s \<and>
     Signalled s' = Signalled s \<and> StopPc s' = StopPc s \<and> length (Slots s') = length (Slots s) \<and>
     HasPruneTimer (Cache s') = HasPruneTimer (Cache s)"

lemma life_busy: "life s \<Longrightarrow> Slots s \<noteq> [] \<Longrightarrow> same_life s s' \<Longrightarrow> life s'"
  by (auto simp: life_def same_life_def)

subsection \<open>The record of what happened\<close>

text \<open>A reply that comes from a record is the recorded response of the execution of that request.\<close>

definition reply_ok :: "cache \<Rightarrow> Request \<times> Response \<times> nat option \<Rightarrow> bool" where
  "reply_ok c x \<longleftrightarrow> (\<forall>p. snd (snd x) = Some p \<longrightarrow> matches c p (fst x) \<and> IsComplete (record_at c p) \<and>
     fst (snd x) = RcResponse (record_at c p))"

lemma reply_ok_evolves:
  assumes "evolves X c c'" "reply_ok c x"
  shows "reply_ok c' x"
  unfolding reply_ok_def
proof (intro allI impI)
  fix p assume "snd (snd x) = Some p"
  then have "matches c p (fst x)" "IsComplete (record_at c p)" "fst (snd x) = RcResponse (record_at c p)"
    using assms(2) by (simp_all add: reply_ok_def)
  then show "matches c' p (fst x) \<and> IsComplete (record_at c' p) \<and> fst (snd x) = RcResponse (record_at c' p)"
    using evolves_matches [OF assms(1), of p "fst x"] evolvesD(3,4) [OF assms(1), of p] by (simp add: matches_def)
qed

definition log_ok :: "server \<Rightarrow> bool" where
  "log_ok s \<longleftrightarrow> map fst (Executions s) = [0..<length (RecordHeap (Cache s))] \<and>
     map snd (Executions s) = map (\<lambda>p. RcRequest (record_at (Cache s) p)) [0..<length (RecordHeap (Cache s))] \<and>
     (\<forall>x \<in> set (Replies s). reply_ok (Cache s) x)"

lemma log_evolves:
  assumes l: "log_ok s" and ev: "evolves X (Cache s) (Cache s')"
    and same: "Executions s' = Executions s" "length (RecordHeap (Cache s')) = length (RecordHeap (Cache s))"
    and new: "\<And>x. x \<in> set (Replies s') \<Longrightarrow> x \<in> set (Replies s) \<or> reply_ok (Cache s') x"
  shows "log_ok s'"
proof -
  have "map (\<lambda>p. RcRequest (record_at (Cache s') p)) [0..<length (RecordHeap (Cache s))] =
      map (\<lambda>p. RcRequest (record_at (Cache s) p)) [0..<length (RecordHeap (Cache s))]"
    using evolvesD(2) [OF ev] by simp
  moreover have "reply_ok (Cache s') x" if "x \<in> set (Replies s')" for x
    using new [OF that] l reply_ok_evolves [OF ev, of x] by (auto simp: log_ok_def simp del: split_paired_All)
  ultimately show ?thesis
    using l same unfolding log_ok_def by simp
qed

subsection \<open>The invariant\<close>

definition core :: "ServerOptions \<Rightarrow> server \<Rightarrow> bool" where
  "core q s \<longleftrightarrow> (if StopPc s = StopCleaning then cache_ok q (Cache s) \<and> (\<forall>p. \<not> open_record (Cache s) p)
     else flow q (Slots s) (Handlers s) (Cache s)) \<and> link (Slots s) (Handlers s) \<and>
     (Running s \<longrightarrow> alive (Slots s) (Handlers s))"

definition server_inv :: "ServerOptions \<Rightarrow> server \<Rightarrow> bool" where
  "server_inv q s \<longleftrightarrow> life s \<and> core q s \<and> log_ok s"

lemma server_inv_start: "server_inv q new_server"
  by (simp add: server_inv_def life_def core_def log_ok_def flow_def link_def alive_def new_server_def
      new_cache_ok deliveries_def pend_def held_def new_cache_def pending_count_def mapped_def open_record_def
      stop_busy_def stop_drained_def)
    (simp add: cache_ok_def map_ok_def size_ok_def timer_ok_def)

lemma busy_flow:
  assumes "server_inv q s" "Slots s \<noteq> []"
  shows "flow q (Slots s) (Handlers s) (Cache s)" "StopPc s \<noteq> StopCleaning" "link (Slots s) (Handlers s)"
proof -
  show "StopPc s \<noteq> StopCleaning" using assms by (auto simp: server_inv_def life_def stop_drained_def)
  then show "flow q (Slots s) (Handlers s) (Cache s)" "link (Slots s) (Handlers s)"
    using assms(1) by (simp_all add: server_inv_def core_def)
qed

text \<open>A step of a callback: the three parts for the new instances, handlers and cache.\<close>

lemma busy_step:
  assumes inv: "server_inv q s" and ne: "Slots s \<noteq> []" and life: "same_life s s'"
    and f: "flow q (Slots s') (Handlers s') (Cache s')" and l: "link (Slots s') (Handlers s')"
    and a: "Running s \<Longrightarrow> alive (Slots s') (Handlers s')" and log: "log_ok s'"
  shows "server_inv q s'"
proof -
  have "StopPc s' \<noteq> StopCleaning" using busy_flow(2) [OF inv ne] life by (simp add: same_life_def)
  then show ?thesis
    using inv ne life f l a log life_busy [of s s'] by (auto simp: server_inv_def core_def same_life_def)
qed

subsection \<open>Callbacks of instances\<close>

lemma answer_callback_sel:
  assumes "Outstanding i = [cb]" "slot_ok i"
  shows "Outstanding (answer_callback cb i) = []" "same_client i (answer_callback cb i)"
    "slot_ok (answer_callback cb i)" "Phase (answer_callback cb i) = Phase i"
    "RecreateScheduled (answer_callback cb i) = RecreateScheduled i"
    "owed_in cb' (answer_callback cb i) = owed_in cb' i" "fits x (answer_callback cb i) = fits x i"
  using assms by (simp_all add: answer_callback_def same_client_def slot_ok_def)
    (cases cb'; simp; fail | cases x; simp; fail)+

lemma on_slot_cache_inv:
  assumes inv: "server_inv q s" and owes: "owes s k cb"
    and moves: "slot_moves q (slot_base (Slots s) (Handlers s) k) (slot_holds (Slots s) (Handlers s) k) (Running s)
       (Cache s) (f (answer_callback cb (Slots s ! k), Cache s))"
  shows "server_inv q (on_slot_cache k cb f s)"
proof -
  let ?sls = "Slots s" and ?hs = "Handlers s" and ?c = "Cache s"
  have k: "k < length ?sls" "cb \<in> set (Outstanding (?sls ! k))" using owes by (simp_all add: owes_def)
  then have ne: "?sls \<noteq> []" by auto
  note b = busy_flow [OF inv ne]
  note o = link_owed [OF b(3) k]
  have alive: "Running s \<Longrightarrow> alive ?sls ?hs" using inv by (simp add: server_inv_def core_def)
  obtain i c sub where r: "f (answer_callback cb (?sls ! k), ?c) = ((i, c), sub)"
    by (metis surj_pair)
  have s': "on_slot_cache k cb f s =
      s\<lparr>Slots := ?sls[k := i], Cache := c, Handlers := ?hs @ (if sub then [new_handler k] else [])\<rparr>"
    by (simp add: on_slot_cache_def r put_slot_def)
  have set: "settles ?c c" "slot_share q (slot_base ?sls ?hs k) (slot_holds ?sls ?hs k) (i, c)"
    using moves by (auto simp: r slot_moves_def slot_goes_def split: if_splits)
  have f1: "flow q (?sls[k := i]) ?hs c" by (rule flow_slot [OF b(1) k(1) set(2,1)])
  show ?thesis
  proof (rule busy_step [OF inv ne])
    show "same_life s (on_slot_cache k cb f s)"
      using set(1) by (simp add: s' same_life_def settles_def evolves_def)
    show "log_ok (on_slot_cache k cb f s)"
      by (rule log_evolves [of s "{}"]) (use inv set(1) in \<open>simp_all add: s' server_inv_def settles_def\<close>)
    show "flow q (Slots (on_slot_cache k cb f s)) (Handlers (on_slot_cache k cb f s)) (Cache (on_slot_cache k cb f s))"
      using f1 flow_submit [OF f1, of k] by (simp add: s')
    show "link (Slots (on_slot_cache k cb f s)) (Handlers (on_slot_cache k cb f s))"
      using moves link_slot [OF b(3) o(1) k(1), of "Running s" i] link_submit [OF b(3) o(1) k(1), of i]
      by (auto simp: s' r slot_moves_def slot_goes_def)
    show "Running s \<Longrightarrow> alive (Slots (on_slot_cache k cb f s)) (Handlers (on_slot_cache k cb f s))"
      using moves alive_slot [OF alive o(1) k(1), of i] alive_submit [OF alive o(1) k(1), of i]
      by (auto simp: s' r slot_moves_def slot_goes_def)
  qed
qed

lemma on_slot_eq: "on_slot k cb f s = on_slot_cache k cb (\<lambda>(i, c). ((f i, c), False)) s"
  by (simp add: on_slot_def on_slot_cache_def put_slot_def)

lemma on_slot_inv:
  assumes inv: "server_inv q s" and owes: "owes s k cb"
    and law: "slot_after (Running s) (f (answer_callback cb (Slots s ! k))) \<and>
       same_client (answer_callback cb (Slots s ! k)) (f (answer_callback cb (Slots s ! k)))"
  shows "server_inv q (on_slot k cb f s)"
  unfolding on_slot_eq
proof (rule on_slot_cache_inv [OF inv owes])
  let ?i = "Slots s ! k"
  have k: "k < length (Slots s)" "cb \<in> set (Outstanding ?i)" using owes by (simp_all add: owes_def)
  then have ne: "Slots s \<noteq> []" by auto
  note b = busy_flow [OF inv ne]
  note o = link_owed [OF b(3) k]
  show "slot_moves q (slot_base (Slots s) (Handlers s) k) (slot_holds (Slots s) (Handlers s) k) (Running s) (Cache s)
      (case (answer_callback cb ?i, Cache s) of (i, c) \<Rightarrow> ((f i, c), False))"
    using law flow_share [OF b(1) k(1)] slot_share_same [OF answer_callback_sel(2) [OF o(2,4)]]
      slot_share_same [of "answer_callback cb ?i" "f (answer_callback cb ?i)"]
    by (simp add: slot_goes_def)
qed

subsection \<open>Sections of handler callbacks\<close>

lemma handler_slots: "server_inv q s \<Longrightarrow> n < length (Handlers s) \<Longrightarrow> Slots s \<noteq> []"
  by (auto simp: server_inv_def life_def)

lemma handler_inv:
  assumes inv: "server_inv q s" and n: "n < length (Handlers s)" and act: "active (HPc (Handlers s ! n))"
    and s': "same_life s s'" "Handlers s' = (Handlers s)[n := h]" "Slots s' = (Slots s)[HSlot h := i]"
    and h: "HSlot h = HSlot (Handlers s ! n)" "active (HPc h) \<Longrightarrow> linked h i"
    and i: "slot_ok i" "length (Outstanding i) = of_bool (Running s \<and> \<not> active (HPc h))"
    and f: "flow q (Slots s') (Handlers s') (Cache s')" and log: "log_ok s'"
  shows "server_inv q s'"
proof -
  have ne: "Slots s \<noteq> []" by (rule handler_slots [OF inv n])
  note b = busy_flow [OF inv ne]
  have k: "HSlot h < length (Slots s)" using link_active(1) [OF b(3) n act] h(1) by simp
  have "link (Slots s') (Handlers s')"
    unfolding s' by (rule link_handler [OF b(3) n act h(1) i(1) _ h(2)]) (use i(2) in \<open>auto split: if_splits\<close>)
  moreover have "alive (Slots s') (Handlers s')" if "Running s"
    unfolding s' using inv that i(2)
    by (intro alive_handler [OF _ n act h(1) k]) (auto simp: server_inv_def core_def)
  ultimately show ?thesis using busy_step [OF inv ne s'(1) f _ _ log] by blast
qed

text \<open>The callback stays at its instance and leaves it alone.\<close>

lemma handler_stays:
  assumes inv: "server_inv q s" and n: "n < length (Handlers s)" and act: "active (HPc (Handlers s ! n))"
    and pc: "HPc (Handlers s ! n) \<noteq> HQueued"
    and s': "same_life s s'" "Handlers s' = (Handlers s)[n := h]" "Slots s' = Slots s"
    and h: "HSlot h = HSlot (Handlers s ! n)" "active (HPc h)" "HPc h \<noteq> HQueued"
      "asking (HPc h) \<or> HExecution h \<noteq> None \<Longrightarrow> asking (HPc (Handlers s ! n)) \<or> HExecution (Handlers s ! n) \<noteq> None"
      "HRequest h = HRequest (Handlers s ! n)" "HPendingCorrelation h = HPendingCorrelation (Handlers s ! n)"
    and f: "flow q (Slots s) (Handlers s') (Cache s')" and log: "log_ok s'"
  shows "server_inv q s'"
proof (rule handler_inv [OF inv n act s'(1,2) _ h(1)])
  have ne: "Slots s \<noteq> []" by (rule handler_slots [OF inv n])
  note b = busy_flow [OF inv ne] note la = link_active [OF b(3) n act]
  show "Slots s' = (Slots s)[HSlot h := Slots s ! HSlot h]" by (simp add: s'(3))
  show "linked h (Slots s ! HSlot h)" using la(3) pc h by (auto simp: linked_def)
  show "slot_ok (Slots s ! HSlot h)" "length (Outstanding (Slots s ! HSlot h)) = of_bool (Running s \<and> \<not> active (HPc h))"
    using la(2,4) h(1,2) by simp_all
  show "flow q (Slots s') (Handlers s') (Cache s')" using f by (simp add: s'(3))
qed (fact log)

lemma settles_life: "settles c c' \<Longrightarrow> HasPruneTimer c' = HasPruneTimer c"
  by (simp add: settles_def evolves_def)

lemma settles_log:
  assumes "log_ok s" "settles (Cache s) (Cache s')" "Executions s' = Executions s" "Replies s' = Replies s"
  shows "log_ok s'"
  using assms by (intro log_evolves [of s "{}" s']) (simp_all add: settles_def)

lemma begin_inv:
  assumes inv: "server_inv q s" and e: "at_pc s n HQueued"
  shows "server_inv q (server_step q s (EvBegin n copied))"
proof -
  let ?h = "Handlers s ! n"
  have n: "n < length (Handlers s)" and pc: "HPc ?h = HQueued" using e by (simp_all add: at_pc_def)
  have act: "active (HPc ?h)" using pc by (simp add: active_def)
  note b = busy_flow [OF inv handler_slots [OF inv n]] note la = link_active [OF b(3) n act]
  obtain h i where r: "handler_begin (Running s) copied (?h, Slots s ! HSlot ?h) = (h, i)" by force
  have h: "HSlot h = HSlot ?h" "i = (Slots s ! HSlot ?h)\<lparr>PendingDelivery := False\<rparr>" "HPc h = HExecuting \<or> HPc h = HSettling"
    and req: "HPc h = HExecuting \<Longrightarrow> HRequest h = SlotRequest i" "HExecution h = HExecution ?h"
      "HPendingCorrelation h = RequestId (SlotRequest i)"
    using r by (auto simp: handler_begin_def Let_def split: if_splits)
  have "handler_ok (Cache s) ?h" using b(1) n by (simp add: flow_def)
  then have "HExecution ?h = None" using pc by (auto simp: handler_ok_def)
  moreover have "Phase i = RunningHandler" using la(3) by (simp add: h(2) linked_def)
  ultimately have link: "linked h i"
    using h(2,3) req by (auto simp: linked_def)
  have s': "server_step q s (EvBegin n copied) = s\<lparr>Handlers := (Handlers s)[n := h], Slots := (Slots s)[HSlot h := i]\<rparr>"
    using r by (simp add: put_handler_def)
  show ?thesis
  proof (rule handler_inv [OF inv n act, of _ h i])
    show "flow q (Slots (server_step q s (EvBegin n copied))) (Handlers (server_step q s (EvBegin n copied)))
        (Cache (server_step q s (EvBegin n copied)))"
      using flow_begin [OF b(1,3) n pc r] h(1) by (simp add: s' del: server_step.simps)
    show "log_ok (server_step q s (EvBegin n copied))"
      by (rule settles_log [of s]) (use inv in \<open>simp_all add: s' server_inv_def del: server_step.simps\<close>)
    show "length (Outstanding i) = of_bool (Running s \<and> \<not> active (HPc h))"
      using la(2) h by (auto simp: active_def)
    show "slot_ok i" using la(2,4) by (simp add: h(2) slot_ok_def)
  qed (use h link in \<open>simp_all add: s' same_life_def del: server_step.simps\<close>)
qed

lemma asking_active: "asking pc \<Longrightarrow> active pc \<and> pc \<noteq> HQueued"
  by (cases pc) (simp_all add: active_def)

lemma handler_continue_active: "active (HPc (handler_continue d e h)) \<and> HPc (handler_continue d e h) \<noteq> HQueued"
  by (cases e) (simp_all add: handler_continue_def active_def)

lemma execution_inv:
  assumes inv: "server_inv q s" and n: "n < length (Handlers s)" and ask: "asking (HPc (Handlers s ! n))"
    and nr: "running_of (Handlers s ! n) = None"
    and ev: "evolves {} (Cache s) c" and ok: "cache_ok q c"
    and out: "outcome_ok c (plus_claim (handler_base (Slots s) (Handlers s) n) (handler_pending (Handlers s ! n)))
       (handler_holds (Slots s) (Handlers s) n) (HRequest (Handlers s ! n)) e"
    and len: "(\<exists>rec. e = RunHandler (length (RecordHeap (Cache s))) \<and> RecordHeap c = RecordHeap (Cache s) @ [rec] \<and>
        RcRequest rec = HRequest (Handlers s ! n)) \<or>
      ((\<nexists>p. e = RunHandler p) \<and> length (RecordHeap c) = length (RecordHeap (Cache s)))"
  shows "server_inv q (handler_executes n d (c, e) s)"
proof -
  let ?h = "Handlers s ! n" and ?s = "handler_executes n d (c, e) s"
  have act: "active (HPc ?h)" "HPc ?h \<noteq> HQueued" using asking_active [OF ask] by simp_all
  note b = busy_flow [OF inv handler_slots [OF inv n]]
  have old: "handler_ok (Cache s) ?h" using b(1) n by (simp add: flow_def)
  have s': "Handlers ?s = (Handlers s)[n := handler_continue d e ?h]" "Slots ?s = Slots s" "Cache ?s = c"
    "Replies ?s = Replies s" "same_life s ?s"
    using evolves_entries(3) [OF ev]
    by (simp_all add: handler_executes_def Let_def put_handler_def same_life_def split: execution.split)
  have ex: "Executions ?s = Executions s @ (case e of RunHandler p \<Rightarrow> [(p, HRequest ?h)] | _ \<Rightarrow> [])"
    by (simp add: handler_executes_def Let_def put_handler_def split: execution.split)
  have f: "flow q (Slots s) (Handlers ?s) (Cache ?s)"
    unfolding s' by (rule flow_execution [OF b(1) n ask nr ev ok out]) (use len in auto)
  have log0: "log_ok s" using inv by (simp add: server_inv_def)
  have "log_ok ?s"
  proof (cases "\<exists>p. e = RunHandler p")
    case False
    then have "Executions ?s = Executions s" using ex by (cases e) auto
    then show ?thesis
      using len False by (intro log_evolves [OF log0, of "{}"]) (auto simp: s' ev)
  next
    case True
    then obtain r where r: "e = RunHandler (length (RecordHeap (Cache s)))"
        "RecordHeap c = RecordHeap (Cache s) @ [r]" "RcRequest r = HRequest ?h"
      using len by auto
    have at: "p < length (RecordHeap (Cache s)) \<Longrightarrow> record_at c p = record_at (Cache s) p"
      "record_at c (length (RecordHeap (Cache s))) = r" for p
      by (simp_all add: record_at_def r(2) nth_append)
    have "reply_ok c x" if "reply_ok (Cache s) x" for x
      by (rule reply_ok_evolves [OF ev that])
    moreover have "Executions ?s = Executions s @ [(length (RecordHeap (Cache s)), HRequest ?h)]"
      using ex r(1) by simp
    ultimately show ?thesis
      using log0 unfolding log_ok_def s' by (auto simp: r(2,3) at)
  qed
  then show ?thesis
    by (rule handler_stays [OF inv n act s'(5,1,2) _ _ _ _ _ _ f, rotated -1])
      (use handler_continue_active ask in auto)
qed

lemma execute_inv:
  assumes inv: "server_inv q s" and e: "at_pc s n HExecuting"
  shows "server_inv q (server_step q s (EvExecute n apartment allocated a))"
proof -
  let ?h = "Handlers s ! n"
  have n: "n < length (Handlers s)" and pc: "HPc ?h = HExecuting" using e by (simp_all add: at_pc_def)
  have act: "active (HPc ?h)" "HPc ?h \<noteq> HQueued" using pc by (simp_all add: active_def)
  note b = busy_flow [OF inv handler_slots [OF inv n]]
  have old: "handler_ok (Cache s) ?h" using b(1) n by (simp add: flow_def)
  show ?thesis
  proof (cases apartment)
    case False
    let ?h' = "?h\<lparr>HPc := HSettling\<rparr>"
    have "handler_ok (Cache s) ?h'" using old pc unfolding handler_ok_def by (auto simp: waiting_of_def running_of_def)
    then have "flow q (Slots s) ((Handlers s)[n := ?h']) (Cache s)"
      by (intro flow_move [OF b(1) n]) (simp_all add: running_of_def pc handler_pending_def)
    moreover have "server_step q s (EvExecute n apartment allocated a) = put_handler n ?h' s"
      using False by (simp add: Let_def)
    moreover have "log_ok (put_handler n ?h' s)"
      by (rule settles_log [of s]) (use inv in \<open>simp_all add: put_handler_def server_inv_def\<close>)
    ultimately show ?thesis
      using pc by (intro handler_stays [OF inv n act, of _ ?h'])
        (simp_all add: put_handler_def same_life_def active_def del: server_step.simps)
  next
    case True
    let ?d = "DeadlineAfter (Tick a) (HandlerTimeoutMs q)"
    obtain c x where r: "ExecuteOnce q (stop_token s) (Tick a) ?d (CacheNow a) allocated (HRequest ?h) (Cache s) = (c, x)"
      by force
    have h: "HAcknowledgement ?h = None" "length (Payload (HRequest ?h)) \<le> 32768"
      using old pc by (simp_all add: handler_ok_def)
    have d: "deliveries (Cache s) (plus_claim (handler_base (Slots s) (Handlers s) n) (handler_pending ?h))
        (handler_holds (Slots s) (Handlers s) n)"
      using flow_handler_deliveries [OF b(1) n] h(1) by simp
    have ok: "cache_ok q (Cache s)" using b(1) by (simp add: flow_def)
    note laws = ExecuteOnce_laws [OF ok d h(2) r]
    have "server_inv q (handler_executes n ?d (c, x) s)"
      by (rule execution_inv [OF inv n _ _ laws(2,1,3,4)]) (simp_all add: pc running_of_def)
    then show ?thesis using True r by (simp add: Let_def)
  qed
qed

lemma wake_inv_server:
  assumes inv: "server_inv q s" and n: "n < length (Handlers s)" and pc: "HPc (Handlers s ! n) = HWaiting p d"
  shows "server_inv q (server_step q s (EvWake n a))"
proof -
  let ?h = "Handlers s ! n"
  note b = busy_flow [OF inv handler_slots [OF inv n]]
  have old: "handler_ok (Cache s) ?h" using b(1) n by (simp add: flow_def)
  obtain c x where r: "await_round (stop_token s) (Tick a) d (HRequest ?h) p (Cache s) = (c, x)" by force
  have h: "HAcknowledgement ?h = None" "matches (Cache s) p (HRequest ?h)" "mapped (Cache s) p"
    using old pc by (simp_all add: handler_ok_def waiting_of_def)
  have dl: "deliveries (Cache s) (plus_claim (handler_base (Slots s) (Handlers s) n) (handler_pending ?h))
      (handler_holds (Slots s) (Handlers s) n)"
    using flow_handler_deliveries [OF b(1) n] h(1) by simp
  have ok: "cache_ok q (Cache s)" using b(1) by (simp add: flow_def)
  note laws = await_round_laws [OF ok dl h(2,3) r]
  have "server_inv q (handler_executes n d (c, x) s)"
    by (rule execution_inv [OF inv n _ _ laws(2,1,3)]) (use laws(4,5) in \<open>simp_all add: pc running_of_def\<close>)
  then show ?thesis using r pc by simp
qed

lemma return_inv:
  assumes inv: "server_inv q s" and n: "n < length (Handlers s)" and pc: "HPc (Handlers s ! n) = HRunning p d"
  shows "server_inv q (server_step q s (EvReturn n answer completedAt))"
proof -
  let ?h = "Handlers s ! n" and ?r = "handler_response (Callable s) answer (HRequest (Handlers s ! n))"
  let ?c = "CompleteExecution q p ?r completedAt (Cache s)"
  note b = busy_flow [OF inv handler_slots [OF inv n]]
  have old: "handler_ok (Cache s) ?h" using b(1) n by (simp add: flow_def)
  have act: "active (HPc ?h)" "HPc ?h \<noteq> HQueued" using pc by (simp_all add: active_def)
  have f: "flow q (Slots s) ((Handlers s)[n := handler_continue d (Cached p) ?h]) ?c"
    by (rule flow_return [OF b(1) n pc]) (simp_all add: handler_response_ok)
  have run: "p < length (RecordHeap (Cache s))" using old pc by (simp add: handler_ok_def running_of_def)
  have "claims running_of (Handlers s) p > 0"
    using claims_pos [of ?h "Handlers s" running_of p] n pc by (simp add: running_of_def)
  then have "\<not> IsComplete (record_at (Cache s) p)" using b(1) by (simp add: flow_def open_record_def)
  then have ev: "evolves {p} (Cache s) ?c" by (rule evolves_CompleteExecution [OF run])
  have s': "server_step q s (EvReturn n answer completedAt) = (put_handler n (handler_continue d (Cached p) ?h) s)\<lparr>Cache := ?c\<rparr>"
    using pc by (simp add: handler_returns_def put_handler_def Let_def)
  show ?thesis
  proof (rule handler_stays [OF inv n act])
    show "log_ok (server_step q s (EvReturn n answer completedAt))"
      by (rule log_evolves [of s "{p}"])
        (use inv ev in \<open>simp_all add: s' put_handler_def server_inv_def CompleteExecution_eq del: server_step.simps\<close>)
    show "flow q (Slots s) (Handlers (server_step q s (EvReturn n answer completedAt)))
        (Cache (server_step q s (EvReturn n answer completedAt)))"
      using f by (simp add: s' put_handler_def del: server_step.simps)
    show "same_life s (server_step q s (EvReturn n answer completedAt))"
      by (simp add: s' same_life_def put_handler_def CompleteExecution_eq del: server_step.simps)
    show "Handlers (server_step q s (EvReturn n answer completedAt)) = (Handlers s)[n := handler_continue d (Cached p) ?h]"
      "Slots (server_step q s (EvReturn n answer completedAt)) = Slots s"
      by (simp_all add: s' put_handler_def del: server_step.simps)
  qed (use handler_continue_active pc in auto)
qed

lemma settle_inv:
  assumes inv: "server_inv q s" and e: "at_pc s n HSettling \<or> at_pc s n HFailing"
  shows "server_inv q (server_step q s (EvSettle n now))"
proof -
  let ?h = "Handlers s ! n"
  have n: "n < length (Handlers s)" and pc: "HPc ?h = HSettling \<or> HPc ?h = HFailing" using e by (auto simp: at_pc_def)
  have act: "active (HPc ?h)" "HPc ?h \<noteq> HQueued" using pc by (auto simp: active_def)
  note b = busy_flow [OF inv handler_slots [OF inv n]]
  obtain h c where r: "handler_settle q now (?h, Cache s) = (h, c)" by force
  have h: "h = ?h\<lparr>HPending := False, HPc := (if HPc ?h = HFailing then HAbandoning else HResponding)\<rparr>"
    and c: "settles (Cache s) c"
    using r by (auto simp: handler_settle_def settles_def evolves_CompletePending)
  have s': "server_step q s (EvSettle n now) = (put_handler n h s)\<lparr>Cache := c\<rparr>" by (simp add: r)
  show ?thesis
  proof (rule handler_stays [OF inv n act, of _ h])
    show "log_ok (server_step q s (EvSettle n now))"
      by (rule settles_log [of s]) (use inv c in \<open>simp_all add: s' put_handler_def server_inv_def del: server_step.simps\<close>)
    show "flow q (Slots s) (Handlers (server_step q s (EvSettle n now))) (Cache (server_step q s (EvSettle n now)))"
      using flow_settle [OF b(1) n pc r] by (simp add: s' put_handler_def del: server_step.simps)
    show "same_life s (server_step q s (EvSettle n now))"
      using settles_life [OF c] by (simp add: s' same_life_def put_handler_def del: server_step.simps)
  qed (auto simp: s' put_handler_def h active_def simp del: server_step.simps split: if_splits)
qed

lemma respond_inv:
  assumes inv: "server_inv q s" and e: "at_pc s n HResponding"
  shows "server_inv q (server_step q s (EvRespond n copied a))"
proof -
  let ?h = "Handlers s ! n" and ?s = "server_step q s (EvRespond n copied a)"
  have n: "n < length (Handlers s)" and pc: "HPc ?h = HResponding" using e by (simp_all add: at_pc_def)
  have act: "active (HPc ?h)" "HPc ?h \<noteq> HQueued" using pc by (simp_all add: active_def)
  note b = busy_flow [OF inv handler_slots [OF inv n]] note la = link_active [OF b(3) n act(1)]
  have old: "handler_ok (Cache s) ?h" using b(1) n by (simp add: flow_def)
  obtain h i c where r: "handler_respond q (Running s) a copied ?h (Slots s ! HSlot ?h, Cache s) = (h, (i, c))"
    by (metis surj_pair)
  note laws = respond_law [OF b(1,3) n pc r]
  let ?new = "if Running s \<and> Phase (Slots s ! HSlot ?h) = RunningHandler \<and> copied
       then [(SlotRequest (Slots s ! HSlot ?h), responseToSend (Cache s) ?h, HAcknowledgement ?h)] else []"
  have eq: "?s = s\<lparr>Slots := (Slots s)[HSlot ?h := i], Cache := c, Handlers := (Handlers s)[n := h], Replies := Replies s @ ?new\<rparr>"
    by (simp add: handler_responds_def Let_def r put_handler_def put_slot_def)
  have s': "Slots ?s = (Slots s)[HSlot h := i]" "Handlers ?s = (Handlers s)[n := h]" "Cache ?s = c"
    "Executions ?s = Executions s" "same_life s ?s" "Replies ?s = Replies s @ ?new"
    using laws(2) settles_life [OF laws(5)] by (simp_all add: eq same_life_def del: server_step.simps)
  have ev: "evolves {} (Cache s) c" using laws(5) by (simp add: settles_def)
  have "reply_ok (Cache s) (SlotRequest (Slots s ! HSlot ?h), responseToSend (Cache s) ?h, HAcknowledgement ?h)"
    unfolding reply_ok_def
  proof (intro allI impI)
    fix p assume "snd (snd (SlotRequest (Slots s ! HSlot ?h), responseToSend (Cache s) ?h, HAcknowledgement ?h)) = Some p"
    then have p: "HAcknowledgement ?h = Some p" by simp
    then have x: "HExecution ?h = Some p" "matches (Cache s) p (HRequest ?h)" "IsComplete (record_at (Cache s) p)"
      using old by (simp_all add: handler_ok_def)
    moreover have "HRequest ?h = SlotRequest (Slots s ! HSlot ?h)" using la(3) x(1) by (simp add: linked_def)
    ultimately show "matches (Cache s) p (fst (SlotRequest (Slots s ! HSlot ?h), responseToSend (Cache s) ?h, HAcknowledgement ?h)) \<and>
        IsComplete (record_at (Cache s) p) \<and>
        fst (snd (SlotRequest (Slots s ! HSlot ?h), responseToSend (Cache s) ?h, HAcknowledgement ?h)) = RcResponse (record_at (Cache s) p)"
      by (simp add: responseToSend_def)
  qed
  then have reply: "reply_ok c (SlotRequest (Slots s ! HSlot ?h), responseToSend (Cache s) ?h, HAcknowledgement ?h)"
    by (rule reply_ok_evolves [OF ev])
  show ?thesis
  proof (rule handler_inv [OF inv n act(1) s'(5,2,1) laws(2)])
    show "log_ok ?s"
    proof (rule log_evolves [of s "{}"])
      show "x \<in> set (Replies s) \<or> reply_ok (Cache ?s) x" if "x \<in> set (Replies ?s)" for x
        using that reply unfolding s' by (auto split: if_splits)
    qed (use inv ev laws(5) in \<open>simp_all add: s' server_inv_def settles_def del: server_step.simps\<close>)
    show "flow q (Slots ?s) (Handlers ?s) (Cache ?s)" unfolding s' by (rule laws(1))
  qed (use laws(3,4) in \<open>auto simp: slot_after_def\<close>)
qed

lemma abandon_inv:
  assumes inv: "server_inv q s" and e: "at_pc s n HAbandoning"
  shows "server_inv q (server_step q s (EvAbandon n a))"
proof -
  let ?h = "Handlers s ! n" and ?s = "server_step q s (EvAbandon n a)"
  have n: "n < length (Handlers s)" and pc: "HPc ?h = HAbandoning" using e by (simp_all add: at_pc_def)
  have act: "active (HPc ?h)" using pc by (simp add: active_def)
  note b = busy_flow [OF inv handler_slots [OF inv n]]
  obtain i c where r: "FinishClientLocked q (Running s) a (Slots s ! HSlot ?h, Cache s) = (i, c)" by force
  note laws = abandon_law [OF b(1,3) n pc r]
  let ?h' = "?h\<lparr>HPc := HFinished\<rparr>"
  have s': "Slots ?s = (Slots s)[HSlot ?h' := i]" "Handlers ?s = (Handlers s)[n := ?h']" "Cache ?s = c"
    "Executions ?s = Executions s" "Replies ?s = Replies s" "same_life s ?s"
    using r settles_life [OF laws(3)]
    by (simp_all add: put_handler_def put_slot_def same_life_def Let_def)
  show ?thesis
  proof (rule handler_inv [OF inv n act s'(6,2,1)])
    show "log_ok ?s"
      by (rule settles_log [of s]) (use inv laws(3) in \<open>simp_all add: s' server_inv_def del: server_step.simps\<close>)
    show "flow q (Slots ?s) (Handlers ?s) (Cache ?s)" unfolding s' using laws(1) by simp
  qed (use laws(2) in \<open>auto simp: slot_after_def active_def\<close>)
qed

lemma release_inv:
  assumes inv: "server_inv q s" and e: "at_pc s n HReleasing"
  shows "server_inv q (server_step q s (EvRelease n now))"
proof -
  let ?h = "Handlers s ! n" and ?s = "server_step q s (EvRelease n now)"
  have n: "n < length (Handlers s)" and pc: "HPc ?h = HReleasing" using e by (simp_all add: at_pc_def)
  have ne: "Slots s \<noteq> []" by (rule handler_slots [OF inv n])
  note b = busy_flow [OF inv ne]
  obtain h c where r: "handler_release q now (?h, Cache s) = (h, c)" by force
  have h: "HSlot h = HSlot ?h" "active_slot h = active_slot ?h" "\<not> active (HPc h)"
    using r pc by (auto simp: handler_release_def active_slot_def active_def)
  have "map_ok (Cache s)" using b(1) by (simp add: flow_def cache_ok_def)
  then have c: "settles (Cache s) c"
    using r by (auto simp: handler_release_def settles_def evolves_CompleteDelivery split: option.splits)
  have s': "Slots ?s = Slots s" "Handlers ?s = (Handlers s)[n := h]" "Cache ?s = c"
    "Executions ?s = Executions s" "Replies ?s = Replies s" "same_life s ?s"
    using r settles_life [OF c] by (simp_all add: put_handler_def same_life_def)
  have same: "claims active_slot ((Handlers s)[n := h]) = claims active_slot (Handlers s)"
    by (rule claims_update_same [where f = active_slot, OF n h(2)])
  show ?thesis
  proof (rule busy_step [OF inv ne s'(6)])
    show "flow q (Slots ?s) (Handlers ?s) (Cache ?s)" unfolding s' by (rule flow_release [OF b(1) n pc r])
    show "link (Slots ?s) (Handlers ?s)"
      unfolding s' link_def same
    proof (intro conjI ballI)
      show "HSlot x < length (Slots s)" "active (HPc x) \<longrightarrow> linked x (Slots s ! HSlot x)"
        if "x \<in> set ((Handlers s)[n := h])" for x
      proof -
        have "x \<in> set (Handlers s) \<or> x = h"
          using that set_update_subset_insert [of "Handlers s" n h] by auto
        then show "HSlot x < length (Slots s)" "active (HPc x) \<longrightarrow> linked x (Slots s ! HSlot x)"
          using b(3) h(1,3) nth_mem [OF n] by (auto simp: link_def)
      qed
    qed (use b(3) in \<open>simp_all add: link_def\<close>)
    show "Running s \<Longrightarrow> alive (Slots ?s) (Handlers ?s)"
      using inv same unfolding s' by (simp add: server_inv_def core_def alive_def)
    show "log_ok ?s"
      by (rule settles_log [of s]) (use inv c in \<open>simp_all add: s' server_inv_def del: server_step.simps\<close>)
  qed
qed

subsection \<open>Start, stop and the prune timer\<close>

text \<open>Steps that change nothing but the life cycle.\<close>

lemma server_core_frame:
  assumes "core q s" "Slots s' = Slots s" "Handlers s' = Handlers s" "Cache s' = Cache s"
    and "Running s' \<Longrightarrow> Running s" "(StopPc s' = StopCleaning) = (StopPc s = StopCleaning)"
  shows "core q s'"
  using assms by (simp add: core_def split: if_splits)

lemma log_frame:
  "log_ok s \<Longrightarrow> Cache s' = Cache s \<Longrightarrow> Executions s' = Executions s \<Longrightarrow> Replies s' = Replies s \<Longrightarrow> log_ok s'"
  by (simp add: log_ok_def)

lemma flow_timer:
  assumes "flow q sls hs c" "HasPruneTimer c \<longrightarrow> b" "Records c \<noteq> [] \<longrightarrow> HasPruneTimer c"
  shows "flow q sls hs (c\<lparr>HasPruneTimer := b\<rparr>)"
proof -
  have at: "record_at (c\<lparr>HasPruneTimer := b\<rparr>) p = record_at c p" "pending_count (c\<lparr>HasPruneTimer := b\<rparr>) cid = pending_count c cid"
    "in_use (c\<lparr>HasPruneTimer := b\<rparr>) e = in_use c e" for p cid e
    by (simp_all add: record_at_def pending_count_def in_use_def)
  have "timer_ok (c\<lparr>HasPruneTimer := b\<rparr>)"
    using assms unfolding timer_ok_def at by (cases "Records c") (auto simp: flow_def cache_ok_def timer_ok_def)
  then have "cache_ok q (c\<lparr>HasPruneTimer := b\<rparr>)"
    using assms(1) by (simp add: flow_def cache_ok_def map_ok_def size_ok_def bytes_of_def at)
  moreover have "handler_ok (c\<lparr>HasPruneTimer := b\<rparr>) h = handler_ok c h" "slot_matches (c\<lparr>HasPruneTimer := b\<rparr>) i = slot_matches c i"
    for h i by (simp_all add: handler_ok_def slot_matches_def matches_def at mapped_def)
  ultimately show ?thesis
    using assms(1) by (simp add: flow_def deliveries_def at mapped_def open_record_def)
qed

lemma start_server_inv:
  assumes inv: "server_inv q s" and r: "start_ready s"
  shows "server_inv q (ServerStart created callable s)"
proof (cases "Running s \<or> DesiredRunning s")
  case True
  then show ?thesis using inv by (simp add: ServerStart_def)
next
  case False
  let ?c = "(Cache s)\<lparr>HasPruneTimer := HasPruneTimer (Cache s) \<or> created \<ge> 2\<rparr>"
  let ?s = "ServerStart created callable s"
  have life: "life s" and core: "core q s" and log: "log_ok s" using inv by (simp_all add: server_inv_def)
  have idle: "StopPc s = StopIdle" "Slots s = []" "Handlers s = []"
    using life r False by (auto simp: life_def start_ready_def)
  have s': "Slots ?s = []" "Handlers ?s = []" "Cache ?s = ?c" "StopPc ?s = StopIdle" "Running ?s = Running s"
    "Executions ?s = Executions s" "Replies ?s = Replies s"
    using False idle by (simp_all add: ServerStart_def EnsureControlCallbacksLocked_def split: prod.split bool.split)
  have "life ?s"
    using life r False idle unfolding life_def start_ready_def
    by (auto simp: ServerStart_def EnsureControlCallbacksLocked_def stop_busy_def stop_drained_def split: prod.split bool.split)
  moreover have "flow q [] [] (Cache s)" using core idle by (simp add: core_def)
  then have "flow q [] [] ?c"
    using life by (intro flow_timer) (auto simp: life_def)
  then have "core q ?s" by (simp add: core_def s' link_def alive_def)
  moreover have "record_at ?c p = record_at (Cache s) p" for p by (simp add: record_at_def)
  then have "log_ok ?s" using log by (simp add: log_ok_def s' reply_ok_def matches_def)
  ultimately show ?thesis by (simp add: server_inv_def)
qed

lemma arm_instances_nth:
  assumes "k < length made"
  shows "arm_instances q made ! k =
     ArmConnectionLocked q True (snd (made ! k)) (new_instance (of_nat k) (fst (made ! k)))"
  using assms by (simp add: arm_instances_def case_prod_unfold)

lemma arm_instances_law:
  assumes "i \<in> set (arm_instances q made)"
  shows "slot_after True i" "slot_clear i"
proof -
  obtain k where k: "k < length made" "i = arm_instances q made ! k"
    using assms by (auto simp: in_set_conv_nth arm_instances_def)
  let ?n = "new_instance (of_nat k) (fst (made ! k))"
  have n: "slot_free ?n" "slot_clear ?n" "Phase ?n \<noteq> RunningHandler"
    by (simp_all add: new_instance_def slot_free_def slot_clear_def)
  show "slot_after True i" "slot_clear i"
    using ArmConnection_law [OF n, of True q "snd (made ! k)"] same_client_clear n(2)
    by (auto simp: k(2) arm_instances_nth [OF k(1)])
qed

lemma install_flow:
  assumes "flow q [] [] c" "\<forall>i \<in> set sls. slot_clear i"
  shows "flow q sls [] c"
proof (rule flow_change [OF assms(1) evolves_refl])
  have "claims slot_pending sls cid = 0" "claims AcknowledgementRecord sls p = 0" for cid p
    using assms(2) by (auto simp: claims_zero slot_clear_def slot_pending_def)
  then show "deliveries c (pend sls []) (held sls [])"
    using assms(1) by (simp add: flow_def pend_def [abs_def] held_def [abs_def])
  show "i \<in> set sls \<Longrightarrow> i \<in> set [] \<or> slot_matches c i" for i
    using assms(2) by (simp add: slot_matches_def slot_clear_def)
qed (use assms in \<open>auto simp: flow_def\<close>)

lemma life_starting:
  assumes "life s"
  shows "life (s\<lparr>Starting := False\<rparr>)" "life (s\<lparr>StartRetryFailures := n\<rparr>)" "life (s\<lparr>StartRetryTimer := t\<rparr>)"
  using assms by (auto simp: life_def)

lemma life_install:
  assumes "life s" "Starting s" "DesiredRunning s" "\<not> StopRequested s" "\<not> Stopping s"
  shows "life (s\<lparr>StopSource := StopSource s + 1, Accepting := True, Running := True, Starting := False,
     StartRetryFailures := n, StartRetryTimer := t, Slots := sls\<rparr>)"
proof -
  have "StopPc s = StopIdle" "Handlers s = []" using assms by (auto simp: life_def)
  moreover have "src \<le> StopSource s + 1 \<and> src \<noteq> StopSource s + 1" if "src \<in> set (Signals s) \<union> set (Signalled s)" for src
  proof -
    have "src \<le> StopSource s" using assms(1) that by (simp add: life_def)
    then show ?thesis by simp
  qed
  ultimately show ?thesis
    using assms by (simp add: life_def stop_busy_def stop_drained_def)
qed

lemma life_start_retry: "life s \<Longrightarrow> life (ScheduleStartRetryLocked q processId tick s)"
  by (simp add: ScheduleStartRetryLocked_def life_starting)

lemma try_start_end_inv:
  assumes inv: "server_inv q s" and st: "Starting s"
  shows "server_inv q (try_start_end q created made processId tick s)"
proof -
  let ?s = "try_start_end q created made processId tick s"
  have life: "life s" and core: "core q s" and log: "log_ok s" using inv by (simp_all add: server_inv_def)
  have idle: "Slots s = []" "Handlers s = []" "stop_waits (StopPc s)" "\<not> Running s"
    using life st by (auto simp: life_def)
  let ?prepared = "created \<and> (\<exists>m \<in> set made. fst m)"
  show ?thesis
  proof (cases "?prepared \<and> \<not> (\<not> DesiredRunning s \<or> StopRequested s \<or> Stopping s)")
    case False
    then have s': "Slots ?s = Slots s" "Handlers ?s = Handlers s" "Cache ?s = Cache s" "Running ?s = Running s"
      "StopPc ?s = StopPc s" "Executions ?s = Executions s" "Replies ?s = Replies s"
      by (auto simp: try_start_end_def ScheduleStartRetryLocked_def Let_def)
    have "life ?s"
      using life False by (auto simp: try_start_end_def Let_def intro: life_starting life_start_retry)
    then show ?thesis
      using server_core_frame [OF core, of ?s] log_frame [OF log, of ?s] s' by (simp add: server_inv_def)
  next
    case True
    then have eq: "?s = s\<lparr>StopSource := StopSource s + 1, Accepting := True, Running := True, Starting := False,
        StartRetryFailures := 0, StartRetryTimer := None, Slots := arm_instances q made\<rparr>"
      by (simp add: try_start_end_def Let_def)
    have "StopPc s = StopIdle" using life True by (auto simp: life_def)
    moreover have "flow q [] [] (Cache s)" using core idle calculation by (simp add: core_def)
    then have "flow q (arm_instances q made) [] (Cache s)"
      by (rule install_flow) (simp add: arm_instances_law)
    moreover have "link (arm_instances q made) []" "alive (arm_instances q made) []"
      using arm_instances_law(1) [of _ q made] nth_mem [of _ "arm_instances q made"]
      by (auto simp: link_def alive_def slot_after_def)
    ultimately have "core q ?s" using idle by (simp add: eq core_def)
    moreover have "life ?s" unfolding eq using True by (intro life_install life st) auto
    moreover have "log_ok ?s" using log by (simp add: eq log_ok_def)
    ultimately show ?thesis by (simp add: server_inv_def)
  qed
qed

lemma request_stop_life: "life s \<Longrightarrow> life (RequestStop s)"
  by (auto simp: life_def RequestStop_def RequestStopLocked_def)

lemma request_stop_inv:
  assumes "server_inv q s"
  shows "server_inv q (RequestStop s)" "server_inv q (deferred_stop s)"
proof -
  have "core q (RequestStop s)" "log_ok (RequestStop s)"
    using assms by (auto simp: server_inv_def RequestStop_def RequestStopLocked_def intro: server_core_frame log_frame)
  then show r: "server_inv q (RequestStop s)"
    using assms by (simp add: server_inv_def request_stop_life)
  have "server_inv q (t\<lparr>DeferredStopRequested := True\<rparr>) = server_inv q t" for t
    by (simp add: server_inv_def life_def core_def log_ok_def)
  then show "server_inv q (deferred_stop s)" using r by (simp add: deferred_stop_def)
qed

lemma stop_begin_inv: "server_inv q s \<Longrightarrow> server_inv q (stop_begin s)"
proof -
  assume inv: "server_inv q s"
  show ?thesis
  proof (cases "Stopping s \<or> nothing_to_stop s")
    case True
    then show ?thesis using inv by (simp add: stop_begin_def)
  next
    case False
    then have eq: "stop_begin s = (RequestStopLocked s)\<lparr>Stopping := True, StopPc := StopWaiting (StopSource s)\<rparr>"
      by (simp add: stop_begin_def)
    have pc: "StopPc s = StopIdle" using inv False by (auto simp: server_inv_def life_def)
    have "life (stop_begin s)"
      using inv pc unfolding eq by (auto simp: server_inv_def life_def RequestStopLocked_def stop_busy_def stop_drained_def)
    moreover have "core q (stop_begin s)" "log_ok (stop_begin s)"
      using inv pc unfolding eq by (auto simp: server_inv_def RequestStopLocked_def intro: server_core_frame log_frame)
    ultimately show ?thesis by (simp add: server_inv_def)
  qed
qed

lemma OnRequestPrune_settles: "settles c (OnRequestPrune q now c)"
proof -
  have "evolves {} c (c\<lparr>PruneTimer := None\<rparr>)"
    by (simp add: evolves_def record_at_def in_use_def pending_count_def)
  then show ?thesis by (simp add: settles_def OnRequestPrune_def evolves_Prune)
qed

lemma prune_inv_server:
  assumes "server_inv q s"
  shows "server_inv q (s\<lparr>Cache := OnRequestPrune q now (Cache s)\<rparr>)"
proof -
  let ?c = "OnRequestPrune q now (Cache s)"
  note set = OnRequestPrune_settles [of "Cache s" q now]
  have life: "life s" and core: "core q s" and log: "log_ok s" using assms by (simp_all add: server_inv_def)
  have "set (Records ?c) \<subseteq> set (Records (Cache s))" by (auto simp: OnRequestPrune_def)
  then have "Records ?c \<noteq> [] \<Longrightarrow> Records (Cache s) \<noteq> []" by (cases "Records (Cache s)") auto
  then have "life (s\<lparr>Cache := ?c\<rparr>)" using life settles_life [OF set] by (auto simp: life_def)
  moreover have "core q (s\<lparr>Cache := ?c\<rparr>)"
  proof (cases "StopPc s = StopCleaning")
    case True
    then have c: "cache_ok q (Cache s)" "\<not> open_record (Cache s) p" for p using core by (simp_all add: core_def)
    have "cache_ok q ?c" by (rule OnRequestPrune_ok [OF c(1)])
    then have "\<not> open_record ?c p" for p
      using c settles_open [OF set] by (simp add: cache_ok_def)
    then show ?thesis using core True \<open>cache_ok q ?c\<close> by (simp add: core_def)
  next
    case False
    then have f: "flow q (Slots s) (Handlers s) (Cache s)" using core by (simp add: core_def)
    have "flow q (Slots s) (Handlers s) ?c"
      by (rule flow_cache [OF f set]) (use f in \<open>simp_all add: flow_def OnRequestPrune_ok deliveries_OnRequestPrune\<close>)
    then show ?thesis using core False by (simp add: core_def)
  qed
  moreover have "log_ok (s\<lparr>Cache := ?c\<rparr>)" by (rule settles_log [OF log]) (simp_all add: set)
  ultimately show ?thesis by (simp add: server_inv_def)
qed

lemma try_start_inv:
  assumes "server_inv q s"
  shows "server_inv q (TryStart (if timer then s\<lparr>StartRetryTimer := None\<rparr> else s))"
proof -
  define t where "t = (if timer then s\<lparr>StartRetryTimer := None\<rparr> else s)"
  have inv: "server_inv q t"
    using assms life_starting(3) [of s None] by (simp add: t_def server_inv_def core_def log_ok_def)
  have "server_inv q (t\<lparr>Starting := True\<rparr>)" if "DesiredRunning t" "\<not> Running t" "\<not> Stopping t"
  proof -
    have "life (t\<lparr>Starting := True\<rparr>)" using inv that by (auto simp: server_inv_def life_def)
    then show ?thesis using inv by (simp add: server_inv_def core_def log_ok_def)
  qed
  then show ?thesis using inv by (simp add: TryStart_def t_def [symmetric])
qed

lemma stop_cache_flow:
  assumes ok: "cache_ok q c" and no: "\<And>p. \<not> open_record c p"
  shows "flow q [] [] (StopCache q now c)" "evolves {} c (StopCache q now c)"
    "length (RecordHeap (StopCache q now c)) = length (RecordHeap c)" "Records (StopCache q now c) = Records c"
proof -
  have complete: "\<forall>e \<in> set (Records c). IsComplete (record_at c (snd e))"
    using no mappedI by (force simp: open_record_def)
  note laws = StopCache_laws [OF ok complete, of now]
  show "Records (StopCache q now c) = Records c" "length (RecordHeap (StopCache q now c)) = length (RecordHeap c)"
    by (rule laws)+
  have at: "mapped c p \<Longrightarrow> record_at (StopCache q now c) p = (record_at c p)\<lparr>ActiveDeliveries := 0\<rparr>" for p
    by (simp add: laws(6) mapped_def)
  have "IsComplete (record_at (StopCache q now c) p) = IsComplete (record_at c p)" for p
    by (simp add: laws(6))
  then have "\<not> open_record (StopCache q now c) p" for p
    using no [of p] by (simp add: open_record_def mapped_def laws(2))
  moreover have "deliveries (StopCache q now c) (pend [] []) (held [] [])"
    by (simp add: deliveries_def pend_def held_def pending_count_def laws(3)) (simp add: mapped_def laws(2,6))
  ultimately show "flow q [] [] (StopCache q now c)"
    using laws(1) by (simp add: flow_def)
  show "evolves {} c (StopCache q now c)"
    by (simp add: evolves_def laws)
qed

lemma stop_inv:
  assumes inv: "server_inv q s" and e: "stop_enabled (StopPc s) s"
  shows "server_inv q (stop_step q now (StopPc s) s)"
proof -
  have life: "life s" and core: "core q s" and log: "log_ok s" using inv by (simp_all add: server_inv_def)
  have busy: "stop_busy (StopPc s) \<Longrightarrow> \<not> Running s \<and> \<not> DesiredRunning s" using life by (auto simp: life_def)
  have frame: "server_inv q s'"
    if "life s'" "Slots s' = Slots s" "Handlers s' = Handlers s" "Cache s' = Cache s" "Running s' \<Longrightarrow> Running s"
      "StopPc s \<noteq> StopCleaning" "StopPc s' \<noteq> StopCleaning" "Executions s' = Executions s" "Replies s' = Replies s" for s'
    using that server_core_frame [OF core that(2-5)] log_frame [OF log that(4,8,9)] by (simp add: server_inv_def)
  show ?thesis
  proof (cases "StopPc s")
    case (StopWaiting src)
    have "life (s\<lparr>StopPc := StopSignalling src\<rparr>)"
      using life e StopWaiting busy by (simp add: life_def stop_busy_def stop_drained_def)
    then show ?thesis using StopWaiting by (auto intro!: frame)
  next
    case (StopSignalling src)
    have "life (s\<lparr>Signalled := src # Signalled s, StopPc := StopDraining\<rparr>)"
      using life busy StopSignalling by (simp add: life_def stop_busy_def stop_drained_def)
    then show ?thesis using StopSignalling by (auto intro!: frame)
  next
    case StopDraining
    have f: "flow q (Slots s) (Handlers s) (Cache s)" using core StopDraining by (simp add: core_def)
    have "running_of h = None" if "h \<in> set (Handlers s)" for h
      using e StopDraining that by (auto simp: drained_def running_of_def)
    then have "claims running_of (Handlers s) p = 0" for p by (simp add: claims_zero)
    then have "\<not> open_record (Cache s) p" for p using f by (simp add: flow_def)
    then have "core q (s\<lparr>Slots := [], Handlers := [], StopPc := StopCleaning\<rparr>)"
      using f by (simp add: core_def flow_def link_def alive_def)
    moreover have "life (s\<lparr>Slots := [], Handlers := [], StopPc := StopCleaning\<rparr>)"
      using life StopDraining busy by (simp add: life_def stop_busy_def stop_drained_def)
    ultimately show ?thesis using log StopDraining by (simp add: server_inv_def log_ok_def)
  next
    case StopCleaning
    then have c: "cache_ok q (Cache s)" "\<And>p. \<not> open_record (Cache s) p" "Slots s = []" "Handlers s = []"
      using core life by (auto simp: core_def life_def stop_drained_def)
    note laws = stop_cache_flow [OF c(1,2), of now]
    have "life (s\<lparr>Cache := StopCache q now (Cache s), StopPc := StopRetiring\<rparr>)"
      using life StopCleaning busy evolves_entries(3) [OF laws(2)]
      by (simp add: life_def stop_busy_def stop_drained_def laws(4))
    moreover have "core q (s\<lparr>Cache := StopCache q now (Cache s), StopPc := StopRetiring\<rparr>)"
      using laws(1) c(3,4) busy StopCleaning by (simp add: core_def link_def alive_def)
    moreover have "log_ok (s\<lparr>Cache := StopCache q now (Cache s), StopPc := StopRetiring\<rparr>)"
      by (rule log_evolves [OF log, of "{}"]) (simp_all add: laws)
    ultimately show ?thesis using StopCleaning by (simp add: server_inv_def)
  next
    case StopRetiring
    have "life (s\<lparr>Callable := False, Starting := False, StopRequested := False, DeferredStopRequested := False, StopPc := StopEnding\<rparr>)"
      using life StopRetiring by (auto simp: life_def stop_busy_def stop_drained_def)
    then show ?thesis using StopRetiring by (auto intro!: frame)
  next
    case StopEnding
    have "life (s\<lparr>Stopping := False, StopPc := StopIdle\<rparr>)"
      using life StopEnding by (auto simp: life_def stop_busy_def stop_drained_def)
    then show ?thesis using StopEnding by (auto intro!: frame)
  qed (use e in simp)
qed

subsection \<open>All steps\<close>

lemma signal_inv:
  assumes "server_inv q s" "src \<in> set (Signals s)"
  shows "server_inv q (s\<lparr>Signalled := src # Signalled s, Signals := remove1 src (Signals s)\<rparr>)"
proof -
  have "life (s\<lparr>Signalled := src # Signalled s, Signals := remove1 src (Signals s)\<rparr>)"
    using assms set_remove1_subset [of src "Signals s"] by (auto simp: server_inv_def life_def)
  then show ?thesis using assms by (simp add: server_inv_def core_def log_ok_def)
qed

text \<open>What a callback of instance \<open>k\<close> starts from.\<close>

lemma callback_start:
  assumes inv: "server_inv q s" and o: "owes s k cb"
  shows "slot_share q (slot_base (Slots s) (Handlers s) k) (slot_holds (Slots s) (Handlers s) k)
      (answer_callback cb (Slots s ! k), Cache s)"
    "Outstanding (answer_callback cb (Slots s ! k)) = []" "slot_ok (answer_callback cb (Slots s ! k))"
    "owed_in cb (answer_callback cb (Slots s ! k))"
    "fits x (answer_callback cb (Slots s ! k)) = fits x (Slots s ! k)"
proof -
  have k: "k < length (Slots s)" "cb \<in> set (Outstanding (Slots s ! k))" using o by (simp_all add: owes_def)
  then have "Slots s \<noteq> []" by auto
  note b = busy_flow [OF inv this]
  note l = link_owed [OF b(3) k]
  note a = answer_callback_sel [OF l(2,4)]
  show "slot_share q (slot_base (Slots s) (Handlers s) k) (slot_holds (Slots s) (Handlers s) k)
      (answer_callback cb (Slots s ! k), Cache s)"
    using flow_share [OF b(1) k(1)] slot_share_same [OF a(2)] by simp
  show "Outstanding (answer_callback cb (Slots s ! k)) = []" "slot_ok (answer_callback cb (Slots s ! k))"
    "owed_in cb (answer_callback cb (Slots s ! k))" "fits x (answer_callback cb (Slots s ! k)) = fits x (Slots s ! k)"
    using a l(3) by simp_all
qed

lemma io_inv:
  assumes inv: "server_inv q s" and o: "owes s k IoCompletion" and fits: "fits content (Slots s ! k)"
  shows "server_inv q (server_step q s (EvIo k allocated succeeded bytes content a))"
proof -
  note c = callback_start [OF inv o]
  have free: "slot_free (answer_callback IoCompletion (Slots s ! k))"
    using c(2,3,4) by (auto simp: slot_free_def slot_ok_def)
  show ?thesis
    unfolding server_step.simps
  proof (rule on_slot_cache_inv [OF inv o], cases "Running s")
    case True
    then show "slot_moves q (slot_base (Slots s) (Handlers s) k) (slot_holds (Slots s) (Handlers s) k) (Running s) (Cache s)
        (HandleIoCompletion q (Running s) a allocated succeeded bytes content
          (answer_callback IoCompletion (Slots s ! k), Cache s))"
      using HandleIoCompletion_law [OF c(1) free c(3,4) _ True] fits c(5) by simp
  next
    case False
    then show "slot_moves q (slot_base (Slots s) (Handlers s) k) (slot_holds (Slots s) (Handlers s) k) (Running s) (Cache s)
        (HandleIoCompletion q (Running s) a allocated succeeded bytes content
          (answer_callback IoCompletion (Slots s ! k), Cache s))"
      using c(1,2,3) by (simp add: HandleIoCompletion_def slot_goes_def slot_after_def)
  qed
qed

lemma connected_inv:
  assumes inv: "server_inv q s" and o: "owes s k cb" and cb: "cb = AlreadyConnectedWork \<or> cb = ConnectionSeen"
  shows "server_inv q (server_step q s (EvConnected k cb trusted a))"
proof -
  note c = callback_start [OF inv o]
  have "slot_free (answer_callback cb (Slots s ! k))" "slot_clear (answer_callback cb (Slots s ! k))"
    using c(2,3,4) cb by (auto simp: slot_free_def slot_ok_def slot_clear_def delivering_def)
  note law = HandleConnected_law [OF c(1) this]
  show ?thesis
    unfolding server_step.simps by (rule on_slot_cache_inv [OF inv o]) (simp add: law)
qed

lemma rearm_inv:
  assumes inv: "server_inv q s" and e: "server_enabled q s ev"
    and ev: "ev = EvRearm k \<or> ev = EvRearmArm k a \<or> ev = EvRecreate k secured a \<or> ev = EvRecreated k created a"
  shows "server_inv q (server_step q s ev)"
proof -
  have step: "server_inv q (on_slot k cb f s)"
    if "owes s k cb" and "\<And>i. Outstanding i = [] \<Longrightarrow> slot_ok i \<Longrightarrow> owed_in cb i \<Longrightarrow>
        slot_after (Running s) (f i) \<and> same_client i (f i)" for cb f
    by (rule on_slot_inv [OF inv that(1)]) (rule that(2) [OF callback_start(2-4) [OF inv that(1)]])
  have passed: "slot_after (Running s) (ArmConnectionLocked q (Running s) a i) \<and>
      same_client i (ArmConnectionLocked q (Running s) a i)"
    if "Outstanding i = []" "slot_ok i" "owed_in RearmPassed i" for i
    by (rule ArmConnection_law) (use that slot_ok_clear [of i] in \<open>auto simp: slot_free_def delivering_def\<close>)
  have rearm: "slot_after (Running s) (OnRearmReady (Running s) i) \<and> same_client i (OnRearmReady (Running s) i)"
    if "Outstanding i = []" "slot_ok i" "owed_in RearmTimer i" for i
    by (rule OnRearm_law [OF that(2,1,3)])
  have secured: "slot_after (Running s) (if b then RecreatePipeInstance (Running s) i else recreate_fails q (Running s) a i) \<and>
      same_client i (if b then RecreatePipeInstance (Running s) i else recreate_fails q (Running s) a i)"
    if "Outstanding i = []" "slot_ok i" "owed_in RecreateWork i" for i b
    using Recreate_law [OF that(2,1,3), of "Running s"] recreate_fails_law [OF that(2,1), of "Running s" q a] that(3) by simp
  have created: "slot_after (Running s) ((if b then recreate_succeeds q (Running s) a else recreate_fails q (Running s) a) i) \<and>
      same_client i ((if b then recreate_succeeds q (Running s) a else recreate_fails q (Running s) a) i)"
    if "Outstanding i = []" "slot_ok i" "owed_in Recreating i" for i b
    using recreate_succeeds_law [OF that(2,1), of "Running s" q a] recreate_fails_law [OF that(2,1), of "Running s" q a]
      that(3) by simp
  show ?thesis
    using ev e
  proof (elim disjE)
    assume "ev = EvRearm k"
    moreover have "server_inv q (on_slot k RearmTimer (OnRearmReady (Running s)) s)" if "owes s k RearmTimer"
      by (rule step [OF that rearm])
    ultimately show ?thesis using e by simp
  next
    assume "ev = EvRearmArm k a"
    moreover have "server_inv q (on_slot k RearmPassed (ArmConnectionLocked q (Running s) a) s)" if "owes s k RearmPassed"
      by (rule step [OF that passed])
    ultimately show ?thesis using e by simp
  next
    assume "ev = EvRecreate k secured a"
    moreover have "server_inv q (on_slot k RecreateWork
        (\<lambda>i. if secured then RecreatePipeInstance (Running s) i else recreate_fails q (Running s) a i) s)"
      if "owes s k RecreateWork"
      by (rule step [OF that secured])
    ultimately show ?thesis using e by simp
  next
    assume "ev = EvRecreated k created a"
    moreover have "server_inv q (on_slot k Recreating
        (if created then recreate_succeeds q (Running s) a else recreate_fails q (Running s) a) s)"
      if "owes s k Recreating"
      by (rule step [OF that created])
    ultimately show ?thesis using e by simp
  qed
qed

lemma server_step_inv:
  assumes inv: "server_inv q s" and e: "server_enabled q s ev"
  shows "server_inv q (server_step q s ev)"
proof (cases ev)
  case (EvStart created callable)
  then show ?thesis using e by (simp add: start_server_inv [OF inv])
next
  case (EvTryStart timer)
  then show ?thesis using try_start_inv [OF inv, of timer] by simp
next
  case (EvTryStartEnd created made processId tick)
  then show ?thesis using e by (simp add: try_start_end_inv [OF inv])
next
  case EvRequestStop
  then show ?thesis by (simp add: request_stop_inv [OF inv])
next
  case (EvSignal src)
  then show ?thesis using e by (simp add: signal_inv [OF inv])
next
  case EvStopBegin
  then show ?thesis by (simp add: stop_begin_inv [OF inv])
next
  case (EvStop now)
  then show ?thesis using e by (simp add: stop_inv [OF inv])
next
  case (EvPrune now)
  then show ?thesis by (simp add: prune_inv_server [OF inv])
next
  case (EvIo k allocated succeeded bytes content a)
  then show ?thesis using e io_inv [OF inv] by (simp del: server_step.simps)
next
  case (EvConnected k cb trusted a)
  then show ?thesis using e connected_inv [OF inv] by (simp del: server_step.simps)
next
  case (EvRearm k)
  then show ?thesis using rearm_inv [OF inv e] by blast
next
  case (EvRearmArm k a)
  then show ?thesis using rearm_inv [OF inv e] by blast
next
  case (EvRecreate k secured a)
  then show ?thesis using rearm_inv [OF inv e] by blast
next
  case (EvRecreated k created a)
  then show ?thesis using rearm_inv [OF inv e] by blast
next
  case (EvBegin n copied)
  then show ?thesis using e begin_inv [OF inv] by (simp del: server_step.simps)
next
  case (EvExecute n apartment allocated a)
  then show ?thesis using e execute_inv [OF inv] by (simp del: server_step.simps)
next
  case (EvWake n a)
  then show ?thesis using e wake_inv_server [OF inv] by (auto simp del: server_step.simps)
next
  case (EvDeferredStop n)
  then show ?thesis by (simp add: request_stop_inv [OF inv])
next
  case (EvReturn n answer completedAt)
  then show ?thesis using e return_inv [OF inv] by (auto simp del: server_step.simps)
next
  case (EvSettle n now)
  then show ?thesis using e settle_inv [OF inv] by (simp del: server_step.simps)
next
  case (EvRespond n copied a)
  then show ?thesis using e respond_inv [OF inv] by (simp del: server_step.simps)
next
  case (EvAbandon n a)
  then show ?thesis using e abandon_inv [OF inv] by (simp del: server_step.simps)
next
  case (EvRelease n now)
  then show ?thesis using e release_inv [OF inv] by (simp del: server_step.simps)
qed

interpretation control_server: machine server_start "server_step q" "server_enabled q" "server_inv q" for q
  by unfold_locales (simp_all add: server_start_def server_inv_start server_step_inv)

end
