(* ===== verification/Server_Retention.thy ===== *)
theory Server_Retention
  imports Server_Machine
begin

section \<open>How long the control server keeps what it executed\<close>

text \<open>
  A record leaves the cache only when its request is complete, nobody uses it, and either a client has
  acknowledged the response or the lifetime of an unacknowledged record has passed (\<open>sheds\<close>). As a handler
  callback counts as pending from the dispatch of its request until it has its response, the record of its own
  request cannot leave before it looks: a handler runs only for a request the cache has no record of.
\<close>

subsection \<open>Dropping a record\<close>

definition droppable :: "ServerOptions \<Rightarrow> int \<Rightarrow> cache \<Rightarrow> CorrelationId \<times> nat \<Rightarrow> bool" where
  "droppable q t c e \<longleftrightarrow> \<not> in_use c e \<and> (Acknowledged (record_at c (snd e)) \<or>
     t - CompletedAt (record_at c (snd e)) \<ge> nanoseconds (RequestRecordLifetime q))"

definition sheds :: "ServerOptions \<Rightarrow> int \<Rightarrow> cache \<Rightarrow> cache \<Rightarrow> bool" where
  "sheds q t c c' \<longleftrightarrow> (\<forall>e \<in> set (Records c). e \<in> set (Records c') \<or> droppable q t c' e)"

lemma sheds_same: "Records c' = Records c \<Longrightarrow> sheds q t c c'"
  by (simp add: sheds_def)

lemma not_kept: "\<not> kept q t c e \<Longrightarrow> droppable q t c e"
  by (auto simp: kept_def droppable_def retainedSince_def retention_def split: if_splits)

lemma droppable_views:
  assumes "record_at c' (snd e) = record_at c (snd e)" "pending_count c' (fst e) \<le> pending_count c (fst e)"
  shows "droppable q t c e \<Longrightarrow> droppable q t c' e"
  using assms by (auto simp: droppable_def in_use_def)

lemma sheds_Schedule [simp]: "sheds q t c (ScheduleRequestPruneLocked q' t' c') = sheds q t c c'"
  by (simp add: sheds_def droppable_def)

lemma sheds_Prune:
  assumes "sheds q t c c'"
  shows "sheds q t c (PruneRequestRecords q t c')"
proof -
  have "droppable q t (PruneRequestRecords q t c') e" if "droppable q t c' e \<or> \<not> kept q t c' e" for e
    using that not_kept [of q t c' e] by (auto intro: droppable_views [of _ e c'])
  then show ?thesis using assms by (auto simp: sheds_def)
qed

lemma sheds_CompletePending:
  assumes "sheds q t c c'"
  shows "sheds q t c (CompletePendingDelivery q' cid t' c')"
  unfolding sheds_def
proof
  fix e assume "e \<in> set (Records c)"
  moreover have "pending_count (CompletePendingDelivery q' cid t' c') (fst e) \<le> pending_count c' (fst e)"
    by (simp add: CompletePending_count)
  ultimately show "e \<in> set (Records (CompletePendingDelivery q' cid t' c')) \<or>
      droppable q t (CompletePendingDelivery q' cid t' c') e"
    using assms droppable_views [of "CompletePendingDelivery q' cid t' c'" e c' q t]
    by (auto simp: sheds_def)
qed

lemma sheds_CompleteDelivery: "sheds q t c (CompleteDelivery q cid p k t c)"
proof (cases "map_of (Records c) cid = Some p \<and> IsComplete (record_at c p)")
  case True
  then show ?thesis
    by (simp add: CompleteDelivery_eq sheds_Prune [OF sheds_same] del: Prune_sel)
qed (auto simp: CompleteDelivery_def sheds_same)

lemma sheds_CompleteExecution: "sheds q t c (CompleteExecution q p response t c)"
  by (simp add: CompleteExecution_eq sheds_Prune [OF sheds_same] del: Prune_sel)

lemma sheds_OnRequestPrune: "sheds q t c (OnRequestPrune q t c)"
  by (simp add: OnRequestPrune_def sheds_Prune [OF sheds_same] del: Prune_sel)

subsection \<open>Executing once\<close>

lemma sheds_trimmed:
  assumes "sheds q t c c'" "trimmed (\<lambda>e. \<not> evictable c' e) c' c''"
  shows "sheds q t c c''"
  unfolding sheds_def
proof
  fix e assume "e \<in> set (Records c)"
  then consider "droppable q t c' e" | "e \<in> set (Records c')" "evictable c' e" | "e \<in> set (Records c'')"
    using assms by (auto simp: sheds_def trimmed_def)
  moreover have "droppable q t c' e" if "evictable c' e"
    using evictable_unused [OF that] by (simp add: droppable_def)
  moreover have "droppable q t c'' e" if "droppable q t c' e"
    by (rule droppable_views [OF _ _ that]) (simp_all add: trimmed_views [OF assms(2)])
  ultimately show "e \<in> set (Records c'') \<or> droppable q t c'' e" by blast
qed

lemma sheds_insert:
  assumes s: "sheds q t c c'" and ok: "map_ok c" and heap: "length (RecordHeap c') = length (RecordHeap c)"
  shows "sheds q t c (fst (insert_record q request c'))"
  unfolding sheds_def
proof
  fix e assume e: "e \<in> set (Records c)"
  then have "snd e < length (RecordHeap c')" using ok heap by (auto simp: map_ok_def)
  then have "record_at (fst (insert_record q request c')) (snd e) = record_at c' (snd e)"
    by (simp add: insert_record_def Let_def record_at_def nth_append)
  moreover have "pending_count (fst (insert_record q request c')) (fst e) = pending_count c' (fst e)"
    by (simp add: insert_record_def Let_def pending_count_def)
  moreover have "set (Records c') \<subseteq> set (Records (fst (insert_record q request c')))"
    by (auto simp: insert_record_def Let_def)
  ultimately show "e \<in> set (Records (fst (insert_record q request c'))) \<or>
      droppable q t (fst (insert_record q request c')) e"
    using s e droppable_views [of "fst (insert_record q request c')" e c' q t] by (auto simp: sheds_def)
qed

lemma sheds_begin:
  assumes s: "sheds q t c c'" and ok: "map_ok c" and sub: "set (Records c') \<subseteq> set (Records c)"
    and e: "(cid, p) \<in> set (Records c')"
  shows "sheds q t c (begin_delivery p c')"
  unfolding sheds_def
proof
  fix e' assume e': "e' \<in> set (Records c)"
  show "e' \<in> set (Records (begin_delivery p c')) \<or> droppable q t (begin_delivery p c') e'"
  proof (cases "snd e' = p")
    case True
    then have "e' = (cid, p)"
      using map_ok_unique [OF ok, of cid p "fst e'"] e sub e' by (cases e') auto
    then show ?thesis using e by (simp add: begin_delivery_def)
  next
    case False
    then have "record_at (begin_delivery p c') (snd e') = record_at c' (snd e')"
      by (simp add: begin_delivery_def set_record_def record_at_def)
    then show ?thesis
      using s e' droppable_views [of "begin_delivery p c'" e' c' q t]
      by (auto simp: sheds_def begin_delivery_def)
  qed
qed

lemma sheds_ExecuteOnce:
  assumes ok: "cache_ok q c"
  shows "sheds q t c (fst (ExecuteOnce q stopped tick deadline t allocated request c))"
proof -
  let ?c = "PruneRequestRecords q t c" and ?n = "reservedBytes q request"
  have c: "sheds q t c ?c" by (rule sheds_Prune [OF sheds_same]) simp
  have map: "map_ok c" and okc: "cache_ok q ?c"
    using ok by (simp add: cache_ok_def, simp add: cache_ok_counted Prune_counted Prune_timer)
  show ?thesis
  proof (cases "map_of (Records ?c) (RequestId request)")
    case (Some p)
    then have "(RequestId request, p) \<in> set (Records ?c)" by (rule map_of_SomeD)
    moreover have "set (Records ?c) \<subseteq> set (Records c)" by auto
    ultimately have "sheds q t c (begin_delivery p ?c)" by (intro sheds_begin [OF c map])
    then show ?thesis
      using c Some by (simp add: ExecuteOnce_def Let_def await_round_def del: Prune_sel)
  next
    case None
    obtain c1 room where r: "make_room q ?n ?c = (c1, room)" by force
    have t: "trimmed (\<lambda>e. \<not> evictable ?c e) ?c c1"
      using make_room_laws [OF okc, of ?n] r by simp
    have c1: "sheds q t c c1" by (rule sheds_trimmed [OF c t])
    have "sheds q t c (fst (insert_record q request c1))"
      by (rule sheds_insert [OF c1 map]) (use trimmed_views(4) [OF t] in simp)
    then show ?thesis
      using c1 None r by (simp add: ExecuteOnce_def Let_def del: Prune_sel split: bool.split)
  qed
qed

text \<open>A request that a client still waits for is not executed while the cache has its record.\<close>

lemma ExecuteOnce_recorded:
  assumes ok: "cache_ok q c" and p: "map_of (Records c) (RequestId request) = Some p"
    and pending: "pending_count c (RequestId request) \<noteq> 0"
  shows "snd (ExecuteOnce q stopped tick deadline t allocated request c) \<noteq> RunHandler p'"
proof -
  have e: "(RequestId request, p) \<in> set (Records c)" using p by (rule map_of_SomeD)
  have "in_use c (RequestId request, p)" using pending by (simp add: in_use_def)
  then have "(RequestId request, p) \<in> set (Records (PruneRequestRecords q t c))"
    using e kept_in_use by auto
  moreover have "map_ok (PruneRequestRecords q t c)"
    using ok Prune_counted [of q c t] by (simp add: cache_ok_counted counted_def)
  ultimately have "map_of (Records (PruneRequestRecords q t c)) (RequestId request) = Some p"
    by (simp add: map_ok_lookup del: Prune_sel)
  then show ?thesis
    by (simp add: ExecuteOnce_def Let_def await_round_def refuse_def del: Prune_sel)
qed

subsection \<open>The instances\<close>

lemma sheds_Finish:
  assumes "Records c' = Records c"
  shows "sheds q (CacheNow a) c (snd (FinishClientLocked q running a (i, c')))"
proof -
  let ?c = "if PendingDelivery i then CompletePendingDelivery q (RequestId (SlotRequest i)) (CacheNow a) c' else c'"
  have same: "Records ?c = Records c" using assms by simp
  have eq: "sheds q (CacheNow a) c x = sheds q (CacheNow a) ?c x" for x
    unfolding sheds_def same ..
  have c: "sheds q (CacheNow a) ?c ?c" by (rule sheds_same) (rule refl)
  have "sheds q (CacheNow a) ?c (case AcknowledgementRecord i of None \<Rightarrow> ?c
      | Some p \<Rightarrow> CompleteDelivery q (RequestId (SlotRequest i)) p False (CacheNow a) ?c)"
    using sheds_CompleteDelivery [of q "CacheNow a" ?c] c by (cases "AcknowledgementRecord i") simp_all
  then show ?thesis unfolding eq FinishClient_eq Let_def snd_conv .
qed

lemma sheds_transfer:
  assumes "Records c' = Records c"
  shows "sheds q (CacheNow a) c (snd (transfer_or_finish q running a r c'))"
  using sheds_Finish [OF assms] sheds_same [OF assms] by (simp add: transfer_or_finish_def)

lemma sheds_Dispatch: "sheds q (CacheNow a) c (snd (fst (DispatchRequestLocked q running a allocated (i, c))))"
proof -
  obtain c' b where r: "BeginPendingDelivery (RequestId (SlotRequest i)) c = (c', b)" by force
  have "Records c' = Records c" by (rule BeginPending_views(1) [OF r])
  then show ?thesis
    by (cases b) (simp_all add: DispatchRequestLocked_def r sheds_Finish sheds_same)
qed

lemma sheds_acknowledgement: "sheds q (CacheNow a) c (snd (acknowledgement_received q running a (i, c)))"
proof -
  have "sheds q (CacheNow a) c (snd (FinishClientLocked q running a (i\<lparr>AcknowledgementRecord := None\<rparr>,
      CompleteDelivery q cid p True (CacheNow a) c)))" for cid p
    by (simp add: FinishClient_eq sheds_CompletePending sheds_CompleteDelivery)
  then show ?thesis
    by (auto simp: acknowledgement_received_def sheds_Finish split: option.split)
qed

lemma sheds_Io:
  "sheds q (CacheNow a) c (snd (fst (HandleIoCompletion q running a allocated succeeded bytes content (i, c))))"
proof -
  have header: "sheds q (CacheNow a) c (snd (fst (header_received q running a allocated (i, c))))" for i running
    by (simp add: header_received_def Let_def sheds_Finish sheds_Dispatch sheds_transfer)
  have "sheds q (CacheNow a) c (snd (fst (HandleCompletedTransferLocked q running a allocated (i, c))))" for i running
    by (simp add: HandleCompletedTransferLocked_def sheds_Finish sheds_Dispatch sheds_transfer header
        sheds_acknowledgement read_acknowledgement_def Let_def split: PipePhase.split)
  then show ?thesis
    by (simp add: HandleIoCompletion_def Let_def sheds_Finish sheds_transfer sheds_same)
qed

lemma sheds_Connected:
  "sheds q (CacheNow a) c (snd (HandleConnectedInstanceLocked q running accepting trusted a (i, c)))"
  by (simp add: HandleConnectedInstanceLocked_def Let_def sheds_Finish sheds_transfer)

lemma sheds_respond:
  "sheds q (CacheNow a) c (snd (snd (handler_respond q running a copied h (i, c))))"
  by (auto simp: handler_respond_def Let_def sheds_Finish sheds_transfer sheds_same split: option.split)

subsection \<open>Steps\<close>

text \<open>The time a step reads for the cache.\<close>

fun event_time :: "event \<Rightarrow> int" where
  "event_time (EvStop now) = now" | "event_time (EvPrune now) = now"
| "event_time (EvIo k allocated succeeded bytes content a) = CacheNow a"
| "event_time (EvConnected k cb trusted a) = CacheNow a"
| "event_time (EvExecute n apartment allocated a) = CacheNow a" | "event_time (EvWake n a) = CacheNow a"
| "event_time (EvReturn n answer completedAt) = completedAt" | "event_time (EvSettle n now) = now"
| "event_time (EvRespond n copied a) = CacheNow a" | "event_time (EvAbandon n a) = CacheNow a"
| "event_time (EvRelease n now) = now"
| "event_time ev = 0"

lemma put_sel [simp]:
  "Cache (put_handler n h s) = Cache s" "Cache (put_slot k st s) = snd st" "Cache (on_slot k cb f s) = Cache s"
  "Executions (put_handler n h s) = Executions s" "Executions (put_slot k st s) = Executions s"
  "Executions (on_slot k cb f s) = Executions s"
  by (simp_all add: put_handler_def put_slot_def on_slot_def)

lemma on_slot_cache_Cache: "Cache (on_slot_cache k cb f s) = snd (fst (f (answer_callback cb (Slots s ! k), Cache s)))"
  by (simp add: on_slot_cache_def split: prod.split)

lemma handler_executes_Cache [simp]: "Cache (handler_executes n d r s) = fst r"
  by (simp add: handler_executes_def Let_def split: execution.split)

lemma executing_cache:
  assumes "server_inv q s" "n < length (Handlers s)"
  shows "cache_ok q (Cache s)"
  using busy_flow(1) [OF assms(1) handler_slots [OF assms]] by (simp add: flow_def)

lemma step_sheds:
  assumes inv: "server_inv q s" and e: "server_enabled q s ev"
  shows "sheds q (event_time ev) (Cache s) (Cache (server_step q s ev))"
proof (cases ev)
  case (EvStart created callable)
  then show ?thesis by (simp add: ServerStart_def EnsureControlCallbacksLocked_def sheds_same split: bool.split)
next
  case (EvTryStart timer)
  then show ?thesis by (simp add: TryStart_def sheds_same)
next
  case (EvTryStartEnd created made processId tick)
  then show ?thesis by (simp add: try_start_end_def Let_def ScheduleStartRetryLocked_def sheds_same)
next
  case EvRequestStop
  then show ?thesis by (simp add: RequestStop_def RequestStopLocked_def sheds_same)
next
  case (EvSignal src)
  then show ?thesis by (simp add: sheds_same)
next
  case EvStopBegin
  then show ?thesis by (simp add: stop_begin_def RequestStopLocked_def sheds_same)
next
  case (EvStop now)
  have "Records (StopCache q now (Cache s)) = Records (Cache s)" if "StopPc s = StopCleaning"
    using inv that by (intro stop_cache_flow(4)) (simp_all add: server_inv_def core_def)
  then show ?thesis using EvStop by (cases "StopPc s") (simp_all add: sheds_same)
next
  case (EvPrune now)
  then show ?thesis by (simp add: sheds_OnRequestPrune)
next
  case (EvIo k allocated succeeded bytes content a)
  then show ?thesis by (simp add: on_slot_cache_Cache sheds_Io)
next
  case (EvConnected k cb trusted a)
  then show ?thesis by (simp add: on_slot_cache_Cache sheds_Connected)
next
  case (EvBegin n copied)
  then show ?thesis by (simp add: sheds_same split: prod.split)
next
  case (EvExecute n apartment allocated a)
  then show ?thesis
    using e executing_cache [OF inv, of n] by (simp add: sheds_ExecuteOnce sheds_same at_pc_def Let_def)
next
  case (EvWake n a)
  then show ?thesis
    by (simp add: sheds_same await_round_def begin_delivery_def split: handler_pc.split)
next
  case (EvDeferredStop n)
  then show ?thesis by (simp add: deferred_stop_def RequestStop_def RequestStopLocked_def sheds_same)
next
  case (EvReturn n answer completedAt)
  then show ?thesis
    by (simp add: handler_returns_def Let_def sheds_CompleteExecution sheds_same split: handler_pc.split)
next
  case (EvSettle n now)
  then show ?thesis by (simp add: handler_settle_def sheds_same)
next
  case (EvRespond n copied a)
  have "Cache (handler_responds q n copied a s) = snd (snd (handler_respond q (Running s) a copied (Handlers s ! n)
      (Slots s ! HSlot (Handlers s ! n), Cache s)))"
    by (simp add: handler_responds_def Let_def case_prod_unfold)
  then show ?thesis
    using EvRespond sheds_respond [of q a "Cache s" "Running s" copied "Handlers s ! n"] by simp
next
  case (EvAbandon n a)
  then show ?thesis by (simp add: Let_def sheds_Finish)
next
  case (EvRelease n now)
  then show ?thesis by (simp add: handler_release_def sheds_CompleteDelivery sheds_same split: option.split)
qed (simp_all add: sheds_same)

text \<open>Only the first section of an execution calls the handler.\<close>

lemma step_executes:
  assumes inv: "server_inv q s" and e: "server_enabled q s ev"
    and new: "Executions (server_step q s ev) \<noteq> Executions s"
  obtains n where "n < length (Handlers s)"
    "Executions (server_step q s ev) = Executions s @ [(length (RecordHeap (Cache s)), HRequest (Handlers s ! n))]"
    "map_of (Records (Cache s)) (RequestId (HRequest (Handlers s ! n))) = None"
    "map_of (Records (Cache (server_step q s ev))) (RequestId (HRequest (Handlers s ! n))) = Some (length (RecordHeap (Cache s)))"
proof (cases ev)
  case (EvExecute n apartment allocated a)
  let ?h = "Handlers s ! n" and ?d = "DeadlineAfter (Tick a) (HandlerTimeoutMs q)"
  have n: "n < length (Handlers s)" and pc: "HPc ?h = HExecuting" using e EvExecute by (simp_all add: at_pc_def)
  note b = busy_flow [OF inv handler_slots [OF inv n]]
  have ok: "cache_ok q (Cache s)" and h: "handler_ok (Cache s) ?h" using b(1) n by (simp_all add: flow_def)
  have pend: "HPending ?h" "HPendingCorrelation ?h = RequestId (HRequest ?h)" "length (Payload (HRequest ?h)) \<le> 32768"
    using h pc by (simp_all add: handler_ok_def)
  have d: "deliveries (Cache s) (pend (Slots s) (Handlers s)) (held (Slots s) (Handlers s))"
    using b(1) by (simp add: flow_def)
  have "handler_pending ?h = Some (RequestId (HRequest ?h))" using pend by (simp add: handler_pending_def)
  then have pc0: "pending_count (Cache s) (RequestId (HRequest ?h)) \<noteq> 0"
    using claims_pos [of ?h "Handlers s" handler_pending] n deliveries_pending [OF d] by (simp add: pend_def)
  obtain c x where r: "ExecuteOnce q (stop_token s) (Tick a) ?d (CacheNow a) allocated (HRequest ?h) (Cache s) = (c, x)"
    by force
  have step: "apartment" "server_step q s ev = handler_executes n ?d (c, x) s"
    using new EvExecute r by (auto simp: Let_def split: if_splits)
  then obtain p where x: "x = RunHandler p"
    using new by (cases x) (simp_all add: handler_executes_def Let_def put_handler_def)
  have "p = length (RecordHeap (Cache s))"
    using ExecuteOnce_laws(4) [OF ok d pend(3) r] x by auto
  moreover have "map_of (Records (Cache s)) (RequestId (HRequest ?h)) = None"
  proof (rule ccontr)
    assume "map_of (Records (Cache s)) (RequestId (HRequest ?h)) \<noteq> None"
    then obtain p' where "map_of (Records (Cache s)) (RequestId (HRequest ?h)) = Some p'" by auto
    from ExecuteOnce_recorded [OF ok this pc0, of "stop_token s" "Tick a" ?d "CacheNow a" allocated p]
    show False using r x by simp
  qed
  moreover have "map_of (Records c) (RequestId (HRequest ?h)) = Some p"
  proof -
    note laws = ExecuteOnce_laws [OF ok d pend(3) r]
    have map: "map_ok c" using laws(1) by (simp add: cache_ok_def)
    obtain cid where "(cid, p) \<in> set (Records c)" using laws(3) x by (auto simp: open_record_def mapped_def)
    then have "(RequestId (HRequest ?h), p) \<in> set (Records c)"
      using map_okD(2) [OF map] laws(3) x by (metis outcome_ok.simps(4))
    then show ?thesis by (simp add: map_ok_lookup [OF map])
  qed
  ultimately show thesis
    using that [OF n] step x by (simp add: handler_executes_def Let_def put_handler_def)
next
  case (EvWake n a)
  then show thesis
    using new by (auto simp: await_round_def refuse_def handler_executes_def Let_def put_handler_def
        split: handler_pc.splits if_splits)
next
  case (EvStart created callable)
  then show thesis
    using new by (simp add: ServerStart_def EnsureControlCallbacksLocked_def split: bool.splits if_splits)
next
  case (EvStop now)
  then show thesis using new by (cases "StopPc s") simp_all
next
  case (EvReturn n answer completedAt)
  then show thesis using new by (simp add: handler_returns_def Let_def split: handler_pc.splits)
next
  case (EvBegin n copied)
  then show thesis using new by (simp split: prod.splits)
next
  case (EvRespond n copied a)
  then show thesis using new by (simp add: handler_responds_def Let_def split: prod.splits)
qed (use new in \<open>simp_all add: TryStart_def try_start_end_def ScheduleStartRetryLocked_def RequestStop_def
    RequestStopLocked_def stop_begin_def deferred_stop_def on_slot_cache_def handler_settle_def handler_release_def
    Let_def split: prod.splits if_splits\<close>)

end
