(* ===== verification/Server_Stop.thy ===== *)
theory Server_Stop
  imports Server_Machine
begin

section \<open>Stopping the control server ends\<close>

text \<open>
  \<open>Stop\<close> waits for the callbacks that are running. Once its stop source is signalled, every section of a callback
  brings the work left down (\<open>drain_work\<close>): no instance is armed again, no handler is submitted, and a client that
  waits for another client's record gives up. A step of anybody else never adds work.
\<close>

subsection \<open>The source that is signalled is the server's\<close>

definition stop_fresh :: "server \<Rightarrow> bool" where
  "stop_fresh s \<longleftrightarrow> (\<forall>src. StopPc s = StopWaiting src \<or> StopPc s = StopSignalling src \<longrightarrow> src = StopSource s) \<and>
     (StopPc s = StopDraining \<longrightarrow> stop_token s)"

lemma stop_fresh_frame:
  "stop_fresh s \<Longrightarrow> StopPc s' = StopPc s \<Longrightarrow> StopSource s' = StopSource s \<Longrightarrow>
     set (Signalled s) \<subseteq> set (Signalled s') \<Longrightarrow> stop_fresh s'"
  by (auto simp: stop_fresh_def stop_token_def)

lemma put_life [simp]:
  "StopPc (put_handler n h s) = StopPc s" "StopSource (put_handler n h s) = StopSource s"
  "Signalled (put_handler n h s) = Signalled s" "StopPc (put_slot k st s) = StopPc s"
  "StopSource (put_slot k st s) = StopSource s" "Signalled (put_slot k st s) = Signalled s"
  "StopPc (on_slot k cb f s) = StopPc s" "StopSource (on_slot k cb f s) = StopSource s"
  "Signalled (on_slot k cb f s) = Signalled s"
  by (simp_all add: put_handler_def put_slot_def on_slot_def)

lemma on_slot_cache_life [simp]:
  "StopPc (on_slot_cache k cb f s) = StopPc s" "StopSource (on_slot_cache k cb f s) = StopSource s"
  "Signalled (on_slot_cache k cb f s) = Signalled s"
  by (simp_all add: on_slot_cache_def split: prod.split)

lemma handler_executes_life [simp]:
  "StopPc (handler_executes n d r s) = StopPc s" "StopSource (handler_executes n d r s) = StopSource s"
  "Signalled (handler_executes n d r s) = Signalled s"
  by (simp_all add: handler_executes_def Let_def split: execution.split)

lemma callback_life:
  assumes "ev = EvIo k allocated succeeded bytes content a \<or> ev = EvConnected k cb trusted a \<or> ev = EvRearm k \<or>
     ev = EvRearmArm k a \<or> ev = EvRecreate k b a \<or> ev = EvRecreated k b a \<or> ev = EvBegin n b \<or>
     ev = EvExecute n apartment b a \<or> ev = EvWake n a \<or> ev = EvReturn n answer now \<or> ev = EvSettle n now \<or>
     ev = EvRespond n b a \<or> ev = EvAbandon n a \<or> ev = EvRelease n now"
  shows "StopPc (server_step q s ev) = StopPc s" "StopSource (server_step q s ev) = StopSource s"
    "Signalled (server_step q s ev) = Signalled s"
  using assms by (auto simp: Let_def handler_returns_def handler_responds_def handler_settle_def handler_release_def
      split: prod.split handler_pc.split)

lemma stop_step_fresh: "stop_fresh s \<Longrightarrow> stop_fresh (stop_step q now (StopPc s) s)"
  by (cases "StopPc s") (auto simp: stop_fresh_def stop_token_def)

lemma server_step_fresh:
  assumes inv: "server_inv q s" and f: "stop_fresh s"
  shows "stop_fresh (server_step q s ev)"
proof -
  have life: "Stopping s \<longleftrightarrow> StopPc s \<noteq> StopIdle" using inv by (simp add: server_inv_def life_def)
  have "stop_fresh (try_start_end q created made processId tick s)" for created made processId tick
    using f life by (auto simp: try_start_end_def ScheduleStartRetryLocked_def Let_def stop_fresh_def stop_token_def)
  moreover have "stop_fresh (stop_begin s)"
    using f life by (auto simp: stop_begin_def RequestStopLocked_def stop_fresh_def stop_token_def)
  moreover have "stop_fresh (RequestStop s)" "stop_fresh (deferred_stop s)" "stop_fresh (ServerStart created callable s)"
      "stop_fresh (TryStart s)" "stop_fresh (TryStart (s\<lparr>StartRetryTimer := None\<rparr>))" for created callable
    by (rule stop_fresh_frame [OF f]; simp add: deferred_stop_def RequestStop_def RequestStopLocked_def
        ServerStart_def EnsureControlCallbacksLocked_def TryStart_def split: bool.split; fail)+
  moreover have "stop_fresh (s\<lparr>Signalled := src # Signalled s, Signals := l\<rparr>)" "stop_fresh (s\<lparr>Cache := c\<rparr>)" for src l c
    by (rule stop_fresh_frame [OF f]; auto)+
  ultimately show ?thesis
    using stop_step_fresh [OF f] stop_fresh_frame [OF f, of "server_step q s ev"]
    by (cases ev) (simp_all add: callback_life del: server_step.simps, simp_all)
qed

definition stopping_inv :: "ServerOptions \<Rightarrow> server \<Rightarrow> bool" where
  "stopping_inv q s \<longleftrightarrow> server_inv q s \<and> stop_fresh s"

interpretation stopping: machine server_start "server_step q" "server_enabled q" "stopping_inv q" for q
  by unfold_locales (auto simp: stopping_inv_def server_start_def server_inv_start server_step_inv server_step_fresh,
    simp add: stop_fresh_def new_server_def)

subsection \<open>The work left\<close>

fun handler_work :: "handler_pc \<Rightarrow> nat" where
  "handler_work HQueued = 8" | "handler_work HExecuting = 7" | "handler_work (HWaiting p d) = 6"
| "handler_work (HRunning p d) = 6" | "handler_work HSettling = 5" | "handler_work HFailing = 5"
| "handler_work HResponding = 4" | "handler_work HAbandoning = 4" | "handler_work HReleasing = 1"
| "handler_work HFinished = 0"

definition drain_work :: "server \<Rightarrow> nat" where
  "drain_work s = sum_list (map (\<lambda>h. handler_work (HPc h)) (Handlers s)) +
     sum_list (map (\<lambda>i. length (Outstanding i)) (Slots s))"

fun callback_event :: "event \<Rightarrow> bool" where
  "callback_event (EvIo k allocated succeeded bytes content a) = True"
| "callback_event (EvConnected k cb trusted a) = True" | "callback_event (EvRearm k) = True"
| "callback_event (EvRearmArm k a) = True" | "callback_event (EvRecreate k secured a) = True"
| "callback_event (EvRecreated k created a) = True" | "callback_event (EvBegin n copied) = True"
| "callback_event (EvExecute n apartment allocated a) = True" | "callback_event (EvWake n a) = True"
| "callback_event (EvReturn n answer completedAt) = True" | "callback_event (EvSettle n now) = True"
| "callback_event (EvRespond n copied a) = True" | "callback_event (EvAbandon n a) = True"
| "callback_event (EvRelease n now) = True" | "callback_event ev = False"

lemma sum_list_less:
  fixes f :: "'a \<Rightarrow> nat"
  assumes "k < length xs" "f y < f (xs ! k)"
  shows "sum_list (map f (xs[k := y])) < sum_list (map f xs)"
  using assms
proof (induction xs arbitrary: k)
  case (Cons x xs)
  then show ?case by (cases k) auto
qed simp

lemma sum_list_same:
  fixes f :: "'a \<Rightarrow> nat"
  assumes "f y = f (xs ! k)"
  shows "sum_list (map f (xs[k := y])) = sum_list (map f xs)"
proof (cases "k < length xs")
  case True
  have "map f (xs[k := y]) = map f xs" by (simp add: map_update assms list_update_same_conv True)
  then show ?thesis by simp
qed (simp add: list_update_beyond)

text \<open>A callback of an instance, and a section of a handler callback.\<close>

lemma slot_works:
  assumes "owes s k cb" "Outstanding i = Outstanding (answer_callback cb (Slots s ! k))"
    and "Slots s' = (Slots s)[k := i]" "Handlers s' = Handlers s"
  shows "drain_work s' < drain_work s"
proof -
  have k: "k < length (Slots s)" "cb \<in> set (Outstanding (Slots s ! k))" using assms(1) by (simp_all add: owes_def)
  have "length (remove1 cb (Outstanding (Slots s ! k))) < length (Outstanding (Slots s ! k))"
    using k(2) length_pos_if_in_set [OF k(2)] by (simp add: length_remove1)
  then have "length (Outstanding i) < length (Outstanding (Slots s ! k))"
    using assms(2) by (simp add: answer_callback_def)
  then show ?thesis
    using k(1)
    using sum_list_less [of k "Slots s" "\<lambda>i. length (Outstanding i)" i] by (simp add: drain_work_def assms(3,4))
qed

lemma handler_works:
  assumes "n < length (Handlers s)" "handler_work (HPc h) < handler_work (HPc (Handlers s ! n))"
    and "Handlers s' = (Handlers s)[n := h]" "Slots s' = (Slots s)[k := i]" "Outstanding i = Outstanding (Slots s ! k)"
  shows "drain_work s' < drain_work s"
  using sum_list_less [of n "Handlers s" "\<lambda>h. handler_work (HPc h)" h] assms
    sum_list_same [of "\<lambda>i. length (Outstanding i)" i "Slots s" k] by (simp add: drain_work_def)

lemma idle_slot:
  "Outstanding (fst (FinishClientLocked q False a (i, c))) = Outstanding i"
  "Outstanding (fst (HandleConnectedInstanceLocked q False accepting trusted a (i, c))) = Outstanding i"
  "HandleIoCompletion q False a allocated succeeded bytes content (i, c) = ((i, c), False)"
  "Outstanding (OnRearmReady False i) = Outstanding i" "Outstanding (ArmConnectionLocked q False a i) = Outstanding i"
  "Outstanding (RecreatePipeInstance False i) = Outstanding i" "Outstanding (recreate_fails q False a i) = Outstanding i"
  "Outstanding (recreate_succeeds q False a i) = Outstanding i"
  by (simp_all add: FinishClient_eq HandleConnectedInstanceLocked_def HandleIoCompletion_def OnRearmReady_def
      ArmConnectionLocked_def RecreatePipeInstance_def recreate_fails_def recreate_succeeds_def Let_def)

lemma put_lists [simp]:
  "Slots (put_handler n h s) = Slots s" "Handlers (put_handler n h s) = (Handlers s)[n := h]"
  "Handlers (put_slot k st s) = Handlers s" "Slots (put_slot k st s) = (Slots s)[k := fst st]"
  "Slots (on_slot k cb f s) = (Slots s)[k := f (answer_callback cb (Slots s ! k))]"
  "Handlers (on_slot k cb f s) = Handlers s"
  by (simp_all add: put_handler_def put_slot_def on_slot_def)

lemma handler_executes_lists [simp]:
  "Slots (handler_executes n d r s) = Slots s"
  "Handlers (handler_executes n d r s) = (Handlers s)[n := handler_continue d (snd r) (Handlers s ! n)]"
  by (simp_all add: handler_executes_def Let_def split: execution.split)

lemma executing_work: "handler_work (HPc (handler_continue d x h)) < 7"
  by (cases x) (simp_all add: handler_continue_def)

lemma woken_work: "handler_work (HPc (handler_continue d (snd (await_round True tick d' r p c)) h)) < 6"
  by (simp add: await_round_def handler_continue_def refuse_def)

subsection \<open>Draining\<close>

lemma callback_drains:
  assumes e: "server_enabled q s ev" and cb: "callback_event ev" and off: "\<not> Running s" "stop_token s"
  shows "drain_work (server_step q s ev) < drain_work s"
proof -
  have stays: "drain_work s' < drain_work s"
    if "n < length (Handlers s)" "handler_work (HPc h) < handler_work (HPc (Handlers s ! n))"
      "Handlers s' = (Handlers s)[n := h]" "Slots s' = Slots s" for n h s'
    by (rule handler_works [OF that(1-3), of 0 "Slots s ! 0"]) (simp_all add: that(4))
  show ?thesis
  proof (cases ev)
    case (EvIo k allocated succeeded bytes content a)
    then show ?thesis
      using e off by (intro slot_works [of s k IoCompletion]) (auto simp: on_slot_cache_def idle_slot)
  next
    case (EvConnected k cb trusted a)
    then show ?thesis
      using e off by (intro slot_works [of s k cb]) (auto simp: on_slot_cache_def idle_slot)
  next
    case (EvRearm k)
    then show ?thesis using e off by (intro slot_works [of s k RearmTimer]) (auto simp: idle_slot)
  next
    case (EvRearmArm k a)
    then show ?thesis using e off by (intro slot_works [of s k RearmPassed]) (auto simp: idle_slot)
  next
    case (EvRecreate k secured a)
    then show ?thesis using e off by (intro slot_works [of s k RecreateWork]) (auto simp: idle_slot)
  next
    case (EvRecreated k created a)
    then show ?thesis using e off by (intro slot_works [of s k Recreating]) (auto simp: idle_slot)
  next
    case (EvBegin n copied)
    then show ?thesis
      using e off by (intro handler_works [of n s _ _ "HSlot (Handlers s ! n)"
            "(Slots s ! HSlot (Handlers s ! n))\<lparr>PendingDelivery := False\<rparr>"])
        (auto simp: at_pc_def handler_begin_def Let_def)
  next
    case (EvExecute n apartment allocated a)
    let ?d = "DeadlineAfter (Tick a) (HandlerTimeoutMs q)"
    let ?x = "snd (ExecuteOnce q (stop_token s) (Tick a) ?d (CacheNow a) allocated (HRequest (Handlers s ! n)) (Cache s))"
    have n: "n < length (Handlers s)" "HPc (Handlers s ! n) = HExecuting" using e EvExecute by (simp_all add: at_pc_def)
    have "drain_work (server_step q s ev) < drain_work s" if apartment
      using EvExecute that n executing_work by (intro stays [OF n(1), of "handler_continue ?d ?x (Handlers s ! n)"])
        (simp_all add: Let_def)
    moreover have "drain_work (server_step q s ev) < drain_work s" if "\<not> apartment"
      using EvExecute that n by (intro stays [OF n(1), of "(Handlers s ! n)\<lparr>HPc := HSettling\<rparr>"]) (simp_all add: Let_def)
    ultimately show ?thesis by blast
  next
    case (EvWake n a)
    then obtain p d where n: "n < length (Handlers s)" "HPc (Handlers s ! n) = HWaiting p d" using e by auto
    then show ?thesis
      using EvWake off woken_work [of d "Tick a" d "HRequest (Handlers s ! n)" p "Cache s" "Handlers s ! n"]
      by (intro stays [OF n(1)]) simp_all
  next
    case (EvReturn n answer completedAt)
    then obtain p d where n: "n < length (Handlers s)" "HPc (Handlers s ! n) = HRunning p d" using e by auto
    then show ?thesis
      using EvReturn by (intro stays [OF n(1), of "handler_continue d (Cached p) (Handlers s ! n)"])
        (simp_all add: handler_returns_def Let_def handler_continue_def)
  next
    case (EvSettle n now)
    then show ?thesis
      using e by (intro stays [of n "fst (handler_settle q now (Handlers s ! n, Cache s))"])
        (auto simp: at_pc_def handler_settle_def)
  next
    case (EvRespond n copied a)
    then show ?thesis
      using e off by (intro stays [of n "(Handlers s ! n)\<lparr>HPc := HReleasing\<rparr>"])
        (auto simp: at_pc_def handler_responds_def handler_respond_def Let_def)
  next
    case (EvAbandon n a)
    then show ?thesis
      using e off by (intro handler_works [of n s _ _ "HSlot (Handlers s ! n)"
            "fst (FinishClientLocked q False a (Slots s ! HSlot (Handlers s ! n), Cache s))"])
        (auto simp: at_pc_def Let_def idle_slot)
  next
    case (EvRelease n now)
    then show ?thesis
      using e by (intro stays [of n "fst (handler_release q now (Handlers s ! n, Cache s))"])
        (auto simp: at_pc_def handler_release_def)
  qed (use cb in simp_all)
qed

text \<open>No other step adds work, and while something must still be waited for a callback can take a step.\<close>

lemma others_add_no_work:
  assumes inv: "server_inv q s" and e: "server_enabled q s ev" and pc: "StopPc s = StopDraining" and cb: "\<not> callback_event ev"
  shows "drain_work (server_step q s ev) \<le> drain_work s"
proof -
  have "\<not> Starting s" using inv pc by (auto simp: server_inv_def life_def)
  then show ?thesis
    using e cb pc
    by (cases ev) (simp_all add: drain_work_def ServerStart_def EnsureControlCallbacksLocked_def TryStart_def RequestStop_def
        RequestStopLocked_def stop_begin_def deferred_stop_def split: bool.split)
qed

lemma waited_for:
  assumes not: "\<not> drained s"
  shows "\<exists>ev. callback_event ev \<and> server_enabled q s ev"
proof -
  consider h where "h \<in> set (Handlers s)" "HPc h \<noteq> HQueued" "HPc h \<noteq> HFinished"
    | i cb where "i \<in> set (Slots s)" "cb \<in> set (Outstanding i)" "\<not> cancellable cb"
    using not by (auto simp: drained_def)
  then show ?thesis
  proof cases
    case 1
    then obtain n where n: "n < length (Handlers s)" "Handlers s ! n = h" by (auto simp: in_set_conv_nth)
    obtain a :: answers where True by simp
    show ?thesis
      using 1 n at_pc_def [of s n]
      by (cases "HPc h")
        (auto intro: exI [of _ "EvExecute n b c a" for b c] exI [of _ "EvWake n a"] exI [of _ "EvReturn n None 0"]
          exI [of _ "EvSettle n 0"] exI [of _ "EvRespond n b a" for b] exI [of _ "EvAbandon n a"] exI [of _ "EvRelease n 0"])
  next
    case 2
    then obtain k where k: "k < length (Slots s)" "Slots s ! k = i" by (auto simp: in_set_conv_nth)
    then have o: "owes s k cb" using 2 by (simp add: owes_def)
    obtain a :: answers where True by simp
    have "\<exists>x. fits x i"
      by (cases "Buffer i")
        (auto intro: exI [of _ NoContent] exI [of _ "RequestHeaderBytes NewRequestHeader"]
          exI [of _ "PayloadBytes (Payload (SlotRequest i))"] exI [of _ "AcknowledgementBytes NewAcknowledgement"])
    then obtain x where x: "fits x i" by blast
    show ?thesis
      using o x 2(3) k
      by (cases cb) (auto simp: cancellable_def intro: exI [of _ "EvIo k b c d x a" for b c d]
          exI [of _ "EvConnected k ConnectionSeen b a" for b] exI [of _ "EvRearmArm k a"] exI [of _ "EvRecreated k b a" for b])
  qed
qed

end
