(* ===== verification/Server_Claims.thy ===== *)
theory Server_Claims
  imports Server_Retention Server_Stop
begin

section \<open>Properties of the control server\<close>

text \<open>
  What the invariant of the server says of the program, and a run that shows the statements at work: two clients
  send the same request under one correlation identifier (the second is a retry), the handler runs once, both get
  its response, and the record is dropped after the acknowledgement; another run stops the server while a handler
  is at work.
\<close>

subsection \<open>A run\<close>

definition demo_options :: ServerOptions where
  "demo_options = (DefaultOptions 56 64)\<lparr>PipeInstanceCount := 2\<rparr>"

definition answer_at :: "int \<Rightarrow> answers" where
  "answer_at now = \<lparr>Tick = 1000, CacheNow = now, TransferAccepted = True, Connect = ConnectStarted\<rparr>"

definition status_header :: RequestHeader where
  "status_header = NewRequestHeader\<lparr>rqCorrelationHigh := 7, rqCommand := command_value CmdStatus\<rparr>"

abbreviation status_id :: CorrelationId where
  "status_id \<equiv> \<lparr>High = 7, Low = 0\<rparr>"

definition status_request :: Request where
  "status_request = NewRequest\<lparr>Command := CmdStatus, RequestId := status_id\<rparr>"

definition start_run :: "event list" where
  "start_run = [EvStart 3 True, EvTryStart False, EvTryStartEnd True [(True, answer_at 0), (True, answer_at 0)] 1 1000]"

definition ask_run :: "nat \<Rightarrow> event list" where
  "ask_run k = [EvIo k True True 0 NoContent (answer_at 0), EvConnected k ConnectionSeen True (answer_at 0),
     EvIo k True True 40 (RequestHeaderBytes status_header) (answer_at 0), EvBegin k True]"

definition execute_run :: "event list" where
  "execute_run = [EvExecute 0 True True (answer_at 0), EvExecute 1 True True (answer_at 0)]"

definition answer_run :: "event list" where
  "answer_run = [EvReturn 0 (Some NewResponse) 5, EvWake 1 (answer_at 6)]"

definition deliver_run :: "event list" where
  "deliver_run = [EvSettle 0 7, EvRespond 0 True (answer_at 7), EvSettle 1 7, EvRespond 1 True (answer_at 7)]"

definition acknowledge_run :: "nat \<Rightarrow> event list" where
  "acknowledge_run k = [EvIo k True True 32 NoContent (answer_at 8),
     EvIo k True True 24 (AcknowledgementBytes (NewAcknowledgement\<lparr>akCorrelationHigh := 7\<rparr>)) (answer_at 9)]"

definition stop_run :: "event list" where
  "stop_run = [EvStopBegin, EvStop 0, EvStop 0]"

definition end_run :: "event list" where
  "end_run = [EvIo 0 True False 0 NoContent (answer_at 10), EvIo 1 True False 0 NoContent (answer_at 10),
     EvStop 11, EvStop 11, EvStop 11]"

abbreviation goes :: "server \<Rightarrow> event list \<Rightarrow> server" where
  "goes s es \<equiv> foldl (server_step demo_options) s es"

abbreviation follows :: "server \<Rightarrow> event list \<Rightarrow> bool" where
  "follows s es \<equiv> admissible (server_step demo_options) (server_enabled demo_options) s es"

abbreviation reached :: "server \<Rightarrow> bool" where
  "reached s \<equiv> reachable server_start (server_step demo_options) (server_enabled demo_options) s"

lemma status_header_facts:
  "IsRequestHeaderValid status_header" "request_of_header status_header = status_request"
  "rqPayloadBytes status_header = 0" "IsRequestValid status_request" "RequestId status_request = status_id"
  "Payload status_request = []" "IsKnownExitCode 0" "IsPayloadByteCountValid 0"
  using known_exit_value [of ExitSuccess] cast_target_value [of TargetNone] cast_command_value [of CmdStatus]
  by (simp_all add: IsRequestHeaderValid_def status_header_def NewRequestHeader_def EmptyId_def IsKnownCommand_def
      IsKnownTarget_def flags_known_def IsPayloadByteCountValid_def c_maxPayloadBytes_def request_of_header_def
      status_request_def NewRequest_def CommandFlagNone_def IsRequestValid_def)

definition running_slot :: "u64 \<Rightarrow> PipeInstance" where
  "running_slot k = (new_instance k True)\<lparr>Phase := RunningHandler, Buffer := InHeader, TotalBytes := 40,
     TransferredBytes := 40, TransferDeadline := 6000, RequestDeadline := 6000, SlotRequestHeader := status_header,
     SlotRequest := status_request\<rparr>"

definition asking_handler :: "nat \<Rightarrow> handler" where
  "asking_handler k = (new_handler k)\<lparr>HPc := HExecuting, HRequest := status_request, HPendingCorrelation := status_id,
     HPending := True, HResponse := \<lparr>Code = ExitOperationFailed, Body = [], ResponseId = status_id\<rparr>\<rparr>"

definition asked_server :: server where
  "asked_server = new_server\<lparr>DesiredRunning := True, Running := True, Accepting := True, Callable := True,
     StopSource := 1, Slots := [running_slot 0, running_slot 1], Handlers := [asking_handler 0, asking_handler 1],
     Cache := new_cache\<lparr>PendingDeliveries := [(status_id, 2)], HasPruneTimer := True\<rparr>\<rparr>"

definition status_record :: RequestRecord where
  "status_record = \<lparr>RcRequest = status_request, RcResponse = NewResponse, CompletedAt = 0, LastDeliveryCompletedAt = 0,
     Bytes = 65656, ActiveDeliveries = 0, IsComplete = False, Acknowledged = False\<rparr>"

definition executing_server :: server where
  "executing_server = asked_server
     \<lparr>Handlers := [(asking_handler 0)\<lparr>HPc := HRunning 0 31000\<rparr>, (asking_handler 1)\<lparr>HPc := HWaiting 0 31000\<rparr>],
      Cache := new_cache\<lparr>Records := [(status_id, 0)], RecordHeap := [status_record],
        PendingDeliveries := [(status_id, 2)], RequestCacheBytes := 65656, HasPruneTimer := True\<rparr>,
      Executions := [(0, status_request)]\<rparr>"

definition answered_server :: server where
  "answered_server = executing_server
     \<lparr>Handlers := [(asking_handler 0)\<lparr>HPc := HSettling, HExecution := Some 0, HAcknowledgement := Some 0\<rparr>,
        (asking_handler 1)\<lparr>HPc := HSettling, HExecution := Some 0, HAcknowledgement := Some 0\<rparr>],
      Cache := new_cache\<lparr>Records := [(status_id, 0)],
        RecordHeap := [status_record\<lparr>RcResponse := NewResponse\<lparr>ResponseId := status_id\<rparr>, CompletedAt := 5,
          Bytes := 120, ActiveDeliveries := 2, IsComplete := True\<rparr>],
        PendingDeliveries := [(status_id, 2)], RequestCacheBytes := 120, HasPruneTimer := True\<rparr>\<rparr>"

definition writing_slot :: "u64 \<Rightarrow> PipeInstance" where
  "writing_slot k = (running_slot k)\<lparr>Phase := WritingResponseHeader, Buffer := OutHeader, TotalBytes := 32,
     TransferredBytes := 0, Write := True, ResponseDeadline := 6000,
     SlotResponseHeader := NewResponseHeader\<lparr>rsCorrelationHigh := 7\<rparr>,
     SlotResponse := NewResponse\<lparr>ResponseId := status_id\<rparr>, AcknowledgementRecord := Some 0,
     Outstanding := [IoCompletion]\<rparr>"

definition listening_slot :: "u64 \<Rightarrow> PipeInstance" where
  "listening_slot k = (writing_slot k)\<lparr>Phase := Connecting, Buffer := InAcknowledgement, TotalBytes := 24,
     TransferredBytes := 24, Write := False, TransferDeadline := 2500,
     SlotAcknowledgement := NewAcknowledgement\<lparr>akCorrelationHigh := 7\<rparr>, AcknowledgementRecord := None\<rparr>"

definition finished_handler :: "nat \<Rightarrow> handler" where
  "finished_handler k = (asking_handler k)\<lparr>HPc := HFinished, HPending := False, HExecution := Some 0\<rparr>"

definition replied_server :: server where
  "replied_server = answered_server
     \<lparr>Slots := [writing_slot 0, writing_slot 1], Handlers := [finished_handler 0, finished_handler 1],
      Cache := (Cache answered_server)\<lparr>PendingDeliveries := []\<rparr>,
      Replies := [(status_request, NewResponse\<lparr>ResponseId := status_id\<rparr>, Some 0),
        (status_request, NewResponse\<lparr>ResponseId := status_id\<rparr>, Some 0)]\<rparr>"

definition served_server :: server where
  "served_server = replied_server
     \<lparr>Slots := [listening_slot 0, listening_slot 1],
      Cache := (Cache replied_server)
        \<lparr>RecordHeap := [status_record\<lparr>RcResponse := NewResponse\<lparr>ResponseId := status_id\<rparr>, CompletedAt := 5,
           LastDeliveryCompletedAt := 9, Bytes := 120, IsComplete := True, Acknowledged := True\<rparr>],
         PruneTimer := Some (- 10000000)\<rparr>\<rparr>"

definition draining_server :: server where
  "draining_server = executing_server\<lparr>DesiredRunning := False, Accepting := False, Running := False, Stopping := True,
     StopRequested := True, Signalled := [1], StopPc := StopDraining\<rparr>"

definition ended_server :: server where
  "ended_server = served_server\<lparr>DesiredRunning := False, Accepting := False, Running := False, Stopping := True,
     StopRequested := False, Callable := False, Signalled := [1], StopPc := StopEnding, Slots := [], Handlers := [],
     Cache := (Cache served_server)\<lparr>PruneTimer := Some (- 9990000)\<rparr>\<rparr>"

lemmas run_simps = new_server_def ServerStart_def EnsureControlCallbacksLocked_def TryStart_def try_start_end_def
  arm_instances_def ArmConnectionLocked_def new_instance_def answer_at_def demo_options_def DefaultOptions_def Let_def
  owe_def new_cache_def on_slot_cache_def HandleIoCompletion_def put_slot_def answer_callback_def
  HandleConnectedInstanceLocked_def StartTransferLocked_def StartCurrentTransferLocked_def transfer_or_finish_def
  DeadlineAfter_def RemainingWait_def

lemmas ask_simps = header_received_def HandleCompletedTransferLocked_def DispatchRequestLocked_def
  BeginPendingDelivery_def set_pending_def pending_count_def handler_begin_def put_handler_def new_handler_def
  status_header_facts c_maxSize_def

lemmas execute_simps = ExecuteOnce_def PruneRequestRecords_def lacksCapacity_def reservedBytes_def RequestBytes_def
  c_maxPayloadBytes_def insert_record_def handler_executes_def handler_continue_def await_round_def record_at_def
  SameRequest_def refuse_def begin_delivery_def set_record_def handler_returns_def CompleteExecution_def
  handler_response_def ResponseBytes_def ScheduleRequestPruneLocked_def in_use_def kept_def NewResponse_def
  stop_token_def PayloadByteCount_def

lemmas reply_simps = handler_settle_def CompletePendingDelivery_def handler_responds_def
  handler_respond_def responseToSend_def MakeResponseHeader_def read_acknowledgement_def acknowledgement_received_def
  IsAcknowledgementValid_def FinishClientLocked_def CompleteDelivery_def EmptyId_def

lemma after_asking: "goes new_server (start_run @ ask_run 0 @ ask_run 1) = asked_server"
  by (simp add: start_run_def ask_run_def run_simps ask_simps asked_server_def running_slot_def asking_handler_def)

lemma after_executing: "goes asked_server execute_run = executing_server"
  by (simp add: executing_server_def asked_server_def asking_handler_def run_simps ask_simps execute_run_def
      execute_simps make_room.simps status_record_def)

lemma after_answering: "goes executing_server answer_run = answered_server"
  by (simp add: answered_server_def executing_server_def asked_server_def asking_handler_def run_simps ask_simps
      answer_run_def execute_simps status_record_def)

lemma asking_follows: "follows new_server (start_run @ ask_run 0 @ ask_run 1)"
  by (simp add: start_run_def ask_run_def run_simps ask_simps start_ready_def owes_def at_pc_def)

lemma executing_follows: "follows asked_server execute_run"
  by (simp add: asked_server_def asking_handler_def run_simps ask_simps execute_run_def execute_simps make_room.simps
      at_pc_def)

lemma answering_follows: "follows executing_server answer_run"
  by (simp add: executing_server_def asked_server_def asking_handler_def run_simps ask_simps answer_run_def
      execute_simps status_record_def)

lemmas states = ended_server_def draining_server_def served_server_def listening_slot_def replied_server_def
  writing_slot_def finished_handler_def answered_server_def executing_server_def asked_server_def asking_handler_def
  running_slot_def status_record_def

lemma after_delivering: "goes answered_server deliver_run = replied_server"
  by (simp add: states deliver_run_def run_simps ask_simps execute_simps reply_simps NewResponseHeader_def)

lemma after_acknowledging: "goes replied_server (acknowledge_run 0 @ acknowledge_run 1) = served_server"
  by (simp add: states acknowledge_run_def run_simps ask_simps execute_simps reply_simps NewResponseHeader_def
      NewAcknowledgement_def retention_def retainedSince_def nanoseconds_def prune_delay_def RelativeDelay_def)

lemma delivering_follows: "follows answered_server deliver_run"
  by (simp add: states deliver_run_def run_simps ask_simps execute_simps reply_simps NewResponseHeader_def at_pc_def)

lemma acknowledging_follows: "follows replied_server (acknowledge_run 0 @ acknowledge_run 1)"
  by (simp add: states acknowledge_run_def run_simps ask_simps execute_simps reply_simps NewResponseHeader_def
      NewAcknowledgement_def owes_def)

lemmas stop_simps = stop_run_def end_run_def stop_begin_def nothing_to_stop_def RequestStopLocked_def

lemma after_stopping: "goes executing_server stop_run = draining_server"
  by (simp add: stop_simps draining_server_def executing_server_def asked_server_def new_server_def)

lemma stopping_follows: "follows executing_server stop_run" "follows served_server (stop_run @ end_run)"
  by (simp_all add: stop_simps states run_simps drained_def owes_def)

lemma after_ending: "goes served_server (stop_run @ end_run) = ended_server"
  by (simp add: stop_simps states run_simps StopCache_def execute_simps pending_count_def retention_def retainedSince_def
      nanoseconds_def prune_delay_def RelativeDelay_def)

lemma reached_asked: "reached asked_server"
  unfolding after_asking [symmetric]
  by (rule reachable_run [OF reach_start asking_follows]) (simp add: server_start_def)

lemma reached_executing: "reached executing_server"
  unfolding after_executing [symmetric] by (rule reachable_run [OF reached_asked executing_follows])

lemma reached_answered: "reached answered_server"
  unfolding after_answering [symmetric] by (rule reachable_run [OF reached_executing answering_follows])

lemma reached_replied: "reached replied_server"
  unfolding after_delivering [symmetric] by (rule reachable_run [OF reached_answered delivering_follows])

lemma reached_served: "reached served_server"
  unfolding after_acknowledging [symmetric] by (rule reachable_run [OF reached_replied acknowledging_follows])

lemma reached_draining: "reached draining_server"
  unfolding after_stopping [symmetric] by (rule reachable_run [OF reached_executing stopping_follows(1)])

lemma reached_ended: "reached ended_server"
  unfolding after_ending [symmetric] by (rule reachable_run [OF reached_served stopping_follows(2)])

subsection \<open>Requests are executed once\<close>

text \<open>
  C4 (safety). At most one execution per record: when a step of a reachable server calls the handler, it calls it for
  one request that the cache has no record of under its correlation identifier, on a record that was never used, and
  from then on the cache has that record. So a retry is executed again only after the record of the first execution
  has left the cache (which the next property restricts).
\<close>

theorem server_executes_once:
  assumes "reachable server_start (server_step q) (server_enabled q) s" and "server_enabled q s ev"
    and "Executions (server_step q s ev) \<noteq> Executions s"
  shows "\<exists>request. Executions (server_step q s ev) = Executions s @ [(length (RecordHeap (Cache s)), request)] \<and>
     map_of (Records (Cache s)) (RequestId request) = None \<and>
     map_of (Records (Cache (server_step q s ev))) (RequestId request) = Some (length (RecordHeap (Cache s)))"
  by (rule step_executes [OF control_server.reachable_inv [OF assms(1)] assms(2,3)]) blast

lemma first_execution:
  "server_enabled demo_options asked_server (EvExecute 0 True True (answer_at 0))"
  "Executions (server_step demo_options asked_server (EvExecute 0 True True (answer_at 0))) = [(0, status_request)]"
  "Executions asked_server = []"
  by (simp_all add: asked_server_def asking_handler_def run_simps ask_simps execute_simps make_room.simps at_pc_def)

theorem server_executes_once_witness:
  "Executions (server_step demo_options asked_server (EvExecute 0 True True (answer_at 0))) = [(0, status_request)] \<and>
     map_of (Records (Cache asked_server)) status_id = None"
  using server_executes_once [OF reached_asked first_execution(1)] first_execution(2,3)
  by (auto simp: status_header_facts)

text \<open>
  C5 (safety). A record leaves the cache only when its request is complete, no delivery of its response is active, no
  client with its identifier is waiting, and either some client has acknowledged the response or the lifetime of an
  unacknowledged record has passed at the time the step has read.
\<close>

theorem server_record_kept:
  assumes "reachable server_start (server_step q) (server_enabled q) s" and "server_enabled q s ev"
    and "(cid, p) \<in> set (Records (Cache s))" and "(cid, p) \<notin> set (Records (Cache (server_step q s ev)))"
  shows "IsComplete (record_at (Cache (server_step q s ev)) p) \<and>
     ActiveDeliveries (record_at (Cache (server_step q s ev)) p) = 0 \<and>
     pending_count (Cache (server_step q s ev)) cid = 0 \<and>
     (Acknowledged (record_at (Cache (server_step q s ev)) p) \<or>
      event_time ev - CompletedAt (record_at (Cache (server_step q s ev)) p) \<ge> nanoseconds (RequestRecordLifetime q))"
  using step_sheds [OF control_server.reachable_inv [OF assms(1)] assms(2)] assms(3,4)
  by (force simp: sheds_def droppable_def in_use_def)

theorem server_record_kept_witness:
  "Acknowledged (record_at (Cache (server_step demo_options served_server (EvPrune 2000000000))) 0)"
proof -
  have "server_enabled demo_options served_server (EvPrune 2000000000)"
    "(status_id, 0) \<in> set (Records (Cache served_server))"
    by (simp_all add: states)
  moreover have "Records (Cache (server_step demo_options served_server (EvPrune 2000000000))) = []"
    "CompletedAt (record_at (Cache (server_step demo_options served_server (EvPrune 2000000000))) 0) = 5"
    by (simp_all add: states run_simps OnRequestPrune_def execute_simps pending_count_def retainedSince_def retention_def
        nanoseconds_def)
  ultimately show ?thesis
    using server_record_kept [OF reached_served, of "EvPrune 2000000000" status_id 0]
    by (simp add: nanoseconds_def demo_options_def DefaultOptions_def)
qed

text \<open>
  C6 (safety). A response that a reachable server handed to an instance from a record is the response recorded for that
  record, the record is complete, and it belongs to an execution of the same request (command, target, flags and
  payload) under the same correlation identifier.
\<close>

theorem server_replies_recorded:
  assumes "reachable server_start (server_step q) (server_enabled q) s"
    and "(request, response, Some p) \<in> set (Replies s)"
  shows "IsComplete (record_at (Cache s) p) \<and> response = RcResponse (record_at (Cache s) p) \<and>
     distinct (map fst (Executions s)) \<and>
     (\<exists>executed. (p, executed) \<in> set (Executions s) \<and> SameRequest executed request \<and>
        RequestId executed = RequestId request)"
proof -
  have log: "log_ok s" using control_server.reachable_inv [OF assms(1)] by (simp add: server_inv_def)
  then have r: "matches (Cache s) p request" "IsComplete (record_at (Cache s) p)"
    "response = RcResponse (record_at (Cache s) p)"
    using assms(2) by (auto simp: log_ok_def reply_ok_def)
  have p: "p < length (RecordHeap (Cache s))" using r(1) by (simp add: matches_def)
  have len: "length (Executions s) = length (RecordHeap (Cache s))"
    using log length_map [of fst "Executions s"] by (simp add: log_ok_def del: length_map)
  have "map fst (Executions s) ! p = p" "map snd (Executions s) ! p = RcRequest (record_at (Cache s) p)"
    using log p by (simp_all add: log_ok_def)
  then have "Executions s ! p = (p, RcRequest (record_at (Cache s) p))"
    using p len by (simp add: prod_eq_iff)
  then have "(p, RcRequest (record_at (Cache s) p)) \<in> set (Executions s)"
    using p len nth_mem [of p "Executions s"] by simp
  then show ?thesis
    using r log by (auto simp: matches_def log_ok_def)
qed

theorem server_replies_recorded_witness:
  "RcResponse (record_at (Cache replied_server) 0) = NewResponse\<lparr>ResponseId := status_id\<rparr> \<and>
     length (Executions replied_server) = 1 \<and> length (Replies replied_server) = 2"
proof -
  have "(status_request, NewResponse\<lparr>ResponseId := status_id\<rparr>, Some 0) \<in> set (Replies replied_server)"
    by (simp add: replied_server_def)
  then show ?thesis
    using server_replies_recorded [OF reached_replied]
    by (force simp: replied_server_def answered_server_def executing_server_def)
qed

subsection \<open>The counts of the cache\<close>

text \<open>
  C8 (bounds). The cache of a reachable server never exceeds its limits, its byte count is exactly the sum over its
  records (no addition or subtraction wraps or is cut off), and no identifier has two records.
\<close>

theorem server_cache_bounded:
  assumes "reachable server_start (server_step q) (server_enabled q) s"
  shows "RequestCacheBytes (Cache s) = sum_list (map (\<lambda>e. Bytes (record_at (Cache s) (snd e))) (Records (Cache s))) \<and>
     RequestCacheBytes (Cache s) \<le> MaxRequestCacheBytes q \<and> length (Records (Cache s)) \<le> MaxRequestRecords q \<and>
     distinct (map fst (Records (Cache s)))"
  using control_server.reachable_inv [OF assms]
  by (auto simp: server_inv_def core_def flow_def cache_ok_def size_ok_def map_ok_def bytes_of_def split: if_splits)

theorem server_cache_bounded_witness:
  "RequestCacheBytes (Cache executing_server) = 65656 \<and> 65656 \<le> MaxRequestCacheBytes demo_options"
  using server_cache_bounded [OF reached_executing] by (simp add: executing_server_def)

text \<open>
  C7 (invariant). The two counts that protect records are exact: the pending deliveries of an identifier are the
  instances and handler callbacks that wait for it, the active deliveries of a record are the instances and callbacks
  that hold it, and a record that anybody holds is complete and still in the cache.
\<close>

theorem server_deliveries_balanced:
  assumes "reachable server_start (server_step q) (server_enabled q) s" and "StopPc s \<noteq> StopCleaning"
  shows "pending_count (Cache s) cid =
       length (filter (\<lambda>i. PendingDelivery i \<and> RequestId (SlotRequest i) = cid) (Slots s)) +
       length (filter (\<lambda>h. HPending h \<and> HPendingCorrelation h = cid) (Handlers s)) \<and>
     ((cid, p) \<in> set (Records (Cache s)) \<longrightarrow> ActiveDeliveries (record_at (Cache s) p) =
       length (filter (\<lambda>i. AcknowledgementRecord i = Some p) (Slots s)) +
       length (filter (\<lambda>h. HAcknowledgement h = Some p) (Handlers s))) \<and>
     ((\<exists>i \<in> set (Slots s). AcknowledgementRecord i = Some p) \<or> (\<exists>h \<in> set (Handlers s). HAcknowledgement h = Some p) \<longrightarrow>
       IsComplete (record_at (Cache s) p) \<and> p \<in> snd ` set (Records (Cache s)))"
proof -
  have d: "deliveries (Cache s) (pend (Slots s) (Handlers s)) (held (Slots s) (Handlers s))"
    using control_server.reachable_inv [OF assms(1)] assms(2) by (simp add: server_inv_def core_def flow_def)
  have "slot_pending i = Some cid \<longleftrightarrow> PendingDelivery i \<and> RequestId (SlotRequest i) = cid"
    "handler_pending h = Some cid \<longleftrightarrow> HPending h \<and> HPendingCorrelation h = cid" for i h
    by (auto simp: slot_pending_def handler_pending_def)
  then have "pending_count (Cache s) cid =
       length (filter (\<lambda>i. PendingDelivery i \<and> RequestId (SlotRequest i) = cid) (Slots s)) +
       length (filter (\<lambda>h. HPending h \<and> HPendingCorrelation h = cid) (Handlers s))"
    using deliveries_pending [OF d, of cid] by (simp add: pend_def claims_def)
  moreover have "held (Slots s) (Handlers s) p =
       length (filter (\<lambda>i. AcknowledgementRecord i = Some p) (Slots s)) +
       length (filter (\<lambda>h. HAcknowledgement h = Some p) (Handlers s))"
    by (simp add: held_def claims_def)
  moreover have "held (Slots s) (Handlers s) p \<noteq> 0 \<longleftrightarrow>
      (\<exists>i \<in> set (Slots s). AcknowledgementRecord i = Some p) \<or> (\<exists>h \<in> set (Handlers s). HAcknowledgement h = Some p)"
    using claims_zero [of AcknowledgementRecord "Slots s" p] claims_zero [of HAcknowledgement "Handlers s" p]
    by (auto simp: held_def)
  ultimately show ?thesis
    using d mappedI [of cid p "Cache s"] by (auto simp: deliveries_def mapped_def)
qed

theorem server_deliveries_balanced_witness:
  "pending_count (Cache answered_server) status_id = 2 \<and> ActiveDeliveries (record_at (Cache answered_server) 0) = 2"
proof -
  have "StopPc answered_server \<noteq> StopCleaning" "(status_id, 0) \<in> set (Records (Cache answered_server))"
    by (simp_all add: states run_simps)
  then show ?thesis
    using server_deliveries_balanced [OF reached_answered, of status_id 0] by (simp add: states run_simps ask_simps)
qed

subsection \<open>Progress\<close>

text \<open>
  C9 (liveness). No instance of a running server is ever lost: either the system owes it exactly one callback and no
  handler works for it, or exactly one handler callback works for it and nothing is owed. So an instance is neither
  forgotten nor touched by two callbacks.
\<close>

theorem server_slot_alive:
  assumes "reachable server_start (server_step q) (server_enabled q) s" and "Running s" and "k < length (Slots s)"
  shows "(\<exists>cb. Outstanding (Slots s ! k) = [cb] \<and> (\<forall>h \<in> set (Handlers s). HSlot h = k \<longrightarrow> \<not> active (HPc h))) \<or>
     (Outstanding (Slots s ! k) = [] \<and> Phase (Slots s ! k) = RunningHandler \<and>
      (\<exists>n < length (Handlers s). HSlot (Handlers s ! n) = k \<and> active (HPc (Handlers s ! n)) \<and>
        (\<forall>m < length (Handlers s). m \<noteq> n \<longrightarrow> HSlot (Handlers s ! m) = k \<longrightarrow> \<not> active (HPc (Handlers s ! m)))))"
proof -
  have inv: "server_inv q s" by (rule control_server.reachable_inv [OF assms(1)])
  have ne: "Slots s \<noteq> []" using assms(3) by auto
  note l = busy_flow(3) [OF inv ne]
  have one: "claims active_slot (Handlers s) k + length (Outstanding (Slots s ! k)) = 1"
    using inv assms(2,3) by (simp add: server_inv_def core_def alive_def)
  show ?thesis
  proof (cases "Outstanding (Slots s ! k)")
    case (Cons cb cbs)
    then have "cbs = []" "claims active_slot (Handlers s) k = 0" using one by simp_all
    then show ?thesis using Cons by (auto simp: claims_zero active_slot_def)
  next
    case Nil
    then have c: "claims active_slot (Handlers s) k = 1" using one by simp
    then obtain n where n: "n < length (Handlers s)" "active_slot (Handlers s ! n) = Some k"
      using claims_zero [of active_slot "Handlers s" k] by (auto simp: in_set_conv_nth)
    then have "active (HPc (Handlers s ! n))" "HSlot (Handlers s ! n) = k"
      by (auto simp: active_slot_def split: if_splits)
    moreover have "Phase (Slots s ! k) = RunningHandler"
      using link_active(3) [OF l n(1)] calculation by (simp add: linked_def)
    moreover have "HSlot (Handlers s ! m) = k \<longrightarrow> \<not> active (HPc (Handlers s ! m))"
      if "m < length (Handlers s)" "m \<noteq> n" for m
      using claims_one [of active_slot "Handlers s" k n m] n that c by (auto simp: active_slot_def)
    ultimately show ?thesis using Nil n(1) by blast
  qed
qed

theorem server_slot_alive_witness:
  "Outstanding (Slots executing_server ! 0) = [] \<and> Phase (Slots executing_server ! 0) = RunningHandler"
proof -
  have "Running executing_server" "0 < length (Slots executing_server)" "Outstanding (Slots executing_server ! 0) = []"
    by (simp_all add: states run_simps)
  then show ?thesis using server_slot_alive [OF reached_executing, of 0] by auto
qed

text \<open>
  C12 (liveness). The cache drains by itself: whenever a record is complete and unused, the prune timer is armed, and if
  the timer fires when the record's retention has passed, the record is dropped.
\<close>

theorem server_record_expires:
  assumes "reachable server_start (server_step q) (server_enabled q) s"
    and "(cid, p) \<in> set (Records (Cache s))" and "\<not> in_use (Cache s) (cid, p)"
    and "now - retainedSince (record_at (Cache s) p) \<ge> retention q (record_at (Cache s) p)"
  shows "server_enabled q s (EvPrune now) \<and> (cid, p) \<notin> set (Records (Cache (server_step q s (EvPrune now))))"
proof -
  have inv: "server_inv q s" by (rule control_server.reachable_inv [OF assms(1)])
  have ok: "cache_ok q (Cache s)"
    using inv by (auto simp: server_inv_def core_def flow_def split: if_splits)
  moreover have "HasPruneTimer (Cache s)" using inv assms(2) by (auto simp: server_inv_def life_def)
  ultimately have "PruneTimer (Cache s) \<noteq> None" using assms(2,3) by (auto simp: cache_ok_def timer_ok_def)
  moreover have "\<not> kept q now (Cache s) (cid, p)" using assms(3,4) by (simp add: kept_def)
  ultimately show ?thesis
    using kept_cong [of "(Cache s)\<lparr>PruneTimer := None\<rparr>" "Cache s" q now] by (simp add: OnRequestPrune_def)
qed

theorem server_record_expires_witness:
  "PruneTimer (Cache served_server) \<noteq> None \<and>
     (status_id, 0) \<notin> set (Records (Cache (server_step demo_options served_server (EvPrune 1000000009))))"
proof -
  have "(status_id, 0) \<in> set (Records (Cache served_server))" "\<not> in_use (Cache served_server) (status_id, 0)"
    "1000000009 - retainedSince (record_at (Cache served_server) 0) \<ge> retention demo_options (record_at (Cache served_server) 0)"
    by (simp_all add: states run_simps execute_simps pending_count_def retainedSince_def retention_def nanoseconds_def)
  then show ?thesis using server_record_expires [OF reached_served, of status_id 0 1000000009] by simp
qed

subsection \<open>Stopping\<close>

text \<open>
  C10 (safety). The stop token of a running server is never signalled, however stops and starts overlap (a late
  \<open>RequestStop\<close> signals the source of the run it stopped), and when \<open>Stop\<close> is about to let starters go on, no instance,
  no handler callback, no waiting client and no held or incomplete record is left.
\<close>

theorem server_stop_sound:
  assumes "reachable server_start (server_step q) (server_enabled q) s"
  shows "(Running s \<longrightarrow> \<not> stop_token s) \<and>
     (StopPc s = StopRetiring \<or> StopPc s = StopEnding \<longrightarrow> \<not> Running s \<and> Slots s = [] \<and> Handlers s = [] \<and>
        pending_count (Cache s) cid = 0 \<and>
        ((cid, p) \<in> set (Records (Cache s)) \<longrightarrow>
           IsComplete (record_at (Cache s) p) \<and> ActiveDeliveries (record_at (Cache s) p) = 0))"
proof -
  have inv: "server_inv q s" by (rule control_server.reachable_inv [OF assms])
  then have life: "life s" and core: "core q s" by (simp_all add: server_inv_def)
  have "Running s \<Longrightarrow> \<not> stop_token s" using life by (auto simp: life_def stop_token_def)
  moreover have "\<not> Running s \<and> Slots s = [] \<and> Handlers s = [] \<and> pending_count (Cache s) cid = 0 \<and>
      ((cid, p) \<in> set (Records (Cache s)) \<longrightarrow>
         IsComplete (record_at (Cache s) p) \<and> ActiveDeliveries (record_at (Cache s) p) = 0)"
    if "StopPc s = StopRetiring \<or> StopPc s = StopEnding"
  proof -
    have e: "Slots s = []" "Handlers s = []" "\<not> Running s"
      using life that by (auto simp: life_def stop_drained_def)
    then have f: "flow q [] [] (Cache s)" using core that by (auto simp: core_def)
    then have "deliveries (Cache s) (pend [] []) (held [] [])" "\<not> open_record (Cache s) p"
      by (simp_all add: flow_def)
    then show ?thesis
      using e mappedI [of cid p "Cache s"] by (auto simp: deliveries_def open_record_def pend_def held_def)
  qed
  ultimately show ?thesis by blast
qed

theorem server_stop_sound_witness:
  "Slots ended_server = [] \<and> Handlers ended_server = [] \<and> ActiveDeliveries (record_at (Cache ended_server) 0) = 0"
proof -
  have "StopPc ended_server = StopEnding" "(status_id, 0) \<in> set (Records (Cache ended_server))"
    by (simp_all add: states)
  then show ?thesis using server_stop_sound [OF reached_ended, of status_id 0] by simp
qed

text \<open>
  C11 (termination). \<open>Stop\<close> does not wait forever for the callbacks: while it drains, every section of a callback lowers
  the work left, no other step raises it, and as long as something must be waited for some callback can take a step.
  With callbacks that are scheduled and a handler that returns, at most \<open>drain_work\<close> sections later everything is drained.
\<close>

theorem server_stop_ends:
  assumes "reachable server_start (server_step q) (server_enabled q) s" and "StopPc s = StopDraining"
  shows "(server_enabled q s ev \<longrightarrow>
       (if callback_event ev then drain_work (server_step q s ev) < drain_work s
        else drain_work (server_step q s ev) \<le> drain_work s)) \<and>
     (\<not> drained s \<longrightarrow> (\<exists>ev. callback_event ev \<and> server_enabled q s ev))"
proof -
  have inv: "stopping_inv q s" by (rule stopping.reachable_inv [OF assms(1)])
  then have off: "\<not> Running s" "stop_token s"
    using assms(2) by (auto simp: stopping_inv_def server_inv_def life_def stop_busy_def stop_fresh_def)
  show ?thesis
    using callback_drains [OF _ _ off] others_add_no_work [OF _ _ assms(2)] waited_for [of s q] inv
    by (simp add: stopping_inv_def)
qed

theorem server_stop_ends_witness:
  "drain_work (server_step demo_options draining_server (EvReturn 0 None 20)) < drain_work draining_server"
proof -
  have "StopPc draining_server = StopDraining" "server_enabled demo_options draining_server (EvReturn 0 None 20)"
    by (simp_all add: draining_server_def executing_server_def)
  then show ?thesis using server_stop_ends [OF reached_draining, of "EvReturn 0 None 20"] by simp
qed

end
