(* ===== verification/Cli_Parser.thy ===== *)
theory Cli_Parser
  imports App_Models Command_Pipe
begin

section \<open>The command line of the control program\<close>

text \<open>
  \<open>control/CliParser.cpp\<close>. The arguments are turned into tokens, a third-party library (CLI11) turns the tokens
  into calls of the callbacks the parser registered, and the callbacks build the request. Values never reach the
  library: a token carries the position of its value in the parser's own list of inputs. The library is the
  parameter \<open>cli\<close>: for the names of the command and the tokens that follow, the tokens in the order in which their
  callbacks are triggered, or \<open>None\<close> when it throws. A callback that fails throws a \<open>ParseFailure\<close> with a message,
  here the left side of a sum. \<open>lower\<close> is \<open>towlower\<close>; a null argument is the empty string.
\<close>

subsection \<open>Results and local errors\<close>

record ParseResult =
  prSend :: bool
  prRequest :: Request
  prExitCode :: u32
  prMessage :: wstring

definition EmptyRequest :: Request where
  "EmptyRequest = \<lparr>Command = CmdUnknown, Target = TargetNone, Flags = CommandFlagNone, Payload = [],
     RequestId = \<lparr>High = 0, Low = 0\<rparr>\<rparr>"

definition lines_text :: "string list \<Rightarrow> wstring" where
  "lines_text ls = concat (map (\<lambda>l. L l @ [NL]) ls)"

definition HelpText :: wstring where
  "HelpText = lines_text
    [''AudioPlaybackConnector2 command line control'', '''', ''Usage:'',
     ''  apc2ctl show'',
     ''  apc2ctl settings'',
     ''  apc2ctl status [--json]'',
     ''  apc2ctl list [--json]'',
     ''  apc2ctl connect (--id ID | --name NAME | --mac MAC | --alias ALIAS | --last | --default | TARGET)'',
     ''  apc2ctl disconnect (--id ID | --name NAME | --mac MAC | --alias ALIAS | --last | --default | TARGET)'',
     ''  apc2ctl reconnect (--id ID | --name NAME | --mac MAC | --alias ALIAS | --last | --default | TARGET)'',
     ''  apc2ctl toggle [--last | --default | --id ID | --name NAME | --mac MAC | --alias ALIAS | TARGET]'',
     ''  apc2ctl disconnect-all'',
     ''  apc2ctl reconnect-all'',
     ''  apc2ctl default show [--json] [--raw]'',
     ''  apc2ctl default set (--id ID | --name NAME | --mac MAC | --alias ALIAS | TARGET)'',
     ''  apc2ctl default clear'',
     ''  apc2ctl alias list [--json] [--raw]'',
     ''  apc2ctl alias set (--id ID | --name NAME | --mac MAC | --alias ALIAS | TARGET) (--value VALUE | VALUE)'',
     ''  apc2ctl alias clear (--id ID | --name NAME | --mac MAC | --alias ALIAS | TARGET)'', '''',
     ''Use -- before a target or alias value that begins with '-'. TARGET is resolved as an exact device ID, then an exact'',
     ''alias or device name, then a MAC address contained in the device ID, and finally an alias/name substring. Equal-rank'',
     ''matches are rejected as ambiguous; use an explicit selector to disambiguate.'']"

definition ParseError :: "u32 \<Rightarrow> wstring \<Rightarrow> ParseResult" where
  "ParseError exitCode message =
     \<lparr>prSend = False, prRequest = EmptyRequest, prExitCode = exitCode, prMessage = message\<rparr>"

definition hex_digit :: "wchar \<Rightarrow> wchar" where
  "hex_digit n = (if n < 10 then 48 + n else 87 + n)"

definition json_char :: "wchar \<Rightarrow> wstring" where
  "json_char c =
     (if c = 34 then [92, 34] else if c = 92 then [92, 92]
      else if c = 8 then [92, 98] else if c = 12 then [92, 102] else if c = 10 then [92, 110]
      else if c = 13 then [92, 114] else if c = 9 then [92, 116]
      else if c < 32 then [92, 117, hex_digit (drop_bit 12 c AND 15), hex_digit (drop_bit 8 c AND 15),
          hex_digit (drop_bit 4 c AND 15), hex_digit (c AND 15)]
      else [c])"

definition AppendJsonString :: "wstring \<Rightarrow> wstring \<Rightarrow> wstring" where
  "AppendJsonString output v = output @ [34] @ concat (map json_char v) @ [34]"

fun trim_line_end :: "wstring \<Rightarrow> wstring" where
  "trim_line_end message = (if message \<noteq> [] \<and> (last message = CR \<or> last message = NL)
     then trim_line_end (butlast message) else message)"

declare trim_line_end.simps [simp del]

definition LocalError :: "bool \<Rightarrow> ExitCode \<Rightarrow> wstring \<Rightarrow> wstring" where
  "LocalError jsonRequested code message =
     (if \<not> jsonRequested then message
      else AppendJsonString
          (L ''{\"ok\":false,\"exitCode\":'' @ to_wstring (unat (exit_value code)) @ L '',\"message\":'')
          (trim_line_end message) @ L ''}'' @ [NL])"

subsection \<open>Specifications\<close>

text \<open>\<open>argv\<close> includes the name of the program.\<close>

definition ReadOptionValue :: "nat \<Rightarrow> wstring list \<Rightarrow> wstring option \<times> nat" where
  "ReadOptionValue index argv =
     (if index + 1 \<ge> length argv then (None, index)
      else let text = argv ! (index + 1)
           in if text = L ''--''
              then (if index + 2 \<ge> length argv then (None, index) else (Some (argv ! (index + 2)), index + 2))
              else if text \<noteq> [] \<and> hd text = 45 then (None, index)
              else (Some text, index + 1))"

record OptionInput =
  oiName :: wstring
  oiValue :: "wstring option"

definition c_selectors :: "(string \<times> TargetKind) list" where
  "c_selectors = [(''--id'', TargetId), (''--name'', TargetName), (''--mac'', TargetMac), (''--alias'', TargetAlias)]"

record CommandSpec =
  spName :: string
  spSubcommand :: string
  spKind :: CommandType

definition command_spec :: "string \<Rightarrow> string \<Rightarrow> CommandType \<Rightarrow> CommandSpec" where
  "command_spec name sub kind = \<lparr>spName = name, spSubcommand = sub, spKind = kind\<rparr>"

definition c_commands :: "CommandSpec list" where
  "c_commands =
     [command_spec ''show'' [] CmdShow,
      command_spec ''settings'' [] CmdSettings,
      command_spec ''status'' [] CmdStatus,
      command_spec ''list'' [] CmdList,
      command_spec ''disconnect-all'' [] CmdDisconnectAll,
      command_spec ''reconnect-all'' [] CmdReconnectAll,
      command_spec ''connect'' [] CmdConnect,
      command_spec ''disconnect'' [] CmdDisconnect,
      command_spec ''reconnect'' [] CmdReconnect,
      command_spec ''toggle'' [] CmdToggleLast,
      command_spec ''default'' ''show'' CmdDefaultShow,
      command_spec ''default'' ''clear'' CmdDefaultClear,
      command_spec ''default'' ''set'' CmdDefaultSet,
      command_spec ''alias'' ''list'' CmdAliasList,
      command_spec ''alias'' ''clear'' CmdAliasClear,
      command_spec ''alias'' ''set'' CmdAliasSet]"

definition relative :: "CommandSpec \<Rightarrow> bool" where
  "relative spec \<longleftrightarrow> spKind spec = CmdConnect \<or> spKind spec = CmdDisconnect \<or> spKind spec = CmdReconnect \<or>
     spKind spec = CmdToggleLast"

definition aliasValue :: "CommandSpec \<Rightarrow> bool" where
  "aliasValue spec \<longleftrightarrow> spKind spec = CmdAliasSet"

definition targets :: "CommandSpec \<Rightarrow> bool" where
  "targets spec \<longleftrightarrow> relative spec \<or> aliasValue spec \<or> spKind spec = CmdDefaultSet \<or> spKind spec = CmdAliasClear"

subsection \<open>Tokens\<close>

text \<open>A flag \<open>--name\<close>, an option \<open>--name=v3\<close> and a positional \<open>v3\<close>; the number is a position of the inputs.\<close>

datatype token = FlagToken string | OptionToken string nat | PositionalToken nat

definition says :: "(wchar \<Rightarrow> wchar) \<Rightarrow> wstring \<Rightarrow> string \<Rightarrow> bool" where
  "says lower arg name = EqualsIgnoreCase lower arg (L name)"

definition selector_of :: "(wchar \<Rightarrow> wchar) \<Rightarrow> wstring \<Rightarrow> (string \<times> TargetKind) option" where
  "selector_of lower arg = List.find (\<lambda>s. says lower arg (fst s)) c_selectors"

lemma ReadOptionValue_forward: "ReadOptionValue index argv = (v, index') \<Longrightarrow> index \<le> index'"
  by (auto simp: ReadOptionValue_def Let_def split: if_splits)

function (sequential) tokenize ::
  "(wchar \<Rightarrow> wchar) \<Rightarrow> CommandSpec \<Rightarrow> wstring list \<Rightarrow> nat \<Rightarrow> bool \<Rightarrow> OptionInput list \<Rightarrow> token list
     \<Rightarrow> OptionInput list \<times> token list" where
  "tokenize lower spec argv i ended inputs tokens =
     (if i \<ge> length argv then (inputs, tokens)
      else let arg = argv ! i; index = length inputs
           in if targets spec \<and> \<not> ended \<and> arg = L ''--''
              then tokenize lower spec argv (i + 1) True inputs tokens
              else if \<not> ended \<and> (says lower arg ''--json'' \<or> says lower arg ''--raw'')
              then tokenize lower spec argv (i + 1) ended inputs
                     (tokens @ [FlagToken (if says lower arg ''--json'' then ''--json'' else ''--raw'')])
              else if \<not> ended \<and> targets spec \<and> \<not> aliasValue spec \<and>
                      (says lower arg ''--last'' \<or> says lower arg ''--default'')
              then tokenize lower spec argv (i + 1) ended inputs
                     (tokens @ [FlagToken (if says lower arg ''--last'' then ''--last'' else ''--default'')])
              else if \<not> ended \<and> targets spec \<and>
                      (selector_of lower arg \<noteq> None \<or> aliasValue spec \<and> says lower arg ''--value'')
              then (case ReadOptionValue i argv of
                  (v, j) \<Rightarrow> tokenize lower spec argv (j + 1) ended
                    (inputs @ [\<lparr>oiName = arg, oiValue = v\<rparr>])
                    (tokens @ [OptionToken
                       (case selector_of lower arg of Some s \<Rightarrow> fst s | None \<Rightarrow> ''--value'') index]))
              else tokenize lower spec argv (i + 1) ended (inputs @ [\<lparr>oiName = arg, oiValue = Some arg\<rparr>])
                     (tokens @ [if \<not> targets spec \<or> \<not> ended \<and> arg \<noteq> [] \<and> hd arg = 45
                                then OptionToken ''--invalid'' index else PositionalToken index]))"
  by pat_completeness auto
termination
  by (relation "measure (\<lambda>(lower, spec, argv, i, ended, inputs, tokens). length argv - i)")
    (auto dest!: ReadOptionValue_forward [OF sym])

declare tokenize.simps [simp del]

subsection \<open>Callbacks\<close>

record parsing =
  psRequest :: Request
  psPositional :: "wstring option"
  psAlias :: "wstring option"

definition fail :: "string \<Rightarrow> wstring + 'a" where
  "fail message = Inl (L message @ [NL])"

definition select :: "TargetKind \<Rightarrow> parsing \<Rightarrow> wstring + parsing" where
  "select kind st =
     (if Target (psRequest st) \<noteq> TargetNone \<or> psPositional st \<noteq> None
      then fail ''Only one device target selector is supported.''
      else Inr (st\<lparr>psRequest := (psRequest st)\<lparr>Target := kind\<rparr>\<rparr>))"

definition option_callback :: "OptionInput \<Rightarrow> string \<Rightarrow> parsing \<Rightarrow> wstring + parsing" where
  "option_callback input name st =
     (if name = ''--invalid'' then Inl (L ''Unknown option: '' @ oiName input @ [NL])
      else if name = ''--value'' then
        (if oiValue input = None \<or> oiValue input = Some [] then fail ''Missing value for --value.''
         else if psAlias st \<noteq> None then fail ''Only one alias value is supported.''
         else Inr (st\<lparr>psAlias := oiValue input\<rparr>))
      else case map_of c_selectors name of
          None \<Rightarrow> Inr st
        | Some kind \<Rightarrow>
            (case select kind st of
               Inl message \<Rightarrow> Inl message
             | Inr st' \<Rightarrow>
                 (case oiValue input of
                    Some (c # cs) \<Rightarrow> Inr (st'\<lparr>psRequest := (psRequest st')\<lparr>Payload := c # cs\<rparr>\<rparr>)
                  | _ \<Rightarrow> Inl (L ''Missing value for '' @ oiName input @ L ''.'' @ [NL]))))"

definition flag_callback :: "CommandSpec \<Rightarrow> string \<Rightarrow> parsing \<Rightarrow> wstring + parsing" where
  "flag_callback spec name st =
     (if name = ''--json'' then
        Inr (st\<lparr>psRequest := (psRequest st)\<lparr>Flags := Flags (psRequest st) OR CommandFlagJson\<rparr>\<rparr>)
      else if name = ''--raw'' then
        Inr (st\<lparr>psRequest := (psRequest st)\<lparr>Flags := Flags (psRequest st) OR CommandFlagRaw\<rparr>\<rparr>)
      else if \<not> relative spec then fail ''This command requires an explicit device target.''
      else select (if name = ''--last'' then TargetLast else TargetDefault) st)"

definition positional_callback :: "CommandSpec \<Rightarrow> OptionInput \<Rightarrow> parsing \<Rightarrow> wstring + parsing" where
  "positional_callback spec input st =
     (if Target (psRequest st) = TargetNone \<and> psPositional st = None
      then Inr (st\<lparr>psPositional := oiValue input\<rparr>)
      else if aliasValue spec
      then (if psAlias st \<noteq> None then fail ''Only one alias value is supported.''
            else Inr (st\<lparr>psAlias := oiValue input\<rparr>))
      else fail (if Target (psRequest st) \<noteq> TargetNone
                 then ''A positional target cannot be combined with a target selector.''
                 else ''Only one positional target is supported.''))"

fun run_token :: "CommandSpec \<Rightarrow> OptionInput list \<Rightarrow> token \<Rightarrow> parsing \<Rightarrow> wstring + parsing" where
  "run_token spec inputs (FlagToken name) st = flag_callback spec name st"
| "run_token spec inputs (OptionToken name k) st = option_callback (inputs ! k) name st"
| "run_token spec inputs (PositionalToken k) st = positional_callback spec (inputs ! k) st"

fun run_tokens :: "CommandSpec \<Rightarrow> OptionInput list \<Rightarrow> token list \<Rightarrow> parsing \<Rightarrow> wstring + parsing" where
  "run_tokens spec inputs [] st = Inr st"
| "run_tokens spec inputs (t # ts) st =
     (case run_token spec inputs t st of Inl message \<Rightarrow> Inl message | Inr st' \<Rightarrow> run_tokens spec inputs ts st')"

subsection \<open>The request\<close>

definition take_positional :: "parsing \<Rightarrow> Request" where
  "take_positional st =
     (case psPositional st of
        None \<Rightarrow> psRequest st
      | Some text \<Rightarrow> (psRequest st)\<lparr>Target := TargetAuto, Payload := text\<rparr>)"

definition choose_target :: "CommandSpec \<Rightarrow> Request \<Rightarrow> wstring + Request" where
  "choose_target spec r =
     (if targets spec \<and> Target r = TargetNone
      then (if spKind spec = CmdToggleLast then Inr (r\<lparr>Target := TargetDefault\<rparr>)
            else fail ''A device target is required.'')
      else Inr r)"

definition check_target :: "CommandSpec \<Rightarrow> Request \<Rightarrow> wstring + Request" where
  "check_target spec r =
     (if targets spec \<and> Target r \<noteq> TargetLast \<and> Target r \<noteq> TargetDefault \<and> Payload r = []
      then fail (if aliasValue spec then ''A device target is required.''
                 else ''A non-empty device target is required.'')
      else Inr r)"

definition append_alias :: "CommandSpec \<Rightarrow> wstring option \<Rightarrow> Request \<Rightarrow> wstring + Request" where
  "append_alias spec alias r =
     (if \<not> aliasValue spec then Inr r
      else case alias of
          Some (c # cs) \<Rightarrow> Inr (r\<lparr>Payload := Payload r @ [NL] @ (c # cs)\<rparr>)
        | _ \<Rightarrow> fail ''A non-empty alias value is required.'')"

definition finish_request :: "CommandSpec \<Rightarrow> parsing \<Rightarrow> wstring + Request" where
  "finish_request spec st =
     (case choose_target spec (take_positional st) of
        Inl message \<Rightarrow> Inl message
      | Inr r \<Rightarrow> (case check_target spec r of
          Inl message \<Rightarrow> Inl message
        | Inr r' \<Rightarrow> append_alias spec (psAlias st) r'))"

type_synonym cli = "string list \<Rightarrow> token list \<Rightarrow> token list option"

definition start_parsing :: "CommandSpec \<Rightarrow> parsing" where
  "start_parsing spec = \<lparr>psRequest = EmptyRequest\<lparr>Command := spKind spec\<rparr>, psPositional = None, psAlias = None\<rparr>"

definition spec_names :: "CommandSpec \<Rightarrow> string list" where
  "spec_names spec = (if spSubcommand spec = [] then [spName spec] else [spName spec, spSubcommand spec])"

text \<open>\<open>None\<close>: the library threw an exception the parser does not catch.\<close>

definition ParseWithCli ::
  "(wchar \<Rightarrow> wchar) \<Rightarrow> cli \<Rightarrow> CommandSpec \<Rightarrow> wstring list \<Rightarrow> (wstring + Request) option" where
  "ParseWithCli lower cli spec argv =
     (case tokenize lower spec argv (if spSubcommand spec = [] then 2 else 3) False [] [] of
        (inputs, tokens) \<Rightarrow>
          (case cli (spec_names spec) tokens of
             None \<Rightarrow> None
           | Some called \<Rightarrow> Some
               (case run_tokens spec inputs called (start_parsing spec) of
                  Inl message \<Rightarrow> Inl message
                | Inr st \<Rightarrow> finish_request spec st)))"

definition find_spec :: "(wchar \<Rightarrow> wchar) \<Rightarrow> wstring \<Rightarrow> wstring \<Rightarrow> CommandSpec option" where
  "find_spec lower command subcommand =
     List.find (\<lambda>spec. says lower command (spName spec) \<and> says lower subcommand (spSubcommand spec)) c_commands"

definition ParseCommandLine :: "(wchar \<Rightarrow> wchar) \<Rightarrow> cli \<Rightarrow> wstring list \<Rightarrow> ParseResult option" where
  "ParseCommandLine lower cli argv =
     (if length argv \<le> 1 then Some (ParseError 0 HelpText)
      else let command = argv ! 1
           in if says lower command ''help'' \<or> says lower command ''--help'' \<or> says lower command ''-h''
              then Some (ParseError 0 HelpText)
              else let family = (says lower command ''default'' \<or> says lower command ''alias'')
                   in if family \<and> length argv < 3
                      then Some (ParseError 3 (if says lower command ''default''
                             then L ''default requires show, set, or clear.'' @ [NL]
                             else L ''alias requires list, set, or clear.'' @ [NL]))
                      else let subcommand = (if family then argv ! 2 else [])
                           in case find_spec lower command subcommand of
                                None \<Rightarrow> Some (if family
                                  then ParseError 3 ((if says lower command ''default''
                                      then L ''Unknown default command: '' else L ''Unknown alias command: '')
                                      @ subcommand @ [NL])
                                  else ParseError 3 (L ''Unknown command: '' @ command @ [NL, NL] @ HelpText))
                              | Some spec \<Rightarrow>
                                  map_option (\<lambda>result. case result of
                                      Inl message \<Rightarrow> ParseError 3 message
                                    | Inr r \<Rightarrow> \<lparr>prSend = True, prRequest = r, prExitCode = 0, prMessage = []\<rparr>)
                                    (ParseWithCli lower cli spec argv))"

subsection \<open>Was JSON requested\<close>

definition option_names :: "string list" where
  "option_names = [''--id'', ''--name'', ''--mac'', ''--alias'', ''--value'']"

definition skip_value :: "nat \<Rightarrow> wstring list \<Rightarrow> nat" where
  "skip_value i argv =
     (if i + 1 < length argv \<and> argv ! (i + 1) = L ''--'' then i + min 2 (length argv - i - 1)
      else if i + 1 < length argv \<and> (argv ! (i + 1) = [] \<or> hd (argv ! (i + 1)) \<noteq> 45) then i + 1
      else i)"

function json_loop :: "(wchar \<Rightarrow> wchar) \<Rightarrow> wstring list \<Rightarrow> nat \<Rightarrow> bool" where
  "json_loop lower argv i =
     (if i \<ge> length argv then False
      else if \<exists>name \<in> set option_names. says lower (argv ! i) name
      then json_loop lower argv (skip_value i argv + 1)
      else if argv ! i = L ''--'' then False
      else if says lower (argv ! i) ''--json'' then True
      else json_loop lower argv (i + 1))"
  by pat_completeness auto
termination
  by (relation "measure (\<lambda>(lower, argv, i). length argv - i)") (auto simp: skip_value_def)

declare json_loop.simps [simp del]

definition JsonRequested :: "(wchar \<Rightarrow> wchar) \<Rightarrow> wstring list \<Rightarrow> bool" where
  "JsonRequested lower argv = json_loop lower argv 1"

end
