(* ===== verification/Command_Client.thy ===== *)
theory Command_Client
  imports Command_Claims Cli_Parser "HOL-Library.Monad_Syntax"
begin

section \<open>The client of the control program\<close>

text \<open>
  \<open>control/CommandClient.cpp\<close>, \<open>control/Win32CommandTransport.cpp\<close> and \<open>main.cpp\<close> of the control program.
  What the operating system answers is the parameter \<open>system\<close>: its answers are indexed by a counter that every question
  advances. A pipe that could be opened brings what the process behind it answers and the bytes that can be read
  from it. The conversations with servers are kept in \<open>cwExchanges\<close>, a history the code does not have. The attempts to
  find an endpoint go on until a deadline has passed, so they may go on for ever with a clock that stands still:
  \<open>None\<close> is the value of a call that does not return.
\<close>

subsection \<open>Results\<close>

datatype AttemptResult = AttNotConnected | AttRejected | AttServerChanged | AttIndeterminate | AttComplete

datatype SendResult = SendInvalidRequest | SendUnavailable | SendIndeterminate | SendComplete

subsection \<open>Server identities\<close>

record Win32ServerIdentity =
  ProcessId :: u32
  CreationTime :: u64

text \<open>
  What the system says of the process behind a pipe: its number, whether it could be opened, whether it is a trusted
  peer, its creation time and whether it has exited.
\<close>

record peer =
  peProcessId :: "u32 option"
  peOpened :: bool
  peTrusted :: bool
  peCreationTime :: "u64 option"
  peExited :: bool

definition CaptureServerIdentity :: "peer \<Rightarrow> Win32ServerIdentity option" where
  "CaptureServerIdentity p =
     (case peProcessId p of
        None \<Rightarrow> None
      | Some processId \<Rightarrow>
          if processId = 0 then None
          else if \<not> peOpened p then None
          else if \<not> peTrusted p then None
          else (case peCreationTime p of
              None \<Rightarrow> None
            | Some creation \<Rightarrow>
                if peExited p then None else Some \<lparr>ProcessId = processId, CreationTime = creation\<rparr>))"

text \<open>\<open>alive\<close>: the process of the expected identity, whose handle is kept, has not exited.\<close>

definition IsSameLiveServer :: "Win32ServerIdentity \<Rightarrow> Win32ServerIdentity \<Rightarrow> bool \<Rightarrow> bool" where
  "IsSameLiveServer expected observed alive \<longleftrightarrow>
     ProcessId expected = ProcessId observed \<and> CreationTime expected = CreationTime observed \<and> alive"

subsection \<open>The system\<close>

datatype open_error = ERROR_PIPE_BUSY | ERROR_FILE_NOT_FOUND | ERROR_OPEN_OTHER

record endpoint =
  epPeer :: peer
  epExpectedAlive :: bool
  epOs :: os
  epEvents :: "nat \<Rightarrow> bool"
  epIncoming :: "byte list"

datatype open_reply = OpenFailed open_error | Opened endpoint

datatype wake = WakeTimer | WakeExpectedExited | WakeTimeout | WakeFailed

record "system" =
  clock :: "nat \<Rightarrow> u64"
  opens :: "nat \<Rightarrow> wstring \<Rightarrow> open_reply"
  timerCreated :: "nat \<Rightarrow> bool"
  timerSet :: "nat \<Rightarrow> int \<Rightarrow> bool"
  wakes :: "nat \<Rightarrow> wake"
  packageFamily :: "nat \<Rightarrow> wstring option"
  executes :: "nat \<Rightarrow> wstring \<Rightarrow> bool"

record client_world =
  cwCounter :: nat
  cwExchanges :: "(Win32ServerIdentity \<times> pipe) list"
  cwLaunches :: nat

definition asked :: "client_world \<Rightarrow> client_world" where
  "asked w = w\<lparr>cwCounter := Suc (cwCounter w)\<rparr>"

definition now :: "system \<Rightarrow> client_world \<Rightarrow> u64" where
  "now sys w = clock sys (cwCounter w)"

subsection \<open>One attempt\<close>

definition c_retryIntervalMs :: u32 where "c_retryIntervalMs = 200"
definition c_pipeExchangeTimeoutMs :: u32 where "c_pipeExchangeTimeoutMs = 42000"

text \<open>The conversation over an open pipe, to a deadline that has not passed.\<close>

definition exchange :: "endpoint \<Rightarrow> u64 \<Rightarrow> Request \<Rightarrow> Response \<Rightarrow> AttemptResult \<times> Response \<times> pipe" where
  "exchange ep exchangeDeadline request response =
     (let c = \<lparr>ctx_os = epOs ep, ctx_events = epEvents ep, ctx_stopEvent = False, ctx_deadline = exchangeDeadline\<rparr>
      in case WriteRequest c request \<lparr>incoming = epIncoming ep, outgoing = [], attempts = 0\<rparr> of
           (status, p1) \<Rightarrow>
             if status \<noteq> IoSuccess then (AttIndeterminate, response, p1)
             else case ReadResponse c response p1 of
               (status, response', p2) \<Rightarrow>
                 if status \<noteq> IoSuccess \<or> ResponseId response' \<noteq> RequestId request
                 then (AttIndeterminate, response', p2)
                 else (AttComplete, response', snd (WriteAcknowledgement c (RequestId request) p2)))"

text \<open>What an attempt carries through its loops.\<close>

record search =
  seObserved :: "Win32ServerIdentity option"
  seRejected :: bool
  seDifferent :: bool
  seTimer :: bool

text \<open>One endpoint: to go on with the next one, or to return.\<close>

definition try_endpoint ::
  "system \<Rightarrow> wstring \<Rightarrow> Request \<Rightarrow> Response \<Rightarrow> u64 \<Rightarrow> Win32ServerIdentity option \<Rightarrow> nat \<Rightarrow> search \<Rightarrow> client_world
     \<Rightarrow> (AttemptResult \<times> Response) option \<times> search \<times> client_world" where
  "try_endpoint sys pipeName request response overallDeadline expected instance_index s w =
     (case opens sys (cwCounter w) (PipeInstanceName pipeName instance_index) of
        OpenFailed error \<Rightarrow>
          (None, if error \<noteq> ERROR_PIPE_BUSY \<and> error \<noteq> ERROR_FILE_NOT_FOUND then s\<lparr>seRejected := True\<rparr> else s, asked w)
      | Opened ep \<Rightarrow>
          (case CaptureServerIdentity (epPeer ep) of
             None \<Rightarrow> (None, s\<lparr>seRejected := True\<rparr>, asked w)
           | Some current \<Rightarrow>
               if (case expected of None \<Rightarrow> False | Some e \<Rightarrow> \<not> IsSameLiveServer e current (epExpectedAlive ep))
               then (None, s\<lparr>seDifferent := True\<rparr>, asked w)
               else let s' = s\<lparr>seObserved := Some current\<rparr>;
                        w1 = asked w;
                        exchangeDeadline = min (DeadlineAfter (now sys w1) c_pipeExchangeTimeoutMs) overallDeadline;
                        w2 = asked w1
                    in if RemainingWait (now sys w2) exchangeDeadline = 0 then (Some (AttNotConnected, response), s', asked w2)
                       else case exchange ep exchangeDeadline request response of
                           (result, response', p) \<Rightarrow>
                             (Some (result, response'), s', (asked w2)\<lparr>cwExchanges := cwExchanges w @ [(current, p)]\<rparr>)))"

fun try_endpoints ::
  "system \<Rightarrow> wstring \<Rightarrow> Request \<Rightarrow> Response \<Rightarrow> u64 \<Rightarrow> Win32ServerIdentity option \<Rightarrow> nat list \<Rightarrow> search \<Rightarrow> client_world
     \<Rightarrow> (AttemptResult \<times> Response) option \<times> search \<times> client_world" where
  "try_endpoints sys pipeName request response overallDeadline expected [] s w = (None, s, w)"
| "try_endpoints sys pipeName request response overallDeadline expected (k # ks) s w =
     (case try_endpoint sys pipeName request response overallDeadline expected k s w of
        (Some r, s', w') \<Rightarrow> (Some r, s', w')
      | (None, s', w') \<Rightarrow> try_endpoints sys pipeName request response overallDeadline expected ks s' w')"

definition instance_order :: "Request \<Rightarrow> nat list" where
  "instance_order request =
     (let firstInstance = unat (Low (RequestId request)) mod c_pipeInstanceCount
      in map (\<lambda>offset. (firstInstance + offset) mod c_pipeInstanceCount) [0..<c_pipeInstanceCount])"

definition give_up :: "search \<Rightarrow> AttemptResult" where
  "give_up s = (if seDifferent s then AttServerChanged else if seRejected s then AttRejected else AttNotConnected)"

definition retry_due :: "u64 \<Rightarrow> u64 \<Rightarrow> int" where
  "retry_due time connectionDeadline =
     (let delay = min c_retryIntervalMs (RemainingWait time connectionDeadline)
      in - uint (max delay 1) * 10000)"

text \<open>What follows a pass over the endpoints: the result to return with, or the timer has run for the next pass.\<close>

definition await_retry :: "system \<Rightarrow> u64 \<Rightarrow> search \<Rightarrow> client_world \<Rightarrow> AttemptResult option \<times> search \<times> client_world" where
  "await_retry sys connectionDeadline s w =
     (if RemainingWait (now sys w) connectionDeadline = 0 then (Some (give_up s), s, asked w)
      else let w1 = asked w
           in if \<not> seTimer s \<and> \<not> timerCreated sys (cwCounter w1) then (Some AttRejected, s, asked w1)
              else let s' = s\<lparr>seTimer := True\<rparr>; w2 = asked w1
                   in if \<not> timerSet sys (cwCounter w2) (retry_due (now sys w2) connectionDeadline)
                      then (Some AttRejected, s', asked w2)
                      else case wakes sys (cwCounter (asked w2)) of
                          WakeExpectedExited \<Rightarrow> (Some AttServerChanged, s', asked (asked w2))
                        | WakeFailed \<Rightarrow> (Some AttRejected, s', asked (asked w2))
                        | _ \<Rightarrow> (None, s', asked (asked w2)))"

type_synonym attempt_outcome = "AttemptResult \<times> Response \<times> Win32ServerIdentity option \<times> client_world"

partial_function (option) try_loop ::
  "system \<Rightarrow> wstring \<Rightarrow> Request \<Rightarrow> Response \<Rightarrow> u64 \<Rightarrow> u64 \<Rightarrow> Win32ServerIdentity option \<Rightarrow> search \<Rightarrow> client_world
     \<Rightarrow> attempt_outcome option" where
  "try_loop sys pipeName request response connectionDeadline overallDeadline expected s w =
     (case try_endpoints sys pipeName request response overallDeadline expected (instance_order request) s w of
        (Some (result, response'), s', w') \<Rightarrow> Some (result, response', seObserved s', w')
      | (None, s', w') \<Rightarrow>
          (case await_retry sys connectionDeadline s' w' of
             (Some result, s'', w'') \<Rightarrow> Some (result, response, seObserved s'', w'')
           | (None, s'', w'') \<Rightarrow> try_loop sys pipeName request response connectionDeadline overallDeadline expected s'' w''))"

text \<open>\<open>pipeName\<close>: the name of the pipe, if it could be made. Every expected identity here is one of this transport.\<close>

definition TrySendOnce ::
  "system \<Rightarrow> wstring option \<Rightarrow> Request \<Rightarrow> Response \<Rightarrow> u32 \<Rightarrow> u64 \<Rightarrow> Win32ServerIdentity option
     \<Rightarrow> Win32ServerIdentity option \<Rightarrow> client_world \<Rightarrow> attempt_outcome option" where
  "TrySendOnce sys pipeName request response waitMs overallDeadline observed expected w =
     (case pipeName of
        None \<Rightarrow> Some (AttNotConnected, response, observed, w)
      | Some name \<Rightarrow>
          try_loop sys name request response (min (DeadlineAfter (now sys w) waitMs) overallDeadline) overallDeadline
            expected \<lparr>seObserved = None, seRejected = False, seDifferent = False, seTimer = False\<rparr> (asked w))"

text \<open>\<open>cwLaunches\<close> counts the calls, whatever the shell answers.\<close>

definition LaunchPackagedApp :: "system \<Rightarrow> client_world \<Rightarrow> bool \<times> client_world" where
  "LaunchPackagedApp sys w =
     (case packageFamily sys (cwCounter w) of
        None \<Rightarrow> (False, asked w)
      | Some familyName \<Rightarrow>
          (executes sys (cwCounter w) (L ''shell:AppsFolder'' @ [92] @ familyName @ L ''!App''),
           (asked w)\<lparr>cwLaunches := Suc (cwLaunches w)\<rparr>))"

subsection \<open>The client\<close>

text \<open>The interface \<open>Transport\<close> and the clock, over a state that is passed on.\<close>

record ('server, 's) transport =
  tSend :: "Request \<Rightarrow> Response \<Rightarrow> u32 \<Rightarrow> u64 \<Rightarrow> 'server option \<Rightarrow> 'server option \<Rightarrow> 's
    \<Rightarrow> (AttemptResult \<times> Response \<times> 'server option \<times> 's) option"
  tLaunch :: "'s \<Rightarrow> bool \<times> 's"
  tTime :: "'s \<Rightarrow> u64 \<times> 's"

definition c_maxReplayAttempts :: nat where "c_maxReplayAttempts = 2"

fun replay_attempts ::
  "('server, 's) transport \<Rightarrow> Request \<Rightarrow> Response \<Rightarrow> 'server \<Rightarrow> u64 \<Rightarrow> nat \<Rightarrow> 's \<Rightarrow> (SendResult \<times> Response \<times> 's) option" where
  "replay_attempts t request response server overallDeadline 0 s = Some (SendIndeterminate, response, s)"
| "replay_attempts t request response server overallDeadline (Suc n) s =
     (case tTime t s of (time, s1) \<Rightarrow>
        if RemainingWait time overallDeadline = 0 then Some (SendIndeterminate, response, s1)
        else do {
          (result, response', ignored, s2) \<leftarrow> tSend t request response 2000 overallDeadline None (Some server) s1;
          if result = AttComplete then Some (SendComplete, response', s2)
          else if result = AttServerChanged \<or> result = AttRejected then Some (SendIndeterminate, response', s2)
          else replay_attempts t request response' server overallDeadline n s2
        })"

definition ReplayIndeterminate ::
  "('server, 's) transport \<Rightarrow> Request \<Rightarrow> Response \<Rightarrow> 'server option \<Rightarrow> u64 \<Rightarrow> 's \<Rightarrow> (SendResult \<times> Response \<times> 's) option" where
  "ReplayIndeterminate t request response server overallDeadline s =
     (case server of
        None \<Rightarrow> Some (SendIndeterminate, response, s)
      | Some identity \<Rightarrow> replay_attempts t request response identity overallDeadline c_maxReplayAttempts s)"

definition send_launched ::
  "('server, 's) transport \<Rightarrow> Request \<Rightarrow> Response \<Rightarrow> u32 \<Rightarrow> u64 \<Rightarrow> 's \<Rightarrow> (SendResult \<times> Response \<times> 's) option" where
  "send_launched t request response launchWaitMs overallDeadline s =
     do {
       (result, response', server, s1) \<leftarrow> tSend t request response launchWaitMs overallDeadline None None s;
       if result = AttComplete then Some (SendComplete, response', s1)
       else if result = AttIndeterminate then ReplayIndeterminate t request response' server overallDeadline s1
       else Some (SendUnavailable, response', s1)
     }"

definition SendRequest ::
  "('server, 's) transport \<Rightarrow> Request \<Rightarrow> Response \<Rightarrow> u32 \<Rightarrow> u32 \<Rightarrow> u32 \<Rightarrow> 's \<Rightarrow> (SendResult \<times> Response \<times> 's) option" where
  "SendRequest t request response initialWaitMs launchWaitMs overallTimeoutMs s =
     (if \<not> IsRequestValid request then Some (SendInvalidRequest, response, s)
      else case tTime t s of (time, s0) \<Rightarrow>
        (let overallDeadline = DeadlineAfter time (max 1 overallTimeoutMs)
         in do {
           (result, response', server, s1) \<leftarrow> tSend t request response initialWaitMs overallDeadline None None s0;
           if result = AttComplete then Some (SendComplete, response', s1)
           else if result = AttIndeterminate then ReplayIndeterminate t request response' server overallDeadline s1
           else if result = AttServerChanged then Some (SendUnavailable, response', s1)
           else if Command request = CmdStatus then Some (SendUnavailable, response', s1)
           else case tTime t s1 of (time', s2) \<Rightarrow>
             if RemainingWait time' overallDeadline = 0 then Some (SendUnavailable, response', s2)
             else case tLaunch t s2 of (launched, s3) \<Rightarrow>
               if \<not> launched then Some (SendUnavailable, response', s3)
               else send_launched t request response' launchWaitMs overallDeadline s3
         }))"

definition win32_transport :: "system \<Rightarrow> wstring option \<Rightarrow> (Win32ServerIdentity, client_world) transport" where
  "win32_transport sys pipeName =
     \<lparr>tSend = TrySendOnce sys pipeName, tLaunch = LaunchPackagedApp sys, tTime = (\<lambda>w. (now sys w, asked w))\<rparr>"

subsection \<open>The program\<close>

text \<open>
  \<open>random\<close> is what the random number generator wrote, if it succeeded; \<open>fallback\<close> the value made of the counters.
\<close>

definition CreateCorrelationId :: "CorrelationId option \<Rightarrow> CorrelationId \<Rightarrow> CorrelationId" where
  "CreateCorrelationId random fallback =
     (let made = (if EmptyId fallback then fallback\<lparr>Low := 1\<rparr> else fallback)
      in case random of None \<Rightarrow> made | Some i \<Rightarrow> if EmptyId i then made else i)"

record outcome =
  ouCode :: u32
  ouStdout :: wstring
  ouStderr :: wstring

definition report :: "bool \<Rightarrow> ExitCode \<Rightarrow> wstring \<Rightarrow> outcome" where
  "report jsonRequested code message =
     \<lparr>ouCode = exit_value code, ouStdout = [], ouStderr = LocalError jsonRequested code message\<rparr>"

definition print_response :: "bool \<Rightarrow> Response \<Rightarrow> outcome" where
  "print_response jsonRequested response =
     (if Body response = [] \<and> Code response \<noteq> ExitSuccess
      then report jsonRequested (Code response) (L ''The command result did not include a diagnostic message.'' @ [NL])
      else let text = (if Body response = []
                 then (if jsonRequested
                   then L ''{\"ok\":true,\"exitCode\":0,\"message\":\"\"}'' @ [NL] else [])
                 else Body response @ (if last (Body response) \<noteq> NL then [NL] else []))
           in if Code response = ExitSuccess
              then \<lparr>ouCode = exit_value (Code response), ouStdout = text, ouStderr = []\<rparr>
              else \<lparr>ouCode = exit_value (Code response), ouStdout = [], ouStderr = text\<rparr>)"

definition print_result :: "bool \<Rightarrow> SendResult \<Rightarrow> Response \<Rightarrow> outcome" where
  "print_result jsonRequested sendResult response =
     (case sendResult of
        SendInvalidRequest \<Rightarrow> report jsonRequested ExitInvalidRequest
          (L ''The command request is invalid and was not sent.'' @ [NL])
      | SendIndeterminate \<Rightarrow> report jsonRequested ExitIndeterminate
          (L ''The command may have completed, but the result could not be confirmed. '' @
           L ''It was not sent to a different app instance.'' @ [NL])
      | SendUnavailable \<Rightarrow> report jsonRequested ExitUnavailable
          (L ''AudioPlaybackConnector2 is not running or did not accept the command.'' @ [NL])
      | SendComplete \<Rightarrow> print_response jsonRequested response)"

definition empty_response :: Response where
  "empty_response = \<lparr>Code = ExitSuccess, Body = [], ResponseId = \<lparr>High = 0, Low = 0\<rparr>\<rparr>"

definition Run ::
  "('server, 's) transport \<Rightarrow> ParseResult \<Rightarrow> CorrelationId \<Rightarrow> bool \<Rightarrow> 's \<Rightarrow> (outcome \<times> 's) option" where
  "Run t parsed correlationId jsonRequestedOnError s =
     (if \<not> prSend parsed then
        Some (if prExitCode parsed = 0
              then \<lparr>ouCode = 0, ouStdout = prMessage parsed, ouStderr = []\<rparr>
              else \<lparr>ouCode = prExitCode parsed, ouStdout = [],
                    ouStderr = LocalError jsonRequestedOnError
                      (static_cast exit_values exit_value (prExitCode parsed)) (prMessage parsed)\<rparr>, s)
      else let jsonRequested = (Flags (prRequest parsed) AND CommandFlagJson \<noteq> 0)
           in do {
             (sendResult, response, s') \<leftarrow> SendRequest t ((prRequest parsed)\<lparr>RequestId := correlationId\<rparr>) empty_response
                250 10000 55000 s;
             Some (print_result jsonRequested sendResult response, s')
           })"

end
