(* ===== verification/Cli_Claims.thy ===== *)
theory Cli_Claims
  imports Cli_Parser Adapter_Claims
begin

section \<open>What the command line parser guarantees\<close>

text \<open>
  A request the parser sends has the shape the protocol demands of its command, its JSON flag is the one the program
  reads off the command line for its own errors, and every valid request has a command line that is parsed back to it.
  Of the library only the documented behaviour of its immediate callbacks is assumed: they run for the tokens given,
  in their order (\<open>in_order\<close>); the round trip needs that it accepts them (\<open>accepting\<close>).
\<close>

definition in_order :: "cli \<Rightarrow> bool" where
  "in_order cli \<longleftrightarrow> (\<forall>names tokens called. cli names tokens = Some called \<longrightarrow> called = tokens)"

definition accepting :: "cli \<Rightarrow> bool" where
  "accepting cli \<longleftrightarrow> (\<forall>names tokens. cli names tokens = Some tokens)"

subsection \<open>Callbacks, over the arguments that are left\<close>

text \<open>The tokens with their inputs in place, so that the positions disappear.\<close>

datatype arg_class = EndOfOptions | FlagArg string | OptionArg string | InvalidArg | PositionalArg

definition classify :: "(wchar \<Rightarrow> wchar) \<Rightarrow> CommandSpec \<Rightarrow> bool \<Rightarrow> wstring \<Rightarrow> arg_class" where
  "classify lower spec ended arg =
     (if targets spec \<and> \<not> ended \<and> arg = L ''--'' then EndOfOptions
      else if \<not> ended \<and> (says lower arg ''--json'' \<or> says lower arg ''--raw'')
      then FlagArg (if says lower arg ''--json'' then ''--json'' else ''--raw'')
      else if \<not> ended \<and> targets spec \<and> \<not> aliasValue spec \<and> (says lower arg ''--last'' \<or> says lower arg ''--default'')
      then FlagArg (if says lower arg ''--last'' then ''--last'' else ''--default'')
      else if \<not> ended \<and> targets spec \<and> (selector_of lower arg \<noteq> None \<or> aliasValue spec \<and> says lower arg ''--value'')
      then OptionArg (case selector_of lower arg of Some s \<Rightarrow> fst s | None \<Rightarrow> ''--value'')
      else if \<not> targets spec \<or> \<not> ended \<and> arg \<noteq> [] \<and> hd arg = 45 then InvalidArg else PositionalArg)"

definition read_value :: "wstring list \<Rightarrow> wstring option \<times> wstring list" where
  "read_value rest =
     (case rest of
        [] \<Rightarrow> (None, [])
      | text # after \<Rightarrow>
          if text = L ''--'' then (case after of [] \<Rightarrow> (None, rest) | x # xs \<Rightarrow> (Some x, xs))
          else if text \<noteq> [] \<and> hd text = 45 then (None, rest) else (Some text, after))"

lemma read_value_shorter: "length (snd (read_value rest)) \<le> length rest"
  by (auto simp: read_value_def split: list.splits)

lemma read_value_subset: "set (snd (read_value rest)) \<subseteq> set rest"
  by (auto simp: read_value_def split: list.splits)

lemma read_value_text: "fst (read_value rest) = Some v \<Longrightarrow> v \<in> set rest"
  by (auto simp: read_value_def split: list.splits if_splits)

datatype callback = FlagCall string | OptionCall string OptionInput | PositionalCall OptionInput

function (sequential) calls :: "(wchar \<Rightarrow> wchar) \<Rightarrow> CommandSpec \<Rightarrow> bool \<Rightarrow> wstring list \<Rightarrow> callback list" where
  "calls lower spec ended [] = []"
| "calls lower spec ended (arg # rest) =
     (case classify lower spec ended arg of
        EndOfOptions \<Rightarrow> calls lower spec True rest
      | FlagArg name \<Rightarrow> FlagCall name # calls lower spec ended rest
      | OptionArg name \<Rightarrow> OptionCall name \<lparr>oiName = arg, oiValue = fst (read_value rest)\<rparr>
          # calls lower spec ended (snd (read_value rest))
      | InvalidArg \<Rightarrow> OptionCall ''--invalid'' \<lparr>oiName = arg, oiValue = Some arg\<rparr> # calls lower spec ended rest
      | PositionalArg \<Rightarrow> PositionalCall \<lparr>oiName = arg, oiValue = Some arg\<rparr> # calls lower spec ended rest)"
  by pat_completeness auto
termination
  by (relation "measure (\<lambda>(lower, spec, ended, rest). length rest)") (auto simp: le_imp_less_Suc read_value_shorter)

fun run_call :: "CommandSpec \<Rightarrow> callback \<Rightarrow> parsing \<Rightarrow> wstring + parsing" where
  "run_call spec (FlagCall name) st = flag_callback spec name st"
| "run_call spec (OptionCall name input) st = option_callback input name st"
| "run_call spec (PositionalCall input) st = positional_callback spec input st"

fun run_calls :: "CommandSpec \<Rightarrow> callback list \<Rightarrow> parsing \<Rightarrow> wstring + parsing" where
  "run_calls spec [] st = Inr st"
| "run_calls spec (c # cs) st =
     (case run_call spec c st of Inl message \<Rightarrow> Inl message | Inr st' \<Rightarrow> run_calls spec cs st')"

lemma ReadOptionValue_drop:
  "read_value (drop (Suc i) argv) =
     (fst (ReadOptionValue i argv), drop (Suc (snd (ReadOptionValue i argv))) argv)"
proof (cases "Suc i < length argv")
  case True
  then have d: "drop (Suc i) argv = argv ! Suc i # drop (Suc (Suc i)) argv" by (simp add: Cons_nth_drop_Suc)
  show ?thesis
  proof (cases "Suc (Suc i) < length argv")
    case more: True
    then have "drop (Suc (Suc i)) argv = argv ! Suc (Suc i) # drop (Suc (Suc (Suc i))) argv"
      by (simp add: Cons_nth_drop_Suc)
    then show ?thesis using True more d by (simp add: read_value_def ReadOptionValue_def Let_def)
  next
    case False
    then show ?thesis using True d by (simp add: read_value_def ReadOptionValue_def Let_def)
  qed
qed (simp add: read_value_def ReadOptionValue_def)

lemma tokenize_step:
  assumes "i < length argv"
  shows "tokenize lower spec argv i ended inputs tokens =
    (case classify lower spec ended (argv ! i) of
       EndOfOptions \<Rightarrow> tokenize lower spec argv (Suc i) True inputs tokens
     | FlagArg name \<Rightarrow> tokenize lower spec argv (Suc i) ended inputs (tokens @ [FlagToken name])
     | OptionArg name \<Rightarrow> tokenize lower spec argv (Suc (snd (ReadOptionValue i argv))) ended
         (inputs @ [\<lparr>oiName = argv ! i, oiValue = fst (ReadOptionValue i argv)\<rparr>])
         (tokens @ [OptionToken name (length inputs)])
     | InvalidArg \<Rightarrow> tokenize lower spec argv (Suc i) ended
         (inputs @ [\<lparr>oiName = argv ! i, oiValue = Some (argv ! i)\<rparr>]) (tokens @ [OptionToken ''--invalid'' (length inputs)])
     | PositionalArg \<Rightarrow> tokenize lower spec argv (Suc i) ended
         (inputs @ [\<lparr>oiName = argv ! i, oiValue = Some (argv ! i)\<rparr>]) (tokens @ [PositionalToken (length inputs)]))"
  using assms
  by (subst tokenize.simps) (simp add: classify_def Let_def case_prod_unfold del: not_None_eq)

definition follows :: "CommandSpec \<Rightarrow> OptionInput list \<Rightarrow> token list \<Rightarrow> callback list \<Rightarrow> OptionInput list \<times> token list \<Rightarrow> bool" where
  "follows spec inputs tokens cs result \<longleftrightarrow> (\<exists>ins ts. result = (inputs @ ins, tokens @ ts) \<and>
     (\<forall>more st. run_tokens spec (inputs @ ins @ more) ts st = run_calls spec cs st))"

lemma follows_Cons:
  assumes "follows spec (inputs @ new) (tokens @ [t]) cs result"
    and "\<And>more st. run_token spec (inputs @ new @ more) t st = run_call spec c st"
  shows "follows spec inputs tokens (c # cs) result"
proof -
  obtain ins ts where r: "result = ((inputs @ new) @ ins, (tokens @ [t]) @ ts)"
    and run: "\<And>more st. run_tokens spec (inputs @ new @ ins @ more) ts st = run_calls spec cs st"
    using assms(1) by (auto simp: follows_def)
  show ?thesis
    unfolding follows_def
    by (rule exI [of _ "new @ ins"], rule exI [of _ "t # ts"]) (simp add: r run assms(2) split: sum.split)
qed

lemma tokenize_calls:
  "follows spec inputs tokens (calls lower spec ended (drop i argv)) (tokenize lower spec argv i ended inputs tokens)"
proof (induction "length argv - i" arbitrary: i ended inputs tokens rule: less_induct)
  case less
  show ?case
  proof (cases "i < length argv")
    case False
    then show ?thesis by (subst tokenize.simps) (auto simp: follows_def)
  next
    case True
    have i: "drop i argv = argv ! i # drop (Suc i) argv" using True by (simp add: Cons_nth_drop_Suc)
    let ?j = "snd (ReadOptionValue i argv)"
    have j: "i \<le> ?j" by (rule ReadOptionValue_forward [of i argv "fst (ReadOptionValue i argv)"]) simp
    have next_arg: "follows spec ins ts (calls lower spec e (drop (Suc i) argv)) (tokenize lower spec argv (Suc i) e ins ts)"
      for ins ts e using True by (intro less.hyps) simp
    have next_value: "follows spec ins ts (calls lower spec e (drop (Suc ?j) argv)) (tokenize lower spec argv (Suc ?j) e ins ts)"
      for ins ts e using True j by (intro less.hyps) simp
    show ?thesis
    proof (cases "classify lower spec ended (argv ! i)")
      case EndOfOptions
      then show ?thesis by (simp add: tokenize_step [OF True] i next_arg)
    next
      case (FlagArg name)
      show ?thesis
        by (simp add: tokenize_step [OF True] i FlagArg)
          (rule follows_Cons [where new = "[]" and t = "FlagToken name"]; simp add: next_arg)
    next
      case (OptionArg name)
      show ?thesis
        by (simp add: tokenize_step [OF True] i OptionArg ReadOptionValue_drop)
          (rule follows_Cons, rule next_value, simp)
    next
      case InvalidArg
      show ?thesis
        by (simp add: tokenize_step [OF True] i InvalidArg) (rule follows_Cons, rule next_arg, simp)
    next
      case PositionalArg
      show ?thesis
        by (simp add: tokenize_step [OF True] i PositionalArg) (rule follows_Cons, rule next_arg, simp)
    qed
  qed
qed

text \<open>What the parser computes, in these terms.\<close>

definition arguments :: "CommandSpec \<Rightarrow> wstring list \<Rightarrow> wstring list" where
  "arguments spec argv = drop (if spSubcommand spec = [] then 2 else 3) argv"

lemma ParseWithCli_calls:
  assumes "in_order cli" and "ParseWithCli lower cli spec argv = Some result"
  shows "result = (case run_calls spec (calls lower spec False (arguments spec argv)) (start_parsing spec) of
                     Inl message \<Rightarrow> Inl message | Inr st \<Rightarrow> finish_request spec st)"
proof -
  let ?i = "if spSubcommand spec = [] then 2 else 3"
  obtain ins ts where t: "tokenize lower spec argv ?i False [] [] = (ins, ts)"
    and run: "\<And>st. run_tokens spec ins ts st = run_calls spec (calls lower spec False (arguments spec argv)) st"
    using tokenize_calls [of spec "[]" "[]" lower False ?i argv]
    by (fastforce simp: follows_def arguments_def dest: spec [of _ "[]"])
  obtain called where "cli (spec_names spec) ts = Some called"
    using assms(2) t by (auto simp: ParseWithCli_def split: option.splits)
  moreover from this have "called = ts" using assms(1) unfolding in_order_def by blast
  ultimately show ?thesis using assms(2) t run by (simp add: ParseWithCli_def split: sum.splits)
qed

lemma ParseWithCli_accepting:
  assumes "accepting cli"
  shows "ParseWithCli lower cli spec argv =
    Some (case run_calls spec (calls lower spec False (arguments spec argv)) (start_parsing spec) of
            Inl message \<Rightarrow> Inl message | Inr st \<Rightarrow> finish_request spec st)"
proof -
  obtain result where r: "ParseWithCli lower cli spec argv = Some result"
    using assms by (cases "tokenize lower spec argv (if spSubcommand spec = [] then 2 else 3) False [] []")
      (simp add: ParseWithCli_def accepting_def)
  have "in_order cli" using assms by (auto simp: in_order_def accepting_def)
  from ParseWithCli_calls [OF this r] show ?thesis by (simp add: r)
qed

subsection \<open>What the callbacks may do\<close>

fun call_ok :: "CommandSpec \<Rightarrow> wstring set \<Rightarrow> callback \<Rightarrow> bool" where
  "call_ok spec A (FlagCall name) \<longleftrightarrow>
     name = ''--json'' \<or> name = ''--raw'' \<or> targets spec \<and> (name = ''--last'' \<or> name = ''--default'')"
| "call_ok spec A (OptionCall name input) \<longleftrightarrow>
     name = ''--invalid'' \<or>
     (name \<in> {''--id'', ''--name'', ''--mac'', ''--alias''} \<and> targets spec \<or> name = ''--value'' \<and> aliasValue spec) \<and>
     (\<forall>v. oiValue input = Some v \<longrightarrow> v \<in> A)"
| "call_ok spec A (PositionalCall input) \<longleftrightarrow> targets spec \<and> (\<exists>v \<in> A. oiValue input = Some v)"

lemma call_ok_mono: "call_ok spec A c \<Longrightarrow> A \<subseteq> B \<Longrightarrow> call_ok spec B c"
  by (cases c) auto

lemma selector_of_name: "selector_of lower arg = Some s \<Longrightarrow> fst s \<in> {''--id'', ''--name'', ''--mac'', ''--alias''}"
  by (auto simp: selector_of_def c_selectors_def split: if_splits)

lemma classify_option:
  "classify lower spec ended arg = OptionArg name \<Longrightarrow>
     name \<in> {''--id'', ''--name'', ''--mac'', ''--alias''} \<and> targets spec \<or> name = ''--value'' \<and> aliasValue spec"
  by (cases "selector_of lower arg") (auto simp: classify_def dest: selector_of_name split: if_splits)

lemma classify_flag:
  "classify lower spec ended arg = FlagArg name \<Longrightarrow>
     name = ''--json'' \<or> name = ''--raw'' \<or> targets spec \<and> (name = ''--last'' \<or> name = ''--default'')"
  by (auto simp: classify_def split: if_splits)

lemma classify_positional: "classify lower spec ended arg = PositionalArg \<Longrightarrow> targets spec"
  by (auto simp: classify_def split: if_splits)

lemma calls_ok: "c \<in> set (calls lower spec ended args) \<Longrightarrow> call_ok spec (set args) c"
proof (induction lower spec ended args rule: calls.induct)
  case (2 lower spec ended arg rest)
  have tail: "call_ok spec (set (arg # rest)) c" if "call_ok spec (set rest) c"
    using that by (rule call_ok_mono) auto
  have after: "call_ok spec (set (arg # rest)) c" if "call_ok spec (set (snd (read_value rest))) c"
    using that read_value_subset [of rest] by (auto intro: call_ok_mono)
  show ?case
  proof (cases "classify lower spec ended arg")
    case EndOfOptions
    then show ?thesis using 2 tail by simp
  next
    case (FlagArg name)
    then show ?thesis using 2 tail classify_flag [OF FlagArg] by auto
  next
    case (OptionArg name)
    then show ?thesis
      using 2 after classify_option [OF OptionArg] by (auto dest: read_value_text)
  next
    case InvalidArg
    then show ?thesis using 2 tail by auto
  next
    case PositionalArg
    then show ?thesis using 2 tail classify_positional [OF PositionalArg] by auto
  qed
qed simp

subsection \<open>The invariant of the callbacks\<close>

text \<open>\<open>A\<close> is the set of the arguments.\<close>

fun target_fits :: "CommandSpec \<Rightarrow> wstring set \<Rightarrow> TargetKind \<Rightarrow> wstring \<Rightarrow> bool" where
  "target_fits spec A TargetNone payload \<longleftrightarrow> payload = []"
| "target_fits spec A TargetLast payload \<longleftrightarrow> relative spec \<and> payload = []"
| "target_fits spec A TargetDefault payload \<longleftrightarrow> relative spec \<and> payload = []"
| "target_fits spec A _ payload \<longleftrightarrow> payload \<noteq> [] \<and> payload \<in> A"

definition parsing_inv :: "CommandSpec \<Rightarrow> wstring set \<Rightarrow> parsing \<Rightarrow> bool" where
  "parsing_inv spec A st \<longleftrightarrow> Command (psRequest st) = spKind spec \<and> RequestId (psRequest st) = \<lparr>High = 0, Low = 0\<rparr> \<and>
     flags_known (Flags (psRequest st)) \<and>
     (\<not> targets spec \<longrightarrow> Target (psRequest st) = TargetNone \<and> psPositional st = None) \<and>
     (Target (psRequest st) \<noteq> TargetNone \<longrightarrow> psPositional st = None) \<and>
     target_fits spec A (Target (psRequest st)) (Payload (psRequest st)) \<and>
     (\<forall>v. psPositional st = Some v \<longrightarrow> v \<in> A) \<and> (\<forall>v. psAlias st = Some v \<longrightarrow> v \<in> A)"

lemma start_parsing_inv: "parsing_inv spec A (start_parsing spec)"
  by (simp add: parsing_inv_def start_parsing_def EmptyRequest_def flags_known_def CommandFlagNone_def)

lemma flags_known_add:
  "flags_known f \<Longrightarrow> flags_known (f OR CommandFlagJson)" "flags_known f \<Longrightarrow> flags_known (f OR CommandFlagRaw)"
  by (auto simp: flags_known_def bit_eq_iff bit_simps)

lemma run_call_inv:
  assumes "parsing_inv spec A st" and "call_ok spec A c" and "run_call spec c st = Inr st'"
  shows "parsing_inv spec A st'"
proof (cases c)
  case (FlagCall name)
  then show ?thesis
    using assms unfolding parsing_inv_def
    by (auto simp: flag_callback_def select_def fail_def flags_known_add split: if_splits)
next
  case (OptionCall name input)
  then show ?thesis
    using assms unfolding parsing_inv_def
    by (auto simp: option_callback_def select_def fail_def c_selectors_def split: if_splits option.splits list.splits)
next
  case (PositionalCall input)
  then show ?thesis
    using assms unfolding parsing_inv_def
    by (auto simp: positional_callback_def fail_def split: if_splits)
qed

lemma run_calls_inv:
  "parsing_inv spec A st \<Longrightarrow> \<forall>c \<in> set cs. call_ok spec A c \<Longrightarrow> run_calls spec cs st = Inr st' \<Longrightarrow> parsing_inv spec A st'"
  by (induction cs arbitrary: st) (auto dest: run_call_inv split: sum.splits)

subsection \<open>The finished request\<close>

lemma spec_kinds:
  "spec \<in> set c_commands \<Longrightarrow> spKind spec \<noteq> CmdUnknown"
  by (auto simp: c_commands_def command_spec_def)

lemma find_from_append:
  "\<forall>c \<in> set xs. \<not> p c \<Longrightarrow> p y \<Longrightarrow> find_from p (xs @ y # ys) 0 = Some (length xs)"
  by (induction xs) auto

text \<open>What the protocol demands of the target and the payload, by the kind of command.\<close>

definition request_fits :: "CommandSpec \<Rightarrow> Request \<Rightarrow> bool" where
  "request_fits spec r \<longleftrightarrow>
     (if aliasValue spec then alias_set_ok r
      else if targets spec
      then hasExplicitTarget r \<or> relative spec \<and> (Target r = TargetLast \<or> Target r = TargetDefault) \<and> Payload r = []
      else Target r = TargetNone \<and> Payload r = [])"

lemma request_fits_valid:
  assumes "spKind spec \<noteq> CmdUnknown" and "Command r = spKind spec" and "request_fits spec r"
    and "\<not> EmptyId (RequestId r)" and "flags_known (Flags r)" and "0 \<notin> set (Payload r)" and "length (Payload r) \<le> 32768"
  shows "IsRequestValid r"
proof -
  have "IsKnownCommand (command_value (Command r))" using assms(1,2) by (auto simp: known_command_iff)
  moreover have "IsKnownTarget (target_value (Target r))" by (auto simp: known_target_iff)
  ultimately show ?thesis
    using assms
    by (cases "Command r")
      (simp_all add: IsRequestValid_def request_fits_def aliasValue_def targets_def relative_def c_maxPayloadBytes_def)
qed

lemma take_positional_fits:
  assumes "parsing_inv spec A st"
  shows "Command (take_positional st) = spKind spec" "flags_known (Flags (take_positional st))"
    "\<not> targets spec \<Longrightarrow> Target (take_positional st) = TargetNone \<and> Payload (take_positional st) = []"
    "Payload (take_positional st) = [] \<or> Payload (take_positional st) \<in> A"
    "Target (take_positional st) = TargetNone \<Longrightarrow> Payload (take_positional st) = []"
    "Target (take_positional st) \<in> {TargetLast, TargetDefault} \<Longrightarrow>
       relative spec \<and> Payload (take_positional st) = []"
  using assms
  by (cases "Target (psRequest st)"; auto simp: parsing_inv_def take_positional_def split: option.splits)+

text \<open>A payload that is one target text and one alias text, the second without line breaks.\<close>

definition alias_payload :: "wstring \<Rightarrow> bool" where
  "alias_payload payload \<longleftrightarrow>
     (\<exists>target label. payload = target @ NL # label \<and> NL \<notin> set target \<and> NL \<notin> set label \<and> CR \<notin> set label)"

lemma valid_alias_payload:
  "IsRequestValid (r\<lparr>RequestId := i\<rparr>) \<Longrightarrow> Command r = CmdAliasSet \<Longrightarrow> alias_payload (Payload r)"
  using alias_set_split [of "r\<lparr>RequestId := i\<rparr>"]
  by (auto simp: IsRequestValid_def alias_payload_def split: if_splits)

lemma finish_request_valid:
  assumes spec: "spec \<in> set c_commands" and inv: "parsing_inv spec A st"
    and finished: "finish_request spec st = Inr r"
    and chars: "\<forall>v \<in> A. 0 \<notin> set v"
    and split: "aliasValue spec \<Longrightarrow> alias_payload (Payload r)"
    and size: "length (Payload r) \<le> 32768" and id: "\<not> EmptyId i"
  shows "IsRequestValid (r\<lparr>RequestId := i\<rparr>)"
proof -
  note fits = take_positional_fits [OF inv]
  obtain r1 r2 where r1: "choose_target spec (take_positional st) = Inr r1"
    and r2: "check_target spec r1 = Inr r2" and r: "append_alias spec (psAlias st) r2 = Inr r"
    using finished by (auto simp: finish_request_def split: sum.splits)
  have r2: "r2 = r1" "targets spec \<Longrightarrow> Target r1 \<noteq> TargetLast \<Longrightarrow> Target r1 \<noteq> TargetDefault \<Longrightarrow> Payload r1 \<noteq> []"
    using r2 by (auto simp: check_target_def fail_def split: if_splits)
  have r1_eq: "r1 = take_positional st \<or>
      spKind spec = CmdToggleLast \<and> Target (take_positional st) = TargetNone \<and> r1 = (take_positional st)\<lparr>Target := TargetDefault\<rparr>"
    and r1_target: "targets spec \<Longrightarrow> Target r1 \<noteq> TargetNone"
    using r1 by (auto simp: choose_target_def fail_def split: if_splits)
  have shape: "Command r1 = spKind spec" "flags_known (Flags r1)"
      "\<not> targets spec \<Longrightarrow> Target r1 = TargetNone \<and> Payload r1 = []"
      "Payload r1 = [] \<or> Payload r1 \<in> A"
      "Target r1 \<in> {TargetLast, TargetDefault} \<Longrightarrow> relative spec \<and> Payload r1 = []"
    using fits r1_eq by (auto simp: targets_def relative_def)
  have explicit: "isExplicitTarget r1" if "targets spec" "Target r1 \<notin> {TargetLast, TargetDefault}"
    using that r1_target by (cases "Target r1") (auto simp: isExplicitTarget_def)
  show ?thesis
  proof (cases "aliasValue spec")
    case False
    then have "r = r1" using r r2 by (simp add: append_alias_def)
    moreover have "request_fits spec (r1\<lparr>RequestId := i\<rparr>)"
      using False shape r2(2) explicit
      by (auto simp: request_fits_def hasExplicitTarget_def isExplicitTarget_def)
    ultimately show ?thesis
      using shape chars size id spec_kinds [OF spec] by (intro request_fits_valid [of spec]) auto
  next
    case True
    then have t: "targets spec" "\<not> relative spec" by (auto simp: targets_def aliasValue_def relative_def)
    obtain c cs where named: "psAlias st = Some (c # cs)" and r': "r = r1\<lparr>Payload := Payload r1 @ [NL] @ c # cs\<rparr>"
      using r r2 True by (auto simp: append_alias_def fail_def split: option.splits list.splits)
    have nolast: "Target r1 \<notin> {TargetLast, TargetDefault}" using shape(5) t by auto
    then have target: "isExplicitTarget r1" "Payload r1 \<noteq> []" "Payload r1 \<in> A"
      using explicit t r2(2) shape(4) by auto
    have alias_in: "c # cs \<in> A" using inv named by (auto simp: parsing_inv_def)
    obtain t l where "Payload r = t @ NL # l" and plain: "NL \<notin> set t" "NL \<notin> set l" "CR \<notin> set l"
      using split [OF True] unfolding alias_payload_def by blast
    then have "t @ NL # l = Payload r1 @ NL # c # cs" by (simp add: r')
    then have parts: "t = Payload r1" "l = c # cs" using append_Cons_eq_iff [OF plain(1,2)] by blast+
    have "find_from (\<lambda>c. c = NL) (Payload r) 0 = Some (length (Payload r1))"
      using plain unfolding r' parts by (auto intro!: find_from_append)
    moreover have "find_from (\<lambda>c. c = CR \<or> c = NL) (Payload r) (length (Payload r1) + 1) = None"
      using plain unfolding find_from_None parts by (auto simp: r')
    ultimately have "alias_set_ok (r\<lparr>RequestId := i\<rparr>)"
      using target by (simp add: alias_set_ok_def r' isExplicitTarget_def)
    moreover have "0 \<notin> set (Payload r)" using chars target alias_in by (auto simp: r' NL_def)
    ultimately show ?thesis
      using shape size id spec_kinds [OF spec] True
      by (intro request_fits_valid [of spec]) (auto simp: request_fits_def r')
  qed
qed

lemma finish_request_command:
  "finish_request spec st = Inr r \<Longrightarrow> parsing_inv spec A st \<Longrightarrow> Command r = spKind spec"
  by (auto simp: finish_request_def choose_target_def check_target_def append_alias_def take_positional_def fail_def
      parsing_inv_def split: sum.splits if_splits option.splits list.splits)

subsection \<open>The command the arguments name\<close>

lemma sent_result:
  "prSend (case z of Inl message \<Rightarrow> ParseError 3 message
      | Inr r \<Rightarrow> \<lparr>prSend = True, prRequest = r, prExitCode = 0, prMessage = []\<rparr>) \<Longrightarrow>
     z = Inr (prRequest (case z of Inl message \<Rightarrow> ParseError 3 message
      | Inr r \<Rightarrow> \<lparr>prSend = True, prRequest = r, prExitCode = 0, prMessage = []\<rparr>))"
  by (cases z) (simp_all add: ParseError_def)

lemma ParseCommandLine_sends:
  assumes "ParseCommandLine lower cli argv = Some p" and "prSend p"
  obtains spec where "spec \<in> set c_commands" "1 < length argv" "says lower (argv ! 1) (spName spec)"
    "spSubcommand spec \<noteq> [] \<longrightarrow> 2 < length argv \<and> says lower (argv ! 2) (spSubcommand spec)"
    "ParseWithCli lower cli spec argv = Some (Inr (prRequest p))"
proof -
  let ?family = "says lower (argv ! 1) ''default'' \<or> says lower (argv ! 1) ''alias''"
  let ?sub = "if ?family then argv ! 2 else []"
  have len: "1 < length argv" and family: "?family \<longrightarrow> 2 < length argv"
    using assms by (auto simp: ParseCommandLine_def ParseError_def Let_def split: if_splits)
  obtain spec where spec: "find_spec lower (argv ! 1) ?sub = Some spec"
    and parsed: "ParseWithCli lower cli spec argv = Some (Inr (prRequest p))"
    using assms
    by (auto simp: ParseCommandLine_def ParseError_def [of 0] ParseError_def [of _ "a @ b" for a b] Let_def
        dest: sent_result split: if_splits option.splits)
  have "spec \<in> set c_commands" "says lower (argv ! 1) (spName spec)" "says lower ?sub (spSubcommand spec)"
    using spec by (auto simp: find_spec_def find_Some_iff)
  moreover have "2 < length argv \<and> says lower (argv ! 2) (spSubcommand spec)" if "spSubcommand spec \<noteq> []"
    using that calculation(3) family by (auto simp: says_def EqualsIgnoreCase_def split: if_splits)
  ultimately show thesis using len parsed that by blast
qed

lemma arguments_subset: "set (arguments spec argv) \<subseteq> set argv"
  by (auto simp: arguments_def dest: in_set_dropD)

lemma ParseWithCli_parsed:
  assumes "in_order cli" and "ParseWithCli lower cli spec argv = Some (Inr r)"
  obtains st where "run_calls spec (calls lower spec False (arguments spec argv)) (start_parsing spec) = Inr st"
    "finish_request spec st = Inr r" "parsing_inv spec (set argv) st"
proof -
  let ?cs = "calls lower spec False (arguments spec argv)"
  obtain st where st: "run_calls spec ?cs (start_parsing spec) = Inr st" "finish_request spec st = Inr r"
    using ParseWithCli_calls [OF assms] by (auto split: sum.splits)
  have "\<forall>c \<in> set ?cs. call_ok spec (set argv) c"
    using calls_ok call_ok_mono arguments_subset by blast
  from run_calls_inv [OF start_parsing_inv this st(1)] st show thesis by (rule that [rotated 2])
qed

subsection \<open>Lower case\<close>

text \<open>
  \<open>towlower\<close> keeps the small ASCII letters, and nothing else than the hyphen becomes a hyphen.
\<close>

definition plain_chars :: string where "plain_chars = ''abcdefghijklmnopqrstuvwxyz-''"

definition plain_lower :: "(wchar \<Rightarrow> wchar) \<Rightarrow> bool" where
  "plain_lower lower \<longleftrightarrow> (\<forall>c \<in> set (L plain_chars). lower c = c) \<and> (\<forall>c. lower c = 45 \<longleftrightarrow> c = 45)"

lemma L_inject [simp]: "L a = L b \<longleftrightarrow> a = b"
proof -
  have "inj (\<lambda>c :: char. of_nat (of_char c) :: wchar)"
  proof (rule injI)
    fix c d :: char
    assume "(of_nat (of_char c) :: wchar) = of_nat (of_char d)"
    moreover have "(of_char c :: nat) < 256" "(of_char d :: nat) < 256" by simp_all
    ultimately have "(of_char c :: nat) = of_char d"
      by (simp add: word_of_nat_eq_iff take_bit_nat_eq_self)
    then show "c = d" by simp
  qed
  then show ?thesis unfolding L_def by (rule inj_map_eq_map)
qed

lemma lower_literal: "plain_lower lower \<Longrightarrow> set a \<subseteq> set plain_chars \<Longrightarrow> map lower (L a) = L a"
  by (rule map_idI) (auto simp: plain_lower_def L_def)

lemma says_unique:
  assumes "plain_lower lower" "set a \<subseteq> set plain_chars" "set b \<subseteq> set plain_chars"
    and "says lower arg a" "says lower arg b"
  shows "a = b"
  using assms lower_literal [OF assms(1,2)] lower_literal [OF assms(1,3)]
  by (simp add: says_def EqualsIgnoreCase_def LowerInvariant_def)

lemma says_self [simp]: "says lower (L a) a"
  by (simp add: says_def EqualsIgnoreCase_def)

lemma says_literal:
  "plain_lower lower \<Longrightarrow> set a \<subseteq> set plain_chars \<Longrightarrow> set b \<subseteq> set plain_chars \<Longrightarrow> says lower (L a) b \<longleftrightarrow> a = b"
  using says_unique [of lower a b "L a"] by auto

lemma says_hyphen:
  assumes "plain_lower lower" and "says lower arg (CHR ''-'' # cs)"
  shows "arg \<noteq> [] \<and> hd arg = 45"
proof (cases arg)
  case Nil
  then show ?thesis using assms(2) by (simp add: says_def EqualsIgnoreCase_def)
next
  case (Cons c rest)
  then have "lower c = lower 45"
    using assms(2) by (simp add: says_def EqualsIgnoreCase_def LowerInvariant_def L_def)
  moreover have "lower 45 = 45" "lower c = 45 \<longleftrightarrow> c = 45" using assms(1) by (auto simp: plain_lower_def)
  ultimately show ?thesis using Cons by simp
qed

definition literals :: "string list" where
  "literals = [''help'', ''--help'', ''-h'', ''--'', ''--json'', ''--raw'', ''--last'', ''--default'', ''--id'',
     ''--name'', ''--mac'', ''--alias'', ''--value''] @ map spName c_commands @ map spSubcommand c_commands"

lemma literals_plain: "a \<in> set literals \<Longrightarrow> set a \<subseteq> set plain_chars"
proof -
  have "\<forall>a \<in> set literals. set a \<subseteq> set plain_chars"
    by (simp add: literals_def plain_chars_def c_commands_def command_spec_def)
  then show "a \<in> set literals \<Longrightarrow> set a \<subseteq> set plain_chars" by blast
qed

lemma says_differ:
  "plain_lower lower \<Longrightarrow> says lower arg a \<Longrightarrow> a \<in> set literals \<Longrightarrow> b \<in> set literals \<Longrightarrow> says lower arg b \<longleftrightarrow> b = a"
  using says_unique literals_plain by metis

subsection \<open>JSON output\<close>

lemma flag_json [simp]: "bit (f OR CommandFlagJson) 0" "bit (f OR CommandFlagRaw) 0 \<longleftrightarrow> bit f 0"
  for f :: u32
  by (simp_all add: CommandFlagJson_def CommandFlagRaw_def bit_simps)

lemma json_bit: "f AND CommandFlagJson \<noteq> 0 \<longleftrightarrow> bit f 0" for f :: u32
  by (simp add: CommandFlagJson_def and_one_eq odd_iff_mod_2_eq_one bit_0)

lemma select_flags: "select kind st = Inr st' \<Longrightarrow> Flags (psRequest st') = Flags (psRequest st)"
  by (auto simp: select_def fail_def split: if_splits)

lemma run_call_json:
  "run_call spec c st = Inr st' \<Longrightarrow>
     bit (Flags (psRequest st')) 0 \<longleftrightarrow> bit (Flags (psRequest st)) 0 \<or> c = FlagCall ''--json''"
proof (cases c)
  case (FlagCall name)
  then show "run_call spec c st = Inr st' \<Longrightarrow>
     bit (Flags (psRequest st')) 0 \<longleftrightarrow> bit (Flags (psRequest st)) 0 \<or> c = FlagCall ''--json''"
    by (auto simp: flag_callback_def fail_def dest: select_flags split: if_splits)
next
  case (OptionCall name input)
  then show "run_call spec c st = Inr st' \<Longrightarrow>
     bit (Flags (psRequest st')) 0 \<longleftrightarrow> bit (Flags (psRequest st)) 0 \<or> c = FlagCall ''--json''"
    by (auto simp: option_callback_def fail_def dest: select_flags split: if_splits option.splits sum.splits list.splits)
next
  case (PositionalCall input)
  then show "run_call spec c st = Inr st' \<Longrightarrow>
     bit (Flags (psRequest st')) 0 \<longleftrightarrow> bit (Flags (psRequest st)) 0 \<or> c = FlagCall ''--json''"
    by (auto simp: positional_callback_def fail_def split: if_splits)
qed

lemma run_calls_json:
  "run_calls spec cs st = Inr st' \<Longrightarrow>
     bit (Flags (psRequest st')) 0 \<longleftrightarrow> bit (Flags (psRequest st)) 0 \<or> FlagCall ''--json'' \<in> set cs"
  by (induction cs arbitrary: st) (auto simp: run_call_json split: sum.splits)

lemma finish_request_flags: "finish_request spec st = Inr r \<Longrightarrow> Flags r = Flags (psRequest st)"
  by (auto simp: finish_request_def choose_target_def check_target_def append_alias_def take_positional_def fail_def
      split: sum.splits if_splits option.splits list.splits)

lemma no_flags_after_end: "FlagCall name \<notin> set (calls lower spec True args)"
  by (induction args) (auto simp: classify_def split: arg_class.split)

text \<open>The reader of the JSON flag passes over a value just as the parser does, unless the value is missing.\<close>

lemma skip_value_eq: "fst (ReadOptionValue i argv) \<noteq> None \<Longrightarrow> i < length argv \<Longrightarrow> skip_value i argv = snd (ReadOptionValue i argv)"
  by (auto simp: skip_value_def ReadOptionValue_def Let_def min_def split: if_splits)

lemma option_has_value:
  assumes "option_callback \<lparr>oiName = arg, oiValue = given\<rparr> name st = Inr st'"
    and "name \<in> {''--id'', ''--name'', ''--mac'', ''--alias'', ''--value''}"
  shows "\<exists>v. given = Some v"
  using assms by (cases given) (auto simp: option_callback_def fail_def c_selectors_def split: if_splits sum.splits)

lemma option_literals: "set option_names \<subseteq> set literals"
  by (simp add: option_names_def literals_def)

lemma selector_of_None: "selector_of lower arg = None \<longleftrightarrow>
    \<not> (says lower arg ''--id'' \<or> says lower arg ''--name'' \<or> says lower arg ''--mac'' \<or> says lower arg ''--alias'')"
  by (auto simp: selector_of_def c_selectors_def)

lemma selector_of_Some: "selector_of lower arg = Some s \<Longrightarrow> says lower arg (fst s)"
  by (auto simp: selector_of_def find_Some_iff)

definition option_like :: "(wchar \<Rightarrow> wchar) \<Rightarrow> wstring \<Rightarrow> bool" where
  "option_like lower arg \<longleftrightarrow> (\<exists>name \<in> set option_names. says lower arg name)"

lemma option_like_iff: "option_like lower arg \<longleftrightarrow> selector_of lower arg \<noteq> None \<or> says lower arg ''--value''"
  unfolding selector_of_None by (auto simp: option_like_def option_names_def)

text \<open>How the reader sees an argument the parser has classified.\<close>

lemma literal_not_option:
  assumes "plain_lower lower" and "says lower arg a" and "a \<in> set literals" and "a \<notin> set option_names"
  shows "\<not> option_like lower arg"
  using assms says_differ [OF assms(1,2,3)] option_literals by (auto simp: option_like_def)

lemma json_loop_step:
  assumes "i < length argv"
  shows "json_loop lower argv i =
    (if option_like lower (argv ! i) then json_loop lower argv (Suc (skip_value i argv))
     else if argv ! i = L ''--'' then False
     else says lower (argv ! i) ''--json'' \<or> json_loop lower argv (Suc i))"
  using assms by (subst json_loop.simps) (simp add: option_like_def)

lemma literal_memberships [simp]:
  "''--json'' \<in> set literals" "''--raw'' \<in> set literals" "''--last'' \<in> set literals" "''--default'' \<in> set literals"
  "''--'' \<in> set literals" "''--value'' \<in> set literals"
  by (simp_all add: literals_def)

lemma json_skips_literal:
  assumes "plain_lower lower" and "i < length argv" and "says lower (argv ! i) a" and "a \<in> set literals"
    and "a \<notin> set option_names" and "a \<noteq> ''--''"
  shows "json_loop lower argv i \<longleftrightarrow> a = ''--json'' \<or> json_loop lower argv (Suc i)"
proof -
  have "argv ! i \<noteq> L ''--''" using says_differ [OF assms(1,3,4), of "''--''"] assms(6) by auto
  moreover have "says lower (argv ! i) ''--json'' \<longleftrightarrow> ''--json'' = a" by (rule says_differ [OF assms(1,3,4)]) simp
  ultimately show ?thesis
    using json_loop_step [OF assms(2)] literal_not_option [OF assms(1,3,4,5)] by auto
qed

lemma calls_json:
  assumes plain: "plain_lower lower"
  shows "run_calls spec (calls lower spec False (drop i argv)) st = Inr st' \<Longrightarrow>
    json_loop lower argv i \<longleftrightarrow> FlagCall ''--json'' \<in> set (calls lower spec False (drop i argv))"
proof (induction "length argv - i" arbitrary: i st rule: less_induct)
  case less
  show ?case
  proof (cases "i < length argv")
    case False
    then show ?thesis by (subst json_loop.simps) simp
  next
    case True
    have i: "drop i argv = argv ! i # drop (Suc i) argv" using True by (simp add: Cons_nth_drop_Suc)
    let ?arg = "argv ! i" and ?j = "snd (ReadOptionValue i argv)"
    have j: "i \<le> ?j" by (rule ReadOptionValue_forward [of i argv "fst (ReadOptionValue i argv)"]) simp
    note step = json_loop_step [OF True]
    show ?thesis
    proof (cases "classify lower spec False ?arg")
      case EndOfOptions
      then have arg: "?arg = L ''--''" by (auto simp: classify_def split: if_splits)
      have "\<not> option_like lower ?arg"
        by (rule literal_not_option [OF plain, of _ "''--''"]) (simp_all add: arg option_names_def)
      then show ?thesis using EndOfOptions arg by (simp add: step i no_flags_after_end)
    next
      case (FlagArg name)
      then have says: "says lower ?arg name" and name: "name \<in> {''--json'', ''--raw'', ''--last'', ''--default''}"
        by (auto simp: classify_def split: if_splits)
      have "json_loop lower argv i \<longleftrightarrow> name = ''--json'' \<or> json_loop lower argv (Suc i)"
        by (rule json_skips_literal [OF plain True says]) (use name in \<open>auto simp: option_names_def\<close>)
      then show ?thesis
        using less.prems less.hyps [of "Suc i"] True FlagArg by (auto simp: i split: sum.splits)
    next
      case (OptionArg name)
      then have opt: "option_like lower ?arg" by (auto simp: classify_def option_like_iff split: if_splits)
      have given: "fst (ReadOptionValue i argv) \<noteq> None"
        using less.prems OptionArg classify_option [OF OptionArg]
        by (auto simp: i ReadOptionValue_drop split: sum.splits dest!: option_has_value)
      show ?thesis
        using less.prems less.hyps [of "Suc ?j"] True OptionArg j opt skip_value_eq [OF given True]
        by (auto simp: i step ReadOptionValue_drop split: sum.splits)
    next
      case InvalidArg
      then show ?thesis using less.prems by (simp add: i option_callback_def)
    next
      case PositionalArg
      then have c: "targets spec" "\<not> says lower ?arg ''--json''" "selector_of lower ?arg = None"
          "\<not> (?arg \<noteq> [] \<and> hd ?arg = 45)" "?arg \<noteq> L ''--''"
        by (auto simp: classify_def simp del: not_None_eq split: if_splits)
      have "\<not> says lower ?arg ''--value''" using c(4) says_hyphen [OF plain] by blast
      then have "json_loop lower argv i \<longleftrightarrow> json_loop lower argv (Suc i)"
        using c by (simp add: step option_like_iff)
      then show ?thesis
        using less.prems less.hyps [of "Suc i"] True PositionalArg by (auto simp: i split: sum.splits)
    qed
  qed
qed

lemma JsonRequested_parsed:
  assumes plain: "plain_lower lower" and "in_order cli"
    and parsed: "ParseCommandLine lower cli argv = Some p" "prSend p"
  shows "JsonRequested lower argv \<longleftrightarrow> bit (Flags (prRequest p)) 0"
proof -
  obtain spec where spec: "spec \<in> set c_commands" and len: "1 < length argv"
    and name: "says lower (argv ! 1) (spName spec)"
    and sub: "spSubcommand spec \<noteq> [] \<longrightarrow> 2 < length argv \<and> says lower (argv ! 2) (spSubcommand spec)"
    and cli: "ParseWithCli lower cli spec argv = Some (Inr (prRequest p))"
    by (rule ParseCommandLine_sends [OF parsed])
  let ?i = "if spSubcommand spec = [] then 2 else 3"
  obtain st where st: "run_calls spec (calls lower spec False (drop ?i argv)) (start_parsing spec) = Inr st"
      "finish_request spec st = Inr (prRequest p)"
    by (rule ParseWithCli_parsed [OF assms(2) cli]) (simp add: arguments_def)
  have words: "\<forall>spec \<in> set c_commands. spName spec \<in> set literals - set option_names - {''--'', ''--json''} \<and>
      (spSubcommand spec = [] \<or> spSubcommand spec \<in> set literals - set option_names - {''--'', ''--json''})"
    by (simp add: literals_def c_commands_def command_spec_def option_names_def)
  have "json_loop lower argv 1 \<longleftrightarrow> json_loop lower argv 2"
    using json_skips_literal [OF plain len name] words spec by (auto simp: numeral_2_eq_2)
  also have "\<dots> \<longleftrightarrow> json_loop lower argv ?i"
  proof (cases "spSubcommand spec = []")
    case False
    note s = mp [OF sub False]
    show ?thesis
      using json_skips_literal [OF plain s [THEN conjunct1] s [THEN conjunct2]] words spec False
      by (auto simp: numeral_2_eq_2 numeral_3_eq_3)
  qed simp
  also have "\<dots> \<longleftrightarrow> FlagCall ''--json'' \<in> set (calls lower spec False (drop ?i argv))"
    by (rule calls_json [OF plain st(1)])
  also have "\<dots> \<longleftrightarrow> bit (Flags (psRequest st)) 0"
    by (simp add: run_calls_json [OF st(1)] start_parsing_def EmptyRequest_def CommandFlagNone_def)
  finally show ?thesis by (simp add: JsonRequested_def finish_request_flags [OF st(2)])
qed

subsection \<open>The command line of a request\<close>

definition find_kind :: "CommandType \<Rightarrow> CommandSpec" where
  "find_kind kind = (case List.find (\<lambda>spec. spKind spec = kind) c_commands of Some spec \<Rightarrow> spec | None \<Rightarrow> hd c_commands)"

definition selector_args :: "TargetKind \<Rightarrow> wstring \<Rightarrow> wstring list" where
  "selector_args kind text = (case kind of
     TargetNone \<Rightarrow> [] | TargetLast \<Rightarrow> [L ''--last''] | TargetDefault \<Rightarrow> [L ''--default'']
   | TargetId \<Rightarrow> [L ''--id'', L ''--'', text] | TargetName \<Rightarrow> [L ''--name'', L ''--'', text]
   | TargetMac \<Rightarrow> [L ''--mac'', L ''--'', text] | TargetAlias \<Rightarrow> [L ''--alias'', L ''--'', text]
   | TargetAuto \<Rightarrow> [L ''--'', text])"

definition target_args :: "Request \<Rightarrow> wstring list" where
  "target_args r =
     (if Command r = CmdAliasSet
      then [L ''--value'', L ''--'', RequestAlias r] @ selector_args (Target r) (RequestTargetText r)
      else selector_args (Target r) (Payload r))"

definition flag_args :: "u32 \<Rightarrow> wstring list" where
  "flag_args f = (if bit f 0 then [L ''--json''] else []) @ (if bit f 1 then [L ''--raw''] else [])"

definition request_args :: "wstring \<Rightarrow> Request \<Rightarrow> wstring list" where
  "request_args program r =
     program # map L (spec_names (find_kind (Command r))) @ flag_args (Flags r) @ target_args r"

lemma find_kind_spec: "kind \<noteq> CmdUnknown \<Longrightarrow> find_kind kind \<in> set c_commands \<and> spKind (find_kind kind) = kind"
  by (cases kind) (simp_all add: find_kind_def c_commands_def command_spec_def)

lemma literal_members [simp]:
  "''--id'' \<in> set literals" "''--name'' \<in> set literals" "''--mac'' \<in> set literals" "''--alias'' \<in> set literals"
  "''help'' \<in> set literals" "''--help'' \<in> set literals" "''-h'' \<in> set literals" "''default'' \<in> set literals"
  "''alias'' \<in> set literals"
  by (simp_all add: literals_def c_commands_def command_spec_def)

lemma command_words: "spec \<in> set c_commands \<Longrightarrow> spName spec \<in> set literals \<and> spSubcommand spec \<in> set literals"
  by (auto simp: literals_def)

lemma says_word: "plain_lower lower \<Longrightarrow> a \<in> set literals \<Longrightarrow> b \<in> set literals \<Longrightarrow> says lower (L a) b \<longleftrightarrow> a = b"
  by (rule says_literal) (auto dest: literals_plain)

lemma commands_distinct:
  "\<forall>spec \<in> set c_commands.
     List.find (\<lambda>s. spName spec = spName s \<and> spSubcommand spec = spSubcommand s) c_commands = Some spec"
  by code_simp

lemma find_own_spec:
  assumes plain: "plain_lower lower" and spec: "spec \<in> set c_commands"
  shows "find_spec lower (L (spName spec)) (L (spSubcommand spec)) = Some spec"
proof -
  have words: "says lower (L (spName spec)) (spName s) \<longleftrightarrow> spName spec = spName s"
      "says lower (L (spSubcommand spec)) (spSubcommand s) \<longleftrightarrow> spSubcommand spec = spSubcommand s"
    if "s \<in> set c_commands" for s
    using says_word [OF plain] command_words [OF spec] command_words [OF that] by metis+
  have "find_spec lower (L (spName spec)) (L (spSubcommand spec)) =
      List.find (\<lambda>s. spName spec = spName s \<and> spSubcommand spec = spSubcommand s) c_commands"
    unfolding find_spec_def by (rule find_cong [OF refl]) (simp add: words)
  also have "\<dots> = Some spec" using commands_distinct spec by blast
  finally show ?thesis .
qed

fun selector_calls :: "TargetKind \<Rightarrow> wstring \<Rightarrow> callback list" where
  "selector_calls TargetNone text = []"
| "selector_calls TargetLast text = [FlagCall ''--last'']"
| "selector_calls TargetDefault text = [FlagCall ''--default'']"
| "selector_calls TargetId text = [OptionCall ''--id'' \<lparr>oiName = L ''--id'', oiValue = Some text\<rparr>]"
| "selector_calls TargetName text = [OptionCall ''--name'' \<lparr>oiName = L ''--name'', oiValue = Some text\<rparr>]"
| "selector_calls TargetMac text = [OptionCall ''--mac'' \<lparr>oiName = L ''--mac'', oiValue = Some text\<rparr>]"
| "selector_calls TargetAlias text = [OptionCall ''--alias'' \<lparr>oiName = L ''--alias'', oiValue = Some text\<rparr>]"
| "selector_calls TargetAuto text = [PositionalCall \<lparr>oiName = text, oiValue = Some text\<rparr>]"

lemma selector_of_word:
  assumes plain: "plain_lower lower"
  shows "selector_of lower (L ''--id'') = Some (''--id'', TargetId)"
    "selector_of lower (L ''--name'') = Some (''--name'', TargetName)"
    "selector_of lower (L ''--mac'') = Some (''--mac'', TargetMac)"
    "selector_of lower (L ''--alias'') = Some (''--alias'', TargetAlias)"
    "selector_of lower (L ''--value'') = None"
  by (simp_all add: selector_of_def c_selectors_def says_word [OF plain])

lemma classify_words:
  assumes plain: "plain_lower lower"
  shows "classify lower spec False (L ''--json'') = FlagArg ''--json''"
    "classify lower spec False (L ''--raw'') = FlagArg ''--raw''"
    "targets spec \<Longrightarrow> classify lower spec False (L ''--'') = EndOfOptions"
    "targets spec \<Longrightarrow> \<not> aliasValue spec \<Longrightarrow> classify lower spec False (L ''--last'') = FlagArg ''--last''"
    "targets spec \<Longrightarrow> \<not> aliasValue spec \<Longrightarrow> classify lower spec False (L ''--default'') = FlagArg ''--default''"
    "targets spec \<Longrightarrow> classify lower spec False (L ''--id'') = OptionArg ''--id''"
    "targets spec \<Longrightarrow> classify lower spec False (L ''--name'') = OptionArg ''--name''"
    "targets spec \<Longrightarrow> classify lower spec False (L ''--mac'') = OptionArg ''--mac''"
    "targets spec \<Longrightarrow> classify lower spec False (L ''--alias'') = OptionArg ''--alias''"
    "targets spec \<Longrightarrow> aliasValue spec \<Longrightarrow> classify lower spec False (L ''--value'') = OptionArg ''--value''"
  by (simp_all add: classify_def says_word [OF plain] selector_of_word [OF plain])

lemma classify_after_end: "targets spec \<Longrightarrow> classify lower spec True arg = PositionalArg"
  by (simp add: classify_def)

lemma read_escaped: "read_value (L ''--'' # text # rest) = (Some text, rest)"
  by (simp add: read_value_def)

lemma calls_selector:
  assumes plain: "plain_lower lower" and "kind \<noteq> TargetNone \<Longrightarrow> targets spec"
    and "kind = TargetLast \<or> kind = TargetDefault \<Longrightarrow> \<not> aliasValue spec"
  shows "calls lower spec False (selector_args kind text) = selector_calls kind text"
  using assms(2,3)
  by (cases kind) (simp_all add: selector_args_def classify_words [OF plain] classify_after_end read_escaped)

lemma calls_value:
  assumes plain: "plain_lower lower" and "aliasValue spec"
  shows "calls lower spec False (L ''--value'' # L ''--'' # text # rest) =
    OptionCall ''--value'' \<lparr>oiName = L ''--value'', oiValue = Some text\<rparr> # calls lower spec False rest"
  using assms(2) by (simp add: classify_words [OF plain] read_escaped targets_def)

definition flag_calls :: "u32 \<Rightarrow> callback list" where
  "flag_calls f = (if bit f 0 then [FlagCall ''--json''] else []) @ (if bit f 1 then [FlagCall ''--raw''] else [])"

lemma calls_flags:
  assumes plain: "plain_lower lower"
  shows "calls lower spec False (flag_args f @ rest) = flag_calls f @ calls lower spec False rest"
  by (simp add: flag_args_def flag_calls_def classify_words [OF plain])

lemma run_calls_append:
  "run_calls spec (cs @ ds) st = (case run_calls spec cs st of Inl message \<Rightarrow> Inl message | Inr st' \<Rightarrow> run_calls spec ds st')"
  by (induction cs arbitrary: st) (auto split: sum.splits)

lemma flag_bit: "bit CommandFlagJson n \<longleftrightarrow> n = 0" "bit CommandFlagRaw n \<longleftrightarrow> n = 1"
proof -
  show "bit CommandFlagJson n \<longleftrightarrow> n = 0" by (auto simp: CommandFlagJson_def bit_1_iff)
  have "bit ((2 :: u32) ^ 1) n \<longleftrightarrow> n = 1" unfolding bit_exp_iff by auto
  then show "bit CommandFlagRaw n \<longleftrightarrow> n = 1" by (simp add: CommandFlagRaw_def)
qed

lemma known_flag_bits:
  assumes "flags_known f"
  shows "(if bit f 0 then CommandFlagJson else 0) OR (if bit f 1 then CommandFlagRaw else 0) = f"
proof (rule bit_eqI)
  fix n
  assume n: "possible_bit TYPE(u32) n"
  have "\<not> bit (f AND NOT (CommandFlagJson OR CommandFlagRaw)) n" using assms by (simp add: flags_known_def)
  then have "bit f n \<Longrightarrow> n = 0 \<or> n = 1"
    using n by (simp only: bit_and_iff bit_not_iff bit_or_iff flag_bit) blast
  then show "bit ((if bit f 0 then CommandFlagJson else 0) OR (if bit f 1 then CommandFlagRaw else 0)) n \<longleftrightarrow> bit f n"
    by (auto simp: flag_bit bit_or_iff)
qed

lemma run_flag_calls:
  assumes "flags_known f" and "Flags (psRequest st) = 0"
  shows "run_calls spec (flag_calls f) st = Inr (st\<lparr>psRequest := (psRequest st)\<lparr>Flags := f\<rparr>\<rparr>)"
  using known_flag_bits [OF assms(1)] assms(2)
  by (auto simp: flag_calls_def flag_callback_def split: if_splits)

subsection \<open>Round trip\<close>

lemma valid_request_fits:
  assumes "IsRequestValid r"
  shows "Command r \<noteq> CmdUnknown \<and> request_fits (find_kind (Command r)) r \<and> flags_known (Flags r)"
proof -
  have c: "Command r \<noteq> CmdUnknown" using assms by (auto simp: IsRequestValid_def split: if_splits)
  have "request_fits (find_kind (Command r)) r"
    using assms find_kind_spec [OF c]
    by (cases "Command r")
      (auto simp: IsRequestValid_def request_fits_def aliasValue_def targets_def relative_def split: if_splits)
  then show ?thesis using c assms by (auto simp: IsRequestValid_def split: if_splits)
qed

lemma run_selector:
  assumes "Target (psRequest st) = TargetNone" "psPositional st = None" "Payload (psRequest st) = []"
    and "targets spec"
    and "kind \<in> {TargetLast, TargetDefault} \<and> relative spec \<and> text = [] \<or>
         kind \<in> {TargetId, TargetName, TargetMac, TargetAuto, TargetAlias} \<and> text \<noteq> []"
  shows "\<exists>st'. run_calls spec (selector_calls kind text) st = Inr st' \<and> psAlias st' = psAlias st \<and>
    take_positional st' = (psRequest st)\<lparr>Target := kind, Payload := text\<rparr>"
  using assms
  by (cases kind; cases "text")
    (auto simp: flag_callback_def option_callback_def positional_callback_def select_def c_selectors_def take_positional_def)

lemma start_parsing_simps [simp]:
  "Command (psRequest (start_parsing spec)) = spKind spec" "Target (psRequest (start_parsing spec)) = TargetNone"
  "Flags (psRequest (start_parsing spec)) = 0" "Payload (psRequest (start_parsing spec)) = []"
  "RequestId (psRequest (start_parsing spec)) = \<lparr>High = 0, Low = 0\<rparr>"
  "psPositional (start_parsing spec) = None" "psAlias (start_parsing spec) = None"
  by (simp_all add: start_parsing_def EmptyRequest_def CommandFlagNone_def)

lemma finish_selected:
  assumes "targets spec" and "kind \<noteq> TargetNone" and "kind \<in> {TargetLast, TargetDefault} \<or> text \<noteq> []"
    and "take_positional st = r\<lparr>Target := kind, Payload := text\<rparr>"
  shows "finish_request spec st = append_alias spec (psAlias st) (r\<lparr>Target := kind, Payload := text\<rparr>)"
  using assms by (auto simp: finish_request_def choose_target_def check_target_def)

text \<open>The request that comes back has the empty identifier the parser gives it.\<close>

lemma request_parsed_back:
  assumes plain: "plain_lower lower" and valid: "IsRequestValid r"
  shows "(case run_calls (find_kind (Command r)) (calls lower (find_kind (Command r)) False
             (flag_args (Flags r) @ target_args r)) (start_parsing (find_kind (Command r))) of
            Inl message \<Rightarrow> Inl message | Inr st \<Rightarrow> finish_request (find_kind (Command r)) st) =
         Inr (r\<lparr>RequestId := \<lparr>High = 0, Low = 0\<rparr>\<rparr>)"
proof -
  let ?spec = "find_kind (Command r)"
  have fits: "request_fits ?spec r" and known: "flags_known (Flags r)" and c: "Command r \<noteq> CmdUnknown"
    using valid_request_fits [OF valid] by auto
  have kind: "spKind ?spec = Command r" using find_kind_spec [OF c] by simp
  let ?st = "start_parsing ?spec\<lparr>psRequest := (psRequest (start_parsing ?spec))\<lparr>Flags := Flags r\<rparr>\<rparr>"
  have flags: "run_calls ?spec (flag_calls (Flags r)) (start_parsing ?spec) = Inr ?st"
    by (rule run_flag_calls [OF known]) (simp add: start_parsing_def EmptyRequest_def CommandFlagNone_def)
  have st: "psRequest ?st = \<lparr>Command = Command r, Target = TargetNone, Flags = Flags r, Payload = [],
      RequestId = \<lparr>High = 0, Low = 0\<rparr>\<rparr>" "psPositional ?st = None" "psAlias ?st = None"
    by (simp_all add: start_parsing_def EmptyRequest_def kind)
  show ?thesis
  proof (cases "aliasValue ?spec")
    case True
    then have set: "Command r = CmdAliasSet" and t: "targets ?spec" using kind by (auto simp: aliasValue_def targets_def)
    have ok: "alias_set_ok r" using fits True by (simp add: request_fits_def)
    note split = alias_set_split [OF set ok]
    let ?text = "RequestTargetText r" and ?label = "RequestAlias r"
    have target: "Target r \<in> {TargetId, TargetName, TargetMac, TargetAuto, TargetAlias}"
      using ok by (auto simp: alias_set_ok_def isExplicitTarget_def)
    let ?named = "?st\<lparr>psAlias := Some ?label\<rparr>"
    have "\<exists>st'. run_calls ?spec (selector_calls (Target r) ?text) ?named = Inr st' \<and> psAlias st' = psAlias ?named \<and>
        take_positional st' = (psRequest ?named)\<lparr>Target := Target r, Payload := ?text\<rparr>"
      by (rule run_selector) (use t target split in simp_all)
    then obtain st' where st': "run_calls ?spec (selector_calls (Target r) ?text) ?named = Inr st'"
        "psAlias st' = Some ?label" "take_positional st' = (psRequest ?st)\<lparr>Target := Target r, Payload := ?text\<rparr>"
      by auto
    have "run_calls ?spec (OptionCall ''--value'' \<lparr>oiName = L ''--value'', oiValue = Some ?label\<rparr>
        # selector_calls (Target r) ?text) ?st = Inr st'"
      using st' st split by (simp add: option_callback_def)
    moreover have "calls lower ?spec False (flag_args (Flags r) @ target_args r) = flag_calls (Flags r) @
        OptionCall ''--value'' \<lparr>oiName = L ''--value'', oiValue = Some ?label\<rparr> # selector_calls (Target r) ?text"
    proof -
      have args: "target_args r = L ''--value'' # L ''--'' # ?label # selector_args (Target r) ?text"
        by (simp add: target_args_def set)
      have "calls lower ?spec False (selector_args (Target r) ?text) = selector_calls (Target r) ?text"
        by (rule calls_selector [OF plain]) (use t target in auto)
      then show ?thesis by (simp only: args calls_flags [OF plain] calls_value [OF plain True])
    qed
    moreover have "finish_request ?spec st' = Inr (r\<lparr>RequestId := \<lparr>High = 0, Low = 0\<rparr>\<rparr>)"
      using finish_selected [OF t _ _ st'(3)] target split True st
      by (cases ?label) (auto simp: append_alias_def st'(2))
    ultimately show ?thesis by (simp add: run_calls_append flags)
  next
    case False
    then have args: "target_args r = selector_args (Target r) (Payload r)"
      using kind by (simp add: target_args_def aliasValue_def)
    show ?thesis
    proof (cases "targets ?spec")
      case t: True
      have target: "Target r \<in> {TargetLast, TargetDefault} \<and> relative ?spec \<and> Payload r = [] \<or>
          Target r \<in> {TargetId, TargetName, TargetMac, TargetAuto, TargetAlias} \<and> Payload r \<noteq> []"
        using fits False t by (auto simp: request_fits_def hasExplicitTarget_def isExplicitTarget_def)
      have "\<exists>st'. run_calls ?spec (selector_calls (Target r) (Payload r)) ?st = Inr st' \<and> psAlias st' = psAlias ?st \<and>
          take_positional st' = (psRequest ?st)\<lparr>Target := Target r, Payload := Payload r\<rparr>"
        by (rule run_selector) (use t target in simp_all)
      then obtain st' where st': "run_calls ?spec (selector_calls (Target r) (Payload r)) ?st = Inr st'"
          "take_positional st' = (psRequest ?st)\<lparr>Target := Target r, Payload := Payload r\<rparr>"
        by auto
      moreover have "calls lower ?spec False (flag_args (Flags r) @ target_args r) =
          flag_calls (Flags r) @ selector_calls (Target r) (Payload r)"
        using calls_selector [OF plain, of "Target r" ?spec] t False by (simp add: calls_flags [OF plain] args)
      moreover have "finish_request ?spec st' = Inr (r\<lparr>RequestId := \<lparr>High = 0, Low = 0\<rparr>\<rparr>)"
        using finish_selected [OF t _ _ st'(2)] target False st by (auto simp: append_alias_def)
      ultimately show ?thesis by (simp add: run_calls_append flags)
    next
      case nt: False
      then have r: "Target r = TargetNone" "Payload r = []" using fits False by (auto simp: request_fits_def)
      have "calls lower ?spec False (flag_args (Flags r) @ target_args r) = flag_calls (Flags r)"
        using calls_flags [OF plain, of ?spec "Flags r" "[]"] by (simp add: args r selector_args_def)
      moreover have "finish_request ?spec ?st = Inr (r\<lparr>RequestId := \<lparr>High = 0, Low = 0\<rparr>\<rparr>)"
        using nt False r st
        by (simp add: finish_request_def take_positional_def choose_target_def check_target_def append_alias_def)
      ultimately show ?thesis by (simp add: flags)
    qed
  qed
qed

lemma parse_request_args:
  assumes plain: "plain_lower lower" and "accepting cli" and valid: "IsRequestValid r"
  shows "ParseCommandLine lower cli (request_args program r) =
    Some \<lparr>prSend = True, prRequest = r\<lparr>RequestId := \<lparr>High = 0, Low = 0\<rparr>\<rparr>, prExitCode = 0, prMessage = []\<rparr>"
proof -
  let ?spec = "find_kind (Command r)" and ?argv = "request_args program r"
  have spec: "?spec \<in> set c_commands" using valid_request_fits [OF valid] find_kind_spec by blast
  have words: "\<forall>s \<in> set c_commands. spName s \<notin> {''help'', ''--help'', ''-h''} \<and>
      (spSubcommand s = [] \<longleftrightarrow> spName s \<notin> {''default'', ''alias''})"
    by (simp add: c_commands_def command_spec_def)
  have says: "says lower (L (spName ?spec)) a \<longleftrightarrow> spName ?spec = a" if "a \<in> set literals" for a
    using says_word [OF plain _ that] command_words [OF spec] by blast
  have name: "?argv ! 1 = L (spName ?spec)" "1 < length ?argv"
    by (simp_all add: request_args_def spec_names_def)
  have sub: "?argv ! 2 = L (spSubcommand ?spec)" "2 < length ?argv" if "spSubcommand ?spec \<noteq> []"
    using that by (simp_all add: request_args_def spec_names_def)
  have "arguments ?spec ?argv = flag_args (Flags r) @ target_args r"
    by (simp add: arguments_def request_args_def spec_names_def)
  then have parsed: "ParseWithCli lower cli ?spec ?argv = Some (Inr (r\<lparr>RequestId := \<lparr>High = 0, Low = 0\<rparr>\<rparr>))"
    using ParseWithCli_accepting [OF assms(2)] request_parsed_back [OF plain valid] by simp
  have no_help: "\<not> says lower (?argv ! 1) ''help''" "\<not> says lower (?argv ! 1) ''--help''" "\<not> says lower (?argv ! 1) ''-h''"
    and family: "says lower (?argv ! 1) ''default'' \<or> says lower (?argv ! 1) ''alias'' \<longleftrightarrow> spSubcommand ?spec \<noteq> []"
    using words spec by (simp_all add: name says del: One_nat_def)
  have found: "find_spec lower (?argv ! 1) (if spSubcommand ?spec \<noteq> [] then ?argv ! 2 else []) = Some ?spec"
    using find_own_spec [OF plain spec] sub by (auto simp: name simp del: One_nat_def)
  show ?thesis
    using name(2) sub(2) found by (auto simp: ParseCommandLine_def Let_def no_help family parsed simp del: One_nat_def)
qed

subsection \<open>Properties\<close>

definition ascii_lower :: "wchar \<Rightarrow> wchar" where
  "ascii_lower c = (if 65 \<le> c \<and> c \<le> 90 then c + 32 else c)"

definition reads_all :: cli where "reads_all names tokens = Some tokens"

lemma ascii_plain: "plain_lower ascii_lower"
proof -
  have "ascii_lower c = 45 \<longleftrightarrow> c = 45" for c
    by (auto simp: ascii_lower_def word_le_nat_alt eq_diff_eq [symmetric])
  moreover have "\<forall>c \<in> set (L plain_chars). ascii_lower c = c" by code_simp
  ultimately show ?thesis by (simp add: plain_lower_def)
qed

lemma reads_all_ok: "accepting reads_all" "in_order reads_all"
  by (simp_all add: accepting_def in_order_def reads_all_def)

definition sample_line :: "wstring list" where
  "sample_line = [L ''apc2ctl'', L ''Alias'', L ''set'', L ''--name'', L ''Car'', L ''--JSON'', L ''My car'']"

definition sample_parsed :: ParseResult where
  "sample_parsed = \<lparr>prSend = True,
     prRequest = \<lparr>Command = CmdAliasSet, Target = TargetName, Flags = CommandFlagJson,
       Payload = L ''Car'' @ [NL] @ L ''My car'', RequestId = \<lparr>High = 0, Low = 0\<rparr>\<rparr>,
     prExitCode = 0, prMessage = []\<rparr>"

lemma sample_line_parsed: "ParseCommandLine ascii_lower reads_all sample_line = Some sample_parsed"
  by code_simp

text \<open>
  C26. Exactly when a request the parser sends is valid for the protocol once it has an identifier: when its text fits a
  frame and, for the command that sets an alias, the target and the alias value it was given are free of the line breaks
  that separate the two in the payload (a carriage return in the target does no harm). For every other command the
  parser alone makes sure of it: the target has the kind the command needs, a payload is there exactly when there must
  be one, and no unknown flag is set. Arguments are zero-terminated, so no argument holds the zero character.
\<close>

theorem cli_request_valid:
  assumes "in_order cli" and "ParseCommandLine lower cli argv = Some p" and "prSend p"
    and "\<forall>arg \<in> set argv. 0 \<notin> set arg" and "\<not> EmptyId i"
  shows "IsRequestValid ((prRequest p)\<lparr>RequestId := i\<rparr>) \<longleftrightarrow>
    length (Payload (prRequest p)) \<le> 32768 \<and>
    (Command (prRequest p) = CmdAliasSet \<longrightarrow>
       (\<exists>target label. Payload (prRequest p) = target @ NL # label \<and>
          NL \<notin> set target \<and> NL \<notin> set label \<and> CR \<notin> set label))"
proof -
  obtain spec where spec: "spec \<in> set c_commands"
    and cli: "ParseWithCli lower cli spec argv = Some (Inr (prRequest p))"
    by (rule ParseCommandLine_sends [OF assms(2,3)])
  obtain st where st: "finish_request spec st = Inr (prRequest p)" "parsing_inv spec (set argv) st"
    by (rule ParseWithCli_parsed [OF assms(1) cli])
  have "Command (prRequest p) = spKind spec" by (rule finish_request_command [OF st])
  then have "aliasValue spec \<longleftrightarrow> Command (prRequest p) = CmdAliasSet" by (simp add: aliasValue_def)
  moreover have "length (Payload (prRequest p)) \<le> 32768" if "IsRequestValid ((prRequest p)\<lparr>RequestId := i\<rparr>)"
    using that by (simp add: IsRequestValid_def c_maxPayloadBytes_def split: if_splits)
  ultimately show ?thesis
    using finish_request_valid [OF spec st(2,1) assms(4) _ _ assms(5)] valid_alias_payload [of i "prRequest p"]
    unfolding alias_payload_def by blast
qed

text \<open>A line whose alias value holds a line break.\<close>

definition broken_line :: "wstring list" where
  "broken_line = [L ''apc2ctl'', L ''alias'', L ''set'', L ''--name'', L ''Car'', L ''--value'', L ''My'' @ [NL] @ L ''car'']"

definition broken_parsed :: ParseResult where
  "broken_parsed = \<lparr>prSend = True,
     prRequest = \<lparr>Command = CmdAliasSet, Target = TargetName, Flags = CommandFlagNone,
       Payload = L ''Car'' @ [NL] @ L ''My'' @ [NL] @ L ''car'', RequestId = \<lparr>High = 0, Low = 0\<rparr>\<rparr>,
     prExitCode = 0, prMessage = []\<rparr>"

lemma broken_line_parsed: "ParseCommandLine ascii_lower reads_all broken_line = Some broken_parsed"
  by code_simp

theorem cli_request_valid_witness:
  "IsRequestValid ((prRequest sample_parsed)\<lparr>RequestId := \<lparr>High = 1, Low = 2\<rparr>\<rparr>) \<and> prSend sample_parsed \<and>
   prSend broken_parsed \<and> \<not> IsRequestValid ((prRequest broken_parsed)\<lparr>RequestId := \<lparr>High = 1, Low = 2\<rparr>\<rparr>)"
proof -
  have id: "\<not> EmptyId \<lparr>High = 1, Low = 2\<rparr>" by (simp add: EmptyId_def)
  have sent: "prSend sample_parsed" "prSend broken_parsed" by (simp_all add: sample_parsed_def broken_parsed_def)
  have args: "\<forall>arg \<in> set sample_line. 0 \<notin> set arg" "\<forall>arg \<in> set broken_line. 0 \<notin> set arg" by code_simp+
  have sizes: "length (Payload (prRequest sample_parsed)) \<le> 32768" by code_simp
  have "Payload (prRequest sample_parsed) = L ''Car'' @ NL # L ''My car''" "NL \<notin> set (L ''Car'')"
    "NL \<notin> set (L ''My car'')" "CR \<notin> set (L ''My car'')"
    by (simp_all add: sample_parsed_def L_def NL_def CR_def)
  then have "IsRequestValid ((prRequest sample_parsed)\<lparr>RequestId := \<lparr>High = 1, Low = 2\<rparr>\<rparr>)"
    using cli_request_valid [OF reads_all_ok(2) sample_line_parsed sent(1) args(1) id] sizes by blast
  moreover have "t @ NL # l \<noteq> Payload (prRequest broken_parsed)" if "NL \<notin> set t" "NL \<notin> set l" for t l
    using append_Cons_eq_iff [OF that, of "L ''Car''" "L ''My'' @ [NL] @ L ''car''"] that
    by (auto simp: broken_parsed_def)
  moreover have "Command (prRequest broken_parsed) = CmdAliasSet" by (simp add: broken_parsed_def)
  ultimately show ?thesis
    using cli_request_valid [OF reads_all_ok(2) broken_line_parsed sent(2) args(2) id] sent by metis
qed

text \<open>
  C28. The two readers of the command line agree. The program decides by itself, before and without parsing, whether
  an error is to be printed as JSON; whenever the parser accepts the line, that decision is the JSON flag of the request
  it sends, although one reader walks over the raw arguments and the other over the library's callbacks.
\<close>

theorem cli_json_agrees:
  assumes "plain_lower lower" and "in_order cli" and "ParseCommandLine lower cli argv = Some p" and "prSend p"
  shows "JsonRequested lower argv \<longleftrightarrow> Flags (prRequest p) AND CommandFlagJson \<noteq> 0"
  unfolding json_bit by (rule JsonRequested_parsed [OF assms])

theorem cli_json_agrees_witness: "JsonRequested ascii_lower sample_line"
  using cli_json_agrees [OF ascii_plain reads_all_ok(2) sample_line_parsed]
  by (simp add: sample_parsed_def CommandFlagJson_def)

text \<open>
  C27. Every valid request can be asked for on the command line: the line made of its command words, its flags, its
  alias value and its target, with every value behind \<open>--\<close>, is parsed to exactly this request (with the identifier the
  parser leaves empty), even when a value begins with a hyphen, is a word of the grammar or contains spaces.
\<close>

theorem cli_roundtrip:
  assumes "plain_lower lower" and "accepting cli" and "IsRequestValid r"
  shows "ParseCommandLine lower cli (request_args program r) =
    Some \<lparr>prSend = True, prRequest = r\<lparr>RequestId := \<lparr>High = 0, Low = 0\<rparr>\<rparr>, prExitCode = 0, prMessage = []\<rparr>"
  by (rule parse_request_args [OF assms])

theorem cli_roundtrip_witness:
  "ParseCommandLine ascii_lower reads_all (request_args (L ''apc2ctl'') sample_alias_request) =
     Some \<lparr>prSend = True, prRequest = sample_alias_request\<lparr>RequestId := \<lparr>High = 0, Low = 0\<rparr>\<rparr>, prExitCode = 0, prMessage = []\<rparr>"
proof (rule cli_roundtrip [OF ascii_plain reads_all_ok(1)])
  show "IsRequestValid sample_alias_request" by code_simp
qed

end
