(* ===== verification/Client_Claims.thy ===== *)
theory Client_Claims
  imports Command_Client Cli_Claims "HOL-Library.Sublist"
begin

section \<open>What the client guarantees\<close>

text \<open>
  The client talks to a \<open>Transport\<close>; the locale \<open>transport_law\<close> is what it may rely on: an attempt talks to at most one
  server, to the expected one if there is one, and says so by its result. From that follows, once for every transport,
  that a request is only ever sent to one server and that an answer that counts is an answer to it. The interpretation
  \<open>win32\<close> proves the laws for the transport over named pipes.
\<close>

subsection \<open>The transport\<close>

text \<open>What an attempt may add to the history: nothing, or one conversation with the server it reports.\<close>

fun attempt_law ::
  "('e \<Rightarrow> 'server) \<Rightarrow> (Request \<Rightarrow> 'e \<Rightarrow> bool) \<Rightarrow> (Request \<Rightarrow> Response \<Rightarrow> 'e \<Rightarrow> bool) \<Rightarrow> Request \<Rightarrow> 'server option
     \<Rightarrow> AttemptResult \<Rightarrow> Response \<Rightarrow> 'server option \<Rightarrow> 'e list \<Rightarrow> bool" where
  "attempt_law who carries answered request expected result response server [] \<longleftrightarrow>
     result \<notin> {AttIndeterminate, AttComplete}"
| "attempt_law who carries answered request expected result response server [x] \<longleftrightarrow>
     result \<in> {AttIndeterminate, AttComplete} \<and> server = Some (who x) \<and> (\<forall>e. expected = Some e \<longrightarrow> who x = e) \<and>
     carries request x \<and> (result = AttComplete \<longrightarrow> answered request response x)"
| "attempt_law who carries answered request expected result response server _ \<longleftrightarrow> False"

lemma attempt_law_cases:
  assumes "attempt_law who carries answered request expected result response server xs"
  obtains "xs = []" "result \<notin> {AttIndeterminate, AttComplete}"
  | x where "xs = [x]" "result \<in> {AttIndeterminate, AttComplete}" "server = Some (who x)"
      "\<forall>e. expected = Some e \<longrightarrow> who x = e" "carries request x" "result = AttComplete \<longrightarrow> answered request response x"
  using assms by (cases xs rule: list.exhaust [case_names Nil Cons]; cases "tl xs") auto

locale transport_law =
  fixes t :: "('server, 's) transport"
    and history :: "'s \<Rightarrow> 'e list" and who :: "'e \<Rightarrow> 'server" and launched :: "'s \<Rightarrow> nat"
    and carries :: "Request \<Rightarrow> 'e \<Rightarrow> bool" and answered :: "Request \<Rightarrow> Response \<Rightarrow> 'e \<Rightarrow> bool"
  assumes send: "tSend t request response waitMs deadline observed expected s = Some (result, response', server, s') \<Longrightarrow>
      \<exists>xs. history s' = history s @ xs \<and> launched s' = launched s \<and>
        attempt_law who carries answered request expected result response' server xs"
    and launch: "tLaunch t s = (b, s') \<Longrightarrow> history s' = history s \<and> launched s' \<le> Suc (launched s)"
    and time: "tTime t s = (time, s') \<Longrightarrow> history s' = history s \<and> launched s' = launched s"
begin

lemma replay_attempts_law:
  "replay_attempts t request response server deadline n s = Some (result, response', s') \<Longrightarrow>
   \<exists>xs. history s' = history s @ xs \<and> launched s' = launched s \<and> length xs \<le> n \<and>
     (\<forall>x \<in> set xs. who x = server \<and> carries request x) \<and> result \<in> {SendComplete, SendIndeterminate} \<and>
     (result = SendComplete \<longrightarrow> xs \<noteq> [] \<and> answered request response' (last xs))"
proof (induction n arbitrary: response s)
  case (Suc n)
  obtain now s1 where now: "tTime t s = (now, s1)" by fastforce
  note same = time [OF now]
  show ?case
  proof (cases "RemainingWait now deadline = 0")
    case True
    then show ?thesis using Suc.prems same by (simp add: now)
  next
    case False
    then obtain r response1 ignored s2 where
        sent: "tSend t request response 2000 deadline None (Some server) s1 = Some (r, response1, ignored, s2)"
      and rest: "(if r = AttComplete then Some (SendComplete, response1, s2)
          else if r = AttServerChanged \<or> r = AttRejected then Some (SendIndeterminate, response1, s2)
          else replay_attempts t request response1 server deadline n s2) = Some (result, response', s')"
      using Suc.prems by (auto simp: now bind_eq_Some_conv)
    obtain xs where xs: "history s2 = history s1 @ xs" "launched s2 = launched s1"
      and law: "attempt_law who carries answered request (Some server) r response1 ignored xs"
      using send [OF sent] by blast
    have one: "length xs \<le> 1" "\<forall>x \<in> set xs. who x = server \<and> carries request x"
        "r = AttComplete \<Longrightarrow> xs \<noteq> [] \<and> answered request response1 (last xs)"
      by (cases rule: attempt_law_cases [OF law]; simp)+
    show ?thesis
    proof (cases "r = AttComplete \<or> r = AttServerChanged \<or> r = AttRejected")
      case True
      then show ?thesis using rest xs same one by (auto split: if_splits)
    next
      case False
      then have "replay_attempts t request response1 server deadline n s2 = Some (result, response', s')"
        using rest by simp
      from Suc.IH [OF this] obtain ys where ys: "history s' = history s2 @ ys" "launched s' = launched s2" "length ys \<le> n"
          "\<forall>x \<in> set ys. who x = server \<and> carries request x" "result \<in> {SendComplete, SendIndeterminate}"
          "result = SendComplete \<longrightarrow> ys \<noteq> [] \<and> answered request response' (last ys)"
        by blast
      show ?thesis by (rule exI [of _ "xs @ ys"]) (use xs same one ys in auto)
    qed
  qed
qed simp

text \<open>\<open>xs\<close>: the conversations; they are all with one server, which got this request in each of them.\<close>

definition one_server :: "Request \<Rightarrow> SendResult \<Rightarrow> Response \<Rightarrow> 'e list \<Rightarrow> bool" where
  "one_server request result response xs \<longleftrightarrow> length xs \<le> 3 \<and> (\<forall>x \<in> set xs. who x = who (hd xs) \<and> carries request x) \<and>
     (result \<in> {SendInvalidRequest, SendUnavailable} \<longleftrightarrow> xs = []) \<and>
     (result = SendComplete \<longrightarrow> answered request response (last xs))"

lemma attempt_then_replay:
  assumes sent: "tSend t request response waitMs deadline None None s = Some (r, response1, server, s1)"
    and "r \<in> {AttComplete, AttIndeterminate}"
    and rest: "(if r = AttComplete then Some (SendComplete, response1, s1)
      else ReplayIndeterminate t request response1 server deadline s1) = Some (result, response', s')"
  shows "\<exists>xs. history s' = history s @ xs \<and> launched s' = launched s \<and> one_server request result response' xs"
proof -
  obtain xs where xs: "history s1 = history s @ xs" "launched s1 = launched s"
    and law: "attempt_law who carries answered request None r response1 server xs"
    using send [OF sent] by blast
  then obtain x where x: "xs = [x]" "server = Some (who x)" "carries request x"
      "r = AttComplete \<longrightarrow> answered request response1 x"
    using assms(2) by (cases rule: attempt_law_cases [OF law]) auto
  show ?thesis
  proof (cases "r = AttComplete")
    case True
    then show ?thesis using rest xs x by (intro exI [of _ xs]) (auto simp: one_server_def)
  next
    case False
    then have "replay_attempts t request response1 (who x) deadline 2 s1 = Some (result, response', s')"
      using rest x by (simp add: ReplayIndeterminate_def c_maxReplayAttempts_def)
    from replay_attempts_law [OF this] obtain ys where "history s' = history s1 @ ys" "launched s' = launched s1"
        "length ys \<le> 2" "\<forall>y \<in> set ys. who y = who x \<and> carries request y" "result \<in> {SendComplete, SendIndeterminate}"
        "result = SendComplete \<longrightarrow> ys \<noteq> [] \<and> answered request response' (last ys)"
      by blast
    then show ?thesis using xs x by (intro exI [of _ "x # ys"]) (auto simp: one_server_def)
  qed
qed

lemma attempt_failed:
  assumes "tSend t request response waitMs deadline None None s = Some (r, response1, server, s1)"
    and "r \<notin> {AttComplete, AttIndeterminate}"
  shows "history s1 = history s \<and> launched s1 = launched s"
  using send [OF assms(1)] assms(2) by (auto elim: attempt_law_cases)

lemma one_server_none: "result \<in> {SendInvalidRequest, SendUnavailable} \<Longrightarrow> one_server request result response []"
  by (auto simp: one_server_def)

lemma SendRequest_one_server:
  assumes "SendRequest t request response initialWaitMs launchWaitMs overallTimeoutMs s = Some (result, response', s')"
  shows "\<exists>xs. history s' = history s @ xs \<and> launched s' \<le> Suc (launched s) \<and>
    (Command request = CmdStatus \<longrightarrow> launched s' = launched s) \<and> one_server request result response' xs"
proof (cases "IsRequestValid request")
  case False
  then show ?thesis using assms one_server_none by (auto simp: SendRequest_def)
next
  case True
  obtain now s0 where now: "tTime t s = (now, s0)" by fastforce
  note s0 = time [OF now]
  define deadline where "deadline = DeadlineAfter now (max 1 overallTimeoutMs)"
  obtain r response1 server s1 where
      sent: "tSend t request response initialWaitMs deadline None None s0 = Some (r, response1, server, s1)"
    using assms True by (auto simp: SendRequest_def now Let_def deadline_def [symmetric] bind_eq_Some_conv)
  show ?thesis
  proof (cases "r \<in> {AttComplete, AttIndeterminate}")
    case ok: True
    then show ?thesis
      using attempt_then_replay [OF sent ok, of result response' s'] assms True sent s0
      by (auto simp: SendRequest_def now Let_def deadline_def [symmetric] split: if_splits)
  next
    case failed: False
    note s1 = attempt_failed [OF sent failed]
    show ?thesis
    proof (cases "result = SendUnavailable \<and> history s' = history s \<and> launched s' \<le> Suc (launched s) \<and>
        (Command request = CmdStatus \<longrightarrow> launched s' = launched s)")
      case True
      then show ?thesis using one_server_none by auto
    next
      case further: False
      obtain now' s2 b s3 where now': "tTime t s1 = (now', s2)" and b: "tLaunch t s2 = (b, s3)" by fastforce
      have "Command request \<noteq> CmdStatus" and rest: "send_launched t request response1 launchWaitMs deadline s3 = Some (result, response', s')"
        using assms True sent failed further s0 s1 time [OF now'] launch [OF b]
        by (auto simp: SendRequest_def now now' b Let_def deadline_def [symmetric] split: if_splits)
      obtain r' response2 server' s4 where
          sent': "tSend t request response1 launchWaitMs deadline None None s3 = Some (r', response2, server', s4)"
        using rest by (auto simp: send_launched_def bind_eq_Some_conv)
      have s3: "history s3 = history s" "launched s3 \<le> Suc (launched s)"
        using s0 s1 time [OF now'] launch [OF b] by auto
      show ?thesis
      proof (cases "r' \<in> {AttComplete, AttIndeterminate}")
        case ok: True
        then show ?thesis
          using attempt_then_replay [OF sent' ok, of result response' s'] rest sent' s3 \<open>Command request \<noteq> CmdStatus\<close>
          by (auto simp: send_launched_def split: if_splits)
      next
        case False
        then show ?thesis
          using attempt_failed [OF sent' False] rest sent' s3 \<open>Command request \<noteq> CmdStatus\<close> one_server_none
          by (auto simp: send_launched_def split: if_splits)
      qed
    qed
  qed
qed

end

subsection \<open>The transport over named pipes\<close>

text \<open>What a conversation about a request may have written: a prefix of the request and its acknowledgement.\<close>

definition acknowledgement_wire :: "CorrelationId \<Rightarrow> byte list" where
  "acknowledgement_wire i = acknowledgement_image
     \<lparr>akMagic = c_acknowledgementMagic, akVersion = c_protocolVersion, akCorrelationHigh = High i, akCorrelationLow = Low i\<rparr>"

definition carries_request :: "Request \<Rightarrow> Win32ServerIdentity \<times> pipe \<Rightarrow> bool" where
  "carries_request request e \<longleftrightarrow> prefix (outgoing (snd e)) (request_wire request @ acknowledgement_wire (RequestId request))"

definition answers_request :: "Request \<Rightarrow> Response \<Rightarrow> Win32ServerIdentity \<times> pipe \<Rightarrow> bool" where
  "answers_request request response e \<longleftrightarrow>
     ResponseId response = RequestId request \<and> prefix (request_wire request) (outgoing (snd e))"

lemma WriteExact_prefix:
  assumes "WriteExact c n buffer p = (status, p')" "length buffer = unat n"
  shows "\<exists>j. outgoing p' = outgoing p @ take j buffer"
  using assms
  by (auto simp: WriteExact_def TransferExact_def split: prod.splits if_splits intro: exI [of _ 0] exI [of _ "length buffer"] dest!: transfer_write)

lemma ReadExact_outgoing:
  "ReadExact c n (zero_bytes n) p = (status, bytes, p') \<Longrightarrow> outgoing p' = outgoing p"
  by (auto simp: ReadExact_def TransferExact_def zero_bytes_def split: if_splits dest!: transfer_read)

lemma ReadResponse_outgoing: "ReadResponse c r p = (status, r', p') \<Longrightarrow> outgoing p' = outgoing p"
  by (auto simp: ReadResponse_def ReadPayload_def Let_def dest!: ReadExact_outgoing split: prod.splits if_splits)

lemma WriteRequest_prefix:
  assumes "WriteRequest c r p = (status, p')"
  shows "\<exists>j. outgoing p' = outgoing p @ take j (request_wire r)"
proof (cases "IsRequestValid r")
  case False
  then show ?thesis using assms by (auto simp: WriteRequest_def split: option.splits intro: exI [of _ 0])
next
  case True
  let ?header = "request_image (request_header_of r (byte_count (Payload r)))"
  note size = unat_byte_count [OF valid_request_bounded [OF True]]
  have len: "length ?header = 40" by (simp add: request_codec.image_size)
  obtain status1 p1 where first: "WriteExact c 40 ?header p = (status1, p1)" by fastforce
  then obtain j where j: "outgoing p1 = outgoing p @ take j ?header" using WriteExact_prefix len by fastforce
  have wire: "request_wire r = ?header @ wide_image (Payload r)" by (simp add: request_wire_def)
  show ?thesis
  proof (cases "status1 \<noteq> IoSuccess \<or> byte_count (Payload r) = 0")
    case True
    then have "p' = p1" using assms first \<open>IsRequestValid r\<close> by (simp add: WriteRequest_def valid_request_header)
    then show ?thesis using j by (intro exI [of _ "min j 40"]) (simp add: wire len min_def)
  next
    case False
    then have full: "outgoing p1 = outgoing p @ ?header" using WriteExact_sound(2) [OF first] len by simp
    have "WriteExact c (byte_count (Payload r)) (wide_image (Payload r)) p1 = (status, p')"
      using assms first False \<open>IsRequestValid r\<close> by (simp add: WriteRequest_def valid_request_header)
    from WriteExact_prefix [OF this] obtain k where "outgoing p' = outgoing p1 @ take k (wide_image (Payload r))"
      using size by auto
    then show ?thesis using full by (intro exI [of _ "40 + k"]) (simp add: wire len)
  qed
qed

lemma WriteAcknowledgement_prefix:
  "\<exists>j. outgoing (snd (WriteAcknowledgement c i p)) = outgoing p @ take j (acknowledgement_wire i)"
proof (cases "EmptyId i")
  case False
  obtain status p' where "WriteExact c 24 (acknowledgement_wire i) p = (status, p')" by fastforce
  moreover from WriteExact_prefix [OF this] have "\<exists>j. outgoing p' = outgoing p @ take j (acknowledgement_wire i)"
    by (simp add: acknowledgement_wire_def acknowledgement_codec.image_size)
  ultimately show ?thesis using False by (simp add: WriteAcknowledgement_def acknowledgement_wire_def)
qed (auto simp: WriteAcknowledgement_def intro: exI [of _ 0])

lemma exchange_law:
  assumes "exchange ep deadline request response = (result, response', p)"
  shows "result \<in> {AttIndeterminate, AttComplete}" "carries_request request (i, p)"
    "result = AttComplete \<Longrightarrow> answers_request request response' (i, p)"
proof -
  let ?c = "\<lparr>ctx_os = epOs ep, ctx_events = epEvents ep, ctx_stopEvent = False, ctx_deadline = deadline\<rparr>"
  obtain status1 p1 where wrote: "WriteRequest ?c request \<lparr>incoming = epIncoming ep, outgoing = [], attempts = 0\<rparr> = (status1, p1)"
    by fastforce
  obtain status2 r2 p2 where read: "ReadResponse ?c response p1 = (status2, r2, p2)" by (cases "ReadResponse ?c response p1") auto
  obtain j where j: "outgoing p1 = take j (request_wire request)" using WriteRequest_prefix [OF wrote] by auto
  have p2: "outgoing p2 = outgoing p1" by (rule ReadResponse_outgoing [OF read])
  have cases: "status1 \<noteq> IoSuccess \<and> result = AttIndeterminate \<and> p = p1 \<or>
      status1 = IoSuccess \<and> result = AttIndeterminate \<and> p = p2 \<or>
      status1 = IoSuccess \<and> result = AttComplete \<and> ResponseId response' = RequestId request \<and>
        p = snd (WriteAcknowledgement ?c (RequestId request) p2)"
    using assms by (auto simp: exchange_def Let_def wrote read split: if_splits)
  have whole: "status1 = IoSuccess \<Longrightarrow> outgoing p1 = request_wire request" using WriteRequest_sound [of ?c] wrote by auto
  show "result \<in> {AttIndeterminate, AttComplete}" using cases by auto
  obtain k where k: "outgoing (snd (WriteAcknowledgement ?c (RequestId request) p2)) =
      outgoing p2 @ take k (acknowledgement_wire (RequestId request))"
    using WriteAcknowledgement_prefix by blast
  show "carries_request request (i, p)"
    using cases j p2 whole k by (auto simp: carries_request_def take_is_prefix intro: prefix_prefix)
  show "result = AttComplete \<Longrightarrow> answers_request request response' (i, p)"
    using cases p2 whole k by (auto simp: answers_request_def)
qed

text \<open>What one endpoint, and then all of them, add to the history.\<close>

definition added :: "client_world \<Rightarrow> client_world \<Rightarrow> (Win32ServerIdentity \<times> pipe) list \<Rightarrow> bool" where
  "added w w' xs \<longleftrightarrow> cwExchanges w' = cwExchanges w @ xs \<and> cwLaunches w' = cwLaunches w"

abbreviation win32_law where "win32_law \<equiv> attempt_law fst carries_request answers_request"

definition endpoint_law ::
  "Request \<Rightarrow> Win32ServerIdentity option \<Rightarrow> client_world \<Rightarrow> (AttemptResult \<times> Response) option \<times> search \<times> client_world \<Rightarrow> bool" where
  "endpoint_law request expected w outcome \<longleftrightarrow>
     (case outcome of
        (None, s', w') \<Rightarrow> added w w' [] \<and> cwCounter w \<le> cwCounter w'
      | (Some (result, response'), s', w') \<Rightarrow>
          \<exists>xs. added w w' xs \<and> win32_law request expected result response' (seObserved s') xs)"

lemma asked_simps [simp]:
  "cwExchanges (asked w) = cwExchanges w" "cwLaunches (asked w) = cwLaunches w" "cwCounter (asked w) = Suc (cwCounter w)"
  by (simp_all add: asked_def)

lemma try_endpoint_law: "endpoint_law request expected w (try_endpoint sys name request response deadline expected k s w)"
proof (cases "opens sys (cwCounter w) (PipeInstanceName name k)")
  case (OpenFailed e)
  then show ?thesis by (simp add: try_endpoint_def endpoint_law_def added_def)
next
  case (Opened ep)
  show ?thesis
  proof (cases "CaptureServerIdentity (epPeer ep)")
    case None
    then show ?thesis using Opened by (simp add: try_endpoint_def endpoint_law_def added_def)
  next
    case (Some current)
    define exchangeDeadline where "exchangeDeadline = min (DeadlineAfter (now sys (asked w)) c_pipeExchangeTimeoutMs) deadline"
    obtain result response' p where x: "exchange ep exchangeDeadline request response = (result, response', p)"
      by (cases "exchange ep exchangeDeadline request response") auto
    note law = exchange_law(1) [OF x] exchange_law(2,3) [OF x, of current]
    show ?thesis
      using Opened Some law x
      by (auto simp: try_endpoint_def endpoint_law_def added_def Let_def exchangeDeadline_def [symmetric] IsSameLiveServer_def
          intro!: exI [of _ "[(current, p)]"] intro: exI [of _ "[]"] split: option.split)
  qed
qed

lemma try_endpoints_law:
  "endpoint_law request expected w (try_endpoints sys name request response deadline expected ks s w)"
proof (induction ks arbitrary: s w)
  case Nil
  then show ?case by (simp add: endpoint_law_def added_def)
next
  case (Cons k ks)
  obtain r s' w' where first: "try_endpoint sys name request response deadline expected k s w = (r, s', w')"
    by (cases "try_endpoint sys name request response deadline expected k s w") auto
  note law = try_endpoint_law [where sys = sys and k = k and s = s and w = w and request = request and expected = expected and name = name
      and response = response and deadline = deadline, unfolded first]
  show ?case
  proof (cases r)
    case (Some a)
    then show ?thesis using law first by (auto simp: endpoint_law_def)
  next
    case None
    then have "added w w' []" "cwCounter w \<le> cwCounter w'" using law by (auto simp: endpoint_law_def)
    then show ?thesis using Cons.IH [of w' s'] first None
      by (auto simp: endpoint_law_def added_def split: option.splits prod.splits)
  qed
qed

lemma await_retry_law:
  "await_retry sys deadline s w = (r, s', w') \<Longrightarrow>
     added w w' [] \<and> (\<forall>result. r = Some result \<longrightarrow> result \<notin> {AttIndeterminate, AttComplete}) \<and> cwCounter w < cwCounter w'"
  by (auto simp: await_retry_def added_def give_up_def Let_def split: if_splits wake.splits)

definition outcome_law :: "Request \<Rightarrow> Win32ServerIdentity option \<Rightarrow> client_world \<Rightarrow> attempt_outcome \<Rightarrow> bool" where
  "outcome_law request expected w outcome \<longleftrightarrow>
     (case outcome of (result, response', server, w') \<Rightarrow>
        \<exists>xs. added w w' xs \<and> win32_law request expected result response' server xs)"

lemma added_trans: "added w w1 [] \<Longrightarrow> added w1 w2 xs \<Longrightarrow> added w w2 xs"
  by (simp add: added_def)

lemma try_loop_law:
  assumes "try_loop sys name request response connectionDeadline overallDeadline expected s w = Some outcome"
  shows "outcome_law request expected w outcome"
  using assms
proof (rule try_loop.raw_induct
    [where P = "\<lambda>sys name request response connectionDeadline overallDeadline expected s w outcome.
       outcome_law request expected w outcome", rotated])
  fix loop sys name request response connectionDeadline overallDeadline expected s w outcome
  assume IH: "\<And>sys name request response connectionDeadline overallDeadline expected s w outcome.
      loop sys name request response connectionDeadline overallDeadline expected s w = Some outcome \<Longrightarrow>
      outcome_law request expected w outcome"
    and body: "(case try_endpoints sys name request response overallDeadline expected (instance_order request) s w of
        (None, s', w') \<Rightarrow>
          (case await_retry sys connectionDeadline s' w' of
             (None, s'', w'') \<Rightarrow> loop sys name request response connectionDeadline overallDeadline expected s'' w''
           | (Some result, s'', w'') \<Rightarrow> Some (result, response, seObserved s'', w''))
      | (Some (result, response'), s', w') \<Rightarrow> Some (result, response', seObserved s', w')) = Some outcome"
  obtain r s1 w1 where pass: "try_endpoints sys name request response overallDeadline expected (instance_order request) s w = (r, s1, w1)"
    by (cases "try_endpoints sys name request response overallDeadline expected (instance_order request) s w") auto
  note law = try_endpoints_law [where sys = sys and ks = "instance_order request" and s = s and w = w and request = request
      and expected = expected and name = name and response = response and deadline = overallDeadline, unfolded pass]
  show "outcome_law request expected w outcome"
  proof (cases r)
    case (Some a)
    then show ?thesis using body law by (auto simp: pass endpoint_law_def outcome_law_def)
  next
    case None
    then have w1: "added w w1 []" using law by (simp add: endpoint_law_def)
    obtain r2 s2 w2 where wait: "await_retry sys connectionDeadline s1 w1 = (r2, s2, w2)"
      by (cases "await_retry sys connectionDeadline s1 w1") auto
    note w2 = await_retry_law [OF wait]
    show ?thesis
    proof (cases r2)
      case (Some result)
      then show ?thesis using body None w1 w2
        by (auto simp: pass wait outcome_law_def intro!: exI [of _ "[]"] intro: added_trans)
    next
      case no: None
      then have "outcome_law request expected w2 outcome"
        using body None by (intro IH) (auto simp: pass wait)
      then show ?thesis using w1 w2 by (auto simp: outcome_law_def added_def)
    qed
  qed
qed

interpretation win32: transport_law "win32_transport sys pipeName" cwExchanges fst cwLaunches carries_request answers_request
  for sys pipeName
proof
  fix request response waitMs deadline observed expected w result response' server w'
  assume "tSend (win32_transport sys pipeName) request response waitMs deadline observed expected w = Some (result, response', server, w')"
  then show "\<exists>xs. cwExchanges w' = cwExchanges w @ xs \<and> cwLaunches w' = cwLaunches w \<and>
      win32_law request expected result response' server xs"
    by (cases pipeName)
      (auto simp: win32_transport_def TrySendOnce_def outcome_law_def added_def dest!: try_loop_law intro: exI [of _ "[]"])
next
  fix w b w'
  assume "tLaunch (win32_transport sys pipeName) w = (b, w')"
  then show "cwExchanges w' = cwExchanges w \<and> cwLaunches w' \<le> Suc (cwLaunches w)"
    by (auto simp: win32_transport_def LaunchPackagedApp_def split: option.splits)
next
  fix w time w'
  assume "tTime (win32_transport sys pipeName) w = (time, w')"
  then show "cwExchanges w' = cwExchanges w \<and> cwLaunches w' = cwLaunches w"
    by (auto simp: win32_transport_def)
qed

subsection \<open>Attempts end\<close>

lemma RemainingWait_zero: "deadline \<noteq> 0 \<Longrightarrow> deadline \<le> time \<Longrightarrow> RemainingWait time deadline = 0"
  by (simp add: RemainingWait_def)

lemma await_retry_expired:
  "deadline \<noteq> 0 \<Longrightarrow> deadline \<le> now sys w \<Longrightarrow> await_retry sys deadline s w = (Some (give_up s), s, asked w)"
  by (simp add: await_retry_def RemainingWait_zero)

lemma try_loop_returns:
  assumes "connectionDeadline \<noteq> 0" and late: "\<forall>n \<ge> N. connectionDeadline \<le> clock sys n"
  shows "try_loop sys name request response connectionDeadline overallDeadline expected s w \<noteq> None"
proof (induction "N - cwCounter w" arbitrary: s w rule: less_induct)
  case less
  obtain r s1 w1 where pass: "try_endpoints sys name request response overallDeadline expected (instance_order request) s w = (r, s1, w1)"
    by (cases "try_endpoints sys name request response overallDeadline expected (instance_order request) s w") auto
  obtain r2 s2 w2 where wait: "await_retry sys connectionDeadline s1 w1 = (r2, s2, w2)"
    by (cases "await_retry sys connectionDeadline s1 w1") auto
  show ?case
  proof (cases "r = None \<and> r2 = None")
    case False
    then show ?thesis
      by (subst try_loop.simps) (auto simp: pass wait split: option.split)
  next
    case True
    then have "cwCounter w \<le> cwCounter w1"
      using try_endpoints_law [where sys = sys and ks = "instance_order request" and s = s and w = w and request = request
        and expected = expected and name = name and response = response and deadline = overallDeadline, unfolded pass]
      by (simp add: endpoint_law_def)
    moreover have "cwCounter w1 < cwCounter w2" using await_retry_law [OF wait] by simp
    moreover have "\<not> N \<le> cwCounter w1"
      using True wait late await_retry_expired [OF assms(1)] by (auto simp: now_def)
    ultimately have "try_loop sys name request response connectionDeadline overallDeadline expected s2 w2 \<noteq> None"
      by (intro less.hyps) simp
    then show ?thesis using True by (subst try_loop.simps) (simp add: pass wait)
  qed
qed

lemma deadline_after_nonzero: "0 < time \<Longrightarrow> time < 2 ^ 63 \<Longrightarrow> DeadlineAfter time waitMs \<noteq> 0" for time :: u64
proof -
  assume "0 < time" "time < 2 ^ 63"
  then have "0 < unat time" "unat time < 2 ^ 63" by (simp_all add: word_less_nat_alt)
  moreover have "unat (ucast waitMs :: u64) < 2 ^ 32"
    using unsigned_less [of waitMs, where ?'a = nat] by (auto simp: unsigned_ucast_eq intro: le_less_trans [OF take_bit_nat_less_eq_self])
  ultimately have "unat (time + ucast waitMs) = unat time + unat (ucast waitMs :: u64)"
    by (intro unat_add_lem [THEN iffD1]) simp
  then show "DeadlineAfter time waitMs \<noteq> 0" using \<open>0 < unat time\<close> by (auto simp: DeadlineAfter_def)
qed

definition sane_clock :: "system \<Rightarrow> bool" where
  "sane_clock sys \<longleftrightarrow> (\<forall>n. 0 < clock sys n \<and> clock sys n < 2 ^ 63)"

lemma TrySendOnce_returns:
  assumes "sane_clock sys" and "deadline \<noteq> 0" and "\<forall>n \<ge> N. deadline \<le> clock sys n"
  shows "\<exists>result. TrySendOnce sys pipeName request response waitMs deadline observed expected w = Some result"
proof (cases pipeName)
  case (Some name)
  let ?d = "min (DeadlineAfter (now sys w) waitMs) deadline"
  have "DeadlineAfter (now sys w) waitMs \<noteq> 0"
    using assms(1) by (intro deadline_after_nonzero) (auto simp: sane_clock_def now_def)
  then have "?d \<noteq> 0" using assms(2) by (simp add: min_def)
  moreover have "\<forall>n \<ge> N. ?d \<le> clock sys n" using assms(3) by (auto simp: min_le_iff_disj)
  ultimately show ?thesis using try_loop_returns [of ?d N sys] Some by (simp add: TrySendOnce_def)
qed (simp add: TrySendOnce_def)

lemma replay_returns:
  assumes "\<And>request response waitMs observed expected s. \<exists>result. tSend t request response waitMs deadline observed expected s = Some result"
  shows "\<exists>result. replay_attempts t request response server deadline n s = Some result"
proof (induction n arbitrary: response s)
  case (Suc n)
  obtain time s1 where time: "tTime t s = (time, s1)" by fastforce
  obtain r response1 ignored s2 where "tSend t request response 2000 deadline None (Some server) s1 = Some (r, response1, ignored, s2)"
    using assms [of request response 2000 None "Some server" s1] by auto
  then show ?case using Suc.IH by (simp add: time)
qed simp

lemma ReplayIndeterminate_returns:
  assumes "\<And>request response waitMs observed expected s. \<exists>result. tSend t request response waitMs deadline observed expected s = Some result"
  shows "\<exists>result. ReplayIndeterminate t request response server deadline s = Some result"
  using replay_returns [OF assms] by (cases server) (simp_all add: ReplayIndeterminate_def)

lemma SendRequest_returns:
  assumes sends: "\<And>request response waitMs observed expected s'.
      \<exists>result. tSend t request response waitMs (DeadlineAfter (fst (tTime t s)) (max 1 overallTimeoutMs)) observed expected s' = Some result"
  shows "\<exists>result. SendRequest t request response initialWaitMs launchWaitMs overallTimeoutMs s = Some result"
proof -
  obtain time s0 where time: "tTime t s = (time, s0)" by fastforce
  define deadline where "deadline = DeadlineAfter time (max 1 overallTimeoutMs)"
  have sends: "\<exists>result. tSend t request response waitMs deadline observed expected s' = Some result"
    for request response waitMs observed expected s'
    using sends by (simp add: time deadline_def)
  note replays = ReplayIndeterminate_returns [of t deadline, OF sends]
  obtain r response1 server s1 where "tSend t request response initialWaitMs deadline None None s0 = Some (r, response1, server, s1)"
    using sends [of request response initialWaitMs None None s0] by auto
  moreover obtain time' s2 b s3 where "tTime t s1 = (time', s2)" "tLaunch t s2 = (b, s3)" by fastforce
  moreover obtain r' response2 server' s4 where
      "tSend t request response1 launchWaitMs deadline None None s3 = Some (r', response2, server', s4)"
    using sends [of request response1 launchWaitMs None None s3] by auto
  ultimately show ?thesis
    using replays by (simp add: SendRequest_def send_launched_def time Let_def deadline_def [symmetric])
qed

subsection \<open>What the program prints\<close>

definition reported :: "outcome \<Rightarrow> bool" where
  "reported o' \<longleftrightarrow> (if ouCode o' = 0 then ouStderr o' = [] else ouStdout o' = [] \<and> ouStderr o' \<noteq> [])"

lemma L_nonempty [simp]: "L s = [] \<longleftrightarrow> s = []"
  by (simp add: L_def)

lemma LocalError_nonempty: "message \<noteq> [] \<Longrightarrow> LocalError json code message \<noteq> []"
  by (simp add: LocalError_def AppendJsonString_def)

lemma exit_value_zero [simp]: "exit_value c = 0 \<longleftrightarrow> c = ExitSuccess"
  by (cases c) auto

lemma report_reported: "code \<noteq> ExitSuccess \<Longrightarrow> message \<noteq> [] \<Longrightarrow> reported (report json code message)"
  by (simp add: reported_def report_def LocalError_nonempty)

lemma print_result_reported: "reported (print_result json result response)"
proof (cases result)
  case SendComplete
  then show ?thesis
    by (cases "Body response = [] \<and> Code response \<noteq> ExitSuccess")
      (auto simp: print_result_def print_response_def report_reported, auto simp: reported_def Let_def)
qed (simp_all add: print_result_def report_reported)

lemma message_nonempty:
  "run_token spec inputs c st = Inl message \<Longrightarrow> message \<noteq> []"
  by (cases c) (auto simp: flag_callback_def option_callback_def positional_callback_def select_def fail_def
      split: if_splits option.splits sum.splits list.splits)

lemma run_tokens_message: "run_tokens spec inputs ts st = Inl message \<Longrightarrow> message \<noteq> []"
  by (induction ts arbitrary: st) (auto dest: message_nonempty split: sum.splits)

lemma finish_message: "finish_request spec st = Inl message \<Longrightarrow> message \<noteq> []"
  by (auto simp: finish_request_def choose_target_def check_target_def append_alias_def fail_def
      split: sum.splits if_splits option.splits list.splits)

lemma ParseWithCli_message: "ParseWithCli lower cli spec argv = Some (Inl message) \<Longrightarrow> message \<noteq> []"
  by (auto simp: ParseWithCli_def dest: run_tokens_message finish_message split: prod.splits option.splits sum.splits)

lemma refused_line:
  "z = Inl message \<and> message \<noteq> [] \<or> (\<exists>r. z = Inr r) \<Longrightarrow>
   \<not> prSend (case z of Inl message \<Rightarrow> ParseError 3 message
      | Inr r \<Rightarrow> \<lparr>prSend = True, prRequest = r, prExitCode = 0, prMessage = []\<rparr>) \<Longrightarrow>
   prExitCode (case z of Inl message \<Rightarrow> ParseError 3 message
      | Inr r \<Rightarrow> \<lparr>prSend = True, prRequest = r, prExitCode = 0, prMessage = []\<rparr>) = 3 \<and>
   prMessage (case z of Inl message \<Rightarrow> ParseError 3 message
      | Inr r \<Rightarrow> \<lparr>prSend = True, prRequest = r, prExitCode = 0, prMessage = []\<rparr>) \<noteq> []"
  by (auto simp: ParseError_def)

lemma ParseCommandLine_message:
  assumes parsed: "ParseCommandLine lower cli argv = Some p" and "\<not> prSend p"
  shows "prExitCode p = 0 \<or> prExitCode p = 3 \<and> prMessage p \<noteq> []"
proof (cases "\<exists>spec z. ParseWithCli lower cli spec argv = Some z \<and> p = (case z of Inl message \<Rightarrow> ParseError 3 message
      | Inr r \<Rightarrow> \<lparr>prSend = True, prRequest = r, prExitCode = 0, prMessage = []\<rparr>)")
  case True
  then obtain spec z where z: "ParseWithCli lower cli spec argv = Some z"
    and p: "p = (case z of Inl message \<Rightarrow> ParseError 3 message
      | Inr r \<Rightarrow> \<lparr>prSend = True, prRequest = r, prExitCode = 0, prMessage = []\<rparr>)" by blast
  have "\<exists>message. z = Inl message \<and> message \<noteq> [] \<or> (\<exists>r. z = Inr r)"
    using z ParseWithCli_message by (cases z) auto
  then show ?thesis using refused_line assms(2) unfolding p by blast
next
  case False
  then have "p \<in> {ParseError 0 HelpText} \<or> (\<exists>message. message \<noteq> [] \<and> p = ParseError 3 message)"
    using parsed
    by (auto simp: ParseCommandLine_def Let_def split: if_splits option.splits; blast)
  then show ?thesis by (auto simp: ParseError_def)
qed

lemma Run_reported:
  assumes "ParseCommandLine lower cli argv = Some parsed" and "Run t parsed correlationId json s = Some (o', s')"
  shows "reported o'"
proof (cases "prSend parsed")
  case True
  then show ?thesis using assms(2) print_result_reported by (auto simp: Run_def Let_def bind_eq_Some_conv)
next
  case False
  then show ?thesis
    using assms(2) ParseCommandLine_message [OF assms(1) False] by (auto simp: Run_def reported_def LocalError_nonempty)
qed

subsection \<open>A sample system\<close>

text \<open>
  One server that answers with \<open>sample_response\<close>; the clock starts at a second and stops at a thousand.
\<close>

definition sample_peer :: peer where
  "sample_peer = \<lparr>peProcessId = Some 77, peOpened = True, peTrusted = True, peCreationTime = Some 5, peExited = False\<rparr>"

definition sample_os :: os where
  "sample_os i = \<lparr>stop_polled = False, ticks = 1000, reply = Started 7\<rparr>"

definition sample_endpoint :: endpoint where
  "sample_endpoint = \<lparr>epPeer = sample_peer, epExpectedAlive = True, epOs = sample_os, epEvents = (\<lambda>i. True),
     epIncoming = response_wire sample_response\<rparr>"

definition sample_clock :: "nat \<Rightarrow> u64" where
  "sample_clock n = (if n < 1000 then 1000 + of_nat n else 1000000)"

definition sample_system :: "system" where
  "sample_system = \<lparr>clock = sample_clock,
     opens = (\<lambda>n name. if name = L ''p.2'' then Opened sample_endpoint else OpenFailed ERROR_FILE_NOT_FOUND),
     timerCreated = (\<lambda>n. True), timerSet = (\<lambda>n due. True), wakes = (\<lambda>n. WakeTimer),
     packageFamily = (\<lambda>n. None), executes = (\<lambda>n target. True)\<rparr>"

definition sample_world :: client_world where
  "sample_world = \<lparr>cwCounter = 0, cwExchanges = [], cwLaunches = 0\<rparr>"

lemma sample_clock_bounds: "0 < sample_clock n \<and> sample_clock n < 2 ^ 63"
proof (cases "n < 1000")
  case True
  then have "unat (1000 + of_nat n :: u64) = 1000 + n" by (simp add: unat_word_ariths unat_of_nat)
  then show ?thesis using True by (simp add: sample_clock_def word_less_nat_alt)
qed (simp add: sample_clock_def)

lemma WriteExact_incoming:
  "WriteExact c n buffer p = (status, p') \<Longrightarrow> length buffer = unat n \<Longrightarrow> incoming p' = incoming p"
  by (auto simp: WriteExact_def TransferExact_def split: prod.splits if_splits dest!: transfer_write)

lemma WriteRequest_incoming:
  assumes "WriteRequest c r p = (status, p')"
  shows "incoming p' = incoming p"
proof (cases "IsRequestValid r")
  case True
  let ?header = "request_image (request_header_of r (byte_count (Payload r)))"
  obtain status1 p1 where first: "WriteExact c 40 ?header p = (status1, p1)" by fastforce
  then have "incoming p1 = incoming p" by (rule WriteExact_incoming) (simp add: request_codec.image_size)
  then show ?thesis
    using assms first True unat_byte_count [OF valid_request_bounded [OF True]]
    by (auto simp: WriteRequest_def valid_request_header split: if_splits dest: WriteExact_incoming)
qed (use assms in \<open>auto simp: WriteRequest_def split: option.splits\<close>)

lemma sample_exchange: "\<exists>p. exchange sample_endpoint 43003 sample_request empty_response = (AttComplete, sample_response, p)"
proof -
  let ?c = "\<lparr>ctx_os = sample_os, ctx_events = (\<lambda>i. True), ctx_stopEvent = False, ctx_deadline = 43003\<rparr>"
  let ?p = "\<lparr>incoming = response_wire sample_response, outgoing = [], attempts = 0\<rparr>"
  have c: "responsive ?c" by (simp add: responsive_def sample_os_def RemainingWait_def)
  obtain p1 where w: "WriteRequest ?c sample_request ?p = (IoSuccess, p1)"
    using WriteRequest_responsive [OF c sample_request_valid, of ?p] by (metis prod.collapse)
  have wire: "incoming p1 = response_wire sample_response @ []" using WriteRequest_incoming [OF w] by simp
  obtain status r p2 where r: "ReadResponse ?c empty_response p1 = (status, r, p2)"
    by (cases "ReadResponse ?c empty_response p1") auto
  have "length (Body sample_response) \<le> 32768" "\<not> EmptyId (ResponseId sample_response)"
    by (simp_all add: sample_response_def EmptyId_def)
  from ReadResponse_complete [OF this wire r] c have "status = IoSuccess" "r = sample_response" by auto
  then show ?thesis using w r
    by (simp add: exchange_def sample_endpoint_def Let_def) (simp add: sample_response_def sample_request_def)
qed

lemma sample_sends:
  "\<exists>p. SendRequest (win32_transport sample_system (Some (L ''p''))) sample_request empty_response 250 10000 55000 sample_world =
    Some (SendComplete, sample_response, \<lparr>cwCounter = 5, cwExchanges = [(\<lparr>ProcessId = 77, CreationTime = 5\<rparr>, p)], cwLaunches = 0\<rparr>)"
proof -
  obtain p where p: "exchange sample_endpoint 43003 sample_request empty_response = (AttComplete, sample_response, p)"
    using sample_exchange by auto
  have order: "instance_order sample_request = [2, 3, 0, 1]" by code_simp
  have name: "PipeInstanceName (L ''p'') 2 = L ''p.2''" by code_simp
  have peer: "CaptureServerIdentity (epPeer sample_endpoint) = Some \<lparr>ProcessId = 77, CreationTime = 5\<rparr>"
    by (simp add: CaptureServerIdentity_def sample_endpoint_def sample_peer_def)
  have opened: "opens sample_system n (L ''p.2'') = Opened sample_endpoint" for n by (simp add: sample_system_def)
  have clock: "clock sample_system = sample_clock" by (simp add: sample_system_def)
  show ?thesis
    using sample_request_valid
    by (simp add: SendRequest_def win32_transport_def TrySendOnce_def now_def clock sample_world_def Let_def)
      (subst try_loop.simps, simp add: order try_endpoint_def name opened peer now_def clock sample_clock_def
        DeadlineAfter_def asked_def c_pipeExchangeTimeoutMs_def Let_def RemainingWait_def p)
qed

subsection \<open>Properties\<close>

text \<open>
  C13. A request goes to one server. Whatever pipes, processes and clocks do, all conversations of one request are with the
  same server process (its number and its creation time), there are at most three of them, and each carried nothing but a
  prefix of this request and its acknowledgement. Nothing was sent exactly when the client reports an invalid request or
  an unavailable server, so that its user may try again; and a complete result is an answer to this request, all of
  which was written. The application is started at most once, and never to answer a status request.
\<close>

theorem client_one_server:
  assumes "SendRequest (win32_transport sys pipeName) request response initialWaitMs launchWaitMs overallTimeoutMs w =
    Some (result, response', w')"
  shows "\<exists>xs. cwExchanges w' = cwExchanges w @ xs \<and> length xs \<le> 3 \<and>
    (\<forall>x \<in> set xs. fst x = fst (hd xs) \<and>
       prefix (outgoing (snd x)) (request_wire request @ acknowledgement_wire (RequestId request))) \<and>
    (result \<in> {SendInvalidRequest, SendUnavailable} \<longleftrightarrow> xs = []) \<and>
    (result = SendComplete \<longrightarrow> ResponseId response' = RequestId request \<and>
       prefix (request_wire request) (outgoing (snd (last xs)))) \<and>
    cwLaunches w' \<le> Suc (cwLaunches w) \<and> (Command request = CmdStatus \<longrightarrow> cwLaunches w' = cwLaunches w)"
  using win32.SendRequest_one_server [OF assms]
  unfolding win32.one_server_def carries_request_def answers_request_def by blast

theorem client_one_server_witness:
  "\<exists>p. SendRequest (win32_transport sample_system (Some (L ''p''))) sample_request empty_response 250 10000 55000 sample_world =
      Some (SendComplete, sample_response, \<lparr>cwCounter = 5, cwExchanges = [(\<lparr>ProcessId = 77, CreationTime = 5\<rparr>, p)], cwLaunches = 0\<rparr>) \<and>
    prefix (request_wire sample_request) (outgoing p) \<and> ResponseId sample_response = RequestId sample_request"
proof -
  obtain p where p: "SendRequest (win32_transport sample_system (Some (L ''p''))) sample_request empty_response 250 10000 55000 sample_world =
      Some (SendComplete, sample_response, \<lparr>cwCounter = 5, cwExchanges = [(\<lparr>ProcessId = 77, CreationTime = 5\<rparr>, p)], cwLaunches = 0\<rparr>)"
    using sample_sends by blast
  from client_one_server [OF p] have "prefix (request_wire sample_request) (outgoing p)"
      "ResponseId sample_response = RequestId sample_request"
    by (auto simp: sample_world_def)
  with p show ?thesis by blast
qed

text \<open>
  C29. The client returns. If the clock is not at the ends of its range and passes the deadline of the whole request at
  last, then sending it ends, however the endpoints, timers, transfers and launches turn out.
\<close>

theorem client_returns:
  assumes "\<forall>n. 0 < clock sys n \<and> clock sys n < 2 ^ 63"
    and "\<exists>N. \<forall>n \<ge> N. DeadlineAfter (clock sys (cwCounter w)) (max 1 overallTimeoutMs) \<le> clock sys n"
  shows "SendRequest (win32_transport sys pipeName) request response initialWaitMs launchWaitMs overallTimeoutMs w \<noteq> None"
proof -
  let ?deadline = "DeadlineAfter (clock sys (cwCounter w)) (max 1 overallTimeoutMs)"
  obtain N where N: "\<forall>n \<ge> N. ?deadline \<le> clock sys n" using assms(2) by blast
  have "?deadline \<noteq> 0" using assms(1) by (intro deadline_after_nonzero) auto
  then have sends: "\<exists>result. TrySendOnce sys pipeName request response waitMs ?deadline observed expected w' = Some result"
    for request response waitMs observed expected w'
    using assms(1) N by (intro TrySendOnce_returns) (auto simp: sane_clock_def)
  have "\<exists>result. SendRequest (win32_transport sys pipeName) request response initialWaitMs launchWaitMs overallTimeoutMs w = Some result"
    by (rule SendRequest_returns) (simp add: win32_transport_def now_def sends del: split_paired_Ex)
  then show ?thesis by auto
qed

theorem client_returns_witness:
  "SendRequest (win32_transport sample_system None) sample_request empty_response 250 10000 55000 sample_world \<noteq> None"
proof (rule client_returns)
  show "\<forall>n. 0 < clock sample_system n \<and> clock sample_system n < 2 ^ 63"
    using sample_clock_bounds by (simp add: sample_system_def)
  show "\<exists>N. \<forall>n \<ge> N. DeadlineAfter (clock sample_system (cwCounter sample_world)) (max 1 55000) \<le> clock sample_system n"
    by (rule exI [of _ 1000]) (simp add: sample_system_def sample_clock_def sample_world_def DeadlineAfter_def)
qed

text \<open>
  What a run of the program reports is consistent: with exit code 0 nothing is written to the error stream, and with
  any other code nothing is written to the output and something to the error stream, for a line that is refused, a request
  that could not be sent or confirmed, and every answer of a server.
\<close>

theorem run_reports:
  assumes "ParseCommandLine lower cli argv = Some parsed" and "Run t parsed correlationId json s = Some (outcome, s')"
  shows "if ouCode outcome = 0 then ouStderr outcome = [] else ouStdout outcome = [] \<and> ouStderr outcome \<noteq> []"
  using Run_reported [OF assms] unfolding reported_def .

theorem run_reports_witness:
  "case Run (win32_transport sample_system None) sample_parsed \<lparr>High = 1, Low = 2\<rparr> False sample_world of
     None \<Rightarrow> False
   | Some (outcome, w) \<Rightarrow> ouCode outcome = 7 \<and> ouStdout outcome = [] \<and> ouStderr outcome \<noteq> []"
proof -
  let ?unavailable = "report True ExitUnavailable (L ''AudioPlaybackConnector2 is not running or did not accept the command.'' @ [NL])"
  have valid: "IsRequestValid ((prRequest sample_parsed)\<lparr>RequestId := \<lparr>High = 1, Low = 2\<rparr>\<rparr>)" by code_simp
  have run: "\<exists>w. Run (win32_transport sample_system None) sample_parsed \<lparr>High = 1, Low = 2\<rparr> False sample_world =
      Some (?unavailable, w)"
    using valid
    by (simp add: Run_def SendRequest_def sample_parsed_def win32_transport_def TrySendOnce_def LaunchPackagedApp_def
        print_result_def Let_def CommandFlagJson_def sample_system_def now_def)
  then obtain w where w: "Run (win32_transport sample_system None) sample_parsed \<lparr>High = 1, Low = 2\<rparr> False sample_world =
      Some (?unavailable, w)" by blast
  from run_reports [OF sample_line_parsed w] show ?thesis by (simp add: w report_def)
qed

end
