(* ===== verification/Spec2Isabelle.thy ===== *)
theory Spec2Isabelle
  imports Service_Connect Command_Claims Target_Matcher Adapter_Claims Store_Claims Server_Claims Client_Claims
begin

section \<open>A verification development for AudioPlaybackConnector2\<close>

text \<open>
  \<^bold>\<open>The program.\<close> AudioPlaybackConnector2 is a Windows tray application that lets the computer play the audio of
  Bluetooth devices. All paths below are under \<open>src/AudioPlaybackConnector2/\<close>.

  \<^item> The device side (\<open>src/core/\<close>): a \<open>DeviceService\<close> owns one \<open>DeviceSession\<close> per device, a \<open>DeviceWatcher\<close> with
    the inventory of devices, and the completions that callers wait on. A session owns the native connection, opens
    and closes it, and retries by \<open>ReconnectPolicy\<close>. The service runs one task at a time and publishes facts.
  \<^item> The settings side (\<open>src/core/\<close>): \<open>SettingsStore\<close> owns the settings, applies mutations, publishes snapshots to
    subscribers and has one worker that writes the file; \<open>SettingsCodec\<close> is the file format.
  \<^item> The command side (\<open>src/control/\<close>, \<open>src/services/\<close>): the program \<open>apc2ctl\<close> parses a command line (\<open>CliParser\<close>),
    sends a request over a named pipe (\<open>CommandClient\<close>, \<open>Win32CommandTransport\<close>, \<open>CommandPipeIo\<close>,
    \<open>CommandProtocol\<close>) to the running application, whose \<open>CommandLineControlServer\<close> executes each request once and
    hands it to \<open>ControlCommandAdapter\<close>, which calls the application controller and formats its result.

  The development models these three sides: the states, all operations that change them, and the values that cross the
  boundaries. The application controller between them, the user interface and the calls into Windows are not modelled.

  \<^bold>\<open>Conventions.\<close> \<open>Prelude\<close> has the shared types: \<open>wchar\<close> is a 16-bit code unit and \<open>wstring\<close> a list of them, fixed-width
  integers are words wherever they may wrap around (epochs, generations, revisions, byte counts of the wire, counters of
  the cache), pointers are words with 0 for null or positions on an explicit heap. Exceptions and early returns are values of
  \<open>option\<close> or a sum. A component with a life of its own is a machine: a record of its state, a datatype of events, a step
  function and an \<open>enabled\<close> predicate for what the environment may do next; the locale \<open>machine\<close> of \<open>Prelude\<close> proves once
  that a predicate which holds initially and is kept by every enabled step holds in every reachable state, and every machine
  below is an interpretation of it. A state often carries a trace of what it did to its environment; no step reads it.
\<close>

subsection \<open>Theories and what they model\<close>

text \<open>
  \<^bold>\<open>Device side.\<close>

  \<^item> \<open>Reconnect_Policy\<close>: \<open>core/ReconnectPolicy\<close>, the pure decision and the back-off loop, with its closed form and bounds.
  \<^item> \<open>Device_Session\<close>: \<open>core/DeviceSession.cpp\<close>. The record \<open>session\<close> is \<open>DeviceSession::State\<close> field by field; each method is a
    function on it; \<open>session_step\<close> runs one public operation or one posted callback. Calls that can fail take the next
    answer of an arbitrary sequence \<open>Replies\<close>; calls on the platform go to a trace. Private methods that call each other are
    unrolled to three levels; the fourth would set \<open>Exhausted\<close>, which never happens (C38).
  \<^item> \<open>Session_Invariant\<close>: the invariant \<open>session_inv\<close> (who owns a connection, what a suspension, a close in flight and each
    life-cycle state imply) and its preservation; the locale \<open>restart\<close> is what the restarting method must satisfy, interpreted on
    the unrolled dispatcher (\<open>go\<close>) and used for every method once. \<open>Session_Properties\<close>: the bound on nesting. \<open>Session_Ownership\<close>:
    the locale \<open>trace_law\<close>, what a predicate on traces must survive, interpreted on "every connection is released once and
    only called while alive" (\<open>owned\<close>) and on the bounds of timers (\<open>delays\<close>). \<open>Session_Claims\<close>, \<open>Session_Calm\<close>,
    \<open>Session_Frame\<close>: the contract of a session, what cancelling a reconnect means, and what operations leave alone.
  \<^item> \<open>Device_Watcher\<close>: \<open>core/DeviceWatcher.cpp\<close>, the inventory, its generations, and a refresh as two halves.
  \<^item> \<open>Device_Service\<close>: \<open>core/DeviceService.cpp\<close>, one function per task. \<open>run_session\<close> delivers the facts of a session in the
    order they occurred inside the operation. \<open>Service_Laws\<close>: the locales \<open>service_frame\<close>, \<open>service_tasks\<close> and \<open>service_law\<close>,
    which go through all tasks once; \<open>Service_Invariant\<close>, \<open>Service_Completions\<close>, \<open>Service_Policy\<close>: the invariants as
    interpretations of them (sessions and recovery, completions, flags and policy), joined by \<open>service_invariant\<close>.
    \<open>Service_Claims\<close> and \<open>Service_Connect\<close>: the contract, and the path of a successful connect to its waiter.

  \<^bold>\<open>Settings side.\<close>

  \<^item> \<open>Settings_Model\<close>: \<open>core/SettingsLimits.hpp\<close>, \<open>DeviceId.hpp\<close>, \<open>SettingsData.hpp\<close> and \<open>IsPersistable\<close>.
  \<^item> \<open>Settings_Codec\<close>: \<open>core/SettingsCodec.cpp\<close>: parsing with the checks of its callback, the strict decoder, the migration of the
    unversioned format of 0.9.1, the encoder. \<open>Settings_Claims\<close>: the round trip (C34) and the migration (C35).
  \<^item> \<open>Settings_Mutations\<close>: the argument check and the lambda of every setter of \<open>core/SettingsStore.cpp\<close>, and C36.
  \<^item> \<open>Settings_Store\<close>: the rest of \<open>SettingsStore.cpp\<close>. A thread between two critical sections is a program counter with the local
    variables it carries; a step is one critical section or one call outside the locks, so the interleavings of threads
    are the sequences of steps. \<open>Store_Invariant\<close>, \<open>Store_Flow\<close>, \<open>Store_Publications\<close>: the invariants of data and file, of
    wake-ups, flushes and shutdown, and of publications. \<open>Store_Claims\<close>: what they say (C17 to C20).

  \<^bold>\<open>Command side.\<close>

  \<^item> \<open>Command_Protocol\<close>: \<open>control/CommandProtocol.hpp\<close>: values, validation, and the memory image of the wire structures; the locale
    \<open>codec\<close> is the contract of an image, interpreted on the three structures. \<open>Command_Pipe\<close>: \<open>control/CommandPipeIo.cpp\<close>, deadlines
    and exact transfers. \<open>Command_Claims\<close>: the locale \<open>wire_codec\<close> and the round trips over a pipe.
  \<^item> \<open>App_Models\<close>, \<open>Target_Matcher\<close>, \<open>Control_Adapter\<close>, \<open>Adapter_Claims\<close>: \<open>app/AppModels.hpp\<close>, \<open>util/Text.hpp\<close>,
    \<open>control/ControlTargetMatcher.hpp\<close>, \<open>ControlUiActionGate.hpp\<close> and \<open>ControlCommandAdapter.cpp\<close>: the match of a text with the
    devices, every response and its privacy, and overlapping calls of \<open>Handle\<close> (C31 to C33).
  \<^item> \<open>Request_Cache\<close>, \<open>Control_Server\<close>: \<open>services/CommandLineControlServer.cpp\<close>: the cache of executed requests, and the machine of pipe
    instances, handler callbacks, start, re-arming and stop. \<open>Cache_Laws\<close>, \<open>Server_Flow\<close>, \<open>Server_Slots\<close>,
    \<open>Server_Invariant\<close>, \<open>Server_Machine\<close>: from the laws of the cache to the invariant of the server and the interpretation
    \<open>control_server\<close>. \<open>Server_Retention\<close>: when a record may go. \<open>Server_Stop\<close>: a measure that shows that stopping ends (the
    interpretation \<open>stopping\<close>). \<open>Server_Claims\<close>: C4 to C12.
  \<^item> \<open>Cli_Parser\<close>, \<open>Cli_Claims\<close>: \<open>control/CliParser.cpp\<close> (C26 to C28). \<open>Command_Client\<close>, \<open>Client_Claims\<close>:
    \<open>control/CommandClient.cpp\<close>, \<open>Win32CommandTransport.cpp\<close> and \<open>Run\<close> of the program's \<open>main.cpp\<close>; the locale
    \<open>transport_law\<close> is what the client may rely on, the interpretation \<open>win32\<close> proves it for the pipe transport (C13, C29).
\<close>

subsection \<open>What is proved\<close>

text \<open>
  \<^item> A session owns at most one connection, releases each exactly once, never waits without a live wake-up, and is inert after
    shutdown (C1 to C3, C30); its methods never nest too deep (C38).
  \<^item> The service keeps its sessions apart and sound, applies the policy to each, gives every waiter one final answer, reports a
    successful connect, and on suspension stops the watcher and releases every connection (C14 to C16, C21 to C23); a stale
    inventory refresh is discarded (C39).
  \<^item> The server runs a request once whatever the retries, answers only with the recorded response, drops a record only when
    nobody needs it, keeps its counters and limits exact, never loses a pipe instance, and stops (C4 to C12). The client speaks to one
    server only and returns (C13, C29).
  \<^item> Wire messages round trip over arbitrarily split transfers and nothing else is accepted (C24, C25). A command line round trips, the
    two readers of its JSON flag agree, and it is stated exactly which requests of the parser are valid (C26 to C28).
  \<^item> Responses hide devices in privacy mode, report success only for a success, and at most one command that changes
    anything runs at a time (C31 to C33); the matcher returns the best rank (C37).
  \<^item> The file always holds one whole committed revision and never goes back, a change is written, a shutdown that reports success
    has written everything, publications are ordered (C17 to C20). Settings round trip exactly when the rating prompt is
    well-formed, unversioned files migrate, and setters keep settings persistable (C34 to C36).

  \<^bold>\<open>Defects found.\<close> Cancelling a reconnect while the connection of a transiently failed open cools down leaves the session
  disconnecting until a disconnect, removal, suspension or shutdown (C40). The removal of a device during an abandoned close
  publishes a life cycle that suggests an active close (\<open>DeviceSession.cpp\<close>, \<open>HandleDeviceRemoved\<close>). The encoder and the setters do
  not check the dates and the count of the rating prompt, the decoder does (C34, C36). The parser sends an alias request whose
  texts hold line breaks although the protocol refuses it (C26). \<open>Load\<close> publishes migrated settings as clean although their rewrite is
  pending. A comment of \<open>ControlCommandAdapter.cpp\<close> says that selectors are checked more strictly than payloads; the rules
  are the same, and the branch for a valid request without a selector is never taken.
\<close>

subsection \<open>Parameters, abstractions and bounds\<close>

text \<open>
  \<^bold>\<open>Parameters\<close> stand for code that is not in the repository, as arguments of the definitions that use them: the answers of the
  Bluetooth, timer and watcher platform (\<open>Replies\<close>), of \<open>ReadFile\<close> and \<open>WriteFile\<close> (\<open>os\<close>), of the file system (\<open>write_os\<close> and the
  read answers), of the system inside a server step, and of the client's \<open>system\<close> (pipes, peers, trust, clocks, launch); the JSON
  library (\<open>json_lib\<close>) and the conversions between UTF-8 and UTF-16; \<open>towlower\<close> (\<open>lower\<close>); the localised resources and the
  text of a JSON value; the CLI11 library (\<open>cli\<close>); the application controller; \<open>sizeof\<close> of the records the cache accounts for. What a
  statement needs of a parameter is a named hypothesis (\<open>reads_back\<close>, \<open>faithful_on\<close>, \<open>in_order\<close>, \<open>accepting\<close>, \<open>plain_lower\<close>), and
  its witness gives an instance.

  \<^bold>\<open>Abstractions.\<close> Tasks of the device service are atomic and run in the order they are posted, as its queue runs them. In the store a
  wait is a step that is enabled when its predicate holds, the wake-up version is the number of notifications as a 64-bit word, and
  mutations are those whose dates are calendar days, which their callers guarantee (C36 says what happens otherwise). In the
  server a step is one critical section together with the section of the request mutex nested in it, \<open>m_running\<close> is read once per
  step, a step sees one tick count, the deadline timer appears as a failed completion, and a completion always carries the
  instance's own \<open>OVERLAPPED\<close>. In the client \<open>cwExchanges\<close> is a history of the conversations that the code does not keep.
  The heap never runs out, except where an allocation is an explicit answer.

  \<^bold>\<open>Bounds.\<close> No definition needs fuel except the unrolled private methods of a session, whose bound is never hit (C38). Every other
  loop has a termination measure: the bytes left of a transfer, a file read or write, the arguments left of a command line, the
  records left in the cache, the text left of a replacement. Only the client's retry loop may go on for ever, with a clock that stands
  still; it is \<open>partial_function (option)\<close>, and C29 shows that it returns once the clock passes the deadline.
\<close>

subsection \<open>What is not modelled\<close>

text \<open>
  \<^item> \<open>AppController\<close>, \<open>AppControllerUseCases\<close>, \<open>ApplicationHost\<close>: the wiring of the parts above, mostly calls into WinRT, the user
    interface and thread pools; the adapter takes the controller as a function.
  \<^item> \<open>CommandPipeSecurity\<close>, \<open>PipeSecurityAttributes\<close>: access control lists and package identities of Windows; their verdicts are
    answers of the client's and the server's system.
  \<^item> The adaptive resource policy, pressure monitors, power transition coordinator, startup task coordinator, refresh
    scheduling, dispatcher, publication fence, rating prompt policy and single instance guard of \<open>src/app/\<close>: small helpers of the
    application shell, independent of the three sides; they are left for later.
  \<^item> Tray, notifications, windows and views, string resources, themes, diagnostics, crash reports, logging: presentation and
    system calls.
  \<^item> In modelled files: the WinRT adapters in \<open>DeviceSession.cpp\<close> and \<open>DeviceWatcher.cpp\<close>, the queue and the blocking wait of
    \<open>DeviceService\<close>, \<open>PipeName\<close>, the choice of the settings path and the move of a corrupt file, console output, and tracing.
\<close>

end
